(* ===== verification/Muxa_Prelude.thy ===== *)
theory Muxa_Prelude
  imports Main "HOL-Library.Word" "HOL-Library.Char_ord" "HOL-Library.List_Lexorder"
begin

text \<open>
  Shared vocabulary of the development: machine integers, Rust's string operations on UTF-8
  byte strings, saturating arithmetic, and hash maps as association lists.

  A Rust \<open>str\<close> is a sequence of UTF-8 bytes, and so is a HOL \<open>string\<close>: one
  \<open>char\<close> is one byte. \<open>length\<close> is therefore Rust's \<open>len()\<close>. Operations that look at
  characters (\<open>chars\<close>, \<open>trim\<close>, \<open>char::is_control\<close>) go through \<open>utf8_chars\<close>, which cuts
  the bytes into the encodings of the single characters.
\<close>

named_theorems str_iff \<open>characterisations of the string operations\<close>

type_synonym u8 = "8 word"
type_synonym u16 = "16 word"
type_synonym u32 = "32 word"
type_synonym u64 = "64 word"
type_synonym i64 = "64 word"
type_synonym usize = "64 word"

section \<open>Slices: prefixes, suffixes, substrings\<close>

fun strip_prefix :: "'a list \<Rightarrow> 'a list \<Rightarrow> 'a list option" where
  "strip_prefix [] s = Some s"
| "strip_prefix (p # ps) [] = None"
| "strip_prefix (p # ps) (c # s) = (if p = c then strip_prefix ps s else None)"

definition starts_with :: "'a list \<Rightarrow> 'a list \<Rightarrow> bool" where
  "starts_with p s = (strip_prefix p s \<noteq> None)"

definition strip_suffix :: "'a list \<Rightarrow> 'a list \<Rightarrow> 'a list option" where
  "strip_suffix p s = map_option rev (strip_prefix (rev p) (rev s))"

fun contains_sub :: "'a list \<Rightarrow> 'a list \<Rightarrow> bool" where
  "contains_sub p [] = (p = [])"
| "contains_sub p (c # s) = (starts_with p (c # s) \<or> contains_sub p s)"

lemma strip_prefix_Some [str_iff]: "strip_prefix p s = Some r \<longleftrightarrow> s = p @ r"
  by (induction p s rule: strip_prefix.induct) auto

lemma strip_prefix_append [simp]: "strip_prefix p (p @ r) = Some r"
  by (simp add: strip_prefix_Some)

lemma strip_prefix_None [str_iff]: "strip_prefix p s = None \<longleftrightarrow> (\<forall>r. s \<noteq> p @ r)"
  by (metis not_Some_eq strip_prefix_Some)

lemma starts_with_iff [str_iff]: "starts_with p s \<longleftrightarrow> (\<exists>r. s = p @ r)"
  by (auto simp: starts_with_def strip_prefix_Some)

lemma starts_with_Nil [simp]: "starts_with [] s"
  by (simp add: starts_with_def)

lemma starts_with_Cons [simp]:
  "starts_with (p # ps) (c # s) \<longleftrightarrow> p = c \<and> starts_with ps s"
  "\<not> starts_with (p # ps) []"
  by (auto simp: starts_with_def)

lemma starts_with_append [simp]: "starts_with p (p @ s)"
  by (auto simp: starts_with_iff)

lemma strip_suffix_Some [str_iff]: "strip_suffix p s = Some r \<longleftrightarrow> s = r @ p"
proof -
  have "strip_suffix p s = Some r \<longleftrightarrow> strip_prefix (rev p) (rev s) = Some (rev r)"
    by (auto simp: strip_suffix_def)
  also have "\<dots> \<longleftrightarrow> rev s = rev (r @ p)"
    by (simp add: strip_prefix_Some)
  finally show ?thesis by (simp del: rev_append)
qed

lemma contains_sub_iff [str_iff]: "contains_sub p s \<longleftrightarrow> (\<exists>a b. s = a @ p @ b)"
proof (induction p s rule: contains_sub.induct)
  case (1 p)
  show ?case by auto
next
  case (2 p c s)
  show ?case
  proof
    assume "contains_sub p (c # s)"
    then show "\<exists>a b. c # s = a @ p @ b"
    proof (cases "starts_with p (c # s)")
      case True
      then show ?thesis by (force simp: starts_with_iff)
    next
      case False
      with \<open>contains_sub p (c # s)\<close> 2 obtain a b where "s = a @ p @ b" by auto
      then have "c # s = (c # a) @ p @ b" by simp
      then show ?thesis by blast
    qed
  next
    assume "\<exists>a b. c # s = a @ p @ b"
    then obtain a b where ab: "c # s = a @ p @ b" by blast
    show "contains_sub p (c # s)"
    proof (cases a)
      case Nil
      with ab have "starts_with p (c # s)" by (simp add: starts_with_iff)
      then show ?thesis by simp
    next
      case (Cons x a')
      with ab have "s = a' @ p @ b" by simp
      with 2 show ?thesis by auto
    qed
  qed
qed

lemma contains_sub_singleton [simp]: "contains_sub [c] s \<longleftrightarrow> c \<in> set s"
  by (induction s) (auto simp: starts_with_def)

lemma contains_sub_append:
  "contains_sub p s \<Longrightarrow> contains_sub p (a @ s @ b)"
  by (metis append.assoc contains_sub_iff)

section \<open>Trimming and splitting\<close>

definition trim_end_matches :: "'a \<Rightarrow> 'a list \<Rightarrow> 'a list" where
  "trim_end_matches c s = rev (dropWhile (\<lambda>x. x = c) (rev s))"

definition trim_start_matches :: "'a \<Rightarrow> 'a list \<Rightarrow> 'a list" where
  "trim_start_matches c s = dropWhile (\<lambda>x. x = c) s"

definition trim_matches :: "'a \<Rightarrow> 'a list \<Rightarrow> 'a list" where
  "trim_matches c s = trim_end_matches c (trim_start_matches c s)"

definition split_once :: "'a \<Rightarrow> 'a list \<Rightarrow> ('a list \<times> 'a list) option" where
  "split_once c s =
     (case dropWhile (\<lambda>x. x \<noteq> c) s of
        [] \<Rightarrow> None
      | _ # rest \<Rightarrow> Some (takeWhile (\<lambda>x. x \<noteq> c) s, rest))"

lemma trim_end_matches_last:
  "trim_end_matches c s \<noteq> [] \<Longrightarrow> last (trim_end_matches c s) \<noteq> c"
  by (metis (mono_tags, lifting) hd_dropWhile last_rev rev_is_Nil_conv trim_end_matches_def)

lemma trim_end_matches_id:
  "s = [] \<or> last s \<noteq> c \<Longrightarrow> trim_end_matches c s = s"
  by (cases s rule: rev_cases) (auto simp: trim_end_matches_def)

lemma trim_end_matches_idem [simp]:
  "trim_end_matches c (trim_end_matches c s) = trim_end_matches c s"
  using trim_end_matches_id [of "trim_end_matches c s" c] trim_end_matches_last [of c s] by blast

lemma trim_end_matches_decomp:
  "\<exists>n. s = trim_end_matches c s @ replicate n c"
proof -
  have "takeWhile (\<lambda>x. x = c) (rev s) = replicate (length (takeWhile (\<lambda>x. x = c) (rev s))) c"
    by (metis (mono_tags, lifting) replicate_eqI set_takeWhileD)
  then have "rev s = replicate (length (takeWhile (\<lambda>x. x = c) (rev s))) c
      @ dropWhile (\<lambda>x. x = c) (rev s)"
    by (metis takeWhile_dropWhile_id)
  then have "s = trim_end_matches c s
      @ replicate (length (takeWhile (\<lambda>x. x = c) (rev s))) c"
    by (metis rev_append rev_replicate rev_rev_ident trim_end_matches_def)
  then show ?thesis by blast
qed

lemma split_once_Some [str_iff]:
  "split_once c s = Some (a, b) \<longleftrightarrow> s = a @ c # b \<and> c \<notin> set a"
proof
  assume h: "split_once c s = Some (a, b)"
  then obtain x where d: "dropWhile (\<lambda>x. x \<noteq> c) s = x # b" and a: "a = takeWhile (\<lambda>x. x \<noteq> c) s"
    by (auto simp: split_once_def split: list.splits)
  have "x = c" using d hd_dropWhile [of "\<lambda>x. x \<noteq> c" s] by simp
  with d a have "s = a @ c # b" by (metis takeWhile_dropWhile_id)
  moreover have "c \<notin> set a" using a by (auto dest: set_takeWhileD)
  ultimately show "s = a @ c # b \<and> c \<notin> set a" ..
next
  assume h: "s = a @ c # b \<and> c \<notin> set a"
  then have "dropWhile (\<lambda>x. x \<noteq> c) s = c # b" and "takeWhile (\<lambda>x. x \<noteq> c) s = a"
    by (auto simp: dropWhile_append takeWhile_append)
  then show "split_once c s = Some (a, b)" by (simp add: split_once_def)
qed

lemma split_once_None [str_iff]: "split_once c s = None \<longleftrightarrow> c \<notin> set s"
proof -
  have "\<exists>p. split_once c s = Some p" if "c \<in> set s"
    using split_list_first [OF that] by (metis split_once_Some)
  moreover have "split_once c s = None" if "c \<notin> set s"
  proof -
    from that have "dropWhile (\<lambda>x. x \<noteq> c) s = []" by auto
    then show ?thesis by (simp only: split_once_def list.case)
  qed
  ultimately show ?thesis by (cases "c \<in> set s") auto
qed

section \<open>ASCII\<close>

definition byte :: "char \<Rightarrow> nat" where
  "byte c = of_char c"

definition is_ascii_lowercase :: "char \<Rightarrow> bool" where
  "is_ascii_lowercase c = (97 \<le> byte c \<and> byte c \<le> 122)"

definition is_ascii_uppercase :: "char \<Rightarrow> bool" where
  "is_ascii_uppercase c = (65 \<le> byte c \<and> byte c \<le> 90)"

definition is_ascii_digit :: "char \<Rightarrow> bool" where
  "is_ascii_digit c = (48 \<le> byte c \<and> byte c \<le> 57)"

definition is_ascii_alphanumeric :: "char \<Rightarrow> bool" where
  "is_ascii_alphanumeric c = (is_ascii_lowercase c \<or> is_ascii_uppercase c \<or> is_ascii_digit c)"

definition to_ascii_uppercase :: "char \<Rightarrow> char" where
  "to_ascii_uppercase c = (if is_ascii_lowercase c then char_of (byte c - 32) else c)"

definition to_ascii_lowercase :: "char \<Rightarrow> char" where
  "to_ascii_lowercase c = (if is_ascii_uppercase c then char_of (byte c + 32) else c)"

definition eq_ignore_ascii_case :: "string \<Rightarrow> string \<Rightarrow> bool" where
  "eq_ignore_ascii_case a b = (map to_ascii_lowercase a = map to_ascii_lowercase b)"

lemma byte_less [simp]: "byte c < 256"
  by (simp add: byte_def)

lemma byte_char_of [simp]: "n < 256 \<Longrightarrow> byte (char_of n) = n"
  by (simp add: byte_def)

lemma to_ascii_uppercase_not_lower [simp]: "\<not> is_ascii_lowercase (to_ascii_uppercase c)"
  by (auto simp: to_ascii_uppercase_def is_ascii_lowercase_def)

lemma to_ascii_uppercase_idem [simp]:
  "to_ascii_uppercase (to_ascii_uppercase c) = to_ascii_uppercase c"
  by (simp add: to_ascii_uppercase_def [of "to_ascii_uppercase c"])

lemma to_ascii_uppercase_alphanumeric:
  "is_ascii_alphanumeric c \<Longrightarrow>
     is_ascii_uppercase (to_ascii_uppercase c) \<or> is_ascii_digit (to_ascii_uppercase c)"
  by (auto simp: to_ascii_uppercase_def is_ascii_alphanumeric_def is_ascii_lowercase_def
      is_ascii_uppercase_def is_ascii_digit_def)

lemma eq_ignore_ascii_case_refl [simp]: "eq_ignore_ascii_case a a"
  by (simp add: eq_ignore_ascii_case_def)

section \<open>Characters of a UTF-8 string\<close>

text \<open>Number of bytes of the character whose first byte is \<open>b\<close>.\<close>

definition utf8_width :: "char \<Rightarrow> nat" where
  "utf8_width c = (if byte c < 128 then 1 else if byte c < 224 then 2 else if byte c < 240 then 3 else 4)"

lemma utf8_width_pos [simp]: "0 < utf8_width c"
  by (simp add: utf8_width_def)

function utf8_chars :: "string \<Rightarrow> string list" where
  "utf8_chars [] = []"
| "utf8_chars (c # s) = take (utf8_width c) (c # s) # utf8_chars (drop (utf8_width c) (c # s))"
  by pat_completeness auto
termination
  by (relation "measure length") (auto simp: Suc_diff_le)

lemma concat_utf8_chars [simp]: "concat (utf8_chars s) = s"
  by (induction s rule: utf8_chars.induct) (simp_all del: take_Cons drop_Cons)

lemma utf8_chars_ascii:
  "\<forall>c \<in> set s. byte c < 128 \<Longrightarrow> utf8_chars s = map (\<lambda>c. [c]) s"
  by (induction s) (auto simp: utf8_width_def)

lemma utf8_chars_Cons_ascii [simp]:
  "byte c < 128 \<Longrightarrow> utf8_chars (c # s) = [c] # utf8_chars s"
  by (simp add: utf8_width_def)

text \<open>
  A valid string: every character's continuation bytes are outside ASCII, and so is its first byte
  when it has any.
\<close>

definition is_str :: "string \<Rightarrow> bool" where
  "is_str s =
     list_all (\<lambda>ch. length ch = 1 \<or> list_all (\<lambda>c. 128 \<le> byte c) ch) (utf8_chars s)"

lemma is_str_Nil [simp]: "is_str []"
  by (simp add: is_str_def)

lemma is_str_ascii_char:
  assumes "is_str s" and "c \<in> set s" and "byte c < 128"
  shows "[c] \<in> set (utf8_chars s)"
proof -
  have "c \<in> set (concat (utf8_chars s))" using assms(2) by simp
  then obtain ch where ch: "ch \<in> set (utf8_chars s)" "c \<in> set ch"
    unfolding set_concat by blast
  with assms(1) have "length ch = 1 \<or> list_all (\<lambda>c. 128 \<le> byte c) ch"
    by (simp add: is_str_def list_all_iff)
  with ch(2) assms(3) have "length ch = 1" by (auto simp: list_all_iff)
  with ch(2) have "ch = [c]" by (cases ch) auto
  with ch(1) show ?thesis by simp
qed

text \<open>\<open>char::is_control\<close>: general category Cc, U+0000 to U+001F and U+007F to U+009F.\<close>

definition char_is_control :: "string \<Rightarrow> bool" where
  "char_is_control ch =
     (case map byte ch of
        [b] \<Rightarrow> b < 32 \<or> b = 127
      | [b1, b2] \<Rightarrow> b1 = 194 \<and> 128 \<le> b2 \<and> b2 < 160
      | _ \<Rightarrow> False)"

text \<open>\<open>char::is_whitespace\<close>: the Unicode property White_Space.\<close>

definition char_is_whitespace :: "string \<Rightarrow> bool" where
  "char_is_whitespace ch =
     (case map byte ch of
        [b] \<Rightarrow> b = 32 \<or> (9 \<le> b \<and> b \<le> 13)
      | [b1, b2] \<Rightarrow> b1 = 194 \<and> (b2 = 133 \<or> b2 = 160)
      | [b1, b2, b3] \<Rightarrow>
          (b1 = 225 \<and> b2 = 154 \<and> b3 = 128)
          \<or> (b1 = 226 \<and> b2 = 128 \<and> ((128 \<le> b3 \<and> b3 \<le> 138) \<or> b3 = 168 \<or> b3 = 169 \<or> b3 = 175))
          \<or> (b1 = 226 \<and> b2 = 129 \<and> b3 = 159)
          \<or> (b1 = 227 \<and> b2 = 128 \<and> b3 = 128)
      | _ \<Rightarrow> False)"

definition str_trim_end :: "string \<Rightarrow> string" where
  "str_trim_end s = concat (rev (dropWhile char_is_whitespace (rev (utf8_chars s))))"

definition str_trim :: "string \<Rightarrow> string" where
  "str_trim s = str_trim_end (concat (dropWhile char_is_whitespace (utf8_chars s)))"

lemma str_trim_end_prefix: "\<exists>r. s = str_trim_end s @ r"
proof -
  let ?cs = "utf8_chars s"
  have "rev ?cs = takeWhile char_is_whitespace (rev ?cs) @ dropWhile char_is_whitespace (rev ?cs)"
    by simp
  then have "?cs = rev (dropWhile char_is_whitespace (rev ?cs))
      @ rev (takeWhile char_is_whitespace (rev ?cs))"
    by (metis rev_append rev_rev_ident)
  then have "concat ?cs = str_trim_end s @ concat (rev (takeWhile char_is_whitespace (rev ?cs)))"
    by (metis concat_append str_trim_end_def)
  then show ?thesis by auto
qed

section \<open>Decimal numbers\<close>

definition digit_char :: "nat \<Rightarrow> char" where
  "digit_char d = char_of (48 + d)"

fun dec_string :: "nat \<Rightarrow> string" where
  "dec_string n = (if n < 10 then [digit_char n] else dec_string (n div 10) @ [digit_char (n mod 10)])"

declare dec_string.simps [simp del]

lemma dec_string_nonempty [simp]: "dec_string n \<noteq> []"
  by (subst dec_string.simps) simp

lemma dec_string_digits: "\<forall>c \<in> set (dec_string n). is_ascii_digit c"
proof (induction n rule: dec_string.induct)
  case (1 n)
  then show ?case
    by (subst dec_string.simps) (auto simp: digit_char_def is_ascii_digit_def)
qed

section \<open>Saturating integers\<close>

definition saturating_sub :: "'a::len word \<Rightarrow> 'a word \<Rightarrow> 'a word" where
  "saturating_sub a b = (if a < b then 0 else a - b)"

definition saturating_mul :: "'a::len word \<Rightarrow> 'a word \<Rightarrow> 'a word" where
  "saturating_mul a b = (if unat a * unat b < 2 ^ LENGTH('a) then a * b else - 1)"

definition clamp_word :: "'a::len word \<Rightarrow> 'a word \<Rightarrow> 'a word \<Rightarrow> 'a word" where
  "clamp_word x lo hi = (if x < lo then lo else if hi < x then hi else x)"

lemma unat_saturating_sub: "unat (saturating_sub a b) = unat a - unat b"
  by (auto simp: saturating_sub_def word_less_nat_alt unat_sub_if')

lemma unat_saturating_mul:
  "unat (saturating_mul (a :: 'a::len word) b) = min (unat a * unat b) (2 ^ LENGTH('a) - 1)"
proof (cases "unat a * unat b < 2 ^ LENGTH('a)")
  case True
  then show ?thesis by (simp add: saturating_mul_def unat_mult_lem [THEN iffD1])
next
  case False
  then show ?thesis by (simp add: saturating_mul_def word_unat_eq_iff unsigned_minus_1_eq_mask mask_eq_exp_minus_1)
qed

lemma clamp_word_bounds:
  "lo \<le> hi \<Longrightarrow> lo \<le> clamp_word x lo hi \<and> clamp_word x lo hi \<le> hi"
  by (auto simp: clamp_word_def)

section \<open>Hash maps\<close>

text \<open>
  A \<open>HashMap\<close> is an association list with distinct keys; its order is the (unspecified)
  order in which the map iterates. A statement that holds for every such list holds for every
  iteration order.
\<close>

type_synonym ('k, 'v) hmap = "('k \<times> 'v) list"

definition hm_wf :: "('k, 'v) hmap \<Rightarrow> bool" where
  "hm_wf m = distinct (map fst m)"

definition hm_get :: "'k \<Rightarrow> ('k, 'v) hmap \<Rightarrow> 'v option" where
  "hm_get k m = map_of m k"

definition hm_remove :: "'k \<Rightarrow> ('k, 'v) hmap \<Rightarrow> ('k, 'v) hmap" where
  "hm_remove k m = filter (\<lambda>e. fst e \<noteq> k) m"

definition hm_insert :: "'k \<Rightarrow> 'v \<Rightarrow> ('k, 'v) hmap \<Rightarrow> ('k, 'v) hmap" where
  "hm_insert k v m = (k, v) # hm_remove k m"

lemma hm_wf_Nil [simp]: "hm_wf []"
  by (simp add: hm_wf_def)

lemma hm_wf_filter [intro]: "hm_wf m \<Longrightarrow> hm_wf (filter p m)"
  by (induction m) (auto simp: hm_wf_def)

lemma hm_wf_remove [intro]: "hm_wf m \<Longrightarrow> hm_wf (hm_remove k m)"
  by (auto simp: hm_remove_def)

lemma hm_wf_insert [intro]: "hm_wf m \<Longrightarrow> hm_wf (hm_insert k v m)"
  using hm_wf_remove [of m k] by (auto simp: hm_insert_def hm_wf_def hm_remove_def)

lemma hm_get_remove [simp]: "hm_get j (hm_remove k m) = (if j = k then None else hm_get j m)"
  by (induction m) (auto simp: hm_get_def hm_remove_def)

lemma hm_get_insert [simp]: "hm_get j (hm_insert k v m) = (if j = k then Some v else hm_get j m)"
proof (cases "j = k")
  case True
  then show ?thesis by (simp add: hm_insert_def hm_get_def)
next
  case False
  then have "hm_get j (hm_insert k v m) = hm_get j (hm_remove k m)"
    by (simp add: hm_insert_def hm_get_def)
  with False show ?thesis by simp
qed

lemma hm_get_iff: "hm_wf m \<Longrightarrow> hm_get k m = Some v \<longleftrightarrow> (k, v) \<in> set m"
  by (simp add: hm_get_def hm_wf_def)

lemma hm_get_None: "hm_get k m = None \<longleftrightarrow> k \<notin> fst ` set m"
  by (simp add: hm_get_def map_of_eq_None_iff)

lemma length_hm_remove_le: "length (hm_remove k m) \<le> length m"
  by (simp add: hm_remove_def)

lemma length_hm_remove_less: "k \<in> fst ` set m \<Longrightarrow> length (hm_remove k m) < length m"
  by (auto simp: hm_remove_def intro: length_filter_less)

lemma length_hm_insert: "length (hm_insert k v m) \<le> Suc (length m)"
  by (simp add: hm_insert_def hm_remove_def)

section \<open>Ordered maps\<close>

text \<open>
  A \<open>BTreeMap<String, V>\<close> is the list of its entries in key order (\<open>bt_wf\<close>); strings compare byte
  by byte.
\<close>

type_synonym 'v bmap = "(string \<times> 'v) list"

definition bt_wf :: "'v bmap \<Rightarrow> bool" where
  "bt_wf m = sorted_wrt (<) (map fst m)"

fun bt_insert :: "string \<Rightarrow> 'v \<Rightarrow> 'v bmap \<Rightarrow> 'v bmap" where
  "bt_insert k v [] = [(k, v)]"
| "bt_insert k v ((j, u) # m) =
     (if k < j then (k, v) # (j, u) # m
      else if k = j then (k, v) # m
      else (j, u) # bt_insert k v m)"

definition bt_get :: "string \<Rightarrow> 'v bmap \<Rightarrow> 'v option" where
  "bt_get k m = map_of m k"

lemma bt_wf_Nil [simp]: "bt_wf []"
  by (simp add: bt_wf_def)

lemma bt_get_insert [simp]: "bt_get j (bt_insert k v m) = (if j = k then Some v else bt_get j m)"
  by (induction k v m rule: bt_insert.induct) (auto simp: bt_get_def)

lemma bt_insert_keys: "fst ` set (bt_insert k v m) = insert k (fst ` set m)"
  by (induction k v m rule: bt_insert.induct) auto

lemma bt_wf_insert [intro]: "bt_wf m \<Longrightarrow> bt_wf (bt_insert k v m)"
proof (induction k v m rule: bt_insert.induct)
  case (1 k v)
  then show ?case by (simp add: bt_wf_def)
next
  case (2 k v j u m)
  then have wf: "bt_wf m" and j: "\<forall>x \<in> fst ` set m. j < x"
    by (auto simp: bt_wf_def)
  consider "k < j" | "k = j" | "j < k" by (rule linorder_less_linear [THEN disjE]) auto
  then show ?case
  proof cases
    case 1
    with 2(2) show ?thesis by (auto simp: bt_wf_def intro: less_trans)
  next
    case 2
    with wf j show ?thesis by (auto simp: bt_wf_def)
  next
    case 3
    then have eq: "bt_insert k v ((j, u) # m) = (j, u) # bt_insert k v m" by auto
    have "bt_wf (bt_insert k v m)" using 2(1) 3 wf by auto
    moreover have "\<forall>x \<in> fst ` set (bt_insert k v m). j < x"
      using j 3 by (simp only: bt_insert_keys) simp
    ultimately show ?thesis by (simp only: eq bt_wf_def) simp
  qed
qed

lemma bt_wf_distinct: "bt_wf m \<Longrightarrow> distinct (map fst m)"
  unfolding bt_wf_def by (simp add: strict_sorted_iff)

section \<open>Iterators\<close>

text \<open>\<open>Iterator::position\<close>: the first index whose element satisfies the predicate.\<close>

fun position :: "('a \<Rightarrow> bool) \<Rightarrow> 'a list \<Rightarrow> nat option" where
  "position p [] = None"
| "position p (x # xs) = (if p x then Some 0 else map_option Suc (position p xs))"

lemma position_None [simp]: "position p xs = None \<longleftrightarrow> (\<forall>x \<in> set xs. \<not> p x)"
  by (induction xs) auto

lemma position_SomeD:
  "position p xs = Some i \<Longrightarrow> i < length xs \<and> p (xs ! i) \<and> (\<forall>j < i. \<not> p (xs ! j))"
proof (induction xs arbitrary: i)
  case Nil
  then show ?case by simp
next
  case (Cons x xs)
  show ?case
  proof (cases "p x")
    case True
    with Cons.prems show ?thesis by simp
  next
    case False
    with Cons.prems obtain k where k: "position p xs = Some k" "i = Suc k" by auto
    with Cons.IH [OF k(1)] False show ?thesis
      by (auto simp: less_Suc_eq_0_disj)
  qed
qed

lemma in_map_filter: "x \<in> set (List.map_filter f ts) \<longleftrightarrow> (\<exists>t \<in> set ts. f t = Some x)"
  by (induction ts) (auto simp: map_filter_simps split: option.splits)

section \<open>Results\<close>

text \<open>
  \<open>Result<T, E>\<close> is \<open>'e + 't\<close>: \<open>Inl\<close> is \<open>Err\<close>, \<open>Inr\<close> is \<open>Ok\<close>. \<open>?\<close> is \<open>and_then\<close>.
\<close>

definition is_err :: "'e + 'a \<Rightarrow> bool" where
  "is_err r = (case r of Inl _ \<Rightarrow> True | Inr _ \<Rightarrow> False)"

definition map_err :: "('e \<Rightarrow> 'f) \<Rightarrow> 'e + 'a \<Rightarrow> 'f + 'a" where
  "map_err f r = (case r of Inl e \<Rightarrow> Inl (f e) | Inr a \<Rightarrow> Inr a)"

definition ok_of :: "'e + 'a \<Rightarrow> 'a option" where
  "ok_of r = (case r of Inl _ \<Rightarrow> None | Inr a \<Rightarrow> Some a)"

lemma is_err_simps [simp]: "is_err (Inl e)" "\<not> is_err (Inr a)"
  by (simp_all add: is_err_def)

lemma map_err_simps [simp]: "map_err f (Inl e) = Inl (f e)" "map_err f (Inr a) = Inr a"
  by (simp_all add: map_err_def)

lemma ok_of_simps [simp]: "ok_of (Inl e) = None" "ok_of (Inr a) = Some a"
  by (simp_all add: ok_of_def)

lemma ok_of_Some [simp]: "ok_of r = Some a \<longleftrightarrow> r = Inr a"
  by (cases r) auto

end
