(* ===== verification/Auth_Http.thy ===== *)
theory Auth_Http
  imports Muxa_Prelude
begin

text \<open>
  \<open>muxa-auth/src/http_client.rs\<close>: the HTTP client the \<open>oauth2\<close> and \<open>openidconnect\<close> crates call
  through, an adapter from their request and response types to reqwest's. Reqwest and the \<open>http\<close>
  crate are \<open>reqwest_api\<close>: \<open>'q\<close> is the crates' request, \<open>'rq\<close> and \<open>'rr\<close> reqwest's request and
  response, \<open>'a\<close> the response the crates get, \<open>'w\<close> the world.
\<close>

datatype redirect_policy = FollowNone | FollowUpTo nat

text \<open>What the client is built with; the version is the crate's own.\<close>

record client_settings =
  cs_redirect :: redirect_policy
  cs_timeout_secs :: nat
  cs_user_agent :: string

record response_parts =
  hp_status :: u16
  hp_version :: string
  hp_headers :: "(string \<times> string) list"
  hp_body :: "u8 list"

record ('cl, 'q, 'rq, 'rr, 'a, 'w) reqwest_api =
  client_build :: "client_settings \<Rightarrow> string + 'cl"
  try_into_request :: "'q \<Rightarrow> string + 'rq"
  execute_request :: "'cl \<Rightarrow> 'rq \<Rightarrow> 'w \<Rightarrow> (string + 'rr) \<times> 'w"
  rr_status :: "'rr \<Rightarrow> u16"
  rr_version :: "'rr \<Rightarrow> string"
  rr_headers :: "'rr \<Rightarrow> (string \<times> string) list"
  rr_bytes :: "'rr \<Rightarrow> 'w \<Rightarrow> (string + u8 list) \<times> 'w"
  builder_body :: "response_parts \<Rightarrow> string + 'a"

text \<open>\<open>HttpClientError\<close>, as far as the adapter makes one.\<close>

datatype http_client_error = Reqwest string | Http string

definition http_client_new ::
    "('cl, 'q, 'rq, 'rr, 'a, 'w) reqwest_api \<Rightarrow> string \<Rightarrow> string + 'cl" where
  "http_client_new H pkg_version =
     client_build H \<lparr>cs_redirect = FollowNone, cs_timeout_secs = 15,
       cs_user_agent = ''muxa-auth/'' @ pkg_version\<rparr>"

text \<open>The response builder, header by header.\<close>

definition add_header :: "response_parts \<Rightarrow> string \<times> string \<Rightarrow> response_parts" where
  "add_header parts header = parts\<lparr>hp_headers := hp_headers parts @ [header]\<rparr>"

definition http_call ::
    "('cl, 'q, 'rq, 'rr, 'a, 'w) reqwest_api \<Rightarrow> 'cl \<Rightarrow> 'q \<Rightarrow> 'w \<Rightarrow> (http_client_error + 'a) \<times> 'w" where
  "http_call H client request w =
     (case map_err Reqwest (try_into_request H request) of
        Inl e \<Rightarrow> (Inl e, w)
      | Inr rq \<Rightarrow>
          (let (answer, w) = execute_request H client rq w
           in case map_err Reqwest answer of
                Inl e \<Rightarrow> (Inl e, w)
              | Inr response \<Rightarrow>
                  (let builder = \<lparr>hp_status = rr_status H response, hp_version = rr_version H response,
                         hp_headers = [], hp_body = []\<rparr>;
                       builder = foldl add_header builder (rr_headers H response);
                       (body, w) = rr_bytes H response w
                   in case map_err Reqwest body of
                        Inl e \<Rightarrow> (Inl e, w)
                      | Inr bytes \<Rightarrow>
                          (map_err Http (builder_body H (builder\<lparr>hp_body := bytes\<rparr>)), w))))"

section \<open>Lemmas\<close>

lemma foldl_add_header:
  "foldl add_header parts headers = parts\<lparr>hp_headers := hp_headers parts @ headers\<rparr>"
  by (induction headers arbitrary: parts) (simp_all add: add_header_def)

text \<open>
  A call that succeeds sent the request exactly once, and hands over the status, the version, the
  headers in their order and the whole body of the one response it got. A redirect is such a response
  too, handed over like any other, since the client follows none.
\<close>

lemma http_call_ok:
  "http_call H client request w = (Inr a, w') \<longleftrightarrow>
     (\<exists>rq response w1 bytes. try_into_request H request = Inr rq
        \<and> execute_request H client rq w = (Inr response, w1) \<and> rr_bytes H response w1 = (Inr bytes, w')
        \<and> builder_body H \<lparr>hp_status = rr_status H response, hp_version = rr_version H response,
             hp_headers = rr_headers H response, hp_body = bytes\<rparr> = Inr a)"
  by (auto simp: http_call_def Let_def foldl_add_header map_err_def
      split: sum.splits prod.splits)

text \<open>A request that does not convert is never sent.\<close>

lemma http_call_not_sent:
  "try_into_request H request = Inl e \<Longrightarrow> http_call H client request w = (Inl (Reqwest e), w)"
  by (simp add: http_call_def)

lemma http_client_follows_no_redirect:
  "(\<And>s cl. client_build H s = Inr cl \<Longrightarrow> policy cl = cs_redirect s) \<Longrightarrow>
     http_client_new H v = Inr client \<Longrightarrow> policy client = FollowNone"
  by (simp add: http_client_new_def)

end
