(* ===== verification/Auth_Config.thy ===== *)
theory Auth_Config
  imports Muxa_Prelude
begin

text \<open>
  \<open>muxa-auth/src/config.rs\<close>: the \<open>[auth]\<close> section. Each configuration struct has two sources of
  defaults: its \<open>Default\<close> instance, and what deserialization gives a key that is absent. A table is
  a record of optional fields (\<open>None\<close>: the key is absent), and the \<open>_of\<close> function fills it in.
\<close>

datatype same_site = Strict | Lax | SameSiteNone

record cookie_config =
  ck_name :: string
  ck_secure :: bool
  ck_same_site :: same_site
  ck_ttl_secs :: i64

definition cookie_config_default :: cookie_config where
  "cookie_config_default =
     \<lparr>ck_name = ''session'', ck_secure = True, ck_same_site = Lax, ck_ttl_secs = 30 * 24 * 60 * 60\<rparr>"

datatype token_auth = Basic | Post

record oauth2_provider_config =
  oa_client_id :: string
  oa_client_secret :: string
  oa_auth_url :: string
  oa_token_url :: string
  oa_userinfo_url :: string
  oa_scopes :: "string list"
  oa_pkce :: bool
  oa_token_auth :: token_auth
  oa_subject_field :: string
  oa_email_field :: "string option"
  oa_name_field :: "string option"
  oa_redirect_url :: "string option"

record oidc_provider_config =
  oi_issuer :: string
  oi_client_id :: string
  oi_client_secret :: string
  oi_scopes :: "string list"
  oi_metadata_ttl_secs :: u64
  oi_redirect_url :: "string option"

datatype provider_config = OAuth2 oauth2_provider_config | Oidc oidc_provider_config

definition client_id :: "provider_config \<Rightarrow> string" where
  "client_id cfg = (case cfg of OAuth2 c \<Rightarrow> oa_client_id c | Oidc c \<Rightarrow> oi_client_id c)"

definition yes :: bool where
  "yes = True"

definition default_subject_field :: string where
  "default_subject_field = ''id''"

definition default_oidc_scopes :: "string list" where
  "default_oidc_scopes = [''email'', ''profile'']"

definition default_metadata_ttl :: u64 where
  "default_metadata_ttl = 3600"

text \<open>\<open>#[derive(Default)]\<close>: every field is its type's default.\<close>

definition oauth2_provider_config_default :: oauth2_provider_config where
  "oauth2_provider_config_default =
     \<lparr>oa_client_id = [], oa_client_secret = [], oa_auth_url = [], oa_token_url = [],
      oa_userinfo_url = [], oa_scopes = [], oa_pkce = False, oa_token_auth = Basic,
      oa_subject_field = [], oa_email_field = None, oa_name_field = None, oa_redirect_url = None\<rparr>"

definition oidc_provider_config_default :: oidc_provider_config where
  "oidc_provider_config_default =
     \<lparr>oi_issuer = [], oi_client_id = [], oi_client_secret = [], oi_scopes = [],
      oi_metadata_ttl_secs = 0, oi_redirect_url = None\<rparr>"

section \<open>Deserialization\<close>

definition field_or :: "'a option \<Rightarrow> 'a \<Rightarrow> 'a" where
  "field_or key dflt = (case key of Some v \<Rightarrow> v | None \<Rightarrow> dflt)"

lemma field_or_simps [simp]: "field_or None d = d" "field_or (Some v) d = v"
  by (simp_all add: field_or_def)

record oauth2_table =
  ot_client_id :: "string option"
  ot_client_secret :: "string option"
  ot_auth_url :: "string option"
  ot_token_url :: "string option"
  ot_userinfo_url :: "string option"
  ot_scopes :: "string list option"
  ot_pkce :: "bool option"
  ot_token_auth :: "token_auth option"
  ot_subject_field :: "string option"
  ot_email_field :: "string option"
  ot_name_field :: "string option"
  ot_redirect_url :: "string option"

definition oauth2_provider_config_of :: "oauth2_table \<Rightarrow> oauth2_provider_config" where
  "oauth2_provider_config_of t =
     (let d = oauth2_provider_config_default
      in \<lparr>oa_client_id = field_or (ot_client_id t) (oa_client_id d),
          oa_client_secret = field_or (ot_client_secret t) (oa_client_secret d),
          oa_auth_url = field_or (ot_auth_url t) (oa_auth_url d),
          oa_token_url = field_or (ot_token_url t) (oa_token_url d),
          oa_userinfo_url = field_or (ot_userinfo_url t) (oa_userinfo_url d),
          oa_scopes = field_or (ot_scopes t) (oa_scopes d),
          oa_pkce = field_or (ot_pkce t) yes,
          oa_token_auth = field_or (ot_token_auth t) (oa_token_auth d),
          oa_subject_field = field_or (ot_subject_field t) default_subject_field,
          oa_email_field = ot_email_field t,
          oa_name_field = ot_name_field t,
          oa_redirect_url = ot_redirect_url t\<rparr>)"

record oidc_table =
  dt_issuer :: "string option"
  dt_client_id :: "string option"
  dt_client_secret :: "string option"
  dt_scopes :: "string list option"
  dt_metadata_ttl_secs :: "u64 option"
  dt_redirect_url :: "string option"

definition oidc_provider_config_of :: "oidc_table \<Rightarrow> oidc_provider_config" where
  "oidc_provider_config_of t =
     (let d = oidc_provider_config_default
      in \<lparr>oi_issuer = field_or (dt_issuer t) (oi_issuer d),
          oi_client_id = field_or (dt_client_id t) (oi_client_id d),
          oi_client_secret = field_or (dt_client_secret t) (oi_client_secret d),
          oi_scopes = field_or (dt_scopes t) default_oidc_scopes,
          oi_metadata_ttl_secs = field_or (dt_metadata_ttl_secs t) default_metadata_ttl,
          oi_redirect_url = dt_redirect_url t\<rparr>)"

record auth_config =
  ac_base_url :: string
  ac_mount :: string
  ac_sign_in_path :: string
  ac_default_next :: string
  ac_error_param :: string
  ac_trusted_origins :: "string list"
  ac_cookie :: cookie_config
  ac_cleanup_interval_secs :: u64
  ac_providers :: "provider_config bmap"

definition auth_config_default :: auth_config where
  "auth_config_default =
     \<lparr>ac_base_url = [], ac_mount = ''/auth'', ac_sign_in_path = ''/'', ac_default_next = ''/'',
      ac_error_param = ''auth_error'', ac_trusted_origins = [], ac_cookie = cookie_config_default,
      ac_cleanup_interval_secs = 3600, ac_providers = []\<rparr>"

section \<open>Property\<close>

text \<open>The tables with no key set.\<close>

definition empty_oauth2_table :: oauth2_table where
  "empty_oauth2_table =
     \<lparr>ot_client_id = None, ot_client_secret = None, ot_auth_url = None, ot_token_url = None,
      ot_userinfo_url = None, ot_scopes = None, ot_pkce = None, ot_token_auth = None,
      ot_subject_field = None, ot_email_field = None, ot_name_field = None, ot_redirect_url = None\<rparr>"

definition empty_oidc_table :: oidc_table where
  "empty_oidc_table =
     \<lparr>dt_issuer = None, dt_client_id = None, dt_client_secret = None, dt_scopes = None,
      dt_metadata_ttl_secs = None, dt_redirect_url = None\<rparr>"

text \<open>
  A provider table that leaves keys out gets PKCE, the subject field \<open>id\<close>, the scopes
  \<open>email\<close> and \<open>profile\<close> and a metadata lifetime of an hour, and is off (no client id). The same
  struct built with \<open>Default::default()\<close> agrees with the empty table in every other field but has
  PKCE off, no subject field, no scopes and a metadata lifetime of zero.
\<close>

theorem provider_defaults_diverge:
  "oauth2_provider_config_of empty_oauth2_table
       = oauth2_provider_config_default\<lparr>oa_pkce := True, oa_subject_field := ''id''\<rparr>
   \<and> oidc_provider_config_of empty_oidc_table
       = oidc_provider_config_default\<lparr>oi_scopes := [''email'', ''profile''], oi_metadata_ttl_secs := 3600\<rparr>
   \<and> \<not> oa_pkce oauth2_provider_config_default \<and> oa_subject_field oauth2_provider_config_default = []
   \<and> oi_scopes oidc_provider_config_default = [] \<and> oi_metadata_ttl_secs oidc_provider_config_default = 0
   \<and> client_id (OAuth2 (oauth2_provider_config_of empty_oauth2_table)) = []"
  by (simp add: oauth2_provider_config_of_def oidc_provider_config_of_def empty_oauth2_table_def
      empty_oidc_table_def oauth2_provider_config_default_def oidc_provider_config_default_def
      default_subject_field_def default_oidc_scopes_def default_metadata_ttl_def yes_def client_id_def)

end
