(* ===== verification/Auth_Identity.thy ===== *)
theory Auth_Identity
  imports Muxa_Prelude
begin

text \<open>
  \<open>muxa-auth/src/identity.rs\<close>: what a provider tells of an account, and how the application turns
  it into a user or refuses. \<open>'json\<close> is \<open>serde_json::Value\<close>, \<open>'u\<close> the application's user.
\<close>

record 'json external_identity =
  ei_provider :: string
  ei_subject :: string
  ei_email :: "string option"
  ei_email_verified :: bool
  ei_name :: "string option"
  ei_profile :: 'json

record 'u resolve_context =
  rc_current_user :: "'u option"
  rc_link :: bool

record 'u resolved =
  rs_user :: 'u
  rs_query :: "(string \<times> string) list"

definition resolved_new :: "'u \<Rightarrow> 'u resolved" where
  "resolved_new user = \<lparr>rs_user = user, rs_query = []\<rparr>"

definition resolved_with_query :: "string \<Rightarrow> string \<Rightarrow> 'u resolved \<Rightarrow> 'u resolved" where
  "resolved_with_query key val r = r\<lparr>rs_query := rs_query r @ [(key, val)]\<rparr>"

record refusal =
  rf_code :: string
  rf_param :: "string option"

definition CANCELLED :: string where "CANCELLED = ''cancelled''"
definition EXPIRED :: string where "EXPIRED = ''expired''"
definition PROVIDER_FAILED :: string where "PROVIDER_FAILED = ''provider_failed''"
definition UNAVAILABLE :: string where "UNAVAILABLE = ''unavailable''"
definition SIGNED_OUT :: string where "SIGNED_OUT = ''signed_out''"
definition FAILED :: string where "FAILED = ''failed''"

lemmas refusal_codes = CANCELLED_def EXPIRED_def PROVIDER_FAILED_def UNAVAILABLE_def
  SIGNED_OUT_def FAILED_def

definition refusal_new :: "string \<Rightarrow> refusal" where
  "refusal_new code = \<lparr>rf_code = code, rf_param = None\<rparr>"

definition in_param :: "string \<Rightarrow> refusal \<Rightarrow> refusal" where
  "in_param param r = r\<lparr>rf_param := Some param\<rparr>"

lemma refusal_new_simps [simp]: "rf_code (refusal_new c) = c" "rf_param (refusal_new c) = None"
  by (simp_all add: refusal_new_def)

text \<open>The resolver: the application's code, run on the world.\<close>

type_synonym ('json, 'u, 'w) identity_resolver =
  "'json external_identity \<Rightarrow> 'u resolve_context \<Rightarrow> 'w \<Rightarrow> (refusal + 'u resolved) \<times> 'w"

end
