(* ===== verification/Contracts.thy ===== *)
theory Contracts
  imports Muxa_Prelude
begin

text \<open>
  The interfaces that several components share, each as a locale: the operations a client calls
  and the laws a provider promises. Every locale is interpreted on the model's own definitions in
  the theory of the component that provides them.
\<close>

section \<open>A slot that is filled at most once\<close>

text \<open>
  Two slots of the build context are filled by at most one plugin: the serve function and the
  fallback router. Both setters return a result and leave the slot alone when it is taken.
\<close>

locale once_slot =
  fixes set_slot :: "'a \<Rightarrow> 's \<Rightarrow> ('e + unit) \<times> 's"
    and get_slot :: "'s \<Rightarrow> 'a option"
  assumes set_free: "get_slot s = None \<Longrightarrow>
      fst (set_slot a s) = Inr () \<and> get_slot (snd (set_slot a s)) = Some a"
    and set_taken: "get_slot s \<noteq> None \<Longrightarrow>
      is_err (fst (set_slot a s)) \<and> snd (set_slot a s) = s"
begin

lemma taken_stays:
  "get_slot s = Some b \<Longrightarrow> get_slot (fold (\<lambda>a s. snd (set_slot a s)) as s) = Some b"
  by (induction as arbitrary: s) (simp_all add: set_taken)

lemma first_wins:
  "get_slot s = None \<Longrightarrow> get_slot (fold (\<lambda>a s. snd (set_slot a s)) (a # as) s) = Some a"
  by (simp add: set_free taken_stays)

lemma ok_iff_free: "fst (set_slot a s) = Inr () \<longleftrightarrow> get_slot s = None"
  by (cases "get_slot s") (use set_free [of s a] set_taken [of s a] in \<open>auto simp: is_err_def\<close>)

lemma later_fails:
  assumes "get_slot s = None"
  shows "is_err (fst (set_slot b (fold (\<lambda>a s. snd (set_slot a s)) (a # as) s)))"
  using set_taken [of "fold (\<lambda>a s. snd (set_slot a s)) (a # as) s" b] first_wins [OF assms, of a as]
  by simp

end

section \<open>Prefixes that match whole segments\<close>

text \<open>
  A path belongs to a prefix when it is the prefix or continues it after a separator: \<open>/api\<close>
  covers \<open>/api/x\<close> and not \<open>/apiary\<close>; the crate \<open>hyper\<close> covers \<open>hyper::client\<close> and
  not \<open>hyper_util\<close>.
\<close>

locale segment_prefix =
  fixes sep :: "'a list"
    and norm :: "'a list \<Rightarrow> 'a list"
    and covers :: "'a list \<Rightarrow> 'a list \<Rightarrow> bool"
  assumes covers_iff: "covers p q \<longleftrightarrow> (\<exists>r. p = norm q @ r \<and> (r = [] \<or> starts_with sep r))"
    and sep_nonempty: "sep \<noteq> []"
begin

lemma covers_self: "covers (norm q) q"
  by (simp add: covers_iff)

lemma covers_below: "covers (norm q @ sep @ r) q"
  by (simp add: covers_iff)

lemma covers_extends: "covers p q \<Longrightarrow> covers (p @ sep @ r) q"
  by (auto simp: covers_iff starts_with_iff)

lemma covers_trans:
  assumes "covers p q" and "covers (norm q) t"
  shows "covers p t"
proof -
  from assms(1) obtain r where r: "p = norm q @ r" "r = [] \<or> starts_with sep r"
    by (auto simp: covers_iff)
  from assms(2) obtain r' where r': "norm q = norm t @ r'" "r' = [] \<or> starts_with sep r'"
    by (auto simp: covers_iff)
  from r r' have "p = norm t @ (r' @ r)" and "r' @ r = [] \<or> starts_with sep (r' @ r)"
    by (auto simp: starts_with_iff)
  then show ?thesis by (auto simp: covers_iff)
qed

lemma sibling_not_covered: "x \<noteq> hd sep \<Longrightarrow> \<not> covers (norm q @ x # r) q"
  using sep_nonempty by (cases sep) (auto simp: covers_iff)

end

section \<open>Defaults sized from the number of CPUs\<close>

text \<open>
  The pool sizes are a number of connections per CPU, kept between a floor and a ceiling, computed
  in \<open>u32\<close> from a \<open>usize\<close> without overflow.
\<close>

locale cpu_sizing =
  fixes pool_size :: "usize \<Rightarrow> u32"
    and per_cpu floor_size ceil_size :: nat
  assumes pool_size_eq:
      "unat (pool_size n) = max floor_size (min ceil_size (per_cpu * unat n))"
    and floor_le_ceil: "floor_size \<le> ceil_size"
begin

lemma size_bounds: "floor_size \<le> unat (pool_size n) \<and> unat (pool_size n) \<le> ceil_size"
  using floor_le_ceil by (simp add: pool_size_eq)

lemma size_mono: "n \<le> m \<Longrightarrow> pool_size n \<le> pool_size m"
  unfolding word_le_nat_alt pool_size_eq
  by (meson max.mono min.mono mult_le_mono2 order_refl)

lemma size_exact:
  "floor_size \<le> per_cpu * unat n \<Longrightarrow> per_cpu * unat n \<le> ceil_size \<Longrightarrow>
     unat (pool_size n) = per_cpu * unat n"
  by (simp add: pool_size_eq)

end

end
