(* ===== verification/Auth_Provider.thy ===== *)
theory Auth_Provider
  imports Auth_Config Auth_Identity Contracts
begin

text \<open>
  \<open>muxa-auth/src/provider.rs\<close>: the two kinds of sign-in provider and their authorization-code
  flows, with the OpenID Connect client rebuilt from a discovery after its lifetime.

  The \<open>oauth2\<close>, \<open>openidconnect\<close> and \<open>reqwest\<close> crates are the fields of \<open>oauth2_api\<close> and
  \<open>oidc_api\<close>; a request is the record of what the code puts into it. \<open>'url\<close> is a parsed URL,
  \<open>'w\<close> the world (network, randomness, clock). A \<open>RwLock\<close> cell is a field of the provider, which
  each operation returns updated. Durations and instants count milliseconds.
\<close>

datatype json =
    JNull
  | JBool bool
  | JNumber string
  | JString string
  | JArray "json list"
  | JObject "(string \<times> json) list"

fun json_get :: "json \<Rightarrow> string \<Rightarrow> json option" where
  "json_get (JObject entries) name = map_of entries name"
| "json_get _ name = None"

fun json_as_str :: "json \<Rightarrow> string option" where
  "json_as_str (JString s) = Some s"
| "json_as_str _ = None"

record pending_login =
  pn_provider :: string
  pn_state :: string
  pn_pkce_verifier :: "string option"
  pn_nonce :: "string option"
  pn_next :: string
  pn_link :: bool
  pn_created_at :: u64

definition PENDING_TTL_SECS :: u64 where
  "PENDING_TTL_SECS = 10 * 60"

text \<open>\<open>SystemTime::now().duration_since(UNIX_EPOCH)\<close>, in seconds; an error before 1970.\<close>

definition now_secs :: "string + u64 \<Rightarrow> u64" where
  "now_secs since_epoch = (case since_epoch of Inl _ \<Rightarrow> 0 | Inr elapsed \<Rightarrow> elapsed)"

datatype provider_error = ProviderError string

definition provider_error_new :: "string \<Rightarrow> string \<Rightarrow> provider_error" where
  "provider_error_new context err = ProviderError (context @ '': '' @ err)"

text \<open>An error with its chain of sources.\<close>

datatype error_node = ErrorNode (en_text: string) (en_source: "error_node option")

function error_chain_loop :: "string \<Rightarrow> error_node option \<Rightarrow> string" where
  "error_chain_loop out None = out"
| "error_chain_loop out (Some cause) =
     error_chain_loop (out @ '': '' @ en_text cause) (en_source cause)"
  by pat_completeness auto
termination
proof (relation "measure (\<lambda>(out, src). case src of None \<Rightarrow> 0 | Some e \<Rightarrow> size e)")
  fix out :: string and cause :: error_node
  show "((out @ '': '' @ en_text cause, en_source cause), (out, Some cause))
      \<in> measure (\<lambda>(out, src). case src of None \<Rightarrow> 0 | Some e \<Rightarrow> size e)"
    by (cases cause) (auto split: option.splits)
qed simp

definition error_chain :: "error_node \<Rightarrow> string" where
  "error_chain err = error_chain_loop (en_text err) (en_source err)"

record 'url authorization =
  az_url :: 'url
  az_state :: string
  az_pkce_verifier :: "string option"
  az_nonce :: "string option"

section \<open>Plain OAuth2\<close>

datatype auth_type = BasicAuth | RequestBody

record oauth2_client =
  oc_client_id :: string
  oc_auth_uri :: string
  oc_token_uri :: string
  oc_redirect_uri :: string
  oc_auth_type :: auth_type
  oc_client_secret :: "string option"

record authorize_request =
  ar_client :: oauth2_client
  ar_state :: string
  ar_scopes :: "string list"
  ar_pkce_challenge :: "string option"

record token_request =
  tr_client :: oauth2_client
  tr_code :: string
  tr_pkce_verifier :: "string option"

record ('url, 'tok, 'resp, 'w) oauth2_api =
  redirect_url_new :: "string \<Rightarrow> string + string"
  auth_url_new :: "string \<Rightarrow> string + string"
  token_url_new :: "string \<Rightarrow> string + string"
  userinfo_url_parse :: "string \<Rightarrow> string + 'url"
  random_state :: "'w \<Rightarrow> string \<times> 'w"
  random_pkce :: "'w \<Rightarrow> (string \<times> string) \<times> 'w"
  authorize_request_url :: "authorize_request \<Rightarrow> 'url"
  request_token :: "token_request \<Rightarrow> 'w \<Rightarrow> (error_node + 'tok) \<times> 'w"
  access_token :: "'tok \<Rightarrow> string"
  http_get :: "'url \<Rightarrow> string \<Rightarrow> (string \<times> string) list \<Rightarrow> 'w \<Rightarrow> (string + 'resp) \<times> 'w"
  error_for_status :: "'resp \<Rightarrow> string + 'resp"
  resp_json :: "'resp \<Rightarrow> 'w \<Rightarrow> (string + json) \<times> 'w"

record 'url oauth2_provider =
  op_id :: string
  op_client :: oauth2_client
  op_scopes :: "string list"
  op_pkce :: bool
  op_userinfo_url :: 'url
  op_subject_field :: string
  op_email_field :: "string option"
  op_name_field :: "string option"

definition oauth2_provider_new ::
    "('url, 'tok, 'resp, 'w) oauth2_api \<Rightarrow> string \<Rightarrow> oauth2_provider_config \<Rightarrow> string
      \<Rightarrow> provider_error + 'url oauth2_provider" where
  "oauth2_provider_new A pid cfg redirect =
     (case map_err (provider_error_new ''auth_url'') (auth_url_new A (oa_auth_url cfg)) of
        Inl e \<Rightarrow> Inl e
      | Inr auth_url \<Rightarrow>
     (case map_err (provider_error_new ''token_url'') (token_url_new A (oa_token_url cfg)) of
        Inl e \<Rightarrow> Inl e
      | Inr token_url \<Rightarrow>
     (case map_err (provider_error_new ''userinfo_url'') (userinfo_url_parse A (oa_userinfo_url cfg)) of
        Inl e \<Rightarrow> Inl e
      | Inr userinfo_url \<Rightarrow>
          (let secret = oa_client_secret cfg;
               client = \<lparr>oc_client_id = oa_client_id cfg, oc_auth_uri = auth_url,
                 oc_token_uri = token_url, oc_redirect_uri = redirect,
                 oc_auth_type = (case oa_token_auth cfg of Basic \<Rightarrow> BasicAuth | Post \<Rightarrow> RequestBody),
                 oc_client_secret = (if secret \<noteq> [] then Some secret else None)\<rparr>
           in Inr \<lparr>op_id = pid, op_client = client, op_scopes = oa_scopes cfg, op_pkce = oa_pkce cfg,
                   op_userinfo_url = userinfo_url, op_subject_field = oa_subject_field cfg,
                   op_email_field = oa_email_field cfg, op_name_field = oa_name_field cfg\<rparr>))))"

definition oauth2_authorize ::
    "('url, 'tok, 'resp, 'w) oauth2_api \<Rightarrow> 'url oauth2_provider \<Rightarrow> 'w \<Rightarrow> 'url authorization \<times> 'w" where
  "oauth2_authorize A p w =
     (let (state, w) = random_state A w;
          (pkce, w) = (if op_pkce p
                       then (let (cv, w) = random_pkce A w in (Some cv, w))
                       else (None, w));
          request = \<lparr>ar_client = op_client p, ar_state = state, ar_scopes = op_scopes p,
                     ar_pkce_challenge = map_option fst pkce\<rparr>
      in (\<lparr>az_url = authorize_request_url A request, az_state = state,
           az_pkce_verifier = map_option snd pkce, az_nonce = None\<rparr>, w))"

definition subject_of :: "json \<Rightarrow> string \<Rightarrow> string option" where
  "subject_of profile field =
     (case json_get profile field of
        Some (JString i) \<Rightarrow> if i \<noteq> [] then Some i else None
      | Some (JNumber n) \<Rightarrow> Some n
      | _ \<Rightarrow> None)"

definition string_field :: "json \<Rightarrow> string option \<Rightarrow> string option" where
  "string_field profile field =
     (case Option.bind (Option.bind field (json_get profile)) json_as_str of
        Some v \<Rightarrow> if v \<noteq> [] then Some v else None
      | None \<Rightarrow> None)"

definition fetch_userinfo ::
    "('url, 'tok, 'resp, 'w) oauth2_api \<Rightarrow> 'url \<Rightarrow> string \<Rightarrow> 'w \<Rightarrow> (provider_error + json) \<times> 'w" where
  "fetch_userinfo A url token w =
     (let (sent, w) = http_get A url token [(''accept'', ''application/json'')] w
      in case map_err (provider_error_new ''userinfo'')
             (case sent of Inl e \<Rightarrow> Inl e | Inr resp \<Rightarrow> error_for_status A resp) of
           Inl e \<Rightarrow> (Inl e, w)
         | Inr resp \<Rightarrow>
             (let (body, w) = resp_json A resp w
              in (map_err (provider_error_new ''userinfo body'') body, w)))"

definition oauth2_identify ::
    "('url, 'tok, 'resp, 'w) oauth2_api \<Rightarrow> 'url oauth2_provider \<Rightarrow> string \<Rightarrow> pending_login \<Rightarrow> 'w
      \<Rightarrow> (provider_error + json external_identity) \<times> 'w" where
  "oauth2_identify A p code pending w =
     (let (exchanged, w) = request_token A \<lparr>tr_client = op_client p, tr_code = code,
            tr_pkce_verifier = pn_pkce_verifier pending\<rparr> w
      in case map_err (\<lambda>err. provider_error_new ''token exchange'' (error_chain err)) exchanged of
           Inl e \<Rightarrow> (Inl e, w)
         | Inr token \<Rightarrow>
             (let (fetched, w) = fetch_userinfo A (op_userinfo_url p) (access_token A token) w
              in case fetched of
                   Inl e \<Rightarrow> (Inl e, w)
                 | Inr profile \<Rightarrow>
                     (case subject_of profile (op_subject_field p) of
                        None \<Rightarrow> (Inl (ProviderError (''userinfo has no `'' @ op_subject_field p @ ''` field'')), w)
                      | Some subject \<Rightarrow>
                          (Inr \<lparr>ei_provider = op_id p, ei_subject = subject,
                                ei_email = string_field profile (op_email_field p),
                                ei_email_verified = False,
                                ei_name = string_field profile (op_name_field p),
                                ei_profile = profile\<rparr>, w))))"

section \<open>OpenID Connect\<close>

record 'ocl oidc_request =
  or_client :: 'ocl
  or_state :: string
  or_nonce :: string
  or_pkce_challenge :: string
  or_scopes :: "string list"

record ('meta, 'ocl, 'idt, 'clm, 'otok, 'alg, 'key, 'url, 'w) oidc_api =
  issuer_url_new :: "string \<Rightarrow> string + string"
  discover :: "string \<Rightarrow> 'w \<Rightarrow> (error_node + 'meta) \<times> 'w"
  client_from_metadata :: "'meta \<Rightarrow> string \<Rightarrow> string option \<Rightarrow> string \<Rightarrow> 'ocl"
  instant_now :: "'w \<Rightarrow> nat"
  oidc_random_pkce :: "'w \<Rightarrow> (string \<times> string) \<times> 'w"
  oidc_random_state :: "'w \<Rightarrow> string \<times> 'w"
  oidc_random_nonce :: "'w \<Rightarrow> string \<times> 'w"
  oidc_request_url :: "'ocl oidc_request \<Rightarrow> 'url"
  exchange_code :: "'ocl \<Rightarrow> string \<Rightarrow> string + unit"
  oidc_request_token :: "'ocl \<Rightarrow> string \<Rightarrow> string option \<Rightarrow> 'w \<Rightarrow> (error_node + 'otok) \<times> 'w"
  id_token :: "'otok \<Rightarrow> 'idt option"
  verify_claims :: "'idt \<Rightarrow> 'ocl \<Rightarrow> string \<Rightarrow> 'w \<Rightarrow> string + 'clm"
  access_token_hash :: "'clm \<Rightarrow> string option"
  signing_alg :: "'idt \<Rightarrow> string + 'alg"
  signing_key :: "'idt \<Rightarrow> 'ocl \<Rightarrow> string + 'key"
  hash_from_token :: "'otok \<Rightarrow> 'alg \<Rightarrow> 'key \<Rightarrow> string + string"
  claim_subject :: "'clm \<Rightarrow> string"
  claim_email :: "'clm \<Rightarrow> string option"
  claim_email_verified :: "'clm \<Rightarrow> bool option"
  claim_name :: "'clm \<Rightarrow> string option"
  claims_to_value :: "'clm \<Rightarrow> string + json"

record 'ocl oidc_provider =
  dp_id :: string
  dp_issuer :: string
  dp_client_id :: string
  dp_client_secret :: string
  dp_redirect :: string
  dp_scopes :: "string list"
  dp_ttl :: nat
  dp_client :: "('ocl \<times> nat) option"

definition oidc_provider_new ::
    "('meta, 'ocl, 'idt, 'clm, 'otok, 'alg, 'key, 'url, 'w) oidc_api \<Rightarrow> string \<Rightarrow> oidc_provider_config
      \<Rightarrow> string \<Rightarrow> provider_error + 'ocl oidc_provider" where
  "oidc_provider_new A pid cfg redirect =
     (case map_err (provider_error_new ''issuer'') (issuer_url_new A (oi_issuer cfg)) of
        Inl e \<Rightarrow> Inl e
      | Inr issuer \<Rightarrow>
          Inr \<lparr>dp_id = pid, dp_issuer = issuer, dp_client_id = oi_client_id cfg,
               dp_client_secret = oi_client_secret cfg, dp_redirect = redirect,
               dp_scopes = oi_scopes cfg, dp_ttl = unat (oi_metadata_ttl_secs cfg) * 1000,
               dp_client = None\<rparr>)"

text \<open>The cached client, when it is fresh and a rediscovery is not forced.\<close>

definition cached_client ::
    "('meta, 'ocl, 'idt, 'clm, 'otok, 'alg, 'key, 'url, 'w) oidc_api \<Rightarrow> 'ocl oidc_provider \<Rightarrow> bool
      \<Rightarrow> 'w \<Rightarrow> 'ocl option" where
  "cached_client A p force w =
     (case dp_client p of
        Some (cl, at) \<Rightarrow> if \<not> force \<and> instant_now A w - at < dp_ttl p then Some cl else None
      | None \<Rightarrow> None)"

definition oidc_client ::
    "('meta, 'ocl, 'idt, 'clm, 'otok, 'alg, 'key, 'url, 'w) oidc_api \<Rightarrow> 'ocl oidc_provider \<Rightarrow> bool
      \<Rightarrow> 'w \<Rightarrow> (provider_error + 'ocl) \<times> 'ocl oidc_provider \<times> 'w" where
  "oidc_client A p force w =
     (case cached_client A p force w of
        Some cl \<Rightarrow> (Inr cl, p, w)
      | None \<Rightarrow>
          (let (found, w) = discover A (dp_issuer p) w
           in case map_err (\<lambda>err. provider_error_new ''discovery'' (error_chain err)) found of
                Inl e \<Rightarrow> (Inl e, p, w)
              | Inr metadata \<Rightarrow>
                  (let secret = dp_client_secret p;
                       cl = client_from_metadata A metadata (dp_client_id p)
                              (if secret \<noteq> [] then Some secret else None) (dp_redirect p)
                   in (Inr cl, p\<lparr>dp_client := Some (cl, instant_now A w)\<rparr>, w))))"

definition oidc_authorize ::
    "('meta, 'ocl, 'idt, 'clm, 'otok, 'alg, 'key, 'url, 'w) oidc_api \<Rightarrow> 'ocl oidc_provider \<Rightarrow> 'w
      \<Rightarrow> (provider_error + 'url authorization) \<times> 'ocl oidc_provider \<times> 'w" where
  "oidc_authorize A p w =
     (case oidc_client A p False w of
        (Inl e, p, w) \<Rightarrow> (Inl e, p, w)
      | (Inr cl, p, w) \<Rightarrow>
          (let ((challenge, verifier), w) = oidc_random_pkce A w;
               (state, w) = oidc_random_state A w;
               (nonce, w) = oidc_random_nonce A w;
               request = \<lparr>or_client = cl, or_state = state, or_nonce = nonce,
                          or_pkce_challenge = challenge, or_scopes = dp_scopes p\<rparr>
           in (Inr \<lparr>az_url = oidc_request_url A request, az_state = state,
                    az_pkce_verifier = Some verifier, az_nonce = Some nonce\<rparr>, p, w)))"

text \<open>The claims of an ID token, checked again after a rediscovery when the first check fails.\<close>

definition oidc_claims ::
    "('meta, 'ocl, 'idt, 'clm, 'otok, 'alg, 'key, 'url, 'w) oidc_api \<Rightarrow> 'ocl oidc_provider \<Rightarrow> 'ocl
      \<Rightarrow> 'idt \<Rightarrow> string \<Rightarrow> 'w \<Rightarrow> (provider_error + 'clm \<times> 'ocl) \<times> 'ocl oidc_provider \<times> 'w" where
  "oidc_claims A p cl idt nonce w =
     (case verify_claims A idt cl nonce w of
        Inr claims \<Rightarrow> (Inr (claims, cl), p, w)
      | Inl first \<Rightarrow>
          (case oidc_client A p True w of
             (Inl e, p, w) \<Rightarrow> (Inl e, p, w)
           | (Inr cl, p, w) \<Rightarrow>
               (case map_err (provider_error_new ''id token'') (verify_claims A idt cl nonce w) of
                  Inl e \<Rightarrow> (Inl e, p, w)
                | Inr claims \<Rightarrow> (Inr (claims, cl), p, w))))"

definition check_at_hash ::
    "('meta, 'ocl, 'idt, 'clm, 'otok, 'alg, 'key, 'url, 'w) oidc_api \<Rightarrow> 'ocl \<Rightarrow> 'otok \<Rightarrow> 'idt \<Rightarrow> 'clm
      \<Rightarrow> provider_error + unit" where
  "check_at_hash A cl token idt claims =
     (case access_token_hash A claims of
        None \<Rightarrow> Inr ()
      | Some expected \<Rightarrow>
     (case map_err (provider_error_new ''id token alg'') (signing_alg A idt) of
        Inl e \<Rightarrow> Inl e
      | Inr alg \<Rightarrow>
     (case map_err (provider_error_new ''id token key'') (signing_key A idt cl) of
        Inl e \<Rightarrow> Inl e
      | Inr key \<Rightarrow>
     (case map_err (provider_error_new ''at_hash'') (hash_from_token A token alg key) of
        Inl e \<Rightarrow> Inl e
      | Inr actual \<Rightarrow>
          if actual \<noteq> expected
          then Inl (ProviderError ''at_hash does not match the access token'')
          else Inr ()))))"

definition oidc_identity ::
    "('meta, 'ocl, 'idt, 'clm, 'otok, 'alg, 'key, 'url, 'w) oidc_api \<Rightarrow> 'ocl oidc_provider \<Rightarrow> 'clm
      \<Rightarrow> json external_identity" where
  "oidc_identity A p claims =
     \<lparr>ei_provider = dp_id p, ei_subject = claim_subject A claims, ei_email = claim_email A claims,
      ei_email_verified = (case claim_email_verified A claims of Some v \<Rightarrow> v | None \<Rightarrow> False),
      ei_name = claim_name A claims,
      ei_profile = (case claims_to_value A claims of Inr v \<Rightarrow> v | Inl _ \<Rightarrow> JNull)\<rparr>"

definition oidc_identify ::
    "('meta, 'ocl, 'idt, 'clm, 'otok, 'alg, 'key, 'url, 'w) oidc_api \<Rightarrow> 'ocl oidc_provider \<Rightarrow> string
      \<Rightarrow> pending_login \<Rightarrow> 'w
      \<Rightarrow> (provider_error + json external_identity) \<times> 'ocl oidc_provider \<times> 'w" where
  "oidc_identify A p code pending w =
     (case pn_nonce pending of
        None \<Rightarrow> (Inl (ProviderError ''sign-in has no nonce''), p, w)
      | Some nonce \<Rightarrow>
     (case oidc_client A p False w of
        (Inl e, p, w) \<Rightarrow> (Inl e, p, w)
      | (Inr cl, p, w) \<Rightarrow>
     (case map_err (provider_error_new ''token endpoint'') (exchange_code A cl code) of
        Inl e \<Rightarrow> (Inl e, p, w)
      | Inr _ \<Rightarrow>
          (let (exchanged, w) = oidc_request_token A cl code (pn_pkce_verifier pending) w
           in case map_err (\<lambda>err. provider_error_new ''token exchange'' (error_chain err)) exchanged of
                Inl e \<Rightarrow> (Inl e, p, w)
              | Inr token \<Rightarrow>
     (case id_token A token of
        None \<Rightarrow> (Inl (ProviderError ''token response has no id_token''), p, w)
      | Some idt \<Rightarrow>
     (case oidc_claims A p cl idt nonce w of
        (Inl e, p, w) \<Rightarrow> (Inl e, p, w)
      | (Inr (claims, cl), p, w) \<Rightarrow>
     (case check_at_hash A cl token idt claims of
        Inl e \<Rightarrow> (Inl e, p, w)
      | Inr _ \<Rightarrow> (Inr (oidc_identity A p claims), p, w))))))))"

section \<open>Providers\<close>

datatype ('url, 'ocl) provider =
    POAuth2 "'url oauth2_provider"
  | POidc "'ocl oidc_provider"

text \<open>\<open>oidc_feature\<close>: the crate is built with its \<open>oidc\<close> feature.\<close>

definition provider_from_config ::
    "('url, 'tok, 'resp, 'w) oauth2_api
      \<Rightarrow> ('meta, 'ocl, 'idt, 'clm, 'otok, 'alg, 'key, 'url, 'w) oidc_api \<Rightarrow> bool
      \<Rightarrow> string \<Rightarrow> provider_config \<Rightarrow> string \<Rightarrow> provider_error + ('url, 'ocl) provider option" where
  "provider_from_config A D oidc_feature pid cfg redirect_url =
     (if client_id cfg = [] then Inr None
      else
        (case map_err (provider_error_new ''redirect url'') (redirect_url_new A redirect_url) of
           Inl e \<Rightarrow> Inl e
         | Inr redirect \<Rightarrow>
             (case cfg of
                OAuth2 cfg \<Rightarrow>
                  (case oauth2_provider_new A pid cfg redirect of
                     Inl e \<Rightarrow> Inl e | Inr p \<Rightarrow> Inr (Some (POAuth2 p)))
              | Oidc cfg \<Rightarrow>
                  if oidc_feature
                  then (case oidc_provider_new D pid cfg redirect of
                          Inl e \<Rightarrow> Inl e | Inr p \<Rightarrow> Inr (Some (POidc p)))
                  else Inl (ProviderError
                    ''an OpenID Connect provider needs muxa-auth's `oidc` feature''))))"

definition provider_authorize ::
    "('url, 'tok, 'resp, 'w) oauth2_api
      \<Rightarrow> ('meta, 'ocl, 'idt, 'clm, 'otok, 'alg, 'key, 'url, 'w) oidc_api
      \<Rightarrow> ('url, 'ocl) provider \<Rightarrow> 'w
      \<Rightarrow> (provider_error + 'url authorization) \<times> ('url, 'ocl) provider \<times> 'w" where
  "provider_authorize A D p w =
     (case p of
        POAuth2 o2 \<Rightarrow> (let (az, w) = oauth2_authorize A o2 w in (Inr az, p, w))
      | POidc oi \<Rightarrow> (let (res, oi, w) = oidc_authorize D oi w in (res, POidc oi, w)))"

definition provider_identify ::
    "('url, 'tok, 'resp, 'w) oauth2_api
      \<Rightarrow> ('meta, 'ocl, 'idt, 'clm, 'otok, 'alg, 'key, 'url, 'w) oidc_api
      \<Rightarrow> ('url, 'ocl) provider \<Rightarrow> string \<Rightarrow> pending_login \<Rightarrow> 'w
      \<Rightarrow> (provider_error + json external_identity) \<times> ('url, 'ocl) provider \<times> 'w" where
  "provider_identify A D p code pending w =
     (case p of
        POAuth2 o2 \<Rightarrow> (let (res, w) = oauth2_identify A o2 code pending w in (res, p, w))
      | POidc oi \<Rightarrow> (let (res, oi, w) = oidc_identify D oi code pending w in (res, POidc oi, w)))"

definition provider_id :: "('url, 'ocl) provider \<Rightarrow> string" where
  "provider_id p = (case p of POAuth2 o2 \<Rightarrow> op_id o2 | POidc oi \<Rightarrow> dp_id oi)"

section \<open>The contract of a provider\<close>

text \<open>
  What the routes rely on: using a provider leaves its id alone, and every identity it establishes
  carries that id.
\<close>

locale sign_in_provider =
  fixes authorize :: "'p \<Rightarrow> 'w \<Rightarrow> ('e + 'url authorization) \<times> 'p \<times> 'w"
    and identify :: "'p \<Rightarrow> string \<Rightarrow> pending_login \<Rightarrow> 'w \<Rightarrow> ('e + json external_identity) \<times> 'p \<times> 'w"
    and pid :: "'p \<Rightarrow> string"
  assumes authorize_id: "pid (fst (snd (authorize p w))) = pid p"
    and identify_id: "pid (fst (snd (identify p code pending w))) = pid p"
    and identify_label: "fst (identify p code pending w) = Inr ident \<Longrightarrow> ei_provider ident = pid p"
begin

definition ids_match :: "'p bmap \<Rightarrow> bool" where
  "ids_match m \<longleftrightarrow> (\<forall>k p. bt_get k m = Some p \<longrightarrow> pid p = k)"

lemma ids_match_authorize:
  "ids_match m \<Longrightarrow> bt_get k m = Some p \<Longrightarrow> ids_match (bt_insert k (fst (snd (authorize p w))) m)"
  by (auto simp: ids_match_def authorize_id)

lemma ids_match_identify:
  "ids_match m \<Longrightarrow> bt_get k m = Some p \<Longrightarrow>
     ids_match (bt_insert k (fst (snd (identify p code pending w))) m)"
  by (auto simp: ids_match_def identify_id)

lemma identity_of_key:
  "ids_match m \<Longrightarrow> bt_get k m = Some p \<Longrightarrow> fst (identify p code pending w) = Inr ident \<Longrightarrow>
     ei_provider ident = k"
  by (auto simp: ids_match_def identify_label)

end

section \<open>Lemmas\<close>

lemma map_err_Inr [simp]: "map_err f r = Inr a \<longleftrightarrow> r = Inr a"
  by (cases r) auto

lemma oidc_client_frame:
  "oidc_client A p force w = (r, p', w') \<Longrightarrow>
     p' = p \<or> (\<exists>c. p' = p\<lparr>dp_client := c\<rparr>)"
  by (auto simp: oidc_client_def Let_def case_prod_beta split: option.splits sum.splits)

lemma oidc_client_id: "oidc_client A p force w = (r, p', w') \<Longrightarrow> dp_id p' = dp_id p"
  by (drule oidc_client_frame) auto

lemma oidc_claims_id: "oidc_claims A p cl idt nonce w = (r, p', w') \<Longrightarrow> dp_id p' = dp_id p"
  by (auto simp: oidc_claims_def dest!: oidc_client_id split: sum.splits prod.splits)

lemma oidc_authorize_id: "oidc_authorize A p w = (r, p', w') \<Longrightarrow> dp_id p' = dp_id p"
  by (auto simp: oidc_authorize_def Let_def dest!: oidc_client_id
      split: sum.splits prod.splits)

lemma oidc_identify_id:
  assumes "oidc_identify A p code pending w = (r, p', w')"
  shows "dp_id p' = dp_id p" and "r = Inr ident \<Longrightarrow> ei_provider ident = dp_id p"
  using assms
  by (auto simp: oidc_identify_def Let_def oidc_identity_def
      split: option.splits sum.splits prod.splits dest!: oidc_client_id oidc_claims_id)

lemma oauth2_identify_label:
  "oauth2_identify A p code pending w = (Inr ident, w') \<Longrightarrow> ei_provider ident = op_id p"
  by (auto simp: oauth2_identify_def Let_def split: option.splits sum.splits prod.splits)

interpretation configured: sign_in_provider "provider_authorize A D" "provider_identify A D" provider_id
  for A :: "('url, 'tok, 'resp, 'w) oauth2_api"
    and D :: "('meta, 'ocl, 'idt, 'clm, 'otok, 'alg, 'key, 'url, 'w) oidc_api"
proof unfold_locales
  fix p :: "('url, 'ocl) provider" and code pending and w :: 'w
  show "provider_id (fst (snd (provider_authorize A D p w))) = provider_id p"
    by (cases p) (auto simp: provider_authorize_def provider_id_def Let_def
        split: prod.splits dest: oidc_authorize_id)
  show "provider_id (fst (snd (provider_identify A D p code pending w))) = provider_id p"
    by (cases p) (auto simp: provider_identify_def provider_id_def Let_def
        split: prod.splits dest: oidc_identify_id(1))
  show "ei_provider ident = provider_id p" if "fst (provider_identify A D p code pending w) = Inr ident" for ident
    using that by (cases p) (auto simp: provider_identify_def provider_id_def Let_def
        split: prod.splits dest: oidc_identify_id(2) oauth2_identify_label)
qed

section \<open>Properties\<close>

lemma string_field_nonempty: "string_field profile field = Some v \<Longrightarrow> v \<noteq> []"
  by (auto simp: string_field_def split: option.splits if_splits)

text \<open>
  C18: a plain OAuth2 sign-in that succeeds exchanged exactly the code of the callback with exactly
  the verifier stored for this attempt, read the profile with the access token of that exchange,
  and yields an identity of this provider with the account id from the configured field (never an
  empty string field), no vouched email, and no empty email or name.
\<close>

theorem oauth2_identity_sound:
  assumes "oauth2_identify A p code pending w = (Inr ident, w')"
  shows "\<exists>token w1 w2. request_token A \<lparr>tr_client = op_client p, tr_code = code,
             tr_pkce_verifier = pn_pkce_verifier pending\<rparr> w = (Inr token, w1)
    \<and> fetch_userinfo A (op_userinfo_url p) (access_token A token) w1 = (Inr (ei_profile ident), w2)
    \<and> ei_provider ident = op_id p \<and> \<not> ei_email_verified ident
    \<and> (json_get (ei_profile ident) (op_subject_field p) = Some (JString (ei_subject ident))
         \<and> ei_subject ident \<noteq> []
       \<or> json_get (ei_profile ident) (op_subject_field p) = Some (JNumber (ei_subject ident)))
    \<and> ei_email ident \<noteq> Some [] \<and> ei_name ident \<noteq> Some []"
proof -
  obtain ex w1 where ex: "request_token A \<lparr>tr_client = op_client p, tr_code = code,
      tr_pkce_verifier = pn_pkce_verifier pending\<rparr> w = (ex, w1)"
    by (cases "request_token A \<lparr>tr_client = op_client p, tr_code = code,
      tr_pkce_verifier = pn_pkce_verifier pending\<rparr> w")
  with assms obtain token where token: "ex = Inr token"
    by (cases ex) (auto simp: oauth2_identify_def)
  obtain got w2 where got: "fetch_userinfo A (op_userinfo_url p) (access_token A token) w1 = (got, w2)"
    by (cases "fetch_userinfo A (op_userinfo_url p) (access_token A token) w1")
  with assms ex token obtain profile where profile: "got = Inr profile"
    by (cases got) (auto simp: oauth2_identify_def)
  with assms ex token got obtain subject where subject: "subject_of profile (op_subject_field p) = Some subject"
    by (cases "subject_of profile (op_subject_field p)") (auto simp: oauth2_identify_def)
  with assms ex token got profile have ident: "ident = \<lparr>ei_provider = op_id p, ei_subject = subject,
      ei_email = string_field profile (op_email_field p), ei_email_verified = False,
      ei_name = string_field profile (op_name_field p), ei_profile = profile\<rparr>"
    by (simp add: oauth2_identify_def)
  have "json_get profile (op_subject_field p) = Some (JString subject) \<and> subject \<noteq> []
      \<or> json_get profile (op_subject_field p) = Some (JNumber subject)"
    using subject by (auto simp: subject_of_def split: option.splits json.splits if_splits)
  with ex token got profile ident show ?thesis
    by (auto dest: string_field_nonempty)
qed

text \<open>A provider whose token is the code and whose profile has the code as its id.\<close>

definition echo_oauth2 :: "(string, string, string, nat) oauth2_api" where
  "echo_oauth2 =
     \<lparr>redirect_url_new = Inr, auth_url_new = Inr, token_url_new = Inr, userinfo_url_parse = Inr,
      random_state = (\<lambda>w. (dec_string w, Suc w)), random_pkce = (\<lambda>w. ((''c'', ''v''), Suc w)),
      authorize_request_url = ar_state, request_token = (\<lambda>r w. (Inr (tr_code r), w)),
      access_token = id, http_get = (\<lambda>url tok hs w. (Inr tok, w)), error_for_status = Inr,
      resp_json = (\<lambda>tok w. (Inr (JObject [(''id'', JString tok)]), w))\<rparr>"

definition echo_provider :: "string oauth2_provider" where
  "echo_provider =
     \<lparr>op_id = ''ogs'', op_client = \<lparr>oc_client_id = ''abc'', oc_auth_uri = [], oc_token_uri = [],
        oc_redirect_uri = [], oc_auth_type = BasicAuth, oc_client_secret = None\<rparr>,
      op_scopes = [], op_pkce = True, op_userinfo_url = [], op_subject_field = ''id'',
      op_email_field = None, op_name_field = None\<rparr>"

definition echo_pending :: pending_login where
  "echo_pending = \<lparr>pn_provider = ''ogs'', pn_state = ''s'', pn_pkce_verifier = Some ''v'',
     pn_nonce = None, pn_next = ''/'', pn_link = False, pn_created_at = 0\<rparr>"

lemma echo_identify:
  "oauth2_identify echo_oauth2 echo_provider ''code'' echo_pending 0
     = (Inr \<lparr>ei_provider = ''ogs'', ei_subject = ''code'', ei_email = None, ei_email_verified = False,
             ei_name = None, ei_profile = JObject [(''id'', JString ''code'')]\<rparr>, 0)"
  by (simp add: oauth2_identify_def echo_oauth2_def echo_provider_def echo_pending_def
      fetch_userinfo_def subject_of_def string_field_def)

theorem oauth2_identity_sound_witness:
  "\<exists>ident. oauth2_identify echo_oauth2 echo_provider ''code'' echo_pending 0 = (Inr ident, 0)
     \<and> ei_provider ident = ''ogs'' \<and> \<not> ei_email_verified ident"
proof -
  have "op_id echo_provider = ''ogs''" by (simp add: echo_provider_def)
  with oauth2_identity_sound [OF echo_identify] echo_identify show ?thesis by metis
qed

text \<open>
  The OpenID Connect client is cached. After a discovery that succeeded, a request within the
  configured lifetime gets that client without touching the network or the provider, and a later
  one behaves as a forced one, which always rediscovers. A discovery that failed leaves the provider
  as it was, so a client of an earlier one stays usable while it is fresh.
\<close>

theorem oidc_client_cache:
  assumes "cached_client A p force w = None" and "oidc_client A p force w = (res, p', w')"
  shows "(\<forall>cl. res = Inr cl \<longrightarrow>
           (\<exists>metadata. discover A (dp_issuer p) w = (Inr metadata, w'))
           \<and> (\<forall>w2. oidc_client A p' False w2 =
                (if instant_now A w2 - instant_now A w' < dp_ttl p then (Inr cl, p', w2)
                 else oidc_client A p' True w2)))
    \<and> (\<forall>w2. cached_client A p' True w2 = None)
    \<and> (is_err res \<longrightarrow> p' = p \<and> is_err (fst (discover A (dp_issuer p) w)))"
proof -
  have forced: "cached_client A q True v = None" for q v
    by (auto simp: cached_client_def split: option.splits)
  obtain found w1 where found: "discover A (dp_issuer p) w = (found, w1)"
    by (cases "discover A (dp_issuer p) w")
  show ?thesis
  proof (cases found)
    case (Inl e)
    with assms found forced show ?thesis by (auto simp: oidc_client_def)
  next
    case (Inr metadata)
    with assms found obtain cl where
      p': "res = Inr cl" "w' = w1" "p' = p\<lparr>dp_client := Some (cl, instant_now A w1)\<rparr>"
      by (auto simp: oidc_client_def Let_def)
    have fresh: "cached_client A p' False w2
        = (if instant_now A w2 - instant_now A w1 < dp_ttl p then Some cl else None)" for w2
      using p' by (simp add: cached_client_def)
    have "oidc_client A p' False w2 =
        (if instant_now A w2 - instant_now A w1 < dp_ttl p then (Inr cl, p', w2)
         else oidc_client A p' True w2)" for w2
      by (simp add: oidc_client_def fresh forced)
    with p' found Inr forced show ?thesis by auto
  qed
qed

text \<open>An issuer that is always reachable; the world is the time, and discovery takes a tick.\<close>

definition tick_oidc :: "(nat, nat, nat, nat, nat, nat, nat, string, nat) oidc_api" where
  "tick_oidc =
     \<lparr>issuer_url_new = Inr, discover = (\<lambda>i w. (Inr w, Suc w)),
      client_from_metadata = (\<lambda>m c s r. m), instant_now = id,
      oidc_random_pkce = (\<lambda>w. ((''c'', ''v''), w)), oidc_random_state = (\<lambda>w. (dec_string w, w)),
      oidc_random_nonce = (\<lambda>w. (''n'', w)), oidc_request_url = or_state,
      exchange_code = (\<lambda>cl c. Inr ()), oidc_request_token = (\<lambda>cl c v w. (Inr 0, w)),
      id_token = (\<lambda>tok. Some 7), verify_claims = (\<lambda>idt cl nonce w. if 5 \<le> cl then Inr idt else Inl ''key''),
      access_token_hash = (\<lambda>c. None), signing_alg = Inr, signing_key = (\<lambda>i c. Inr c),
      hash_from_token = (\<lambda>tok a k. Inr []), claim_subject = dec_string, claim_email = (\<lambda>c. None),
      claim_email_verified = (\<lambda>c. None), claim_name = (\<lambda>c. None), claims_to_value = (\<lambda>c. Inr JNull)\<rparr>"

definition tick_provider :: "nat oidc_provider" where
  "tick_provider = \<lparr>dp_id = ''google'', dp_issuer = [], dp_client_id = ''id'', dp_client_secret = [],
     dp_redirect = [], dp_scopes = [], dp_ttl = 10, dp_client = None\<rparr>"

theorem oidc_client_cache_witness:
  "oidc_client tick_oidc (tick_provider\<lparr>dp_client := Some (3, 4)\<rparr>) False 13
     = (Inr 3, tick_provider\<lparr>dp_client := Some (3, 4)\<rparr>, 13)"
proof -
  have "cached_client tick_oidc tick_provider False 3 = None"
    and "oidc_client tick_oidc tick_provider False 3
      = (Inr 3, tick_provider\<lparr>dp_client := Some (3, 4)\<rparr>, 4)"
    by (simp_all add: oidc_client_def cached_client_def tick_oidc_def tick_provider_def)
  note p = oidc_client_cache [OF this]
  have "instant_now tick_oidc = id" "dp_ttl tick_provider = 10"
    by (simp_all add: tick_oidc_def tick_provider_def)
  with p show ?thesis by simp
qed

definition counts_discovery ::
    "('meta, 'ocl, 'idt, 'clm, 'otok, 'alg, 'key, 'url, 'w) oidc_api \<Rightarrow> ('w \<Rightarrow> nat) \<Rightarrow> bool" where
  "counts_discovery A n \<longleftrightarrow>
     (\<forall>i w. n (snd (discover A i w)) = Suc (n w))
     \<and> (\<forall>cl c v w. n (snd (oidc_request_token A cl c v w)) = n w)"

lemma oidc_client_count:
  assumes "counts_discovery A n" and "oidc_client A p force w = (r, p', w')"
  shows "n w' \<le> Suc (n w)"
proof (cases "cached_client A p force w")
  case (Some cl)
  with assms show ?thesis by (simp add: oidc_client_def)
next
  case None
  obtain found w1 where found: "discover A (dp_issuer p) w = (found, w1)"
    by (cases "discover A (dp_issuer p) w")
  have "n w1 = Suc (n w)"
    using assms(1) found unfolding counts_discovery_def by (metis snd_conv)
  with assms(2) None found show ?thesis
    by (cases found) (auto simp: oidc_client_def Let_def)
qed

text \<open>The claims \<open>claims\<close> were verified under \<open>cl\<close>, directly or after a rediscovery.\<close>

lemma oidc_claims_verified:
  assumes "oidc_claims A p cl idt nonce w = (Inr (claims, cl'), p', w')"
  shows "verify_claims A idt cl nonce w = Inr claims \<and> cl' = cl \<and> p' = p \<and> w' = w
    \<or> (\<exists>e. verify_claims A idt cl nonce w = Inl e) \<and> oidc_client A p True w = (Inr cl', p', w')
        \<and> verify_claims A idt cl' nonce w' = Inr claims"
  using assms by (auto simp: oidc_claims_def split: sum.splits prod.splits)

lemma check_at_hash_ok:
  assumes "check_at_hash A cl token idt claims = Inr ()" and "access_token_hash A claims = Some h"
  shows "\<exists>alg key. signing_alg A idt = Inr alg \<and> signing_key A idt cl = Inr key
    \<and> hash_from_token A token alg key = Inr h"
  using assms by (auto simp: check_at_hash_def split: sum.splits if_splits)

text \<open>
  C17: an OpenID Connect sign-in that succeeds has a nonce, redeemed its code with the stored
  verifier at a cached or rediscovered client, and its identity comes from claims of the ID token
  that passed verification against that nonce: under that client, with nothing more asked of the
  issuer, or, only when that check failed, under a client rediscovered after it; a hash of the access
  token among the claims matches the token. At most two discoveries are made.
\<close>

theorem oidc_identity_sound:
  assumes "counts_discovery A n" and "oidc_identify A p code pending w = (Inr ident, p', w')"
  shows "\<exists>nonce cl p1 w1 token w2 idt cl' claims.
      pn_nonce pending = Some nonce
    \<and> oidc_client A p False w = (Inr cl, p1, w1) \<and> exchange_code A cl code = Inr ()
    \<and> oidc_request_token A cl code (pn_pkce_verifier pending) w1 = (Inr token, w2)
    \<and> id_token A token = Some idt
    \<and> (verify_claims A idt cl nonce w2 = Inr claims \<and> cl' = cl \<and> p' = p1 \<and> w' = w2
       \<or> (\<exists>e. verify_claims A idt cl nonce w2 = Inl e) \<and> oidc_client A p1 True w2 = (Inr cl', p', w')
           \<and> verify_claims A idt cl' nonce w' = Inr claims)
    \<and> (\<forall>h. access_token_hash A claims = Some h \<longrightarrow>
         (\<exists>alg key. signing_alg A idt = Inr alg \<and> signing_key A idt cl' = Inr key
            \<and> hash_from_token A token alg key = Inr h))
    \<and> ident = oidc_identity A p' claims \<and> ei_provider ident = dp_id p
    \<and> n w' \<le> n w + 2"
proof -
  obtain nonce where nonce: "pn_nonce pending = Some nonce"
    using assms(2) by (cases "pn_nonce pending") (auto simp: oidc_identify_def)
  obtain cl p1 w1 where cl: "oidc_client A p False w = (Inr cl, p1, w1)"
    using assms(2) nonce by (auto simp: oidc_identify_def split: prod.splits sum.splits)
  have exch: "exchange_code A cl code = Inr ()"
    using assms(2) nonce cl by (auto simp: oidc_identify_def split: prod.splits sum.splits)
  obtain token w2 where token:
    "oidc_request_token A cl code (pn_pkce_verifier pending) w1 = (Inr token, w2)"
    using assms(2) nonce cl exch by (auto simp: oidc_identify_def split: prod.splits sum.splits)
  obtain idt where idt: "id_token A token = Some idt"
    using assms(2) nonce cl exch token by (auto simp: oidc_identify_def split: option.splits)
  obtain claims cl' where claims: "oidc_claims A p1 cl idt nonce w2 = (Inr (claims, cl'), p', w')"
    and hash: "check_at_hash A cl' token idt claims = Inr ()"
    and ident: "ident = oidc_identity A p' claims"
    using assms(2) nonce cl exch token idt
    by (auto simp: oidc_identify_def split: prod.splits sum.splits)
  note verified = oidc_claims_verified [OF claims]
  have "n w2 \<le> Suc (n w)"
    using oidc_client_count [OF assms(1) cl] assms(1) token unfolding counts_discovery_def
    by (metis snd_conv)
  moreover have "n w' \<le> Suc (n w2)"
    using verified oidc_client_count [OF assms(1), of p1 True w2 "Inr cl'" p' w'] by auto
  ultimately have "n w' \<le> n w + 2" by linarith
  moreover have "ei_provider ident = dp_id p"
    using oidc_identify_id(2) [OF assms(2) refl] .
  ultimately show ?thesis
    using nonce cl exch token idt verified ident check_at_hash_ok [OF hash] by blast
qed

lemma tick_oidc_counts: "counts_discovery tick_oidc id"
  by (simp add: counts_discovery_def tick_oidc_def)

lemma tick_identify:
  "oidc_identify tick_oidc tick_provider ''code'' (echo_pending\<lparr>pn_nonce := Some ''n''\<rparr>) 4
     = (Inr (oidc_identity tick_oidc (tick_provider\<lparr>dp_client := Some (5, 6)\<rparr>) 7),
        tick_provider\<lparr>dp_client := Some (5, 6)\<rparr>, 6)"
  by (simp add: oidc_identify_def oidc_client_def cached_client_def oidc_claims_def check_at_hash_def
      tick_oidc_def tick_provider_def)

theorem oidc_identity_sound_witness:
  "\<exists>ident p'. oidc_identify tick_oidc tick_provider ''code'' (echo_pending\<lparr>pn_nonce := Some ''n''\<rparr>) 4
     = (Inr ident, p', 6) \<and> ei_provider ident = ''google''
   \<and> verify_claims tick_oidc 7 4 ''n'' 5 = Inl ''key''"
proof -
  have "dp_id tick_provider = ''google''" "verify_claims tick_oidc 7 4 ''n'' 5 = Inl ''key''"
    by (simp_all add: tick_provider_def tick_oidc_def)
  with oidc_identity_sound [OF tick_oidc_counts tick_identify] tick_identify show ?thesis by metis
qed

end
