(* ===== verification/Auth_Redirect.thy ===== *)
theory Auth_Redirect
  imports Muxa_Prelude
begin

text \<open>
  \<open>muxa-auth/src/redirect.rs\<close>: keeping redirect targets on the site, and adding query parameters
  to them. \<open>form_urlencoded::Serializer\<close> is a parameter: the text it gives for a list of pairs.
\<close>

definition next_acceptable :: "string \<Rightarrow> bool" where
  "next_acceptable path =
     (starts_with ''/'' path
      \<and> \<not> starts_with ''//'' path
      \<and> \<not> contains_sub [CHR 0x5C] path
      \<and> \<not> contains_sub ''://'' path
      \<and> \<not> list_ex char_is_control (utf8_chars path)
      \<and> length path \<le> 2048)"

definition safe_next :: "string option \<Rightarrow> string \<Rightarrow> string" where
  "safe_next nxt fallback =
     (case nxt of
        Some path \<Rightarrow> if next_acceptable path then path else fallback
      | None \<Rightarrow> fallback)"

definition with_query :: "((string \<times> string) list \<Rightarrow> string) \<Rightarrow> string \<Rightarrow> (string \<times> string) list \<Rightarrow> string" where
  "with_query encode path pairs =
     (if pairs = [] then path
      else
        (let (base, fragment) =
               (case split_once CHR ''#'' path of
                  Some (base, fragment) \<Rightarrow> (base, Some fragment)
                | None \<Rightarrow> (path, None));
             separator = (if CHR ''?'' \<in> set base then CHR ''&'' else CHR ''?'');
             out = base @ [separator] @ encode pairs
         in case fragment of Some fragment \<Rightarrow> out @ ''#'' @ fragment | None \<Rightarrow> out))"

section \<open>What a browser makes of a target\<close>

text \<open>
  How a browser reads a redirect target that starts with a slash: it drops leading white space and
  control bytes, drops tabs and line breaks anywhere, and reads a backslash as a slash. The target
  stays on the site when what is left is a path, that is, has exactly one leading slash.
\<close>

definition browser_reading :: "string \<Rightarrow> string" where
  "browser_reading s =
     map (\<lambda>c. if c = CHR 0x5C then CHR ''/'' else c)
       (filter (\<lambda>c. byte c \<notin> {9, 10, 13}) (dropWhile (\<lambda>c. byte c \<le> 32) s))"

definition stays_on_site :: "string \<Rightarrow> bool" where
  "stays_on_site s = (starts_with ''/'' (browser_reading s) \<and> \<not> starts_with ''//'' (browser_reading s))"

text \<open>A target that is a plain path: nothing in it is dropped or read as something else.\<close>

definition plain_path :: "string \<Rightarrow> bool" where
  "plain_path s =
     (starts_with ''/'' s \<and> \<not> starts_with ''//'' s \<and> CHR 0x5C \<notin> set s
      \<and> list_all (\<lambda>c. 32 \<le> byte c) s)"

lemma plain_path_reading: "plain_path s \<Longrightarrow> browser_reading s = s"
proof -
  assume p: "plain_path s"
  then obtain r where s: "s = CHR ''/'' # r" by (auto simp: plain_path_def starts_with_iff)
  have "dropWhile (\<lambda>c. byte c \<le> 32) s = s" by (simp add: s byte_def)
  moreover have "filter (\<lambda>c. byte c \<notin> {9, 10, 13}) s = s"
    using p by (auto simp: plain_path_def list_all_iff filter_id_conv)
  moreover have "map (\<lambda>c. if c = CHR 0x5C then CHR ''/'' else c) s = s"
    using p by (intro map_idI) (auto simp: plain_path_def)
  ultimately show ?thesis by (simp add: browser_reading_def)
qed

lemma plain_path_on_site: "plain_path s \<Longrightarrow> stays_on_site s"
  by (simp add: stays_on_site_def plain_path_reading) (simp add: plain_path_def)

lemma next_acceptable_plain:
  assumes "is_str s" and "next_acceptable s"
  shows "plain_path s"
proof -
  have "32 \<le> byte c" if c: "c \<in> set s" for c
  proof (rule ccontr)
    assume "\<not> 32 \<le> byte c"
    with is_str_ascii_char [OF assms(1) c] have "[c] \<in> set (utf8_chars s)" "char_is_control [c]"
      by (auto simp: char_is_control_def)
    with assms(2) show False by (auto simp: next_acceptable_def list_ex_iff)
  qed
  with assms(2) show ?thesis
    by (auto simp: plain_path_def next_acceptable_def list_all_iff)
qed

section \<open>The parts of a target\<close>

text \<open>Path, query and fragment.\<close>

definition target_parts :: "string \<Rightarrow> string \<times> string option \<times> string option" where
  "target_parts s =
     (let (base, fragment) =
            (case split_once CHR ''#'' s of Some (b, f) \<Rightarrow> (b, Some f) | None \<Rightarrow> (s, None))
      in case split_once CHR ''?'' base of
           Some (p, q) \<Rightarrow> (p, Some q, fragment)
         | None \<Rightarrow> (base, None, fragment))"

lemma split_once_eqI: "c \<notin> set a \<Longrightarrow> split_once c (a @ c # b) = Some (a, b)"
  by (simp add: split_once_Some)

lemma split_once_eq_None: "c \<notin> set s \<Longrightarrow> split_once c s = None"
  by (simp add: split_once_None)

text \<open>Every target is assembled from its parts, and in one way only.\<close>

definition assemble :: "string \<Rightarrow> string option \<Rightarrow> string option \<Rightarrow> string" where
  "assemble p q f =
     p @ (case q of Some q \<Rightarrow> CHR ''?'' # q | None \<Rightarrow> [])
       @ (case f of Some f \<Rightarrow> CHR ''#'' # f | None \<Rightarrow> [])"

definition proper_parts :: "string \<Rightarrow> string option \<Rightarrow> bool" where
  "proper_parts p q \<longleftrightarrow>
     CHR ''?'' \<notin> set p \<and> CHR ''#'' \<notin> set p \<and> (\<forall>q'. q = Some q' \<longrightarrow> CHR ''#'' \<notin> set q')"

lemma target_parts_assemble:
  assumes "proper_parts p q"
  shows "target_parts (assemble p q f) = (p, q, f)"
proof -
  let ?b = "p @ (case q of Some q \<Rightarrow> CHR ''?'' # q | None \<Rightarrow> [])"
  have nh: "CHR ''#'' \<notin> set ?b" using assms by (auto simp: proper_parts_def split: option.splits)
  have b: "split_once CHR ''?'' ?b = (case q of Some q \<Rightarrow> Some (p, q) | None \<Rightarrow> None)"
    using assms by (auto simp: proper_parts_def split_once_eqI split_once_eq_None split: option.splits)
  show ?thesis
  proof (cases f)
    case None
    then have "assemble p q f = ?b" by (simp add: assemble_def)
    then show ?thesis
      using None b split_once_eq_None [OF nh] by (auto simp: target_parts_def split: option.splits)
  next
    case (Some f')
    then have "assemble p q f = ?b @ CHR ''#'' # f'" by (simp add: assemble_def)
    then show ?thesis
      using Some b split_once_eqI [OF nh, of f'] by (auto simp: target_parts_def split: option.splits)
  qed
qed

lemma cut_first:
  "\<exists>a (b :: string option). s = a @ (case b of Some b \<Rightarrow> c # b | None \<Rightarrow> []) \<and> c \<notin> set a"
proof (cases "c \<in> set s")
  case True
  from split_list_first [OF this] obtain a b where "s = a @ c # b" "c \<notin> set a" by blast
  then show ?thesis by (intro exI [of _ a] exI [of _ "Some b"]) simp
next
  case False
  then show ?thesis by (intro exI [of _ s] exI [of _ None]) simp
qed

lemma assemble_exists: "\<exists>p q f. s = assemble p q f \<and> proper_parts p q"
proof -
  obtain b f where b: "s = b @ (case f of Some f \<Rightarrow> CHR ''#'' # f | None \<Rightarrow> [])" "CHR ''#'' \<notin> set b"
    using cut_first by blast
  obtain p q where p: "b = p @ (case q of Some q \<Rightarrow> CHR ''?'' # q | None \<Rightarrow> [])" "CHR ''?'' \<notin> set p"
    using cut_first by blast
  have "s = assemble p q f" using b p by (simp add: assemble_def)
  moreover have "proper_parts p q" using b p by (auto simp: proper_parts_def split: option.splits)
  ultimately show ?thesis by blast
qed

lemma assemble_target_parts:
  assumes "target_parts s = (p, q, f)"
  shows "s = assemble p q f" and "proper_parts p q"
  using assms assemble_exists [of s] target_parts_assemble by auto

lemma with_query_assemble:
  assumes "proper_parts p q" and "pairs \<noteq> []"
  shows "with_query encode (assemble p q f) pairs
    = assemble p (Some ((case q of None \<Rightarrow> [] | Some q \<Rightarrow> q @ ''&'') @ encode pairs)) f"
proof -
  let ?b = "p @ (case q of Some q \<Rightarrow> CHR ''?'' # q | None \<Rightarrow> [])"
  have nh: "CHR ''#'' \<notin> set ?b" using assms by (auto simp: proper_parts_def split: option.splits)
  have sep: "CHR ''?'' \<in> set ?b \<longleftrightarrow> q \<noteq> None"
    using assms by (auto simp: proper_parts_def split: option.splits)
  show ?thesis
  proof (cases f)
    case None
    then have "assemble p q f = ?b" by (simp add: assemble_def)
    then show ?thesis
      using assms None split_once_eq_None [OF nh] sep
      by (cases q) (simp_all add: with_query_def assemble_def)
  next
    case (Some f')
    then have "assemble p q f = ?b @ CHR ''#'' # f'" by (simp add: assemble_def)
    then show ?thesis
      using assms Some split_once_eqI [OF nh, of f'] sep
      by (cases q) (simp_all add: with_query_def assemble_def)
  qed
qed

section \<open>Properties\<close>

text \<open>
  The encoder's output, as documented: letters, digits and \<open>*-._+%&=\<close> only.
\<close>

definition form_safe :: "((string \<times> string) list \<Rightarrow> string) \<Rightarrow> bool" where
  "form_safe encode \<longleftrightarrow>
     (\<forall>ps. list_all (\<lambda>c. is_ascii_alphanumeric c \<or> c \<in> set ''*-._+%&='') (encode ps))"

lemma form_safe_bytes:
  assumes "form_safe encode" and "c \<in> set (encode ps)"
  shows "32 \<le> byte c" and "c \<noteq> CHR 0x5C" and "c \<noteq> CHR ''#''"
proof -
  from assms have c: "is_ascii_alphanumeric c \<or> c \<in> set ''*-._+%&=''"
    by (auto simp: form_safe_def list_all_iff)
  then show "32 \<le> byte c"
    by (auto simp: is_ascii_alphanumeric_def is_ascii_lowercase_def is_ascii_uppercase_def
        is_ascii_digit_def byte_def)
  show "c \<noteq> CHR 0x5C" "c \<noteq> CHR ''#''"
    using c by (auto simp: is_ascii_alphanumeric_def is_ascii_lowercase_def
        is_ascii_uppercase_def is_ascii_digit_def byte_def)
qed

lemma assemble_slash:
  "starts_with ''/'' (assemble p q f) \<longleftrightarrow> starts_with ''/'' p"
  "starts_with ''//'' (assemble p q f) \<longleftrightarrow> starts_with ''//'' p"
proof -
  show "starts_with ''/'' (assemble p q f) \<longleftrightarrow> starts_with ''/'' p"
    by (cases p) (simp_all add: assemble_def split: option.splits)
  show "starts_with ''//'' (assemble p q f) \<longleftrightarrow> starts_with ''//'' p"
  proof (cases p)
    case Nil
    then show ?thesis by (simp add: assemble_def split: option.splits)
  next
    case (Cons x xs)
    then show ?thesis by (cases xs) (auto simp: assemble_def split: option.splits)
  qed
qed

lemma with_query_plain:
  assumes "form_safe encode" and "plain_path s"
  shows "plain_path (with_query encode s pairs)"
proof (cases "pairs = []")
  case True
  with assms show ?thesis by (simp add: with_query_def)
next
  case False
  obtain p q f where parts: "s = assemble p q f" "proper_parts p q" using assemble_exists by blast
  let ?q = "(case q of None \<Rightarrow> [] | Some q \<Rightarrow> q @ ''&'') @ encode pairs"
  have out: "with_query encode s pairs = assemble p (Some ?q) f"
    using with_query_assemble [OF parts(2) False] parts(1) by simp
  have chars: "c \<in> set s \<or> c \<in> set (encode pairs) \<or> c \<in> {CHR ''?'', CHR ''&''}"
    if "c \<in> set (assemble p (Some ?q) f)" for c
    using that parts(1) by (auto simp: assemble_def split: option.splits)
  have "32 \<le> byte c \<and> c \<noteq> CHR 0x5C" if "c \<in> set (assemble p (Some ?q) f)" for c
    using chars [OF that] assms(2) form_safe_bytes [OF assms(1), of c pairs]
    by (auto simp: plain_path_def list_all_iff byte_def)
  moreover have "starts_with ''/'' (assemble p (Some ?q) f)" "\<not> starts_with ''//'' (assemble p (Some ?q) f)"
    using assms(2) parts by (simp_all add: plain_path_def assemble_slash)
  ultimately show ?thesis by (auto simp: plain_path_def out list_all_iff)
qed

text \<open>
  C5: a sign-in never redirects off the site. Whatever \<open>next\<close> a request carries, the target built
  from it, with whatever query parameters are appended, is one that a browser resolves on the same
  site, given that the configured fallback is a path; a \<open>next\<close> that a browser would take elsewhere
  is replaced by the fallback, and an acceptable one is kept as it is.
\<close>

theorem redirects_stay_on_site:
  assumes "is_str nxt" and "plain_path fallback" and "form_safe encode"
  shows "stays_on_site (with_query encode (safe_next (Some nxt) fallback) pairs)
    \<and> stays_on_site (with_query encode (safe_next None fallback) pairs)
    \<and> (\<not> stays_on_site nxt \<longrightarrow> safe_next (Some nxt) fallback = fallback)
    \<and> (next_acceptable nxt \<longrightarrow> safe_next (Some nxt) fallback = nxt)"
proof -
  have plain: "next_acceptable nxt \<Longrightarrow> plain_path nxt"
    by (rule next_acceptable_plain [OF assms(1)])
  then have "plain_path (safe_next (Some nxt) fallback)"
    using assms(2) by (simp add: safe_next_def)
  then show ?thesis
    using plain plain_path_on_site with_query_plain [OF assms(3)] assms(2)
    by (auto simp: safe_next_def)
qed

definition demo_encode :: "(string \<times> string) list \<Rightarrow> string" where
  "demo_encode ps = concat (map (\<lambda>(k, v). filter is_ascii_alphanumeric k @ ''=''
     @ filter is_ascii_alphanumeric v) ps)"

lemma demo_encode_safe: "form_safe demo_encode"
  by (auto simp: form_safe_def demo_encode_def list_all_iff)

theorem redirects_stay_on_site_witness:
  "safe_next (Some ''//evil.example'') ''/home'' = ''/home''
   \<and> stays_on_site (with_query demo_encode (safe_next (Some ''//evil.example'') ''/home'') [(''e'', ''1'')])"
proof -
  have "is_str ''//evil.example''" "plain_path ''/home''" "\<not> stays_on_site ''//evil.example''"
    by code_simp+
  with redirects_stay_on_site [OF this(1,2) demo_encode_safe, of "[(''e'', ''1'')]"]
  show ?thesis by blast
qed

text \<open>
  Appending query parameters changes the query of a target and nothing else: the path and the
  fragment stay, parameters already there stay in front of the new ones, and without pairs the
  target is unchanged.
\<close>

theorem with_query_parts:
  assumes "form_safe encode" and "target_parts path = (p, q, f)"
  shows "with_query encode path [] = path
    \<and> (pairs \<noteq> [] \<longrightarrow>
        target_parts (with_query encode path pairs)
          = (p, Some ((case q of None \<Rightarrow> [] | Some q \<Rightarrow> q @ ''&'') @ encode pairs), f))"
proof -
  note parts = assemble_target_parts [OF assms(2)]
  let ?q = "(case q of None \<Rightarrow> [] | Some q \<Rightarrow> q @ ''&'') @ encode pairs"
  have "proper_parts p (Some ?q)"
    using parts(2) form_safe_bytes(3) [OF assms(1)]
    by (auto simp: proper_parts_def split: option.splits)
  then have "target_parts (assemble p (Some ?q) f) = (p, Some ?q, f)"
    by (rule target_parts_assemble)
  then show ?thesis
    using with_query_assemble [OF parts(2), of pairs encode f] parts(1)
    by (simp add: with_query_def [of encode _ "[]"])
qed

theorem with_query_parts_witness:
  "target_parts (with_query demo_encode ''/p?next=1#top'' [(''e'', ''x'')])
     = (''/p'', Some ''next=1&e=x'', Some ''top'')"
proof -
  have "target_parts ''/p?next=1#top'' = (''/p'', Some ''next=1'', Some ''top'')"
    and "demo_encode [(''e'', ''x'')] = ''e=x''"
    by code_simp+
  with with_query_parts [OF demo_encode_safe this(1), of "[(''e'', ''x'')]"]
  show ?thesis by simp
qed

end
