(* ===== verification/Auth_Routes.thy ===== *)
theory Auth_Routes
  imports Auth_Provider Auth_Redirect
begin

text \<open>
  \<open>muxa-auth/src/routes.rs\<close>: the sign-in routes \<open>start\<close>, \<open>callback\<close> and \<open>sign_out\<close>, and the
  sign-ins in progress that the session keeps between the first two.

  The session is tower-sessions' and the login state axum-login's: \<open>'s\<close> is the session with its
  store behind it, read and written through \<open>routes_api\<close>. A session stores the pending sign-ins as
  a map, and gives back a map with the same entries in an order of its own. \<open>'p\<close> is a provider
  with its cell, \<open>'u\<close> a user, \<open>'w\<close> the rest of the world.
\<close>

definition PENDING_KEY :: string where
  "PENDING_KEY = ''muxa_auth.pending''"

definition MAX_PENDING :: nat where
  "MAX_PENDING = 4"

type_synonym pending_map = "(string, pending_login) hmap"

record 's session_api =
  session_get :: "string \<Rightarrow> 's \<Rightarrow> (string + pending_map option) \<times> 's"
  session_insert :: "string \<Rightarrow> pending_map \<Rightarrow> 's \<Rightarrow> (string + unit) \<times> 's"
  session_remove :: "string \<Rightarrow> 's \<Rightarrow> (string + pending_map option) \<times> 's"

section \<open>Pending sign-ins\<close>

definition is_fresh :: "u64 \<Rightarrow> pending_login \<Rightarrow> bool" where
  "is_fresh now attempt = (saturating_sub now (pn_created_at attempt) < PENDING_TTL_SECS)"

text \<open>\<open>min_by_key\<close>: the first of the smallest elements, in iteration order.\<close>

fun min_by_key :: "('a \<Rightarrow> 'k :: linorder) \<Rightarrow> 'a list \<Rightarrow> 'a option" where
  "min_by_key f [] = None"
| "min_by_key f (x # xs) =
     (case min_by_key f xs of
        None \<Rightarrow> Some x
      | Some y \<Rightarrow> if f x \<le> f y then Some x else Some y)"

definition oldest :: "pending_map \<Rightarrow> string option" where
  "oldest m = map_option fst (min_by_key (\<lambda>e. pn_created_at (snd e)) m)"

lemma min_by_key_in: "min_by_key f xs = Some x \<Longrightarrow> x \<in> set xs"
  by (induction xs arbitrary: x) (auto split: option.splits if_splits)

lemma min_by_key_le: "min_by_key f xs = Some x \<Longrightarrow> y \<in> set xs \<Longrightarrow> f x \<le> f y"
proof (induction xs arbitrary: x y)
  case Nil
  then show ?case by simp
next
  case (Cons a xs)
  show ?case
  proof (cases "min_by_key f xs")
    case None
    then have "xs = []" by (cases xs) (auto split: option.splits if_splits)
    with Cons.prems show ?thesis by auto
  next
    case (Some z)
    with Cons.IH [OF Some] Cons.prems show ?thesis
      by (auto split: if_splits) (meson dual_order.trans linear order_trans)+
  qed
qed

lemma min_by_key_None [simp]: "min_by_key f xs = None \<longleftrightarrow> xs = []"
  by (cases xs) (auto split: option.splits if_splits)

function evict :: "pending_map \<Rightarrow> pending_map" where
  "evict m =
     (if MAX_PENDING \<le> length m
      then (case oldest m of
              None \<Rightarrow> m
            | Some state \<Rightarrow> evict (hm_remove state m))
      else m)"
  by pat_completeness auto
termination
proof (relation "measure length")
  fix m :: pending_map and state
  assume "oldest m = Some state"
  then obtain a where "(state, a) \<in> set m"
    by (auto simp: oldest_def dest: min_by_key_in)
  then have "state \<in> fst ` set m" by force
  then show "(hm_remove state m, m) \<in> measure length" by (simp add: length_hm_remove_less)
qed simp

declare evict.simps [simp del]

definition remember ::
    "'s session_api \<Rightarrow> u64 \<Rightarrow> pending_login \<Rightarrow> 's \<Rightarrow> (string + unit) \<times> 's" where
  "remember S now pending s =
     (case session_get S PENDING_KEY s of
        (Inl e, s) \<Rightarrow> (Inl e, s)
      | (Inr stored, s) \<Rightarrow>
          (let m = (case stored of Some m \<Rightarrow> m | None \<Rightarrow> []);
               m = filter (\<lambda>e. is_fresh now (snd e)) m;
               m = evict m;
               m = hm_insert (pn_state pending) pending m
           in session_insert S PENDING_KEY m s))"

text \<open>
  \<open>take\<close>: the state is compared in constant time with every key, which decides equality of bytes. The time
  is an argument: the code reads the clock last, and only when it found an attempt, but session and clock
  are separate parts of the state here, so the order cannot be observed.
\<close>

definition take_pending ::
    "'s session_api \<Rightarrow> u64 \<Rightarrow> string \<Rightarrow> 's \<Rightarrow> (string + pending_login option) \<times> 's" where
  "take_pending S now state s =
     (case session_get S PENDING_KEY s of
        (Inl e, s) \<Rightarrow> (Inl e, s)
      | (Inr None, s) \<Rightarrow> (Inr None, s)
      | (Inr (Some m), s) \<Rightarrow>
          (let key = find (\<lambda>k. k = state) (map fst m);
               found = Option.bind key (\<lambda>k. hm_get k m);
               m = (case key of Some k \<Rightarrow> hm_remove k m | None \<Rightarrow> m);
               (written, s) =
                 (if m = [] then session_remove S PENDING_KEY s
                  else (case session_insert S PENDING_KEY m s of
                          (Inl e, s) \<Rightarrow> (Inl e, s)
                        | (Inr _, s) \<Rightarrow> (Inr None, s)))
           in case written of
                Inl e \<Rightarrow> (Inl e, s)
              | Inr _ \<Rightarrow> (Inr (case found of
                                 Some attempt \<Rightarrow> if is_fresh now attempt then Some attempt else None
                               | None \<Rightarrow> None), s)))"

section \<open>The flow\<close>

record ('p, 'u, 'w) flow =
  fl_providers :: "'p bmap"
  fl_resolver :: "(json, 'u, 'w) identity_resolver"
  fl_sign_in_path :: string
  fl_default_next :: string
  fl_error_param :: string

record ('u, 's) auth_session =
  au_user :: "'u option"
  au_session :: 's

record ('p, 'u, 's, 'url, 'w) routes_api =
  ra_session :: "'s session_api"
  ra_authorize :: "'p \<Rightarrow> 'w \<Rightarrow> (provider_error + 'url authorization) \<times> 'p \<times> 'w"
  ra_identify :: "'p \<Rightarrow> string \<Rightarrow> pending_login \<Rightarrow> 'w
    \<Rightarrow> (provider_error + json external_identity) \<times> 'p \<times> 'w"
  ra_now :: "'w \<Rightarrow> u64 \<times> 'w"
  ra_encode :: "(string \<times> string) list \<Rightarrow> string"
  ra_url_str :: "'url \<Rightarrow> string"
  ra_login :: "'u \<Rightarrow> ('u, 's) auth_session \<Rightarrow> (string + unit) \<times> ('u, 's) auth_session"
  ra_logout :: "('u, 's) auth_session \<Rightarrow> (string + 'u option) \<times> ('u, 's) auth_session"

datatype response = RedirectTo string | Status nat

record return_to =
  rt_next :: string
  rt_link :: bool

definition refuse ::
    "((string \<times> string) list \<Rightarrow> string) \<Rightarrow> ('p, 'u, 'w) flow \<Rightarrow> refusal \<Rightarrow> return_to option \<Rightarrow> response" where
  "refuse encode fl refusal back =
     (let param = (case rf_param refusal of Some p \<Rightarrow> p | None \<Rightarrow> fl_error_param fl);
          target = (case back of
              Some b \<Rightarrow>
                if rt_link b
                then with_query encode (rt_next b) [(param, rf_code refusal)]
                else with_query encode (fl_sign_in_path fl)
                       [(param, rf_code refusal), (''next'', rt_next b)]
            | None \<Rightarrow> with_query encode (fl_sign_in_path fl) [(param, rf_code refusal)])
      in RedirectTo target)"

record start_query =
  sq_next :: "string option"
  sq_link :: "string option"

text \<open>A handler's state: the flow, the login state with its session, and the world.\<close>

type_synonym ('p, 'u, 's, 'w) rstate = "('p, 'u, 'w) flow \<times> ('u, 's) auth_session \<times> 'w"

definition put_provider :: "string \<Rightarrow> 'p \<Rightarrow> ('p, 'u, 'w) flow \<Rightarrow> ('p, 'u, 'w) flow" where
  "put_provider i p fl = fl\<lparr>fl_providers := bt_insert i p (fl_providers fl)\<rparr>"

definition start ::
    "('p, 'u, 's, 'url, 'w) routes_api \<Rightarrow> string \<Rightarrow> start_query \<Rightarrow> ('p, 'u, 's, 'w) rstate
      \<Rightarrow> response \<times> ('p, 'u, 's, 'w) rstate" where
  "start R prov_id query st =
     (case st of (fl, auth, w) \<Rightarrow>
        (let nxt = safe_next (sq_next query) (fl_default_next fl);
             link = (sq_link query = Some ''1'' \<or> sq_link query = Some ''true'');
             back = Some \<lparr>rt_next = nxt, rt_link = link\<rparr>;
             refused = (\<lambda>code back st. (refuse (ra_encode R) fl (refusal_new code) back, st))
         in case bt_get prov_id (fl_providers fl) of
              None \<Rightarrow> refused UNAVAILABLE back st
            | Some provider \<Rightarrow>
                if link \<and> au_user auth = None
                then refused SIGNED_OUT (Some \<lparr>rt_next = nxt, rt_link = False\<rparr>) st
                else
                  (case ra_authorize R provider w of
                     (Inl err, provider, w) \<Rightarrow>
                       refused PROVIDER_FAILED back (put_provider prov_id provider fl, auth, w)
                   | (Inr authorization, provider, w) \<Rightarrow>
                       (let fl = put_provider prov_id provider fl;
                            (created, w) = ra_now R w;
                            (now, w) = ra_now R w;
                            pending = \<lparr>pn_provider = prov_id, pn_state = az_state authorization,
                              pn_pkce_verifier = az_pkce_verifier authorization,
                              pn_nonce = az_nonce authorization, pn_next = nxt, pn_link = link,
                              pn_created_at = created\<rparr>
                        in case remember (ra_session R) now pending (au_session auth) of
                             (Inl err, s) \<Rightarrow>
                               refused FAILED back (fl, auth\<lparr>au_session := s\<rparr>, w)
                           | (Inr _, s) \<Rightarrow>
                               (RedirectTo (ra_url_str R (az_url authorization)),
                                (fl, auth\<lparr>au_session := s\<rparr>, w))))))"

record callback_query =
  cq_code :: "string option"
  cq_state :: "string option"
  cq_error :: "string option"

text \<open>The part of \<open>callback\<close> after the attempt was found: \<open>pending\<close> is fresh and taken.\<close>

definition finish_callback ::
    "('p, 'u, 's, 'url, 'w) routes_api \<Rightarrow> string \<Rightarrow> callback_query \<Rightarrow> pending_login
      \<Rightarrow> ('p, 'u, 's, 'w) rstate \<Rightarrow> response \<times> ('p, 'u, 's, 'w) rstate" where
  "finish_callback R prov_id query pending st =
     (case st of (fl, auth, w) \<Rightarrow>
        (let back = Some \<lparr>rt_next = pn_next pending, rt_link = pn_link pending\<rparr>;
             refused = (\<lambda>r back st. (refuse (ra_encode R) fl r back, st))
         in case cq_error query of
              Some error \<Rightarrow>
                refused (refusal_new (if error = ''access_denied'' then CANCELLED else PROVIDER_FAILED)) back st
            | None \<Rightarrow>
         (case (cq_code query, bt_get prov_id (fl_providers fl)) of
            (Some code, Some provider) \<Rightarrow>
         (case ra_identify R provider code pending w of
            (Inl err, provider, w) \<Rightarrow>
              refused (refusal_new PROVIDER_FAILED) back (put_provider prov_id provider fl, auth, w)
          | (Inr identity, provider, w) \<Rightarrow>
              (let fl = put_provider prov_id provider fl
               in if pn_link pending \<and> au_user auth = None
                  then refused (refusal_new SIGNED_OUT)
                         (Some \<lparr>rt_next = pn_next pending, rt_link = False\<rparr>) (fl, auth, w)
                  else
                    (case fl_resolver fl identity
                            \<lparr>rc_current_user = au_user auth, rc_link = pn_link pending\<rparr> w of
                       (Inl refusal, w) \<Rightarrow> refused refusal back (fl, auth, w)
                     | (Inr resolved, w) \<Rightarrow>
                         (case ra_login R (rs_user resolved) auth of
                            (Inl err, auth) \<Rightarrow> refused (refusal_new FAILED) back (fl, auth, w)
                          | (Inr _, auth) \<Rightarrow>
                              (RedirectTo (with_query (ra_encode R) (pn_next pending) (rs_query resolved)),
                               (fl, auth, w))))))
          | _ \<Rightarrow> refused (refusal_new PROVIDER_FAILED) back st)))"

definition callback ::
    "('p, 'u, 's, 'url, 'w) routes_api \<Rightarrow> string \<Rightarrow> callback_query \<Rightarrow> ('p, 'u, 's, 'w) rstate
      \<Rightarrow> response \<times> ('p, 'u, 's, 'w) rstate" where
  "callback R prov_id query st =
     (case st of (fl, auth, w) \<Rightarrow>
        (let (taken, s, w) =
               (case cq_state query of
                  Some state \<Rightarrow>
                    (let (now, w) = ra_now R w;
                         (taken, s) = take_pending (ra_session R) now state (au_session auth)
                     in (taken, s, w))
                | None \<Rightarrow> (Inr None, au_session auth, w));
             auth = auth\<lparr>au_session := s\<rparr>
         in case taken of
              Inl err \<Rightarrow> (refuse (ra_encode R) fl (refusal_new FAILED) None, (fl, auth, w))
            | Inr None \<Rightarrow> (refuse (ra_encode R) fl (refusal_new EXPIRED) None, (fl, auth, w))
            | Inr (Some pending) \<Rightarrow>
                if pn_provider pending = prov_id
                then finish_callback R prov_id query pending (fl, auth, w)
                else (refuse (ra_encode R) fl (refusal_new EXPIRED) None, (fl, auth, w))))"

definition sign_out ::
    "('p, 'u, 's, 'url, 'w) routes_api \<Rightarrow> ('u, 's) auth_session \<Rightarrow> response \<times> ('u, 's) auth_session" where
  "sign_out R auth =
     (case ra_logout R auth of
        (Inr _, auth) \<Rightarrow> (Status 204, auth)
      | (Inl err, auth) \<Rightarrow> (Status 500, auth))"

text \<open>The paths of the routes under \<open>mount\<close>, with the method each answers to.\<close>

definition route_paths :: "string \<Rightarrow> (string \<times> string) list" where
  "route_paths mount =
     (let mount = trim_end_matches CHR ''/'' mount
      in [(''GET'', mount @ ''/{provider}/start''), (''GET'', mount @ ''/{provider}/callback''),
          (''POST'', mount @ ''/sign-out'')])"

section \<open>Lemmas on the pending sign-ins\<close>

lemma hm_remove_member:
  assumes "hm_wf m" and "(k, a) \<in> set m"
  shows "set (hm_remove k m) = set m - {(k, a)}" and "length (hm_remove k m) = length m - 1"
proof -
  from assms show "set (hm_remove k m) = set m - {(k, a)}"
    by (force simp: hm_wf_def hm_remove_def dest: eq_key_imp_eq_value)
  from assms show "length (hm_remove k m) = length m - 1"
  proof (induction m)
    case Nil
    then show ?case by simp
  next
    case (Cons e m)
    show ?case
    proof (cases "fst e = k")
      case True
      with Cons.prems have "k \<notin> fst ` set m" by (simp add: hm_wf_def)
      then have "filter (\<lambda>x. fst x \<noteq> k) m = m" by (auto simp: filter_id_conv)
      with True show ?thesis by (simp add: hm_remove_def)
    next
      case False
      with Cons.prems have "(k, a) \<in> set m" "hm_wf m" by (auto simp: hm_wf_def)
      with Cons.IH False show ?thesis by (cases m) (auto simp: hm_remove_def)
    qed
  qed
qed

definition created :: "string \<times> pending_login \<Rightarrow> u64" where
  "created e = pn_created_at (snd e)"

lemma evict_spec:
  "hm_wf m \<Longrightarrow> hm_wf (evict m) \<and> length (evict m) = min 3 (length m) \<and> set (evict m) \<subseteq> set m
     \<and> (\<forall>e \<in> set m - set (evict m). \<forall>f \<in> set (evict m). created e \<le> created f)"
proof (induction m rule: evict.induct)
  case (1 m)
  show ?case
  proof (cases "MAX_PENDING \<le> length m")
    case False
    then have "evict m = m" by (simp add: evict.simps [of m])
    with False 1(2) show ?thesis by (simp add: MAX_PENDING_def)
  next
    case True
    then have "m \<noteq> []" by (auto simp: MAX_PENDING_def)
    then obtain k a where ka: "min_by_key (\<lambda>e. pn_created_at (snd e)) m = Some (k, a)"
      by (cases "min_by_key (\<lambda>e. pn_created_at (snd e)) m") auto
    then have old: "oldest m = Some k" by (simp add: oldest_def)
    have mem: "(k, a) \<in> set m" and least: "\<forall>f \<in> set m. created (k, a) \<le> created f"
      using min_by_key_in [OF ka] min_by_key_le [OF ka] by (auto simp: created_def)
    let ?m = "hm_remove k m"
    have ev: "evict m = evict ?m" using True old by (simp add: evict.simps [of m])
    note ih = 1(1) [OF True old hm_wf_remove [OF 1(2)]]
    note rm = hm_remove_member [OF 1(2) mem]
    have "length (evict m) = min 3 (length m)"
      using ih ev rm(2) True by (simp add: MAX_PENDING_def)
    moreover have "\<forall>e \<in> set m - set (evict m). \<forall>f \<in> set (evict m). created e \<le> created f"
    proof (intro ballI)
      fix e f
      assume e: "e \<in> set m - set (evict m)" and f: "f \<in> set (evict m)"
      show "created e \<le> created f"
      proof (cases "e = (k, a)")
        case True
        with f ih ev rm(1) least show ?thesis by auto
      next
        case False
        with e rm(1) ev have "e \<in> set ?m - set (evict ?m)" by auto
        moreover have "f \<in> set (evict ?m)" using f by (simp only: ev)
        ultimately show ?thesis using ih by blast
      qed
    qed
    ultimately show ?thesis using ih ev rm(1) by auto
  qed
qed

section \<open>The session as a map\<close>

text \<open>
  What tower-sessions documents: \<open>view s k\<close> is what the session holds under \<open>k\<close>. Reading changes
  nothing and gives the entries in some order; a write that succeeds replaces the value, one that
  fails leaves it.
\<close>

type_synonym 's session_view = "'s \<Rightarrow> string \<Rightarrow> (string \<Rightarrow> pending_login option) option"

definition session_laws :: "'s session_api \<Rightarrow> 's session_view \<Rightarrow> bool" where
  "session_laws S view \<longleftrightarrow>
     (\<forall>k s r s'. session_get S k s = (r, s') \<longrightarrow> view s' = view s
        \<and> (r = Inr None \<longrightarrow> view s k = None)
        \<and> (\<forall>m. r = Inr (Some m) \<longrightarrow> hm_wf m \<and> view s k = Some (map_of m)))
     \<and> (\<forall>k m s r s'. hm_wf m \<longrightarrow> session_insert S k m s = (r, s') \<longrightarrow>
          view s' = (if is_err r then view s else (view s)(k := Some (map_of m))))
     \<and> (\<forall>k s r s'. session_remove S k s = (r, s') \<longrightarrow>
          view s' = (if is_err r then view s else (view s)(k := None)))"

text \<open>The pending sign-ins of a session.\<close>

definition pending_of :: "'s session_view \<Rightarrow> 's \<Rightarrow> string \<Rightarrow> pending_login option" where
  "pending_of view s = (case view s PENDING_KEY of Some m \<Rightarrow> m | None \<Rightarrow> Map.empty)"

lemma session_get_pending:
  assumes "session_laws S view" and "session_get S PENDING_KEY s = (r, s')"
  shows "view s' = view s" and "r = Inr None \<Longrightarrow> pending_of view s = Map.empty"
    and "r = Inr (Some m) \<Longrightarrow> hm_wf m \<and> pending_of view s = map_of m"
  using assms unfolding session_laws_def pending_of_def by fastforce+

lemma session_insert_pending:
  assumes "session_laws S view" and "hm_wf m" and "session_insert S PENDING_KEY m s = (r, s')"
  shows "pending_of view s' = (if is_err r then pending_of view s else map_of m)"
proof -
  from assms have "view s' = (if is_err r then view s else (view s)(PENDING_KEY := Some (map_of m)))"
    unfolding session_laws_def by blast
  then show ?thesis by (simp add: pending_of_def)
qed

lemma session_remove_pending:
  assumes "session_laws S view" and "session_remove S PENDING_KEY s = (r, s')"
  shows "pending_of view s' = (if is_err r then pending_of view s else Map.empty)"
proof -
  from assms have "view s' = (if is_err r then view s else (view s)(PENDING_KEY := None))"
    unfolding session_laws_def by blast
  then show ?thesis by (simp add: pending_of_def)
qed

lemma map_of_remove: "map_of (hm_remove k m) = (map_of m)(k := None)"
  using hm_get_remove [of _ k m] by (auto simp: hm_get_def fun_eq_iff)

lemma map_of_insert: "map_of (hm_insert k v m) = (map_of m)(k \<mapsto> v)"
  using hm_get_insert [of _ k v m] by (auto simp: hm_get_def fun_eq_iff)

text \<open>What \<open>remember\<close> writes.\<close>

lemma remember_written:
  assumes "session_laws S view" and "remember S now p s = (r, s')"
  shows "if is_err r then pending_of view s' = pending_of view s
    else \<exists>m. hm_wf m \<and> map_of m = pending_of view s
      \<and> pending_of view s' = map_of (hm_insert (pn_state p) p (evict (filter (\<lambda>e. is_fresh now (snd e)) m)))"
proof -
  obtain g s1 where get: "session_get S PENDING_KEY s = (g, s1)" by (cases "session_get S PENDING_KEY s")
  note gp = session_get_pending [OF assms(1) get]
  have same: "pending_of view s1 = pending_of view s" using gp(1) by (simp add: pending_of_def)
  show ?thesis
  proof (cases g)
    case (Inl e)
    with assms(2) get same show ?thesis by (auto simp: remember_def)
  next
    case (Inr stored)
    define m where "m = (case stored of Some m \<Rightarrow> m | None \<Rightarrow> [])"
    have m: "hm_wf m" "map_of m = pending_of view s"
      using gp(2,3) Inr by (cases stored; simp add: m_def)+
    let ?m = "hm_insert (pn_state p) p (evict (filter (\<lambda>e. is_fresh now (snd e)) m))"
    have "hm_wf ?m" using m(1) evict_spec [OF hm_wf_filter [OF m(1)]] by (intro hm_wf_insert) blast
    moreover have "session_insert S PENDING_KEY ?m s1 = (r, s')"
      using assms(2) get Inr by (simp add: remember_def m_def Let_def)
    ultimately have "pending_of view s' = (if is_err r then pending_of view s1 else map_of ?m)"
      by (rule session_insert_pending [OF assms(1)])
    then show ?thesis using same m by auto
  qed
qed

lemma find_eq: "find (\<lambda>k. k = x) xs = (if x \<in> set xs then Some x else None)"
  by (induction xs) auto

lemma take_written:
  assumes "session_laws S view" and "take_pending S now state s = (r, s')"
  shows "if is_err r then pending_of view s' = pending_of view s
    else pending_of view s' = (pending_of view s)(state := None)
      \<and> r = Inr (case pending_of view s state of
                   Some a \<Rightarrow> if is_fresh now a then Some a else None | None \<Rightarrow> None)"
proof -
  obtain g s1 where get: "session_get S PENDING_KEY s = (g, s1)" by (cases "session_get S PENDING_KEY s")
  note gp = session_get_pending [OF assms(1) get]
  have same: "pending_of view s1 = pending_of view s" using gp(1) by (simp add: pending_of_def)
  consider e where "g = Inl e" | "g = Inr None" | m where "g = Inr (Some m)"
    by (cases g; cases "ok_of g") auto
  then show ?thesis
  proof cases
    case 1
    with assms(2) get same show ?thesis by (auto simp: take_pending_def)
  next
    case 2
    with assms(2) get same gp(2) show ?thesis by (auto simp: take_pending_def fun_eq_iff)
  next
    case (3 m)
    note m = gp(3) [OF 3]
    define key where "key = find (\<lambda>k. k = state) (map fst m)"
    have key: "key = (if state \<in> fst ` set m then Some state else None)"
      by (simp add: key_def find_eq)
    define m1 where "m1 = (case key of Some k \<Rightarrow> hm_remove k m | None \<Rightarrow> m)"
    have m1: "hm_wf m1" "map_of m1 = (pending_of view s)(state := None)"
      using m key by (auto simp: m1_def map_of_remove hm_wf_remove map_of_eq_None_iff fun_eq_iff)
    have found: "Option.bind key (\<lambda>k. hm_get k m) = pending_of view s state"
      using m key map_of_eq_None_iff [of m state] by (auto simp: hm_get_def)
    show ?thesis
    proof (cases "m1 = []")
      case True
      obtain q s2 where q: "session_remove S PENDING_KEY s1 = (q, s2)"
        by (cases "session_remove S PENDING_KEY s1")
      have r: "s' = s2" "is_err r = is_err q"
        "\<not> is_err q \<Longrightarrow> r = Inr (case pending_of view s state of
                   Some a \<Rightarrow> if is_fresh now a then Some a else None | None \<Rightarrow> None)"
        using assms(2) get 3 True q found
        by (auto simp: take_pending_def Let_def key_def [symmetric] m1_def [symmetric] split: sum.splits)
      from True m1(2) have "(pending_of view s)(state := None) = Map.empty" by simp
      with r session_remove_pending [OF assms(1) q] same show ?thesis by auto
    next
      case False
      obtain q s2 where q: "session_insert S PENDING_KEY m1 s1 = (q, s2)"
        by (cases "session_insert S PENDING_KEY m1 s1")
      have r: "s' = s2" "is_err r = is_err q"
        "\<not> is_err q \<Longrightarrow> r = Inr (case pending_of view s state of
                   Some a \<Rightarrow> if is_fresh now a then Some a else None | None \<Rightarrow> None)"
        using assms(2) get 3 False q found
        by (auto simp: take_pending_def Let_def key_def [symmetric] m1_def [symmetric] split: sum.splits)
      with session_insert_pending [OF assms(1) m1(1) q] same m1(2) show ?thesis by auto
    qed
  qed
qed

end
