(* ===== verification/Auth_Flow.thy ===== *)
theory Auth_Flow
  imports Auth_Routes "HOL-Library.AList"
begin

text \<open>
  What the sign-in routes guarantee: the bound on the attempts a session keeps, their single use,
  the conditions of a login, and where the browser is sent.
\<close>

section \<open>A session for the witnesses\<close>

text \<open>A session that holds its values in memory; one that is down fails every operation.\<close>

type_synonym memory = "bool \<times> (string \<Rightarrow> pending_map option)"

definition memory_session :: "memory session_api" where
  "memory_session =
     \<lparr>session_get = (\<lambda>k s. (if fst s then Inr (map_option AList.clearjunk (snd s k)) else Inl ''down'', s)),
      session_insert = (\<lambda>k m s. if fst s then (Inr (), (True, (snd s)(k \<mapsto> m))) else (Inl ''down'', s)),
      session_remove = (\<lambda>k s. if fst s then (Inr (snd s k), (True, (snd s)(k := None)))
                              else (Inl ''down'', s))\<rparr>"

definition memory_view :: "memory session_view" where
  "memory_view s = (\<lambda>k. map_option map_of (snd s k))"

lemma memory_session_laws: "session_laws memory_session memory_view"
  unfolding session_laws_def memory_session_def memory_view_def
  by (auto simp: hm_wf_def map_of_clearjunk distinct_clearjunk)

section \<open>Bound and single use\<close>

lemma fresh_entries:
  assumes "hm_wf m"
  shows "(k, a) \<in> set (filter (\<lambda>e. is_fresh now (snd e)) m) \<longleftrightarrow> map_of m k = Some a \<and> is_fresh now a"
  using hm_get_iff [OF assms, of k a] by (auto simp: hm_get_def)

lemma remember_effect:
  assumes "session_laws S view" and "remember S now p s = (Inr (), s')"
  shows "pending_of view s' (pn_state p) = Some p
    \<and> card (dom (pending_of view s')) \<le> 4 \<and> finite (dom (pending_of view s'))
    \<and> (\<forall>k a. pending_of view s' k = Some a \<longrightarrow>
          k = pn_state p \<or> pending_of view s k = Some a \<and> is_fresh now a)
    \<and> (\<forall>k a. pending_of view s k = Some a \<and> is_fresh now a \<and> pending_of view s' k = None \<longrightarrow>
          4 \<le> card {j. \<exists>b. pending_of view s j = Some b \<and> is_fresh now b}
          \<and> (\<forall>j b. pending_of view s' j = Some b \<and> j \<noteq> pn_state p \<longrightarrow>
               pn_created_at a \<le> pn_created_at b))"
proof -
  from remember_written [OF assms] obtain m where m: "hm_wf m" "map_of m = pending_of view s"
    and new: "pending_of view s' = map_of (hm_insert (pn_state p) p
      (evict (filter (\<lambda>e. is_fresh now (snd e)) m)))"
    by auto
  define f where "f = filter (\<lambda>e. is_fresh now (snd e)) m"
  have f: "hm_wf f" using m(1) by (auto simp: f_def)
  have inf: "(k, a) \<in> set f \<longleftrightarrow> pending_of view s k = Some a \<and> is_fresh now a" for k a
    using fresh_entries [OF m(1)] m(2) by (simp add: f_def)
  note ev = evict_spec [OF f]
  have ev_in: "map_of (evict f) k = Some a \<longleftrightarrow> (k, a) \<in> set (evict f)" for k a
    using ev hm_get_iff [of "evict f" k a] by (simp add: hm_get_def)
  have new': "pending_of view s' = (map_of (evict f))(pn_state p \<mapsto> p)"
    using new by (simp add: map_of_insert f_def)
  have "card (dom (pending_of view s')) \<le> length (hm_insert (pn_state p) p (evict f))"
    using new card_length [of "map fst (hm_insert (pn_state p) p (evict f))"]
    by (simp add: dom_map_of_conv_image_fst f_def)
  then have "card (dom (pending_of view s')) \<le> 4"
    using ev length_hm_insert [of "pn_state p" p "evict f"] by simp
  moreover have "finite (dom (pending_of view s'))" using new by (simp add: finite_dom_map_of)
  moreover have "k = pn_state p \<or> pending_of view s k = Some a \<and> is_fresh now a"
    if "pending_of view s' k = Some a" for k a
    using that ev ev_in [of k a] inf [of k a] by (auto simp: new' split: if_splits)
  moreover have "4 \<le> card {j. \<exists>b. pending_of view s j = Some b \<and> is_fresh now b}
          \<and> (\<forall>j b. pending_of view s' j = Some b \<and> j \<noteq> pn_state p \<longrightarrow> pn_created_at a \<le> pn_created_at b)"
    if dropped: "pending_of view s k = Some a \<and> is_fresh now a \<and> pending_of view s' k = None" for k a
  proof
    have ka: "(k, a) \<in> set f - set (evict f)"
      using dropped inf [of k a] ev_in [of k a] by (auto simp: new' split: if_splits)
    have "f \<noteq> evict f" using ka by auto
    then have "MAX_PENDING \<le> length f" by (metis evict.simps)
    moreover have "{j. \<exists>b. pending_of view s j = Some b \<and> is_fresh now b} = fst ` set f"
      using inf by force
    moreover have "card (fst ` set f) = length f"
      using f distinct_card [of "map fst f"] by (simp add: hm_wf_def)
    ultimately show "4 \<le> card {j. \<exists>b. pending_of view s j = Some b \<and> is_fresh now b}"
      by (simp add: MAX_PENDING_def)
    show "\<forall>j b. pending_of view s' j = Some b \<and> j \<noteq> pn_state p \<longrightarrow> pn_created_at a \<le> pn_created_at b"
    proof (intro allI impI)
      fix j b
      assume "pending_of view s' j = Some b \<and> j \<noteq> pn_state p"
      then have "(j, b) \<in> set (evict f)" using ev_in [of j b] by (auto simp: new')
      with ka ev have "created (k, a) \<le> created (j, b)" by blast
      then show "pn_created_at a \<le> pn_created_at b" by (simp add: created_def)
    qed
  qed
  moreover have "pending_of view s' (pn_state p) = Some p" by (simp add: new')
  ultimately show ?thesis by blast
qed

text \<open>
  C28: remembering a sign-in attempt keeps at most four per session: the new one is always kept, every
  other one kept was there and is still fresh, and a fresh attempt is dropped only when four fresh
  ones were there already, and then only one that is no newer than each of those kept, whatever
  order the map iterates in.
\<close>

theorem remember_bounded:
  assumes "session_laws S view" and "remember S now p s = (Inr (), s')"
  shows "pending_of view s' (pn_state p) = Some p
    \<and> card (dom (pending_of view s')) \<le> 4 \<and> finite (dom (pending_of view s'))
    \<and> (\<forall>k a. pending_of view s' k = Some a \<longrightarrow>
          k = pn_state p \<or> pending_of view s k = Some a \<and> is_fresh now a)
    \<and> (\<forall>k a. pending_of view s k = Some a \<and> is_fresh now a \<and> pending_of view s' k = None \<longrightarrow>
          4 \<le> card {j. \<exists>b. pending_of view s j = Some b \<and> is_fresh now b}
          \<and> (\<forall>j b. pending_of view s' j = Some b \<and> j \<noteq> pn_state p \<longrightarrow>
               pn_created_at a \<le> pn_created_at b))"
  by (rule remember_effect [OF assms])

definition attempt :: "string \<Rightarrow> u64 \<Rightarrow> pending_login" where
  "attempt state created_at = \<lparr>pn_provider = ''ogs'', pn_state = state, pn_pkce_verifier = Some ''v'',
     pn_nonce = None, pn_next = ''/'', pn_link = False, pn_created_at = created_at\<rparr>"

definition full_memory :: memory where
  "full_memory = (True, [PENDING_KEY \<mapsto>
     [(''a'', attempt ''a'' 10), (''b'', attempt ''b'' 20), (''c'', attempt ''c'' 30), (''d'', attempt ''d'' 40)]])"

lemma memory_up: "fst (remember memory_session now p (True, f)) = Inr ()"
  by (simp add: remember_def memory_session_def Let_def)

theorem remember_bounded_witness:
  "\<exists>s'. remember memory_session 50 (attempt ''e'' 50) full_memory = (Inr (), s')
     \<and> pending_of memory_view s' ''e'' = Some (attempt ''e'' 50)
     \<and> card (dom (pending_of memory_view s')) \<le> 4"
proof -
  have "fst (remember memory_session 50 (attempt ''e'' 50) full_memory) = Inr ()"
    unfolding full_memory_def by (rule memory_up)
  then obtain s' where s': "remember memory_session 50 (attempt ''e'' 50) full_memory = (Inr (), s')"
    by (cases "remember memory_session 50 (attempt ''e'' 50) full_memory") simp
  have st: "pn_state (attempt ''e'' 50) = ''e''" by (simp add: attempt_def)
  show ?thesis using remember_bounded [OF memory_session_laws s', unfolded st] s' by blast
qed

text \<open>
  C9: an attempt is used at most once. Taking a state removes it from the session, gives the
  attempt exactly when it was there and less than ten minutes old, and leaves every other attempt;
  a second take of the same state (a replayed callback) finds nothing, whenever it comes.
\<close>

theorem take_single_use:
  assumes "session_laws S view" and "take_pending S now state s = (Inr found, s')"
  shows "found = (case pending_of view s state of
                    Some a \<Rightarrow> if unat now - unat (pn_created_at a) < 600 then Some a else None
                  | None \<Rightarrow> None)
    \<and> pending_of view s' = (pending_of view s)(state := None)
    \<and> (fst (take_pending S now2 state s') = Inr None \<or> is_err (fst (take_pending S now2 state s')))"
proof -
  have fresh: "is_fresh now a \<longleftrightarrow> unat now - unat (pn_created_at a) < 600" for a
    by (simp add: is_fresh_def PENDING_TTL_SECS_def word_less_nat_alt unat_saturating_sub)
  obtain r s2 where again: "take_pending S now2 state s' = (r, s2)" by (cases "take_pending S now2 state s'")
  show ?thesis
    using take_written [OF assms] take_written [OF assms(1) again] again
    by (auto simp: fresh [abs_def] split: if_splits option.splits)
qed

theorem take_single_use_witness:
  "\<exists>s'. take_pending memory_session 50 ''b'' full_memory = (Inr (Some (attempt ''b'' 20)), s')
     \<and> pending_of memory_view s' ''b'' = None"
proof -
  obtain s' where s': "take_pending memory_session 50 ''b'' full_memory = (Inr (Some (attempt ''b'' 20)), s')"
    by (simp add: take_pending_def memory_session_def full_memory_def hm_remove_def hm_get_def
        is_fresh_def saturating_sub_def PENDING_TTL_SECS_def attempt_def)
  with take_single_use [OF memory_session_laws s'] show ?thesis by simp
qed

text \<open>
  A started sign-in can be completed: an attempt that was remembered is found by the state that
  was sent to the provider, exactly as it was stored, as long as it is fresh when the browser comes
  back.
\<close>

theorem remember_take_roundtrip:
  assumes "session_laws S view" and "remember S now p s = (Inr (), s1)"
    and "take_pending S later (pn_state p) s1 = (Inr found, s2)"
  shows "found = (if unat later - unat (pn_created_at p) < 600 then Some p else None)"
proof -
  from remember_written [OF assms(1,2)] obtain m where
    "pending_of view s1 = map_of (hm_insert (pn_state p) p m)" by auto
  then have "pending_of view s1 (pn_state p) = Some p" by (simp add: map_of_insert)
  with take_written [OF assms(1,3)] show ?thesis
    by (simp add: is_fresh_def PENDING_TTL_SECS_def word_less_nat_alt unat_saturating_sub)
qed

theorem remember_take_roundtrip_witness:
  "fst (take_pending memory_session 649 ''e''
      (snd (remember memory_session 50 (attempt ''e'' 50) (True, Map.empty)))) = Inr (Some (attempt ''e'' 50))
   \<and> fst (take_pending memory_session 650 ''e''
      (snd (remember memory_session 50 (attempt ''e'' 50) (True, Map.empty)))) = Inr None"
proof -
  have r: "remember memory_session 50 (attempt ''e'' 50) (True, Map.empty)
      = (Inr (), True, [PENDING_KEY \<mapsto> [(''e'', attempt ''e'' 50)]])"
    by (simp add: remember_def memory_session_def evict.simps MAX_PENDING_def hm_insert_def
        hm_remove_def attempt_def)
  have st: "pn_state (attempt ''e'' 50) = ''e''" "pn_created_at (attempt ''e'' 50) = 50"
    by (simp_all add: attempt_def)
  have "\<exists>found s2. take_pending memory_session t ''e'' (True, [PENDING_KEY \<mapsto> [(''e'', attempt ''e'' 50)]])
      = (Inr found, s2)" for t
    by (auto simp: take_pending_def memory_session_def hm_remove_def Let_def)
  then obtain f1 s1 f2 s2 where t:
    "take_pending memory_session 649 ''e'' (True, [PENDING_KEY \<mapsto> [(''e'', attempt ''e'' 50)]]) = (Inr f1, s1)"
    "take_pending memory_session 650 ''e'' (True, [PENDING_KEY \<mapsto> [(''e'', attempt ''e'' 50)]]) = (Inr f2, s2)"
    by metis
  from remember_take_roundtrip [OF memory_session_laws r, unfolded st, OF t(1)]
    remember_take_roundtrip [OF memory_session_laws r, unfolded st, OF t(2)]
  have "f1 = Some (attempt ''e'' 50)" "f2 = None" by simp_all
  with t show ?thesis by (simp add: r)
qed

section \<open>The handlers, branch by branch\<close>

text \<open>How the second half of a callback ends without logging in.\<close>

definition turned_away ::
    "((string \<times> string) list \<Rightarrow> string) \<Rightarrow> ('p, 'u, 'w) flow \<Rightarrow> string \<Rightarrow> response \<Rightarrow> bool" where
  "turned_away encode fl nxt resp \<longleftrightarrow>
     (\<exists>r back. resp = refuse encode fl r back \<and> (\<forall>b. back = Some b \<longrightarrow> rt_next b = nxt))"

lemma turned_awayI:
  "turned_away encode fl nxt (refuse encode fl r (Some \<lparr>rt_next = nxt, rt_link = l\<rparr>))"
  "turned_away encode fl nxt (refuse encode fl r None)"
  unfolding turned_away_def by force+

text \<open>A login, with everything that led to it.\<close>

definition logs_in ::
    "('p, 'u, 's, 'url, 'w) routes_api \<Rightarrow> string \<Rightarrow> callback_query \<Rightarrow> pending_login
      \<Rightarrow> json external_identity \<Rightarrow> ('p, 'u, 'w) flow \<Rightarrow> ('u, 's) auth_session \<Rightarrow> 'w \<Rightarrow> response
      \<Rightarrow> ('u, 's) auth_session \<Rightarrow> bool" where
  "logs_in R prov query a identity fl auth w resp auth' \<longleftrightarrow>
     (\<exists>code p p' w1 resolved w2 r.
        cq_error query = None \<and> cq_code query = Some code
        \<and> bt_get prov (fl_providers fl) = Some p
        \<and> ra_identify R p code a w = (Inr identity, p', w1)
        \<and> (pn_link a \<longrightarrow> au_user auth \<noteq> None)
        \<and> fl_resolver fl identity \<lparr>rc_current_user = au_user auth, rc_link = pn_link a\<rparr> w1
            = (Inr resolved, w2)
        \<and> ra_login R (rs_user resolved) auth = (r, auth')
        \<and> (if is_err r then turned_away (ra_encode R) fl (pn_next a) resp
           else resp = RedirectTo (with_query (ra_encode R) (pn_next a) (rs_query resolved))))"

definition provider_update :: "string \<Rightarrow> ('p, 'u, 'w) flow \<Rightarrow> ('p, 'u, 'w) flow \<Rightarrow> bool" where
  "provider_update prov fl fl' \<longleftrightarrow> fl' = fl \<or> (\<exists>p. fl' = put_provider prov p fl)"

lemma finish_callback_cases:
  assumes "finish_callback R prov query a (fl, auth, w) = (resp, fl', auth', w')"
  shows "provider_update prov fl fl'
    \<and> (auth' = auth \<and> turned_away (ra_encode R) fl (pn_next a) resp
       \<or> (\<exists>identity. logs_in R prov query a identity fl auth w resp auth'))"
proof (cases "cq_error query")
  case (Some e)
  with assms show ?thesis
    by (auto simp: finish_callback_def Let_def provider_update_def intro: turned_awayI)
next
  case no_error: None
  show ?thesis
  proof (cases "cq_code query = None \<or> bt_get prov (fl_providers fl) = None")
    case True
    with assms no_error show ?thesis
      by (auto simp: finish_callback_def Let_def provider_update_def intro: turned_awayI
          split: option.splits)
  next
    case False
    then obtain code p where cp: "cq_code query = Some code" "bt_get prov (fl_providers fl) = Some p"
      by auto
    obtain res p' w1 where idy: "ra_identify R p code a w = (res, p', w1)"
      by (cases "ra_identify R p code a w")
    show ?thesis
    proof (cases res)
      case (Inl e)
      with assms no_error cp idy show ?thesis
        by (auto simp: finish_callback_def Let_def provider_update_def intro: turned_awayI)
    next
      case (Inr identity)
      show ?thesis
      proof (cases "pn_link a \<and> au_user auth = None")
        case True
        with assms no_error cp idy Inr show ?thesis
          by (auto simp: finish_callback_def Let_def provider_update_def intro: turned_awayI)
      next
        case may_link: False
        let ?ctx = "\<lparr>rc_current_user = au_user auth, rc_link = pn_link a\<rparr>"
        obtain res2 w2 where rsv: "fl_resolver fl identity ?ctx w1 = (res2, w2)"
          by (cases "fl_resolver fl identity ?ctx w1")
        have same: "fl_resolver (put_provider prov p' fl) = fl_resolver fl"
          by (simp add: put_provider_def)
        show ?thesis
        proof (cases res2)
          case (Inl r)
          with assms no_error cp idy Inr may_link rsv same show ?thesis
            by (auto simp: finish_callback_def Let_def provider_update_def intro: turned_awayI)
        next
          case resolved: (Inr resolved)
          obtain r auth2 where login: "ra_login R (rs_user resolved) auth = (r, auth2)"
            by (cases "ra_login R (rs_user resolved) auth")
          have auth2: "auth' = auth2" "fl' = put_provider prov p' fl"
            using assms no_error cp idy Inr may_link rsv same resolved login
            by (auto simp: finish_callback_def Let_def split: sum.splits)
          have "if is_err r then turned_away (ra_encode R) fl (pn_next a) resp
              else resp = RedirectTo (with_query (ra_encode R) (pn_next a) (rs_query resolved))"
            using assms no_error cp idy Inr may_link rsv same resolved login
            by (cases r) (auto simp: finish_callback_def Let_def intro: turned_awayI)
          with no_error cp idy Inr may_link rsv resolved login auth2 show ?thesis
            by (auto simp: logs_in_def provider_update_def)
        qed
      qed
    qed
  qed
qed

lemma callback_cases:
  assumes "session_laws (ra_session R) view"
    and "callback R prov query (fl, auth, w) = (resp, fl', auth', w')"
  shows "provider_update prov fl fl'
    \<and> ((\<exists>s. auth' = auth\<lparr>au_session := s\<rparr>
          \<and> (\<forall>k a. pending_of view s k = Some a \<longrightarrow> pending_of view (au_session auth) k = Some a)
          \<and> ((\<exists>r. resp = refuse (ra_encode R) fl r None)
             \<or> (\<exists>k a. pending_of view (au_session auth) k = Some a
                   \<and> turned_away (ra_encode R) fl (pn_next a) resp)))
       \<or> (\<exists>state a now w1 s identity. cq_state query = Some state \<and> ra_now R w = (now, w1)
            \<and> pending_of view (au_session auth) state = Some a \<and> is_fresh now a
            \<and> pn_provider a = prov
            \<and> pending_of view s = (pending_of view (au_session auth))(state := None)
            \<and> logs_in R prov query a identity fl (auth\<lparr>au_session := s\<rparr>) w1 resp auth'))"
proof (cases "cq_state query")
  case None
  with assms(2) have "resp = refuse (ra_encode R) fl (refusal_new EXPIRED) None" "fl' = fl"
    "auth' = auth\<lparr>au_session := au_session auth\<rparr>"
    by (auto simp: callback_def)
  then show ?thesis
    unfolding provider_update_def by blast
next
  case (Some state)
  obtain now w1 where now: "ra_now R w = (now, w1)" by (cases "ra_now R w")
  obtain r s where taken: "take_pending (ra_session R) now state (au_session auth) = (r, s)"
    by (cases "take_pending (ra_session R) now state (au_session auth)")
  note tw = take_written [OF assms(1) taken]
  have sub: "\<forall>k a. pending_of view s k = Some a \<longrightarrow> pending_of view (au_session auth) k = Some a"
    using tw by (auto split: if_splits)
  show ?thesis
  proof (cases "\<exists>a. r = Inr (Some a) \<and> pn_provider a = prov")
    case False
    with assms(2) Some now taken have "resp = refuse (ra_encode R) fl (refusal_new FAILED) None
        \<or> resp = refuse (ra_encode R) fl (refusal_new EXPIRED) None"
      and "fl' = fl" "auth' = auth\<lparr>au_session := s\<rparr>"
      by (auto simp: callback_def Let_def split: sum.splits option.splits if_splits)
    then show ?thesis
      using sub unfolding provider_update_def by blast
  next
    case True
    then obtain a where a: "r = Inr (Some a)" "pn_provider a = prov" by blast
    with tw have found: "pending_of view (au_session auth) state = Some a" "is_fresh now a"
      "pending_of view s = (pending_of view (au_session auth))(state := None)"
      by (auto split: option.splits if_splits)
    have fin: "finish_callback R prov query a (fl, auth\<lparr>au_session := s\<rparr>, w1) = (resp, fl', auth', w')"
      using assms(2) Some now taken a by (simp add: callback_def Let_def)
    from finish_callback_cases [OF fin] show ?thesis
    proof (elim conjE disjE exE)
      assume "provider_update prov fl fl'" "auth' = auth\<lparr>au_session := s\<rparr>"
        "turned_away (ra_encode R) fl (pn_next a) resp"
      with sub found(1) show ?thesis by blast
    next
      fix identity
      assume "provider_update prov fl fl'"
        "logs_in R prov query a identity fl (auth\<lparr>au_session := s\<rparr>) w1 resp auth'"
      with Some now found a(2) show ?thesis by blast
    qed
  qed
qed

text \<open>The routes as the plugin sets them up: over the configured providers, each under its id.\<close>

definition configured_routes ::
    "('url, 'tok, 'resp, 'pw) oauth2_api
      \<Rightarrow> ('meta, 'ocl, 'idt, 'clm, 'otok, 'alg, 'key, 'url, 'pw) oidc_api
      \<Rightarrow> (('url, 'ocl) provider, 'u, 's, 'url, 'pw) routes_api
      \<Rightarrow> (('url, 'ocl) provider, 'u, 'pw) flow \<Rightarrow> bool" where
  "configured_routes A D R fl \<longleftrightarrow>
     ra_identify R = provider_identify A D \<and> ra_authorize R = provider_authorize A D
     \<and> sign_in_provider.ids_match provider_id (fl_providers fl)"

text \<open>
  C1: a callback changes the login state only for the session that started the sign-in. Unless it
  logs in, it leaves the user alone and adds no attempt. It logs in only with a state that this
  session holds, whose attempt is less than ten minutes old and was started for the provider of the
  URL, after removing that attempt; the provider reported no error and confirmed the code against
  what the attempt stored; the identity carries that provider's id; the application's resolver
  accepted it; and for a link a user was signed in.
\<close>

theorem callback_login_safety:
  assumes "session_laws (ra_session R) view" and "configured_routes A D R fl"
    and "callback R prov query (fl, auth, w) = (resp, fl', auth', w')"
  shows "(\<exists>s. auth' = auth\<lparr>au_session := s\<rparr>
        \<and> (\<forall>k a. pending_of view s k = Some a \<longrightarrow> pending_of view (au_session auth) k = Some a))
    \<or> (\<exists>state a now w1 s identity. cq_state query = Some state \<and> ra_now R w = (now, w1)
        \<and> pending_of view (au_session auth) state = Some a \<and> is_fresh now a \<and> pn_provider a = prov
        \<and> pending_of view s = (pending_of view (au_session auth))(state := None)
        \<and> ei_provider identity = prov
        \<and> logs_in R prov query a identity fl (auth\<lparr>au_session := s\<rparr>) w1 resp auth')"
proof -
  have label: "ei_provider identity = prov" if "logs_in R prov query a identity fl au v resp au'"
    for a identity au v au'
  proof -
    from that obtain code p p' w1 where p: "bt_get prov (fl_providers fl) = Some p"
      "ra_identify R p code a v = (Inr identity, p', w1)"
      unfolding logs_in_def by blast
    with assms(2) have "fst (provider_identify A D p code a v) = Inr identity"
      by (simp add: configured_routes_def)
    with p(1) assms(2) show ?thesis
      unfolding configured_routes_def by (blast intro: configured.identity_of_key)
  qed
  from callback_cases [OF assms(1,3)] label show ?thesis by blast
qed

text \<open>A small sign-in service for the witnesses: one OAuth2 provider, users named by their ids.\<close>

definition demo_flow :: "((string, nat) provider, string, nat) flow" where
  "demo_flow =
     \<lparr>fl_providers = [(''ogs'', POAuth2 echo_provider)],
      fl_resolver = (\<lambda>i ctx w. (Inr (resolved_new (ei_subject i)), w)),
      fl_sign_in_path = ''/login'', fl_default_next = ''/'', fl_error_param = ''auth_error''\<rparr>"

definition demo_routes :: "((string, nat) provider, string, memory, string, nat) routes_api" where
  "demo_routes =
     \<lparr>ra_session = memory_session, ra_authorize = provider_authorize echo_oauth2 tick_oidc,
      ra_identify = provider_identify echo_oauth2 tick_oidc, ra_now = (\<lambda>w. (50, w)),
      ra_encode = demo_encode, ra_url_str = id,
      ra_login = (\<lambda>u au. (Inr (), au\<lparr>au_user := Some u\<rparr>)),
      ra_logout = (\<lambda>au. (Inr (au_user au), au\<lparr>au_user := None\<rparr>))\<rparr>"

lemma demo_configured: "configured_routes echo_oauth2 tick_oidc demo_routes demo_flow"
  by (simp add: configured_routes_def demo_routes_def demo_flow_def configured.ids_match_def bt_get_def
      provider_id_def echo_provider_def)

definition signed_out :: "(string, memory) auth_session" where
  "signed_out = \<lparr>au_user = None, au_session = full_memory\<rparr>"

definition returning :: callback_query where
  "returning = \<lparr>cq_code = Some ''code'', cq_state = Some ''b'', cq_error = None\<rparr>"

lemma demo_callback:
  "\<exists>resp auth'. callback demo_routes ''ogs'' returning (demo_flow, signed_out, 0) = (resp, demo_flow, auth', 0)
     \<and> au_user auth' = Some ''code''"
proof -
  obtain s where s: "take_pending memory_session 50 ''b'' full_memory = (Inr (Some (attempt ''b'' 20)), s)"
    by (simp add: take_pending_def memory_session_def full_memory_def hm_remove_def hm_get_def
        is_fresh_def saturating_sub_def PENDING_TTL_SECS_def attempt_def)
  have idy: "provider_identify echo_oauth2 tick_oidc (POAuth2 echo_provider) ''code'' (attempt ''b'' 20) 0
      = (Inr \<lparr>ei_provider = ''ogs'', ei_subject = ''code'', ei_email = None, ei_email_verified = False,
             ei_name = None, ei_profile = JObject [(''id'', JString ''code'')]\<rparr>, POAuth2 echo_provider, 0)"
    by (simp add: provider_identify_def oauth2_identify_def echo_oauth2_def echo_provider_def
        fetch_userinfo_def subject_of_def string_field_def)
  have "put_provider ''ogs'' (POAuth2 echo_provider) demo_flow = demo_flow"
    by (simp add: put_provider_def demo_flow_def)
  moreover have "bt_get ''ogs'' (fl_providers demo_flow) = Some (POAuth2 echo_provider)"
    by (simp add: demo_flow_def bt_get_def)
  moreover have "fl_resolver demo_flow = (\<lambda>i ctx w. (Inr (resolved_new (ei_subject i)), w))"
    by (simp add: demo_flow_def)
  moreover have "pn_provider (attempt ''b'' 20) = ''ogs''" "\<not> pn_link (attempt ''b'' 20)"
    by (simp_all add: attempt_def)
  ultimately show ?thesis
    using s idy by (simp add: callback_def finish_callback_def returning_def signed_out_def
        demo_routes_def Let_def resolved_new_def)
qed

theorem callback_login_safety_witness:
  "\<exists>resp auth' identity. callback demo_routes ''ogs'' returning (demo_flow, signed_out, 0)
      = (resp, demo_flow, auth', 0)
     \<and> au_user auth' = Some ''code'' \<and> ei_provider (identity :: json external_identity) = ''ogs''"
proof -
  obtain resp auth' where c: "callback demo_routes ''ogs'' returning (demo_flow, signed_out, 0)
      = (resp, demo_flow, auth', 0)" "au_user auth' = Some ''code''"
    using demo_callback by blast
  have laws: "session_laws (ra_session demo_routes) memory_view"
    by (simp add: demo_routes_def memory_session_laws)
  have "au_user signed_out = None" by (simp add: signed_out_def)
  with callback_login_safety [OF laws demo_configured c(1)] c show ?thesis by auto
qed

section \<open>Starting a sign-in\<close>

definition start_next :: "('p, 'u, 'w) flow \<Rightarrow> start_query \<Rightarrow> string" where
  "start_next fl query = safe_next (sq_next query) (fl_default_next fl)"

lemma start_cases:
  assumes "session_laws (ra_session R) view"
    and "start R prov query (fl, auth, w) = (resp, fl', auth', w')"
  shows "provider_update prov fl fl' \<and> au_user auth' = au_user auth
    \<and> (pending_of view (au_session auth') = pending_of view (au_session auth)
         \<and> turned_away (ra_encode R) fl (start_next fl query) resp
       \<or> (\<exists>p az p' w1 now t w2 a. bt_get prov (fl_providers fl) = Some p
            \<and> ra_authorize R p w = (Inr az, p', w1) \<and> resp = RedirectTo (ra_url_str R (az_url az))
            \<and> remember (ra_session R) now a (au_session auth) = (Inr (), au_session auth')
            \<and> pending_of view (au_session auth') (az_state az) = Some a
            \<and> a = \<lparr>pn_provider = prov, pn_state = az_state az, pn_pkce_verifier = az_pkce_verifier az,
                   pn_nonce = az_nonce az, pn_next = start_next fl query,
                   pn_link = (sq_link query \<in> {Some ''1'', Some ''true''}), pn_created_at = t\<rparr>
            \<and> ra_now R w1 = (t, w2) \<and> (pn_link a \<longrightarrow> au_user auth \<noteq> None)))"
proof (cases "bt_get prov (fl_providers fl)")
  case None
  with assms(2) show ?thesis
    by (auto simp: start_def Let_def provider_update_def start_next_def intro: turned_awayI)
next
  case (Some p)
  let ?link = "sq_link query = Some ''1'' \<or> sq_link query = Some ''true''"
  show ?thesis
  proof (cases "?link \<and> au_user auth = None")
    case True
    with assms(2) Some show ?thesis
      by (auto simp: start_def Let_def provider_update_def start_next_def intro: turned_awayI)
  next
    case may_link: False
    obtain r p' w1 where az: "ra_authorize R p w = (r, p', w1)" by (cases "ra_authorize R p w")
    show ?thesis
    proof (cases r)
      case (Inl e)
      with assms(2) Some may_link az show ?thesis
        by (auto simp: start_def Let_def provider_update_def start_next_def intro: turned_awayI)
    next
      case (Inr authz)
      obtain t w2 where t: "ra_now R w1 = (t, w2)" by (cases "ra_now R w1")
      obtain now w3 where now: "ra_now R w2 = (now, w3)" by (cases "ra_now R w2")
      define a where "a = \<lparr>pn_provider = prov, pn_state = az_state authz,
        pn_pkce_verifier = az_pkce_verifier authz, pn_nonce = az_nonce authz,
        pn_next = start_next fl query, pn_link = ?link, pn_created_at = t\<rparr>"
      obtain q s where rem: "remember (ra_session R) now a (au_session auth) = (q, s)"
        by (cases "remember (ra_session R) now a (au_session auth)")
      note rw = remember_written [OF assms(1) rem]
      have res: "fl' = put_provider prov p' fl" "auth' = auth\<lparr>au_session := s\<rparr>"
        "resp = (case q of
            Inl err \<Rightarrow> refuse (ra_encode R) fl (refusal_new FAILED)
              (Some \<lparr>rt_next = start_next fl query, rt_link = ?link\<rparr>)
          | Inr _ \<Rightarrow> RedirectTo (ra_url_str R (az_url authz)))"
        using assms(2) Some may_link az Inr t now rem
        by (auto simp: start_def Let_def start_next_def a_def split: sum.splits)
      show ?thesis
      proof (cases q)
        case (Inl e)
        with rw res show ?thesis
          by (auto simp: provider_update_def intro: turned_awayI)
      next
        case ok: (Inr u)
        have "pending_of view s (pn_state a) = Some a"
          using rw ok by (auto simp: map_of_insert)
        then have "pending_of view (au_session auth') (az_state authz) = Some a"
          using res(2) by (simp add: a_def)
        moreover have "pn_link a \<longrightarrow> au_user auth \<noteq> None" using may_link by (auto simp: a_def)
        moreover have "resp = RedirectTo (ra_url_str R (az_url authz))" using res(3) ok by simp
        moreover have "remember (ra_session R) now a (au_session auth) = (Inr (), au_session auth')"
          using rem ok res(2) by simp
        moreover have "a = \<lparr>pn_provider = prov, pn_state = az_state authz,
            pn_pkce_verifier = az_pkce_verifier authz, pn_nonce = az_nonce authz,
            pn_next = start_next fl query, pn_link = (sq_link query \<in> {Some ''1'', Some ''true''}),
            pn_created_at = t\<rparr>"
          by (simp add: a_def)
        moreover have "provider_update prov fl fl'" "au_user auth' = au_user auth"
          using res by (auto simp: provider_update_def)
        ultimately show ?thesis
          using Some az Inr t by blast
      qed
    qed
  qed
qed

text \<open>
  C30: starting a sign-in sends the browser to the provider only after the attempt is in the session,
  under the state in the authorization, with the verifier and the nonce that authorization carries
  and a checked \<open>next\<close>, and for a link only when a user is signed in. In every other case the
  browser is refused and the session's attempts are unchanged. Neither changes who is signed in.
\<close>

theorem start_records_attempt:
  assumes "session_laws (ra_session R) view"
    and "start R prov query (fl, auth, w) = (resp, fl', auth', w')"
  shows "provider_update prov fl fl' \<and> au_user auth' = au_user auth
    \<and> (pending_of view (au_session auth') = pending_of view (au_session auth)
         \<and> turned_away (ra_encode R) fl (start_next fl query) resp
       \<or> (\<exists>p az p' w1 now t w2 a. bt_get prov (fl_providers fl) = Some p
            \<and> ra_authorize R p w = (Inr az, p', w1) \<and> resp = RedirectTo (ra_url_str R (az_url az))
            \<and> remember (ra_session R) now a (au_session auth) = (Inr (), au_session auth')
            \<and> pending_of view (au_session auth') (az_state az) = Some a
            \<and> a = \<lparr>pn_provider = prov, pn_state = az_state az, pn_pkce_verifier = az_pkce_verifier az,
                   pn_nonce = az_nonce az, pn_next = start_next fl query,
                   pn_link = (sq_link query \<in> {Some ''1'', Some ''true''}), pn_created_at = t\<rparr>
            \<and> ra_now R w1 = (t, w2) \<and> (pn_link a \<longrightarrow> au_user auth \<noteq> None)))"
  by (rule start_cases [OF assms])

theorem start_records_attempt_witness:
  "\<exists>resp fl' auth' w'. start demo_routes ''ogs'' \<lparr>sq_next = Some ''/games'', sq_link = None\<rparr>
      (demo_flow, signed_out, 7) = (resp, fl', auth', w') \<and> au_user auth' = None"
proof -
  have laws: "session_laws (ra_session demo_routes) memory_view"
    by (simp add: demo_routes_def memory_session_laws)
  obtain resp fl' auth' w' where s: "start demo_routes ''ogs'' \<lparr>sq_next = Some ''/games'', sq_link = None\<rparr>
      (demo_flow, signed_out, 7) = (resp, fl', auth', w')"
    by (metis prod.exhaust)
  have "au_user signed_out = None" by (simp add: signed_out_def)
  with start_records_attempt [OF laws s] s show ?thesis by metis
qed

section \<open>Sessions over time\<close>

text \<open>
  The states a session of a flow goes through: any number of starts, callbacks and sign-outs, with
  the world moving on in between.
\<close>

inductive reachable ::
    "('p, 'u, 's, 'url, 'w) routes_api \<Rightarrow> 's session_view \<Rightarrow> ('p, 'u, 'w) flow
      \<Rightarrow> ('p, 'u, 's, 'w) rstate \<Rightarrow> bool"
  for R :: "('p, 'u, 's, 'url, 'w) routes_api" and view and fl0 where
  reach_init: "pending_of view (au_session auth) = Map.empty \<Longrightarrow> reachable R view fl0 (fl0, auth, w)"
| reach_world: "reachable R view fl0 (fl, auth, w) \<Longrightarrow> reachable R view fl0 (fl, auth, w')"
| reach_start: "reachable R view fl0 st \<Longrightarrow> (\<And>s. sq_next query = Some s \<Longrightarrow> is_str s) \<Longrightarrow>
    start R prov query st = (resp, st') \<Longrightarrow> reachable R view fl0 st'"
| reach_callback: "reachable R view fl0 st \<Longrightarrow> callback R prov cquery st = (resp, st')
    \<Longrightarrow> reachable R view fl0 st'"
| reach_sign_out: "reachable R view fl0 (fl, auth, w) \<Longrightarrow> sign_out R auth = (resp, auth')
    \<Longrightarrow> reachable R view fl0 (fl, auth', w)"

text \<open>axum-login's operations keep no attempt that was not there.\<close>

definition login_laws :: "('p, 'u, 's, 'url, 'w) routes_api \<Rightarrow> 's session_view \<Rightarrow> bool" where
  "login_laws R view \<longleftrightarrow>
     (\<forall>u au r au'. ra_login R u au = (r, au') \<longrightarrow>
        pending_of view (au_session au') \<subseteq>\<^sub>m pending_of view (au_session au))
     \<and> (\<forall>au r au'. ra_logout R au = (r, au') \<longrightarrow>
        pending_of view (au_session au') \<subseteq>\<^sub>m pending_of view (au_session au))"

text \<open>The settings of a flow: everything but the providers' cells.\<close>

definition settings :: "('p, 'u, 'w) flow \<Rightarrow> ('p, 'u, 'w) flow" where
  "settings fl = fl\<lparr>fl_providers := []\<rparr>"

definition attempts_ok :: "(string \<Rightarrow> pending_login option) \<Rightarrow> bool" where
  "attempts_ok m \<longleftrightarrow>
     finite (dom m) \<and> card (dom m) \<le> 4
     \<and> (\<forall>k a. m k = Some a \<longrightarrow> pn_state a = k \<and> plain_path (pn_next a))"

lemma attempts_ok_mono: "attempts_ok m \<Longrightarrow> m' \<subseteq>\<^sub>m m \<Longrightarrow> attempts_ok m'"
proof -
  assume m: "attempts_ok m" and le: "m' \<subseteq>\<^sub>m m"
  have "dom m' \<subseteq> dom m" using le by (rule map_le_implies_dom_le)
  with m have "finite (dom m')" "card (dom m') \<le> 4"
    using card_mono [of "dom m" "dom m'"] by (auto simp: attempts_ok_def intro: finite_subset)
  moreover have "m k = Some a" if "m' k = Some a" for k a
    using le that unfolding map_le_def by (metis domI)
  ultimately show "attempts_ok m'" using m by (auto simp: attempts_ok_def)
qed

lemma provider_update_settings: "provider_update prov fl fl' \<Longrightarrow> settings fl' = settings fl"
  by (auto simp: provider_update_def settings_def put_provider_def)

lemma map_leI: "(\<And>k a. m k = Some a \<Longrightarrow> m' k = Some a) \<Longrightarrow> m \<subseteq>\<^sub>m m'"
  by (auto simp: map_le_def)

lemma callback_attempts:
  assumes "session_laws (ra_session R) view" and "login_laws R view"
    and "callback R prov query (fl, auth, w) = (resp, fl', auth', w')"
  shows "pending_of view (au_session auth') \<subseteq>\<^sub>m pending_of view (au_session auth)"
proof -
  from callback_cases [OF assms(1,3)] consider
    (away) s where "auth' = auth\<lparr>au_session := s\<rparr>"
      "\<forall>k a. pending_of view s k = Some a \<longrightarrow> pending_of view (au_session auth) k = Some a"
  | (login) state a w1 s identity where
      "pending_of view s = (pending_of view (au_session auth))(state := None)"
      "logs_in R prov query a identity fl (auth\<lparr>au_session := s\<rparr>) w1 resp auth'"
    by blast
  then show ?thesis
  proof cases
    case away
    then show ?thesis by (intro map_leI) simp
  next
    case login
    from login(2) obtain u r where "ra_login R u (auth\<lparr>au_session := s\<rparr>) = (r, auth')"
      unfolding logs_in_def by blast
    with assms(2) have "pending_of view (au_session auth') \<subseteq>\<^sub>m pending_of view s"
      unfolding login_laws_def by fastforce
    moreover have "pending_of view s \<subseteq>\<^sub>m pending_of view (au_session auth)"
      by (simp add: login(1) map_le_def)
    ultimately show ?thesis by (rule map_le_trans)
  qed
qed

lemma is_str_next_plain:
  "(\<And>s. sq_next query = Some s \<Longrightarrow> is_str s) \<Longrightarrow> plain_path (fl_default_next fl) \<Longrightarrow>
     plain_path (start_next fl query)"
  by (auto simp: start_next_def safe_next_def next_acceptable_plain split: option.splits)

lemma start_attempts:
  assumes "session_laws (ra_session R) view"
    and "\<And>s. sq_next query = Some s \<Longrightarrow> is_str s" and "plain_path (fl_default_next fl)"
    and "start R prov query (fl, auth, w) = (resp, fl', auth', w')"
    and "attempts_ok (pending_of view (au_session auth))"
  shows "attempts_ok (pending_of view (au_session auth'))"
proof -
  let ?m = "pending_of view (au_session auth)" and ?m' = "pending_of view (au_session auth')"
  from start_cases [OF assms(1,4)] consider "?m' = ?m"
    | now a where "remember (ra_session R) now a (au_session auth) = (Inr (), au_session auth')"
        "pn_next a = start_next fl query"
    by auto
  then show ?thesis
  proof cases
    case 1
    with assms(5) show ?thesis by simp
  next
    case 2
    note eff = remember_effect [OF assms(1) 2(1)]
    have "pn_state b = k \<and> plain_path (pn_next b)" if "?m' k = Some b" for k b
    proof (cases "k = pn_state a")
      case True
      with that eff 2(2) is_str_next_plain [OF assms(2,3)] show ?thesis by simp
    next
      case False
      with that eff have "?m k = Some b" by blast
      with assms(5) show ?thesis by (simp add: attempts_ok_def)
    qed
    with eff show ?thesis by (simp add: attempts_ok_def)
  qed
qed

lemma reachable_invariant:
  assumes laws: "session_laws (ra_session R) view" "login_laws R view"
    and paths: "plain_path (fl_default_next fl0)"
  shows "reachable R view fl0 st \<Longrightarrow>
    settings (fst st) = settings fl0 \<and> attempts_ok (pending_of view (au_session (fst (snd st))))"
proof (induction rule: reachable.induct)
  case (reach_init auth w)
  then show ?case by (simp add: attempts_ok_def)
next
  case (reach_world fl auth w w')
  then show ?case by simp
next
  case (reach_start st query prov resp st')
  obtain fl auth w fl' auth' w' where st: "st = (fl, auth, w)" "st' = (fl', auth', w')"
    by (metis prod.exhaust)
  with reach_start have step: "start R prov query (fl, auth, w) = (resp, fl', auth', w')" by simp
  have "fl_default_next fl = fl_default_next fl0"
    using reach_start.IH st by (simp add: settings_def flow.defs flow.equality)
      (metis flow.ext_inject flow.surjective flow.update_convs(1))
  with paths have "plain_path (fl_default_next fl)" by simp
  from start_attempts [OF laws(1) reach_start(2) this step] reach_start.IH st
  have "attempts_ok (pending_of view (au_session auth'))" by auto
  moreover have "settings fl' = settings fl"
    using start_cases [OF laws(1) step] provider_update_settings by blast
  ultimately show ?case using reach_start.IH st by simp
next
  case (reach_callback st prov cquery resp st')
  obtain fl auth w fl' auth' w' where st: "st = (fl, auth, w)" "st' = (fl', auth', w')"
    by (metis prod.exhaust)
  with reach_callback have step: "callback R prov cquery (fl, auth, w) = (resp, fl', auth', w')" by simp
  have "attempts_ok (pending_of view (au_session auth'))"
    using callback_attempts [OF laws step] reach_callback.IH st attempts_ok_mono by auto
  moreover have "settings fl' = settings fl"
    using callback_cases [OF laws(1) step] provider_update_settings by blast
  ultimately show ?case using reach_callback.IH st by simp
next
  case (reach_sign_out fl auth w resp auth')
  obtain r au where "ra_logout R auth = (r, au)" by (cases "ra_logout R auth")
  with reach_sign_out(2) have "ra_logout R auth = (r, auth')"
    by (auto simp: sign_out_def split: sum.splits)
  with laws(2) have "pending_of view (au_session auth') \<subseteq>\<^sub>m pending_of view (au_session auth)"
    unfolding login_laws_def by blast
  with reach_sign_out.IH attempts_ok_mono show ?case by auto
qed

definition on_site_redirect :: "response \<Rightarrow> bool" where
  "on_site_redirect resp = (case resp of RedirectTo loc \<Rightarrow> stays_on_site loc | Status _ \<Rightarrow> False)"

lemma refuse_on_site:
  assumes "form_safe encode" and "plain_path (fl_sign_in_path fl)"
    and "\<And>b. rb = Some b \<Longrightarrow> plain_path (rt_next b)"
  shows "on_site_redirect (refuse encode fl r rb)"
  using assms(3) with_query_plain [OF assms(1)] assms(2)
  by (cases rb) (auto simp: refuse_def Let_def on_site_redirect_def intro!: plain_path_on_site)

lemma turned_away_on_site:
  "form_safe encode \<Longrightarrow> plain_path (fl_sign_in_path fl) \<Longrightarrow> plain_path nxt \<Longrightarrow>
     turned_away encode fl nxt resp \<Longrightarrow> on_site_redirect resp"
  unfolding turned_away_def by (auto intro: refuse_on_site)

lemma logs_in_on_site:
  assumes "form_safe (ra_encode R)" and "plain_path (fl_sign_in_path fl)" and "plain_path (pn_next a)"
    and "logs_in R prov query a identity fl auth w resp auth'"
  shows "on_site_redirect resp"
proof -
  from assms(4) obtain q where "turned_away (ra_encode R) fl (pn_next a) resp
      \<or> resp = RedirectTo (with_query (ra_encode R) (pn_next a) q)"
    unfolding logs_in_def by (auto split: if_splits)
  moreover have "on_site_redirect (RedirectTo (with_query (ra_encode R) (pn_next a) q))"
    using with_query_plain [OF assms(1,3)] by (simp add: on_site_redirect_def plain_path_on_site)
  ultimately show ?thesis using turned_away_on_site [OF assms(1-3)] by blast
qed

lemma callback_on_site:
  assumes "session_laws (ra_session R) view" and "form_safe (ra_encode R)"
    and "plain_path (fl_sign_in_path fl)" and "attempts_ok (pending_of view (au_session auth))"
    and "callback R prov query (fl, auth, w) = (resp, fl', auth', w')"
  shows "on_site_redirect resp"
proof -
  have plain: "plain_path (pn_next a)" if "pending_of view (au_session auth) k = Some a" for k a
    using assms(4) that by (auto simp: attempts_ok_def)
  from callback_cases [OF assms(1,5)] show ?thesis
    using plain turned_away_on_site [OF assms(2,3)] logs_in_on_site [OF assms(2,3)]
      refuse_on_site [OF assms(2,3), of None] by blast
qed

text \<open>
  C29: when the configured \<open>default_next\<close> and \<open>sign_in_path\<close> are plain paths of this site (paths without
  anything a browser would read as another host), whatever a browser does, a session never holds more than four attempts, each under its own
  state token and with a \<open>next\<close> that is a path of this site, and the sign-in routes never redirect
  off the site except to a provider: every answer of a callback is a redirect that stays, and an
  answer of a start is one that stays or the authorization URL its provider gave. This is an
  invariant of all interleavings of starts, callbacks and sign-outs of the session.
\<close>

theorem sign_in_stays_on_site:
  assumes "session_laws (ra_session R) view" and "login_laws R view"
    and "form_safe (ra_encode R)" and "plain_path (fl_default_next fl0)" and "plain_path (fl_sign_in_path fl0)"
    and "reachable R view fl0 (fl, auth, w)"
  shows "card (dom (pending_of view (au_session auth))) \<le> 4
    \<and> (\<forall>k a. pending_of view (au_session auth) k = Some a \<longrightarrow> pn_state a = k \<and> plain_path (pn_next a))
    \<and> on_site_redirect (fst (callback R prov cquery (fl, auth, w)))
    \<and> ((\<forall>s. sq_next squery = Some s \<longrightarrow> is_str s) \<longrightarrow>
         on_site_redirect (fst (start R prov squery (fl, auth, w)))
         \<or> (\<exists>p az. bt_get prov (fl_providers fl) = Some p \<and> fst (ra_authorize R p w) = Inr az
              \<and> fst (start R prov squery (fl, auth, w)) = RedirectTo (ra_url_str R (az_url az))))"
proof -
  note inv = reachable_invariant [OF assms(1,2,4,6)]
  from inv have ok: "attempts_ok (pending_of view (au_session auth))" by simp
  from inv have "settings fl = settings fl0" by simp
  then have paths: "plain_path (fl_default_next fl)" "plain_path (fl_sign_in_path fl)"
    using assms(4,5) unfolding settings_def
    by (metis flow.ext_inject flow.surjective flow.update_convs(1))+
  obtain resp fl1 auth1 w1 where cb: "callback R prov cquery (fl, auth, w) = (resp, fl1, auth1, w1)"
    by (metis prod.exhaust)
  obtain resp2 fl2 auth2 w2 where st: "start R prov squery (fl, auth, w) = (resp2, fl2, auth2, w2)"
    by (metis prod.exhaust)
  have "on_site_redirect resp2 \<or> (\<exists>p az. bt_get prov (fl_providers fl) = Some p
      \<and> fst (ra_authorize R p w) = Inr az \<and> resp2 = RedirectTo (ra_url_str R (az_url az)))"
    if "\<forall>s. sq_next squery = Some s \<longrightarrow> is_str s"
  proof -
    have "plain_path (start_next fl squery)" using is_str_next_plain that paths(1) by blast
    then show ?thesis
      using start_cases [OF assms(1) st] turned_away_on_site [OF assms(3) paths(2)]
      by (metis fst_conv)
  qed
  with callback_on_site [OF assms(1,3) paths(2) ok cb] cb st ok show ?thesis
    by (auto simp: attempts_ok_def)
qed

lemma demo_login_laws: "login_laws demo_routes memory_view"
  by (auto simp: login_laws_def demo_routes_def)

theorem sign_in_stays_on_site_witness:
  "on_site_redirect (fst (callback demo_routes ''ogs'' returning
      (demo_flow, \<lparr>au_user = None, au_session = (True, Map.empty)\<rparr>, 0)))"
proof -
  have laws: "session_laws (ra_session demo_routes) memory_view" "form_safe (ra_encode demo_routes)"
    by (simp_all add: demo_routes_def memory_session_laws demo_encode_safe)
  have paths: "plain_path (fl_default_next demo_flow)" "plain_path (fl_sign_in_path demo_flow)"
    by (simp_all add: demo_flow_def plain_path_def byte_def)
  have "reachable demo_routes memory_view demo_flow
      (demo_flow, \<lparr>au_user = None, au_session = (True, Map.empty)\<rparr>, 0)"
    by (rule reach_init) (simp add: pending_of_def memory_view_def)
  from sign_in_stays_on_site [OF laws(1) demo_login_laws laws(2) paths this] show ?thesis by blast
qed

end
