(* ===== verification/Auth_Journey.thy ===== *)
theory Auth_Journey
  imports Auth_Flow
begin

text \<open>
  A sign-in from its start to its end (\<open>muxa-auth/src/routes.rs\<close>): what has to go right, between the request
  that starts it and the callback that ends it, for the user to be signed in. \<open>Auth_Flow\<close> says when a callback
  may log in; this theory, that it does.
\<close>

section \<open>The attempt\<close>

definition wants_link :: "start_query \<Rightarrow> bool" where
  "wants_link query \<longleftrightarrow> sq_link query = Some ''1'' \<or> sq_link query = Some ''true''"

text \<open>The clock that \<open>remember\<close> goes by in a start: the second reading after the authorization.\<close>

definition start_clock :: "('p, 'u, 's, 'url, 'w) routes_api \<Rightarrow> 'p \<Rightarrow> 'w \<Rightarrow> u64" where
  "start_clock R p w = fst (ra_now R (snd (ra_now R (snd (snd (ra_authorize R p w))))))"

text \<open>The attempt that a start records, for its authorization.\<close>

definition begun ::
    "('p, 'u, 's, 'url, 'w) routes_api \<Rightarrow> string \<Rightarrow> start_query \<Rightarrow> ('p, 'u, 'w) flow \<Rightarrow> 'p \<Rightarrow> 'w
      \<Rightarrow> 'url authorization \<Rightarrow> pending_login" where
  "begun R prov query fl p w az =
     \<lparr>pn_provider = prov, pn_state = az_state az, pn_pkce_verifier = az_pkce_verifier az,
      pn_nonce = az_nonce az, pn_next = start_next fl query, pn_link = wants_link query,
      pn_created_at = fst (ra_now R (snd (snd (ra_authorize R p w))))\<rparr>"

lemma begun_fields [simp]:
  "pn_provider (begun R prov query fl p w az) = prov" "pn_state (begun R prov query fl p w az) = az_state az"
  "pn_next (begun R prov query fl p w az) = start_next fl query"
  "pn_link (begun R prov query fl p w az) = wants_link query"
  by (simp_all add: begun_def)

lemma start_remembers:
  assumes "bt_get prov (fl_providers fl) = Some p" and "fst (ra_authorize R p w) = Inr az"
    and "\<not> (wants_link query \<and> au_user auth = None)"
    and "remember (ra_session R) (start_clock R p w) (begun R prov query fl p w az) (au_session auth) = (Inr (), s)"
  shows "\<exists>w'. start R prov query (fl, auth, w)
    = (RedirectTo (ra_url_str R (az_url az)), put_provider prov (fst (snd (ra_authorize R p w))) fl,
       auth\<lparr>au_session := s\<rparr>, w')"
proof -
  obtain p' w1 where az: "ra_authorize R p w = (Inr az, p', w1)"
    using assms(2) by (cases "ra_authorize R p w") auto
  have "safe_next (sq_next query) (fl_default_next fl) = start_next fl query"
    "sq_link query = Some ''1'' \<or> sq_link query = Some ''true'' \<longleftrightarrow> wants_link query"
    by (simp_all add: start_next_def wants_link_def)
  with assms az show ?thesis
    by (auto simp: start_def Let_def start_clock_def begun_def case_prod_beta)
qed

text \<open>The session after any start: as before, or with one attempt remembered.\<close>

lemma start_session:
  assumes "start R prov query (fl, auth, w) = (resp, fl', auth', w')"
  shows "(fl' = fl \<or> (\<exists>p. fl' = put_provider prov p fl))
    \<and> (au_session auth' = au_session auth
       \<or> (\<exists>p az r. bt_get prov (fl_providers fl) = Some p \<and> fst (ra_authorize R p w) = Inr az
            \<and> remember (ra_session R) (start_clock R p w) (begun R prov query fl p w az) (au_session auth)
                = (r, au_session auth')))"
proof -
  have fold: "safe_next (sq_next query) (fl_default_next fl) = start_next fl query"
    "sq_link query = Some ''1'' \<or> sq_link query = Some ''true'' \<longleftrightarrow> wants_link query"
    by (simp_all add: start_next_def wants_link_def)
  show ?thesis
  proof (cases "bt_get prov (fl_providers fl) = None \<or> wants_link query \<and> au_user auth = None")
    case True
    with assms show ?thesis by (auto simp: start_def Let_def fold split: option.splits)
  next
    case False
    then obtain p where p: "bt_get prov (fl_providers fl) = Some p" by auto
    obtain res p' w1 where az: "ra_authorize R p w = (res, p', w1)" by (metis surj_pair)
    show ?thesis
    proof (cases res)
      case (Inl e)
      with assms False p az show ?thesis by (auto simp: start_def Let_def fold)
    next
      case (Inr az')
      obtain r s where r: "remember (ra_session R) (start_clock R p w) (begun R prov query fl p w az')
          (au_session auth) = (r, s)" by (metis surj_pair)
      with assms False p az Inr have "fl' = put_provider prov p' fl \<and> au_session auth' = s"
        by (auto simp: start_def Let_def fold start_clock_def begun_def case_prod_beta split: sum.splits)
      with p az Inr r show ?thesis by auto
    qed
  qed
qed

section \<open>How long an attempt stays\<close>

text \<open>The attempts that are evicted after \<open>a\<close>, not before: the others that are as new or newer.\<close>

definition rivals :: "'s session_view \<Rightarrow> string \<Rightarrow> pending_login \<Rightarrow> 's \<Rightarrow> string set" where
  "rivals view k a s =
     {j. j \<noteq> k \<and> (\<exists>b. pending_of view s j = Some b \<and> pn_created_at a \<le> pn_created_at b)}"

lemma remember_keeps:
  assumes laws: "session_laws S view" and rem: "remember S now p s = (r, s')"
    and here: "pending_of view s k = Some a" and fresh: "is_fresh now a" and other: "pn_state p \<noteq> k"
    and few: "card (rivals view k a s) \<le> 2" and fin: "finite (rivals view k a s)"
  shows "pending_of view s' k = Some a \<and> finite (rivals view k a s')
    \<and> card (rivals view k a s') \<le> Suc (card (rivals view k a s))"
proof (cases "is_err r")
  case True
  with remember_written [OF laws rem] have "pending_of view s' = pending_of view s" by simp
  with here fin show ?thesis by (simp add: rivals_def)
next
  case False
  with remember_written [OF laws rem] obtain m where m: "hm_wf m" "map_of m = pending_of view s"
    and new: "pending_of view s' = map_of (hm_insert (pn_state p) p (evict (filter (\<lambda>e. is_fresh now (snd e)) m)))"
    by auto
  define f where "f = filter (\<lambda>e. is_fresh now (snd e)) m"
  have f: "hm_wf f" using m(1) by (auto simp: f_def)
  note ev = evict_spec [OF f]
  have inf: "(j, b) \<in> set f \<longleftrightarrow> pending_of view s j = Some b \<and> is_fresh now b" for j b
    using fresh_entries [OF m(1)] m(2) by (simp add: f_def)
  have ka: "(k, a) \<in> set f" using here fresh by (simp add: inf)
  have kept: "(k, a) \<in> set (evict f)"
  proof (rule ccontr)
    assume gone: "(k, a) \<notin> set (evict f)"
    have dist: "distinct (map fst (evict f))" using ev by (simp add: hm_wf_def)
    have sub: "fst ` set (evict f) \<subseteq> rivals view k a s"
    proof
      fix j
      assume "j \<in> fst ` set (evict f)"
      then obtain b where jb: "(j, b) \<in> set (evict f)" by auto
      then have "(j, b) \<in> set f" using ev by auto
      moreover have "j \<noteq> k" using jb gone \<open>(j, b) \<in> set f\<close> ka inf by auto
      moreover have "created (k, a) \<le> created (j, b)" using ev ka gone jb by blast
      ultimately show "j \<in> rivals view k a s" using inf by (auto simp: rivals_def created_def)
    qed
    have "evict f \<noteq> f" using gone ka by auto
    then have "MAX_PENDING \<le> length f" by (metis evict.simps)
    then have "length (evict f) = 3" using ev by (simp add: MAX_PENDING_def)
    then have "card (fst ` set (evict f)) = 3" using distinct_card [OF dist] by simp
    with card_mono [OF fin sub] few show False by simp
  qed
  have "map_of (evict f) k = Some a" using kept ev hm_get_iff [of "evict f" k a] by (simp add: hm_get_def)
  then have here': "pending_of view s' k = Some a"
    using other by (simp add: new map_of_insert f_def [symmetric])
  have "pending_of view s' j = Some b \<Longrightarrow> j = pn_state p \<or> pending_of view s j = Some b" for j b
    using ev hm_get_iff [of "evict f" j b] inf [of j b]
    by (auto simp: new map_of_insert f_def [symmetric] hm_get_def split: if_splits)
  then have sub: "rivals view k a s' \<subseteq> insert (pn_state p) (rivals view k a s)"
    by (auto simp: rivals_def)
  with fin have "finite (rivals view k a s')" using finite_subset by blast
  moreover have "card (rivals view k a s') \<le> Suc (card (rivals view k a s))"
    using card_mono [OF _ sub] fin card_insert_le_m1 [of "Suc (card (rivals view k a s))" "rivals view k a s"]
    by (simp add: card_insert_if split: if_splits)
  ultimately show ?thesis using here' by blast
qed

section \<open>What may happen in between\<close>

text \<open>axum-login's login keeps the session's data: it changes the id and who is signed in.\<close>

definition login_keeps :: "('p, 'u, 's, 'url, 'w) routes_api \<Rightarrow> 's session_view \<Rightarrow> bool" where
  "login_keeps R view \<longleftrightarrow>
     (\<forall>u au r au'. ra_login R u au = (r, au') \<longrightarrow>
        pending_of view (au_session au') = pending_of view (au_session au))"

text \<open>
  Requests of the session between the start and the callback: \<open>n\<close> other starts, each with a state token of its
  own and before the attempt is too old, callbacks for other attempts, and the world moves on.
\<close>

inductive later ::
    "('p, 'u, 's, 'url, 'w) routes_api \<Rightarrow> string \<Rightarrow> pending_login \<Rightarrow> nat
      \<Rightarrow> ('p, 'u, 's, 'w) rstate \<Rightarrow> ('p, 'u, 's, 'w) rstate \<Rightarrow> bool"
  for R :: "('p, 'u, 's, 'url, 'w) routes_api" and k and a where
  later_now: "later R k a 0 st st"
| later_world: "later R k a n st (fl, auth, w) \<Longrightarrow> later R k a n st (fl, auth, w')"
| later_start: "later R k a n st (fl, auth, w) \<Longrightarrow> start R prov query (fl, auth, w) = (resp, st') \<Longrightarrow>
    (\<And>p az. bt_get prov (fl_providers fl) = Some p \<Longrightarrow> fst (ra_authorize R p w) = Inr az \<Longrightarrow>
      az_state az \<noteq> k \<and> is_fresh (start_clock R p w) a) \<Longrightarrow> later R k a (Suc n) st st'"
| later_callback: "later R k a n st st1 \<Longrightarrow> callback R prov cquery st1 = (resp, st') \<Longrightarrow>
    cq_state cquery \<noteq> Some k \<Longrightarrow> later R k a n st st'"

lemma finish_callback_pending:
  assumes "login_keeps R view" and "finish_callback R prov query a (fl, auth, w) = (resp, fl', auth', w')"
  shows "pending_of view (au_session auth') = pending_of view (au_session auth)"
  using finish_callback_cases [OF assms(2)] assms(1)
  by (auto simp: logs_in_def login_keeps_def)

text \<open>A callback leaves the attempts of other states, and its flow is the one before but for a provider's cell.\<close>

lemma callback_other_state:
  assumes laws: "session_laws (ra_session R) view" and keeps: "login_keeps R view"
    and cb: "callback R prov query (fl, auth, w) = (resp, fl', auth', w')" and "cq_state query \<noteq> Some k"
  shows "pending_of view (au_session auth') k = pending_of view (au_session auth) k
    \<and> (\<forall>j. pending_of view (au_session auth') j \<noteq> None \<longrightarrow>
         pending_of view (au_session auth') j = pending_of view (au_session auth) j)"
proof (cases "cq_state query")
  case None
  then have "auth' = auth" using cb by (auto simp: callback_def Let_def)
  then show ?thesis by simp
next
  case (Some state)
  obtain now w1 where now: "ra_now R w = (now, w1)" by (metis surj_pair)
  obtain taken s where tk: "take_pending (ra_session R) now state (au_session auth) = (taken, s)"
    by (metis surj_pair)
  from take_written [OF laws tk] have p: "pending_of view s = pending_of view (au_session auth)
      \<or> pending_of view s = (pending_of view (au_session auth))(state := None)"
    by (auto split: if_splits)
  have "pending_of view (au_session auth') = pending_of view s"
  proof (cases "\<exists>a. taken = Inr (Some a) \<and> pn_provider a = prov")
    case True
    then obtain a where a: "taken = Inr (Some a)" "pn_provider a = prov" by blast
    with cb Some now tk have "finish_callback R prov query a (fl, auth\<lparr>au_session := s\<rparr>, w1) = (resp, fl', auth', w')"
      by (simp add: callback_def Let_def)
    from finish_callback_pending [OF keeps this] show ?thesis by simp
  next
    case False
    with cb Some now tk have "auth' = auth\<lparr>au_session := s\<rparr>"
      by (auto simp: callback_def Let_def split: sum.splits option.splits if_splits)
    then show ?thesis by simp
  qed
  with p Some assms(4) show ?thesis by (auto split: if_splits)
qed

lemma callback_update:
  "callback R prov query (fl, auth, w) = (resp, fl', auth', w') \<Longrightarrow> provider_update prov fl fl'"
  by (auto simp: callback_def Let_def provider_update_def case_prod_beta
      dest!: finish_callback_cases [THEN conjunct1] split: sum.splits option.splits if_splits)

text \<open>No request changes the flow but for the cells of its providers, and none of those is lost.\<close>

definition same_flow :: "('p, 'u, 'w) flow \<Rightarrow> ('p, 'u, 'w) flow \<Rightarrow> bool" where
  "same_flow fl fl' \<longleftrightarrow> settings fl' = settings fl
     \<and> (\<forall>i. bt_get i (fl_providers fl) \<noteq> None \<longrightarrow> bt_get i (fl_providers fl') \<noteq> None)"

lemma same_flow_refl: "same_flow fl fl"
  by (simp add: same_flow_def)

lemma same_flow_trans: "same_flow a b \<Longrightarrow> same_flow b c \<Longrightarrow> same_flow a c"
  unfolding same_flow_def by (metis (no_types))

lemma same_flow_update: "provider_update prov fl fl' \<Longrightarrow> same_flow fl fl'"
  by (auto simp: same_flow_def provider_update_def put_provider_def settings_def)

lemma same_flow_resolver: "same_flow fl fl' \<Longrightarrow> fl_resolver fl' = fl_resolver fl"
proof -
  assume "same_flow fl fl'"
  then have "fl_resolver (settings fl') = fl_resolver (settings fl)" by (simp add: same_flow_def)
  then show "fl_resolver fl' = fl_resolver fl" by (simp add: settings_def)
qed

lemma later_keeps:
  assumes laws: "session_laws (ra_session R) view" and keeps: "login_keeps R view"
    and "later R k a n (fl0, auth0, w0) (fl, auth, w)"
    and "pending_of view (au_session auth0) k = Some a" and "finite (rivals view k a (au_session auth0))"
    and "n + card (rivals view k a (au_session auth0)) \<le> 3"
  shows "pending_of view (au_session auth) k = Some a \<and> finite (rivals view k a (au_session auth))
    \<and> card (rivals view k a (au_session auth)) \<le> n + card (rivals view k a (au_session auth0))
    \<and> same_flow fl0 fl"
  using assms(3-6)
proof (induction n "(fl0, auth0, w0)" "(fl, auth, w)" arbitrary: fl auth w rule: later.induct)
  case later_now
  then show ?case by (simp add: same_flow_refl)
next
  case (later_world n fl auth w w')
  then show ?case by blast
next
  case (later_start n fl auth w prov query resp fl' auth' w')
  then have here: "pending_of view (au_session auth) k = Some a"
    and fin: "finite (rivals view k a (au_session auth))"
    and card: "card (rivals view k a (au_session auth)) \<le> n + card (rivals view k a (au_session auth0))"
    and flow: "same_flow fl0 fl" by simp_all
  have few: "card (rivals view k a (au_session auth)) \<le> 2" using card later_start.prems by simp
  from start_session [OF later_start.hyps(3)] have "provider_update prov fl fl'"
    by (simp add: provider_update_def)
  then have flow': "same_flow fl0 fl'" using same_flow_trans [OF flow same_flow_update] by blast
  from start_session [OF later_start.hyps(3), THEN conjunct2] show ?case
  proof (elim disjE exE conjE)
    assume "au_session auth' = au_session auth"
    with here fin card flow' show ?case by simp
  next
    fix p az r
    assume p: "bt_get prov (fl_providers fl) = Some p" "fst (ra_authorize R p w) = Inr az"
      and rem: "remember (ra_session R) (start_clock R p w) (begun R prov query fl p w az) (au_session auth)
        = (r, au_session auth')"
    have "is_fresh (start_clock R p w) a" "pn_state (begun R prov query fl p w az) \<noteq> k"
      using later_start.hyps(4) [OF p] by simp_all
    from remember_keeps [OF laws rem here this few fin] card flow' show ?case by simp
  qed
next
  case (later_callback n st1 prov cquery resp fl' auth' w')
  obtain fl auth w where st1: "st1 = (fl, auth, w)" by (cases st1) auto
  note before = later_callback.hyps(2) [OF st1 later_callback.prems]
  from callback_other_state [OF laws keeps later_callback.hyps(3) [unfolded st1] later_callback.hyps(4)]
  have same: "pending_of view (au_session auth') k = pending_of view (au_session auth) k"
    and sub: "rivals view k a (au_session auth') \<subseteq> rivals view k a (au_session auth)"
    by (auto simp: rivals_def)
  have "same_flow fl0 fl'"
    using before same_flow_trans [OF _ same_flow_update [OF callback_update [OF later_callback.hyps(3) [unfolded st1]]]]
    by blast
  moreover have "finite (rivals view k a (au_session auth'))"
    "card (rivals view k a (au_session auth')) \<le> card (rivals view k a (au_session auth))"
    using before sub by (auto intro: finite_subset card_mono)
  ultimately show ?case using before same by simp
qed

section \<open>Properties\<close>

lemma remembered_rivals:
  assumes "session_laws S view" and "remember S now a s = (Inr (), s')"
  shows "pending_of view s' (pn_state a) = Some a" and "finite (rivals view (pn_state a) a s')"
    and "card (rivals view (pn_state a) a s') \<le> card (rivals view (pn_state a) a s)"
proof -
  note eff = remember_effect [OF assms]
  show "pending_of view s' (pn_state a) = Some a" using eff by blast
  have "rivals view (pn_state a) a s' \<subseteq> dom (pending_of view s')" by (auto simp: rivals_def)
  then show "finite (rivals view (pn_state a) a s')" using eff finite_subset by blast
  from remember_written [OF assms] obtain m where "map_of m = pending_of view s" by auto
  then have "finite (dom (pending_of view s))" using finite_dom_map_of by metis
  then have "finite (rivals view (pn_state a) a s)"
    by (rule finite_subset [rotated]) (auto simp: rivals_def)
  moreover have "rivals view (pn_state a) a s' \<subseteq> rivals view (pn_state a) a s"
    using eff by (auto simp: rivals_def)
  ultimately show "card (rivals view (pn_state a) a s') \<le> card (rivals view (pn_state a) a s)"
    by (rule card_mono)
qed

text \<open>
  C2: a sign-in that goes right ends signed in. When the provider gives an authorization and the session is up,
  the start sends the browser to the provider; when the browser comes back with that state within ten minutes,
  the code is confirmed, the application's resolver accepts the identity and the login works, then the user is
  signed in and sent to the page asked for at the start. In between, the same session may start up to three
  other sign-ins (fewer, if older attempts were made in the same second) and end others: none of them takes this
  attempt away, and this one can be used once.
\<close>

theorem sign_in_completes:
  assumes "session_laws (ra_session R) view" and "login_keeps R view"
    and "bt_get prov (fl_providers fl0) = Some p0" and "fst (ra_authorize R p0 w0) = Inr az"
    and "\<not> (wants_link query \<and> au_user auth0 = None)" and "a = begun R prov query fl0 p0 w0 az"
    and "remember (ra_session R) (start_clock R p0 w0) a (au_session auth0) = (Inr (), s1)"
    and "start R prov query (fl0, auth0, w0) = (resp, fl1, auth1, w1)"
    and "later R (az_state az) a n (fl1, auth1, w1) (fl2, auth2, w2)"
    and "n + card (rivals view (az_state az) a (au_session auth0)) \<le> 3"
    and "ra_now R w2 = (now, w3)" and "is_fresh now a"
    and "take_pending (ra_session R) now (az_state az) (au_session auth2) = (Inr found, s3)"
    and "ra_identify R (the (bt_get prov (fl_providers fl2))) code a w3 = (Inr identity, p3, w4)"
    and "wants_link query \<longrightarrow> au_user auth2 \<noteq> None"
    and "fl_resolver fl0 identity \<lparr>rc_current_user = au_user auth2, rc_link = wants_link query\<rparr> w4 = (Inr resolved, w5)"
    and "ra_login R (rs_user resolved) (auth2\<lparr>au_session := s3\<rparr>) = (Inr (), auth3)"
  shows "resp = RedirectTo (ra_url_str R (az_url az)) \<and> bt_get prov (fl_providers fl2) \<noteq> None
    \<and> callback R prov \<lparr>cq_code = Some code, cq_state = Some (az_state az), cq_error = None\<rparr> (fl2, auth2, w2)
        = (RedirectTo (with_query (ra_encode R) (start_next fl0 query) (rs_query resolved)),
           put_provider prov p3 fl2, auth3, w5)
    \<and> pending_of view (au_session auth3) (az_state az) = None"
proof -
  have a: "pn_state a = az_state az" "pn_provider a = prov" "pn_next a = start_next fl0 query"
    "pn_link a = wants_link query" by (simp_all add: assms(6))
  from start_remembers [OF assms(3-5) assms(7) [unfolded assms(6)]] assms(8)
  obtain p1 where started: "resp = RedirectTo (ra_url_str R (az_url az))" "fl1 = put_provider prov p1 fl0"
    "auth1 = auth0\<lparr>au_session := s1\<rparr>" by auto
  note r = remembered_rivals [OF assms(1,7), unfolded a(1)]
  have "pending_of view (au_session auth1) (az_state az) = Some a"
    "finite (rivals view (az_state az) a (au_session auth1))"
    "n + card (rivals view (az_state az) a (au_session auth1)) \<le> 3"
    using r assms(10) by (simp_all add: started(3))
  from later_keeps [OF assms(1,2,9) this] have here: "pending_of view (au_session auth2) (az_state az) = Some a"
    and "same_flow fl1 fl2" by blast+
  moreover have "provider_update prov fl0 fl1" using started(2) by (auto simp: provider_update_def)
  ultimately have flow: "same_flow fl0 fl2" using same_flow_trans [OF same_flow_update] by blast
  then obtain p2 where p2: "bt_get prov (fl_providers fl2) = Some p2"
    using assms(3) by (auto simp: same_flow_def)
  from take_written [OF assms(1,13)] here assms(12) have found: "found = Some a"
    and gone: "pending_of view s3 (az_state az) = None" by simp_all
  have resolver: "fl_resolver (put_provider prov p3 fl2) = fl_resolver fl0"
    using same_flow_resolver [OF flow] by (simp add: put_provider_def)
  have "callback R prov \<lparr>cq_code = Some code, cq_state = Some (az_state az), cq_error = None\<rparr> (fl2, auth2, w2)
      = finish_callback R prov \<lparr>cq_code = Some code, cq_state = Some (az_state az), cq_error = None\<rparr> a
          (fl2, auth2\<lparr>au_session := s3\<rparr>, w3)"
    using assms(11,13) found a(2) by (simp add: callback_def Let_def)
  also have "\<dots> = (RedirectTo (with_query (ra_encode R) (start_next fl0 query) (rs_query resolved)),
           put_provider prov p3 fl2, auth3, w5)"
    using assms(14-17) p2 resolver a(3,4) by (auto simp: finish_callback_def Let_def)
  finally have done_: "callback R prov \<lparr>cq_code = Some code, cq_state = Some (az_state az), cq_error = None\<rparr>
      (fl2, auth2, w2) = (RedirectTo (with_query (ra_encode R) (start_next fl0 query) (rs_query resolved)),
           put_provider prov p3 fl2, auth3, w5)" .
  have "pending_of view (au_session auth3) = pending_of view s3"
    using assms(2,17) unfolding login_keeps_def by fastforce
  with gone started(1) p2 done_ show ?thesis by simp
qed

text \<open>A sign-in with nothing in between, on the small service of \<open>Auth_Flow\<close>.\<close>

definition empty_handed :: "(string, memory) auth_session" where
  "empty_handed = \<lparr>au_user = None, au_session = (True, Map.empty)\<rparr>"

definition to_games :: start_query where
  "to_games = \<lparr>sq_next = Some ''/games'', sq_link = None\<rparr>"

lemma demo_login_keeps: "login_keeps demo_routes memory_view"
  by (simp add: login_keeps_def demo_routes_def)

lemma demo_identify:
  "\<exists>identity. ra_identify demo_routes (POAuth2 echo_provider) ''code'' a w
     = (Inr identity, POAuth2 echo_provider, w) \<and> ei_subject (identity :: json external_identity) = ''code''"
  by (simp add: demo_routes_def provider_identify_def oauth2_identify_def echo_oauth2_def echo_provider_def
      fetch_userinfo_def subject_of_def string_field_def)

lemma demo_authorize:
  "\<exists>az w'. ra_authorize demo_routes (POAuth2 echo_provider) w = (Inr az, POAuth2 echo_provider, w')"
  by (simp add: demo_routes_def provider_authorize_def oauth2_authorize_def echo_oauth2_def echo_provider_def
      Let_def)

lemma empty_remember:
  "remember memory_session now a (True, Map.empty) = (Inr (), (True, [PENDING_KEY \<mapsto> [(pn_state a, a)]]))"
  by (simp add: remember_def memory_session_def evict.simps MAX_PENDING_def hm_insert_def hm_remove_def)

lemma single_take:
  assumes "is_fresh now a"
  shows "\<exists>s. take_pending memory_session now (pn_state a) (True, [PENDING_KEY \<mapsto> [(pn_state a, a)]]) = (Inr (Some a), s)"
  using assms by (auto simp: take_pending_def memory_session_def hm_remove_def hm_get_def)

theorem sign_in_completes_witness:
  "\<exists>url fl auth w resp fl' auth' w' state. start demo_routes ''ogs'' to_games (demo_flow, empty_handed, 0)
       = (RedirectTo url, fl, auth, w)
     \<and> callback demo_routes ''ogs'' \<lparr>cq_code = Some ''code'', cq_state = Some state, cq_error = None\<rparr> (fl, auth, w)
       = (resp, fl', auth', w')
     \<and> au_user auth' = Some ''code''"
proof -
  let ?R = demo_routes and ?p = "POAuth2 echo_provider :: (string, nat) provider"
  have laws: "session_laws (ra_session ?R) memory_view" by (simp add: demo_routes_def memory_session_laws)
  obtain az wa where az: "ra_authorize ?R ?p 0 = (Inr az, ?p, wa)" using demo_authorize by blast
  define a where "a = begun ?R ''ogs'' to_games demo_flow ?p 0 az"
  have prov: "bt_get ''ogs'' (fl_providers demo_flow) = Some ?p" by (simp add: demo_flow_def bt_get_def)
  have link: "\<not> wants_link to_games" by (simp add: wants_link_def to_games_def)
  let ?s = "(True, [PENDING_KEY \<mapsto> [(pn_state a, a)]]) :: memory"
  have rem: "remember (ra_session ?R) (start_clock ?R ?p 0) a (au_session empty_handed) = (Inr (), ?s)"
    by (simp add: demo_routes_def empty_handed_def empty_remember)
  from start_remembers [OF prov _ _ rem [unfolded a_def]] az link obtain w
    where start: "start ?R ''ogs'' to_games (demo_flow, empty_handed, 0)
      = (RedirectTo (ra_url_str ?R (az_url az)), put_provider ''ogs'' ?p demo_flow, empty_handed\<lparr>au_session := ?s\<rparr>, w)"
    by (auto simp: a_def)
  have fresh: "is_fresh 50 a"
    by (simp add: is_fresh_def a_def begun_def demo_routes_def saturating_sub_def PENDING_TTL_SECS_def)
  have now: "ra_now ?R w = (50, w)" by (simp add: demo_routes_def)
  obtain s3 where tk: "take_pending (ra_session ?R) 50 (az_state az)
      (au_session (empty_handed\<lparr>au_session := ?s\<rparr>)) = (Inr (Some a), s3)"
    using single_take [OF fresh] by (auto simp: demo_routes_def a_def)
  have here: "bt_get ''ogs'' (fl_providers (put_provider ''ogs'' ?p demo_flow)) = Some ?p"
    by (simp add: put_provider_def)
  obtain identity where idy: "ra_identify ?R (the (bt_get ''ogs'' (fl_providers (put_provider ''ogs'' ?p demo_flow))))
      ''code'' a w = (Inr identity, ?p, w)" and subject: "ei_subject (identity :: json external_identity) = ''code''"
    unfolding here option.sel using demo_identify by blast
  have none: "0 + card (rivals memory_view (az_state az) a (au_session empty_handed)) \<le> 3"
    by (simp add: rivals_def pending_of_def memory_view_def empty_handed_def)
  have resolved: "fl_resolver demo_flow identity ctx w = (Inr (resolved_new ''code''), w)" for ctx
    using subject by (simp add: demo_flow_def)
  let ?auth = "empty_handed\<lparr>au_session := s3, au_user := Some ''code''\<rparr>"
  have login: "ra_login ?R (rs_user (resolved_new ''code'')) (empty_handed\<lparr>au_session := ?s\<rparr>\<lparr>au_session := s3\<rparr>)
      = (Inr (), ?auth)" by (simp add: demo_routes_def resolved_new_def)
  from sign_in_completes [OF laws demo_login_keeps prov _ _ a_def rem start later_now none now fresh tk idy _
      resolved login] az link
  have "callback ?R ''ogs'' \<lparr>cq_code = Some ''code'', cq_state = Some (az_state az), cq_error = None\<rparr>
      (put_provider ''ogs'' ?p demo_flow, empty_handed\<lparr>au_session := ?s\<rparr>, w)
      = (RedirectTo (with_query (ra_encode ?R) (start_next demo_flow to_games) (rs_query (resolved_new ''code''))),
         put_provider ''ogs'' ?p (put_provider ''ogs'' ?p demo_flow), ?auth, w)" by simp
  with start show ?thesis by (intro exI conjI) (assumption, assumption, simp)
qed

end
