(* ===== verification/Auth_Csrf.thy ===== *)
theory Auth_Csrf
  imports Muxa_Prelude
begin

text \<open>
  \<open>muxa-auth/src/csrf.rs\<close>: the guard that refuses state-changing requests from other sites.

  The \<open>url\<close> crate is \<open>url_api\<close>, over a type \<open>'u\<close> of parsed URLs and \<open>'o\<close> of origins. A header
  map gives the value of a header, and \<open>to_str\<close> is \<open>HeaderValue::to_str\<close>.
\<close>

record ('u, 'o) url_api =
  url_parse :: "string \<Rightarrow> 'u option"
  url_origin :: "'u \<Rightarrow> 'o"
  origin_is_tuple :: "'o \<Rightarrow> bool"
  ascii_serialization :: "'o \<Rightarrow> string"
  host_str :: "'u \<Rightarrow> string option"
  url_port :: "'u \<Rightarrow> u16 option"

datatype http_method = GET | HEAD | OPTIONS | OtherMethod string

record header_map =
  header_value :: "string \<Rightarrow> string option"
  to_str :: "string \<Rightarrow> string option"

definition normalize :: "('u, 'o) url_api \<Rightarrow> string \<Rightarrow> string option" where
  "normalize U origin =
     (case url_parse U origin of
        None \<Rightarrow> None
      | Some url \<Rightarrow>
          (let orig = url_origin U url
           in if origin_is_tuple U orig then Some (ascii_serialization U orig) else None))"

text \<open>\<open>TrustedOrigins\<close>: a set of serialized origins.\<close>

type_synonym trusted_origins = "string set"

definition trusted_origins_new :: "('u, 'o) url_api \<Rightarrow> string list \<Rightarrow> trusted_origins" where
  "trusted_origins_new U origins = set (List.map_filter (normalize U) origins)"

definition trusted_contains :: "('u, 'o) url_api \<Rightarrow> trusted_origins \<Rightarrow> string \<Rightarrow> bool" where
  "trusted_contains U trusted origin =
     (case normalize U origin of None \<Rightarrow> False | Some orig \<Rightarrow> orig \<in> trusted)"

definition header_str :: "header_map \<Rightarrow> string \<Rightarrow> string option" where
  "header_str headers name = Option.bind (header_value headers name) (to_str headers)"

definition origin_host :: "('u, 'o) url_api \<Rightarrow> 'u \<Rightarrow> string option" where
  "origin_host U orig =
     (case (host_str U orig, url_port U orig) of
        (Some name, Some port) \<Rightarrow> Some (name @ '':'' @ dec_string (unat port))
      | (Some name, None) \<Rightarrow> Some name
      | _ \<Rightarrow> None)"

definition allowed :: "('u, 'o) url_api \<Rightarrow> http_method \<Rightarrow> header_map \<Rightarrow> trusted_origins \<Rightarrow> bool" where
  "allowed U method headers trusted =
     (if method \<in> {GET, HEAD, OPTIONS} then True
      else
        (let orig = header_str headers ''origin''
         in case header_value headers ''sec-fetch-site'' of
              Some site \<Rightarrow>
                if site = ''same-origin'' \<or> site = ''none'' then True
                else (case orig of Some ori \<Rightarrow> trusted_contains U trusted ori | None \<Rightarrow> False)
            | None \<Rightarrow>
                (case orig of
                   None \<Rightarrow> True
                 | Some ori \<Rightarrow>
                     if trusted_contains U trusted ori then True
                     else
                       (case (url_parse U ori, header_str headers ''host'') of
                          (Some url, Some host) \<Rightarrow>
                            (case origin_host U url of
                               Some oh \<Rightarrow> eq_ignore_ascii_case oh host
                             | None \<Rightarrow> False)
                        | _ \<Rightarrow> False))))"

record request =
  rq_method :: http_method
  rq_headers :: header_map

datatype 'resp guarded = Passed 'resp | Forbidden string

text \<open>The middleware: \<open>nxt\<close> is the rest of the stack, run on the world.\<close>

definition guard ::
    "('u, 'o) url_api \<Rightarrow> trusted_origins \<Rightarrow> request \<Rightarrow> (request \<Rightarrow> 'w \<Rightarrow> 'resp \<times> 'w) \<Rightarrow> 'w
      \<Rightarrow> 'resp guarded \<times> 'w" where
  "guard U trusted req nxt w =
     (if allowed U (rq_method req) (rq_headers req) trusted
      then (let (resp, w) = nxt req w in (Passed resp, w))
      else (Forbidden ''cross-origin request refused'', w))"

section \<open>The rule\<close>

text \<open>
  The rule that the module's documentation states, clause by clause, over what the request says and what
  the \<open>url\<close> crate reads in it. Two texts name the same origin when both parse to a tuple origin and
  the two serialize alike. A \<open>Host\<close> header names the host of a URL when it is the URL's host, in any
  case, with a port exactly when the URL has one that is not its scheme's default, in decimal.
\<close>

definition same_origin :: "('u, 'o) url_api \<Rightarrow> string \<Rightarrow> string \<Rightarrow> bool" where
  "same_origin U a b \<longleftrightarrow>
     (\<exists>u v. url_parse U a = Some u \<and> url_parse U b = Some v
        \<and> origin_is_tuple U (url_origin U u) \<and> origin_is_tuple U (url_origin U v)
        \<and> ascii_serialization U (url_origin U u) = ascii_serialization U (url_origin U v))"

definition host_of_url :: "('u, 'o) url_api \<Rightarrow> 'u \<Rightarrow> string \<Rightarrow> bool" where
  "host_of_url U url host \<longleftrightarrow>
     (\<exists>name named port. host_str U url = Some name \<and> host = named @ port
        \<and> map to_ascii_lowercase named = map to_ascii_lowercase name
        \<and> (url_port U url = None \<and> port = [] \<or> (\<exists>p. url_port U url = Some p \<and> port = CHR '':'' # dec_string (unat p))))"

inductive documented_rule ::
    "('u, 'o) url_api \<Rightarrow> string list \<Rightarrow> http_method \<Rightarrow> header_map \<Rightarrow> bool"
  for U :: "('u, 'o) url_api" and configured :: "string list" where
  safe_method: "m \<in> {GET, HEAD, OPTIONS} \<Longrightarrow> documented_rule U configured m h"
| same_site: "header_value h ''sec-fetch-site'' = Some s \<Longrightarrow> s \<in> {''same-origin'', ''none''}
    \<Longrightarrow> documented_rule U configured m h"
| from_trusted: "header_value h ''origin'' = Some raw \<Longrightarrow> to_str h raw = Some ori
    \<Longrightarrow> t \<in> set configured \<Longrightarrow> same_origin U ori t \<Longrightarrow> documented_rule U configured m h"
| not_a_browser: "header_value h ''sec-fetch-site'' = None \<Longrightarrow> header_value h ''origin'' = None
    \<Longrightarrow> documented_rule U configured m h"
| own_host: "header_value h ''sec-fetch-site'' = None \<Longrightarrow> header_value h ''origin'' = Some raw
    \<Longrightarrow> to_str h raw = Some ori \<Longrightarrow> url_parse U ori = Some url
    \<Longrightarrow> header_value h ''host'' = Some raw_host \<Longrightarrow> to_str h raw_host = Some host
    \<Longrightarrow> host_of_url U url host \<Longrightarrow> documented_rule U configured m h"

text \<open>Where the code departs from it: an \<open>Origin\<close> that is not visible ASCII counts as none.\<close>

definition unreadable_origin :: "header_map \<Rightarrow> bool" where
  "unreadable_origin h \<longleftrightarrow>
     header_value h ''sec-fetch-site'' = None \<and> (\<exists>raw. header_value h ''origin'' = Some raw \<and> to_str h raw = None)"

definition may_pass :: "('u, 'o) url_api \<Rightarrow> string list \<Rightarrow> http_method \<Rightarrow> header_map \<Rightarrow> bool" where
  "may_pass U configured m h \<longleftrightarrow> documented_rule U configured m h \<or> unreadable_origin h"

lemma same_origin_normalize:
  "same_origin U a b \<longleftrightarrow> normalize U a \<noteq> None \<and> normalize U a = normalize U b"
  by (auto simp: same_origin_def normalize_def Let_def split: option.splits if_splits)

lemma trusted_contains_iff:
  "trusted_contains U (trusted_origins_new U configured) ori \<longleftrightarrow>
     (\<exists>t \<in> set configured. same_origin U ori t)"
proof (cases "normalize U ori")
  case None
  then show ?thesis by (simp add: trusted_contains_def same_origin_normalize)
next
  case (Some x)
  then show ?thesis
    by (auto simp: trusted_contains_def trusted_origins_new_def same_origin_normalize in_map_filter) metis
qed

text \<open>A port has no letters, so ignoring case leaves it as it is.\<close>

lemma to_ascii_lowercase_port:
  "to_ascii_lowercase c = d \<Longrightarrow> d = CHR '':'' \<or> is_ascii_digit d \<Longrightarrow> c = d"
proof (rule ccontr)
  assume low: "to_ascii_lowercase c = d" and d: "d = CHR '':'' \<or> is_ascii_digit d" and "c \<noteq> d"
  then have upper: "is_ascii_uppercase c" by (auto simp: to_ascii_lowercase_def split: if_splits)
  have "byte (to_ascii_lowercase c) = byte c + 32"
    using upper by (simp add: to_ascii_lowercase_def is_ascii_uppercase_def)
  moreover have "byte d \<le> 58" using d by (auto simp: is_ascii_digit_def byte_def)
  ultimately show False using low upper by (auto simp: is_ascii_uppercase_def)
qed

lemma eq_ignore_ascii_case_port:
  assumes "\<And>c. c \<in> set port \<Longrightarrow> c = CHR '':'' \<or> is_ascii_digit c"
  shows "eq_ignore_ascii_case (name @ port) host \<longleftrightarrow>
    (\<exists>named. host = named @ port \<and> map to_ascii_lowercase named = map to_ascii_lowercase name)"
proof
  assume eq: "eq_ignore_ascii_case (name @ port) host"
  then have lens: "length host = length name + length port"
    unfolding eq_ignore_ascii_case_def by (metis length_append length_map)
  let ?n = "take (length name) host" and ?p = "drop (length name) host"
  have "map to_ascii_lowercase ?n @ map to_ascii_lowercase ?p = map to_ascii_lowercase name @ map to_ascii_lowercase port"
    using eq by (simp only: eq_ignore_ascii_case_def map_append [symmetric] append_take_drop_id)
  with lens have parts: "map to_ascii_lowercase ?n = map to_ascii_lowercase name"
    "map to_ascii_lowercase ?p = map to_ascii_lowercase port" by simp_all
  have "?p = port"
  proof (rule nth_equalityI)
    show "length ?p = length port" using lens by simp
    show "?p ! i = port ! i" if "i < length ?p" for i
    proof -
      from that lens have i: "i < length port" by simp
      have "to_ascii_lowercase (port ! i) = port ! i"
        using assms [OF nth_mem [OF i]]
        by (auto simp: to_ascii_lowercase_def is_ascii_digit_def is_ascii_uppercase_def byte_def)
      with parts(2) that i have "to_ascii_lowercase (?p ! i) = port ! i" by (metis nth_map)
      then show ?thesis by (rule to_ascii_lowercase_port) (rule assms [OF nth_mem [OF i]])
    qed
  qed
  with parts(1) show "\<exists>named. host = named @ port \<and> map to_ascii_lowercase named = map to_ascii_lowercase name"
    by (metis append_take_drop_id)
next
  assume "\<exists>named. host = named @ port \<and> map to_ascii_lowercase named = map to_ascii_lowercase name"
  then show "eq_ignore_ascii_case (name @ port) host" by (auto simp: eq_ignore_ascii_case_def)
qed

lemma origin_host_of_url:
  "(\<exists>oh. origin_host U url = Some oh \<and> eq_ignore_ascii_case oh host) \<longleftrightarrow> host_of_url U url host"
proof (cases "url_port U url")
  case None
  then show ?thesis
    by (auto simp: origin_host_def host_of_url_def eq_ignore_ascii_case_def split: option.splits)
next
  case (Some p)
  have "c = CHR '':'' \<or> is_ascii_digit c" if "c \<in> set (CHR '':'' # dec_string (unat p))" for c
    using that dec_string_digits [of "unat p"] by auto
  note port = eq_ignore_ascii_case_port [of "CHR '':'' # dec_string (unat p)", OF this]
  show ?thesis
    using Some port by (auto simp: origin_host_def host_of_url_def split: option.splits)
qed

lemma may_pass_allowed:
  assumes "may_pass U configured m h"
  shows "allowed U m h (trusted_origins_new U configured)"
proof -
  have "allowed U m h (trusted_origins_new U configured)" if "documented_rule U configured m h"
    using that
  proof cases
    case (own_host raw ori url raw_host host)
    then show ?thesis using origin_host_of_url [of U url host]
      by (auto simp: allowed_def Let_def header_str_def)
  qed (auto simp: allowed_def Let_def header_str_def trusted_contains_iff split: option.splits)
  moreover have "allowed U m h (trusted_origins_new U configured)" if "unreadable_origin h"
    using that by (auto simp: unreadable_origin_def allowed_def Let_def header_str_def)
  ultimately show ?thesis using assms by (auto simp: may_pass_def)
qed

lemma allowed_may_pass:
  assumes "allowed U m h (trusted_origins_new U configured)"
  shows "may_pass U configured m h"
proof (cases "m \<in> {GET, HEAD, OPTIONS}")
  case True
  then show ?thesis by (simp add: may_pass_def safe_method)
next
  case unsafe: False
  have trusted: "may_pass U configured m h"
    if "header_str h ''origin'' = Some ori" "trusted_contains U (trusted_origins_new U configured) ori" for ori
    using that by (auto simp: may_pass_def trusted_contains_iff header_str_def bind_eq_Some_conv
        intro: from_trusted)
  show ?thesis
  proof (cases "header_value h ''sec-fetch-site''")
    case (Some site)
    with assms unsafe show ?thesis
      by (auto simp: allowed_def Let_def may_pass_def split: if_splits option.splits
          intro: same_site dest: trusted [unfolded may_pass_def])
  next
    case None
    show ?thesis
    proof (cases "header_str h ''origin''")
      case no_origin: None
      with None show ?thesis
        by (cases "header_value h ''origin''")
          (auto simp: may_pass_def unreadable_origin_def header_str_def intro: not_a_browser)
    next
      case (Some ori)
      show ?thesis
      proof (cases "trusted_contains U (trusted_origins_new U configured) ori")
        case True
        then show ?thesis using trusted Some by simp
      next
        case False
        with assms unsafe None Some obtain url host oh where "url_parse U ori = Some url"
          "header_str h ''host'' = Some host" "origin_host U url = Some oh" "eq_ignore_ascii_case oh host"
          by (auto simp: allowed_def Let_def split: if_splits option.splits)
        with None Some origin_host_of_url [of U url host] show ?thesis
          by (auto simp: may_pass_def header_str_def bind_eq_Some_conv intro: own_host)
      qed
    qed
  qed
qed

lemma guard_rule:
  "guard U (trusted_origins_new U configured) req nxt w =
     (if may_pass U configured (rq_method req) (rq_headers req)
      then (Passed (fst (nxt req w)), snd (nxt req w))
      else (Forbidden ''cross-origin request refused'', w))"
  using may_pass_allowed [of U configured "rq_method req" "rq_headers req"]
    allowed_may_pass [of U "rq_method req" "rq_headers req" configured]
  by (auto simp: guard_def case_prod_beta)

section \<open>Property\<close>

text \<open>
  C10: the cross-origin guard implements the documented rule: a request reaches the application
  exactly when its method is safe, or fetch metadata says it is the site's own or typed by the user,
  or its origin is one of the configured ones, or it carries neither fetch metadata nor an \<open>Origin\<close>
  header, or, without fetch metadata, the \<open>Host\<close> header names its origin's host, with the same port;
  with one departure, which the statement names: without fetch metadata a request whose \<open>Origin\<close>
  header is not visible ASCII passes too. Any other request is refused, with the application not run
  and its state untouched.
\<close>

theorem guard_implements_rule:
  "guard U (trusted_origins_new U configured) req nxt w =
     (if documented_rule U configured (rq_method req) (rq_headers req) \<or> unreadable_origin (rq_headers req)
      then (Passed (fst (nxt req w)), snd (nxt req w))
      else (Forbidden ''cross-origin request refused'', w))"
  using guard_rule by (simp only: may_pass_def)

end
