(* ===== verification/Core_Error.thy ===== *)
theory Core_Error
  imports Muxa_Prelude
begin

text \<open>
  \<open>muxa-core/src/error.rs\<close>: the error type. A boxed error is either one of muxa's own or a
  foreign one, of which only the text it displays is kept.
\<close>

datatype error =
    PluginBuild string boxed_error
  | Config string
  | Io string
  | Other boxed_error
and boxed_error =
    Boxed error
  | Foreign string

type_synonym 'a result = "error + 'a"

text \<open>\<open>Error::other\<close> of a message, and \<open>Error::plugin_build\<close>.\<close>

definition error_other :: "string \<Rightarrow> error" where
  "error_other err = Other (Foreign err)"

definition error_plugin_build :: "string \<Rightarrow> boxed_error \<Rightarrow> error" where
  "error_plugin_build type_name source = PluginBuild type_name source"

text \<open>\<open>From<figment::Error>\<close>.\<close>

definition error_from_figment :: "string \<Rightarrow> error" where
  "error_from_figment err = Config err"

text \<open>The \<open>Display\<close> text of each variant, and the error it reports as its source.\<close>

primrec error_display :: "error \<Rightarrow> string" and boxed_display :: "boxed_error \<Rightarrow> string" where
  "error_display (PluginBuild plugin source) = ''plugin '' @ [CHR 39] @ plugin @ [CHR 39] @ '' failed during build''"
| "error_display (Config err) = ''configuration error''"
| "error_display (Io err) = ''I/O error''"
| "error_display (Other err) = boxed_display err"
| "boxed_display (Boxed err) = error_display err"
| "boxed_display (Foreign text) = text"

fun error_source :: "error \<Rightarrow> boxed_error option" where
  "error_source (PluginBuild plugin source) = Some source"
| "error_source (Config err) = Some (Foreign err)"
| "error_source (Io err) = Some (Foreign err)"
| "error_source (Other err) = None"

end
