(* ===== verification/Core_Mode.thy ===== *)
theory Core_Mode
  imports Muxa_Prelude
begin

text \<open>
  \<open>muxa-core/src/mode.rs\<close>: the run mode, its label, its parser and its resolution from the
  configuration's \<open>env\<close> key or the build profile.
\<close>

datatype run_mode = Development | Production

definition as_str :: "run_mode \<Rightarrow> string" where
  "as_str m = (case m of Development \<Rightarrow> ''development'' | Production \<Rightarrow> ''production'')"

definition is_production :: "run_mode \<Rightarrow> bool" where
  "is_production m = (case m of Production \<Rightarrow> True | Development \<Rightarrow> False)"

definition is_development :: "run_mode \<Rightarrow> bool" where
  "is_development m = (case m of Development \<Rightarrow> True | Production \<Rightarrow> False)"

datatype parse_run_mode_error = ParseRunModeError string

definition run_mode_from_str :: "string \<Rightarrow> parse_run_mode_error + run_mode" where
  "run_mode_from_str raw =
     (let label = map to_ascii_lowercase (str_trim raw)
      in if label = ''development'' \<or> label = ''dev'' \<or> label = ''debug'' then Inr Development
         else if label = ''production'' \<or> label = ''prod'' \<or> label = ''release'' then Inr Production
         else Inl (ParseRunModeError label))"

text \<open>\<open>cfg!(debug_assertions)\<close> is the argument.\<close>

definition from_build_profile :: "bool \<Rightarrow> run_mode" where
  "from_build_profile debug_assertions = (if debug_assertions then Development else Production)"

text \<open>
  \<open>env_key\<close> is \<open>figment.extract_inner::<String>("env").ok()\<close>: \<open>None\<close> when the key is absent or
  not a string.
\<close>

definition from_figment :: "bool \<Rightarrow> string option \<Rightarrow> run_mode" where
  "from_figment debug_assertions env_key =
     (case Option.bind env_key (\<lambda>raw. ok_of (run_mode_from_str raw)) of
        Some m \<Rightarrow> m
      | None \<Rightarrow> from_build_profile debug_assertions)"

lemma run_mode_labels:
  "run_mode_from_str (as_str Development) = Inr Development"
  "run_mode_from_str (as_str Production) = Inr Production"
  by code_simp+

lemma run_mode_label [simp]: "run_mode_from_str (as_str m) = Inr m"
  by (cases m) (simp_all only: run_mode_labels)

lemma run_mode_from_str_Inr:
  "run_mode_from_str raw = Inr m \<longleftrightarrow>
     map to_ascii_lowercase (str_trim raw)
       \<in> (case m of Development \<Rightarrow> {''development'', ''dev'', ''debug''}
                  | Production \<Rightarrow> {''production'', ''prod'', ''release''})"
  by (cases m) (auto simp: run_mode_from_str_def Let_def)

text \<open>
  Parsing a mode's label gives the mode back; a recognised \<open>env\<close> key (three spellings per
  mode, case and surrounding white space ignored) decides the mode whatever the build profile is,
  and an absent or unrecognised one leaves it to the build profile.
\<close>

theorem run_mode_resolution:
  "run_mode_from_str (as_str m) = Inr m
   \<and> from_figment debug (Some (as_str m)) = m
   \<and> (from_figment debug env_key = Production \<longleftrightarrow>
        (case env_key of
           None \<Rightarrow> \<not> debug
         | Some raw \<Rightarrow>
             (let label = map to_ascii_lowercase (str_trim raw)
              in label \<in> {''production'', ''prod'', ''release''}
                 \<or> (label \<notin> {''development'', ''dev'', ''debug''} \<and> \<not> debug))))"
proof -
  have "from_figment debug (Some (as_str m)) = m"
    by (simp add: from_figment_def)
  moreover have "from_figment debug (Some raw) = Production \<longleftrightarrow>
      (let label = map to_ascii_lowercase (str_trim raw)
       in label \<in> {''production'', ''prod'', ''release''}
          \<or> (label \<notin> {''development'', ''dev'', ''debug''} \<and> \<not> debug))" for raw
    by (auto simp: from_figment_def run_mode_from_str_def Let_def from_build_profile_def)
  ultimately show ?thesis
    by (simp add: from_figment_def from_build_profile_def split: option.splits)
qed

lemma run_mode_accepts_padded_upper_case:
  "run_mode_from_str '' RELEASE '' = Inr Production \<and> is_err (run_mode_from_str ''staging'')"
  by code_simp

end
