(* ===== verification/Telemetry.thy ===== *)
theory Telemetry
  imports Contracts
begin

text \<open>
  \<open>muxa-telemetry/src/lib.rs\<close>: the process-wide slot of plugin layers and the targets hidden from
  them.

  The slot's locks and its reload handle can fail: a poisoned mutex or \<open>RwLock\<close>, a subscriber that
  is gone. Each is a flag of the state, and every operation has the branch the code has for it.
  \<open>'k\<close> is \<open>TypeId\<close>, \<open>'l\<close> a boxed layer.
\<close>

record ('k, 'l) slot =
  sl_layers :: "'l list"
  sl_kinds :: "'k list"
  sl_excluded :: "string list"
  sl_kinds_poisoned :: bool
  sl_excluded_poisoned :: bool
  sl_reload_gone :: bool
  sl_interest_rebuilds :: nat

text \<open>\<open>install_subscriber\<close>: \<open>try_init\<close> fails when the application installed a subscriber of its own.\<close>

definition install_subscriber :: "bool \<Rightarrow> ('k, 'l) slot option" where
  "install_subscriber already_set =
     (if already_set then None
      else Some \<lparr>sl_layers = [], sl_kinds = [], sl_excluded = [], sl_kinds_poisoned = False,
                 sl_excluded_poisoned = False, sl_reload_gone = False, sl_interest_rebuilds = 0\<rparr>)"

text \<open>\<open>TelemetryRegistry::install\<close> over the process's \<open>OnceLock\<close> cell.\<close>

definition telemetry_install ::
    "bool \<Rightarrow> ('k, 'l) slot option option \<Rightarrow> ('k, 'l) slot option \<times> ('k, 'l) slot option option" where
  "telemetry_install already_set cell =
     (case cell of
        Some s \<Rightarrow> (s, cell)
      | None \<Rightarrow> (let s = install_subscriber already_set in (s, Some s)))"

definition telemetry_external :: "('k, 'l) slot option" where
  "telemetry_external = None"

definition is_installed :: "('k, 'l) slot option \<Rightarrow> bool" where
  "is_installed reg = (reg \<noteq> None)"

definition in_crate :: "string \<Rightarrow> string \<Rightarrow> bool" where
  "in_crate target krate =
     (case strip_prefix krate target of
        None \<Rightarrow> False
      | Some rest \<Rightarrow> rest = [] \<or> starts_with ''::'' rest)"

definition is_excluded :: "('k, 'l) slot \<Rightarrow> string \<Rightarrow> bool" where
  "is_excluded s target =
     (\<not> sl_excluded_poisoned s \<and> list_ex (\<lambda>krate. in_crate target krate) (sl_excluded s))"

text \<open>
  \<open>plugin_filter\<close>: \<open>level_enabled\<close> is the \<open>EnvFilter\<close>'s verdict on a target.
\<close>

definition plugin_filter :: "(string \<Rightarrow> bool) \<Rightarrow> ('k, 'l) slot \<Rightarrow> string \<Rightarrow> bool" where
  "plugin_filter level_enabled s target = (level_enabled target \<and> \<not> is_excluded s target)"

definition add_layer :: "'k \<Rightarrow> 'l \<Rightarrow> ('k, 'l) slot option \<Rightarrow> ('k, 'l) slot option" where
  "add_layer kind layer reg =
     (case reg of
        None \<Rightarrow> None
      | Some s \<Rightarrow>
          if sl_kinds_poisoned s then Some s
          else (case position (\<lambda>known. known = kind) (sl_kinds s) of
                  Some index \<Rightarrow>
                    if sl_reload_gone s then Some s
                    else Some (s\<lparr>sl_layers := (sl_layers s)[index := layer]\<rparr>)
                | None \<Rightarrow>
                    if sl_reload_gone s then Some s
                    else Some (s\<lparr>sl_layers := sl_layers s @ [layer], sl_kinds := sl_kinds s @ [kind]\<rparr>)))"

fun push_excluded :: "string list \<Rightarrow> string list \<Rightarrow> string list" where
  "push_excluded ex [] = ex"
| "push_excluded ex (target # targets) =
     push_excluded (if target \<in> set ex then ex else ex @ [target]) targets"

definition exclude_targets :: "string list \<Rightarrow> ('k, 'l) slot option \<Rightarrow> ('k, 'l) slot option" where
  "exclude_targets targets reg =
     (case reg of
        None \<Rightarrow> None
      | Some s \<Rightarrow>
          if sl_excluded_poisoned s then Some s
          else Some (s\<lparr>sl_excluded := push_excluded (sl_excluded s) targets,
                       sl_interest_rebuilds := Suc (sl_interest_rebuilds s)\<rparr>))"

section \<open>Runs of operations\<close>

datatype ('k, 'l) tel_op = AddLayer 'k 'l | Exclude "string list"

fun tel_step :: "('k, 'l) slot option \<Rightarrow> ('k, 'l) tel_op \<Rightarrow> ('k, 'l) slot option" where
  "tel_step reg (AddLayer k l) = add_layer k l reg"
| "tel_step reg (Exclude ts) = exclude_targets ts reg"

definition tel_run :: "('k, 'l) tel_op list \<Rightarrow> ('k, 'l) slot option \<Rightarrow> ('k, 'l) slot option" where
  "tel_run ops reg = foldl tel_step reg ops"

text \<open>The abstract slot: one layer per type.\<close>

definition slot_map :: "('k, 'l) slot \<Rightarrow> 'k \<Rightarrow> 'l option" where
  "slot_map s = map_of (zip (sl_kinds s) (sl_layers s))"

text \<open>\<open>kinds\<close> and \<open>layers\<close> in step, one entry per type.\<close>

definition slot_inv :: "('k, 'l) slot \<Rightarrow> bool" where
  "slot_inv s \<longleftrightarrow> length (sl_kinds s) = length (sl_layers s) \<and> distinct (sl_kinds s)"

definition healthy :: "('k, 'l) slot \<Rightarrow> bool" where
  "healthy s \<longleftrightarrow> \<not> sl_kinds_poisoned s \<and> \<not> sl_excluded_poisoned s \<and> \<not> sl_reload_gone s"

lemma map_of_zip_append:
  "length ks = length ls \<Longrightarrow> k \<notin> set ks \<Longrightarrow>
     map_of (zip (ks @ [k]) (ls @ [l])) = (map_of (zip ks ls))(k \<mapsto> l)"
  by (induction ks ls rule: list_induct2) (auto simp: fun_eq_iff)

lemma map_of_zip_update:
  "length ks = length ls \<Longrightarrow> distinct ks \<Longrightarrow> i < length ks \<Longrightarrow>
     map_of (zip ks (ls[i := l])) = (map_of (zip ks ls))(ks ! i \<mapsto> l)"
proof (induction ks ls arbitrary: i rule: list_induct2)
  case Nil
  then show ?case by simp
next
  case (Cons k ks l' ls)
  then show ?case by (cases i) (auto simp: fun_eq_iff)
qed

lemma add_layer_inv:
  "slot_inv s \<Longrightarrow> add_layer k l (Some s) = Some s' \<Longrightarrow> slot_inv s'"
  by (auto simp: add_layer_def slot_inv_def split: if_splits option.splits)

lemma exclude_targets_inv:
  "slot_inv s \<Longrightarrow> exclude_targets ts (Some s) = Some s' \<Longrightarrow> slot_inv s'"
  by (auto simp: exclude_targets_def slot_inv_def split: if_splits)

lemma add_layer_map:
  assumes "slot_inv s" and "healthy s" and "add_layer k l (Some s) = Some s'"
  shows "slot_map s' = (slot_map s)(k \<mapsto> l)"
proof (cases "position (\<lambda>known. known = k) (sl_kinds s)")
  case None
  with assms show ?thesis
    by (auto simp: add_layer_def healthy_def slot_inv_def slot_map_def map_of_zip_append
        simp del: zip_append map_of_append)
next
  case (Some i)
  with assms position_SomeD [OF Some] show ?thesis
    by (auto simp: add_layer_def healthy_def slot_inv_def slot_map_def map_of_zip_update)
qed

lemma tel_step_Some: "\<exists>s'. tel_step (Some s) op = Some s'"
  by (cases op) (auto simp: add_layer_def exclude_targets_def split: option.splits)

lemma tel_run_Some: "\<exists>s'. tel_run ops (Some s) = Some s'"
proof (induction ops arbitrary: s)
  case Nil
  then show ?case by (simp add: tel_run_def)
next
  case (Cons op ops)
  obtain s1 where "tel_step (Some s) op = Some s1" using tel_step_Some by blast
  with Cons.IH [of s1] show ?case by (simp add: tel_run_def)
qed

lemma tel_step_inv: "slot_inv s \<Longrightarrow> tel_step (Some s) op = Some s' \<Longrightarrow> slot_inv s'"
  by (cases op) (auto dest: add_layer_inv exclude_targets_inv)

lemma tel_step_healthy: "healthy s \<Longrightarrow> tel_step (Some s) op = Some s' \<Longrightarrow> healthy s'"
  by (cases op) (auto simp: add_layer_def exclude_targets_def healthy_def split: option.splits if_splits)

text \<open>The layer each type ends up with: the last one added.\<close>

fun last_layers :: "('k, 'l) tel_op list \<Rightarrow> ('k \<Rightarrow> 'l option) \<Rightarrow> 'k \<Rightarrow> 'l option" where
  "last_layers [] m = m"
| "last_layers (AddLayer k l # ops) m = last_layers ops (m(k \<mapsto> l))"
| "last_layers (Exclude ts # ops) m = last_layers ops m"

lemma tel_step_map:
  assumes "slot_inv s" and "healthy s" and "tel_step (Some s) op = Some s'"
  shows "last_layers (op # ops) (slot_map s) = last_layers ops (slot_map s')"
proof (cases op)
  case (AddLayer k l)
  with assms add_layer_map [of s k l s'] show ?thesis by simp
next
  case (Exclude ts)
  with assms show ?thesis
    by (auto simp: exclude_targets_def slot_map_def split: if_splits)
qed

lemma tel_run_map:
  "slot_inv s \<Longrightarrow> healthy s \<Longrightarrow>
     \<exists>s'. tel_run ops (Some s) = Some s' \<and> slot_inv s' \<and> healthy s'
          \<and> slot_map s' = last_layers ops (slot_map s)"
proof (induction ops arbitrary: s)
  case Nil
  then show ?case by (simp add: tel_run_def)
next
  case (Cons op ops)
  obtain s1 where s1: "tel_step (Some s) op = Some s1" using tel_step_Some by blast
  with Cons.prems have "slot_inv s1" "healthy s1"
    by (auto intro: tel_step_inv tel_step_healthy)
  from Cons.IH [OF this] s1 tel_step_map [OF Cons.prems s1] show ?case
    by (auto simp: tel_run_def)
qed

lemma set_push_excluded [simp]: "set (push_excluded ex ts) = set ex \<union> set ts"
  by (induction ex ts rule: push_excluded.induct) auto

lemma distinct_push_excluded: "distinct ex \<Longrightarrow> distinct (push_excluded ex ts)"
  by (induction ex ts rule: push_excluded.induct) auto

fun excluded_by :: "('k, 'l) tel_op list \<Rightarrow> string set" where
  "excluded_by [] = {}"
| "excluded_by (AddLayer k l # ops) = excluded_by ops"
| "excluded_by (Exclude ts # ops) = set ts \<union> excluded_by ops"

lemma tel_step_excluded:
  assumes "healthy s" and "tel_step (Some s) op = Some s'"
  shows "set (sl_excluded s) \<union> excluded_by (op # ops) = set (sl_excluded s') \<union> excluded_by ops"
    and "distinct (sl_excluded s) \<Longrightarrow> distinct (sl_excluded s')"
proof -
  show "set (sl_excluded s) \<union> excluded_by (op # ops) = set (sl_excluded s') \<union> excluded_by ops"
  proof (cases op)
    case (AddLayer k l)
    with assms show ?thesis
      by (auto simp: add_layer_def split: if_splits option.splits)
  next
    case (Exclude ts)
    with assms show ?thesis by (auto simp: exclude_targets_def healthy_def)
  qed
  show "distinct (sl_excluded s')" if "distinct (sl_excluded s)"
    using assms that
    by (cases op) (auto simp: add_layer_def exclude_targets_def distinct_push_excluded
        split: if_splits option.splits)
qed

lemma tel_run_excluded:
  "healthy s \<Longrightarrow> distinct (sl_excluded s) \<Longrightarrow>
     \<exists>s'. tel_run ops (Some s) = Some s' \<and> healthy s' \<and> distinct (sl_excluded s')
          \<and> set (sl_excluded s') = set (sl_excluded s) \<union> excluded_by ops"
proof (induction ops arbitrary: s)
  case Nil
  then show ?case by (simp add: tel_run_def)
next
  case (Cons op ops)
  obtain s1 where s1: "tel_step (Some s) op = Some s1" using tel_step_Some by blast
  have h: "healthy s1" "distinct (sl_excluded s1)"
    using Cons.prems s1 tel_step_healthy tel_step_excluded(2) by blast+
  from Cons.IH [OF this] s1 tel_step_excluded(1) [OF Cons.prems(1) s1, of ops] show ?case
    by (auto simp: tel_run_def)
qed

lemma in_crate_iff: "in_crate target krate \<longleftrightarrow> (\<exists>r. target = id krate @ r \<and> (r = [] \<or> starts_with ''::'' r))"
  by (auto simp: in_crate_def str_iff split: option.splits)

interpretation crate_prefix: segment_prefix "''::''" id in_crate
  by unfold_locales (simp_all only: in_crate_iff, simp)

text \<open>What a run of operations excludes stays hidden from the plugin layers, whatever was there before.\<close>

lemma tel_run_hides:
  assumes "healthy s" and "tel_run ops (Some s) = Some s'" and "krate \<in> excluded_by ops"
    and "in_crate target krate"
  shows "\<not> plugin_filter level s' target"
  using assms(1-3)
proof (induction ops arbitrary: s)
  case Nil
  then show ?case by simp
next
  case (Cons op ops)
  obtain s1 where s1: "tel_step (Some s) op = Some s1" using tel_step_Some by blast
  with Cons.prems(2) have run: "tel_run ops (Some s1) = Some s'" by (simp add: tel_run_def)
  have mono: "set (sl_excluded r) \<subseteq> set (sl_excluded r') \<and> healthy r'"
    if "healthy r" "tel_run os (Some r) = Some r'" for r os r'
    using that
  proof (induction os arbitrary: r)
    case Nil
    then show ?case by (simp add: tel_run_def)
  next
    case (Cons o1 os)
    obtain r1 where r1: "tel_step (Some r) o1 = Some r1" using tel_step_Some by blast
    with Cons.prems have "tel_run os (Some r1) = Some r'" by (simp add: tel_run_def)
    with Cons.IH [of r1] tel_step_healthy [OF Cons.prems(1) r1]
      tel_step_excluded(1) [OF Cons.prems(1) r1, of "[]"] show ?case by auto
  qed
  show ?case
  proof (cases "krate \<in> excluded_by ops")
    case True
    with Cons.IH [OF tel_step_healthy [OF Cons.prems(1) s1] run] show ?thesis by blast
  next
    case False
    with Cons.prems(3) tel_step_excluded(1) [OF Cons.prems(1) s1, of "[]"]
    have "krate \<in> set (sl_excluded s1)" by (cases op) auto
    with mono [OF tel_step_healthy [OF Cons.prems(1) s1] run] assms(4) show ?thesis
      by (auto simp: plugin_filter_def is_excluded_def healthy_def list_ex_iff)
  qed
qed

lemma fresh_slot:
  assumes "telemetry_install False None = (Some s, cell)"
  shows "slot_inv s" "healthy s" "slot_map s = Map.empty" "sl_excluded s = []"
  using assms
  by (auto simp: telemetry_install_def install_subscriber_def slot_inv_def healthy_def slot_map_def
      Let_def)

lemma fresh_slot_exists:
  "\<exists>s cell. telemetry_install False None = (Some s, cell)"
  by (simp add: telemetry_install_def install_subscriber_def Let_def)

section \<open>Properties\<close>

text \<open>
  C22: whatever sequence of layers and exclusions the plugins add to a freshly installed slot, the
  slot holds exactly one layer per type, the last one added of that type: the stack and its list of
  types stay in step, and no type appears twice.
\<close>

theorem one_layer_per_type:
  assumes "telemetry_install False None = (Some s, cell)"
  shows "\<exists>s'. tel_run ops (Some s) = Some s'
    \<and> length (sl_kinds s') = length (sl_layers s') \<and> distinct (sl_kinds s')
    \<and> slot_map s' = last_layers ops Map.empty"
  using tel_run_map [OF fresh_slot(1,2) [OF assms], of ops] fresh_slot(3) [OF assms]
  by (auto simp: slot_inv_def)

theorem one_layer_per_type_witness:
  "\<exists>s'. tel_run [AddLayer (1::nat) ''otel'', AddLayer 2 ''sentry'', AddLayer 1 ''otel2'']
           (fst (telemetry_install False None)) = Some s'
      \<and> slot_map s' 1 = Some ''otel2'' \<and> distinct (sl_kinds s')"
proof -
  obtain s :: "(nat, string) slot" and cell where
    s: "telemetry_install False None = (Some s, cell)"
    using fresh_slot_exists by blast
  from one_layer_per_type [OF s, of "[AddLayer 1 ''otel'', AddLayer 2 ''sentry'', AddLayer 1 ''otel2'']"] s
  show ?thesis by auto
qed

text \<open>
  A plugin layer sees a target exactly when the level filter lets it through and no crate ever
  excluded, by any plugin and in any order, is the target's crate; every module of an excluded
  crate is hidden, a crate that merely shares a name prefix is not.
\<close>

theorem excluded_targets_hidden:
  assumes "telemetry_install False None = (Some s, cell)" and "tel_run ops (Some s) = Some s'"
  shows "(plugin_filter level s' target \<longleftrightarrow>
           level target \<and> \<not> (\<exists>krate \<in> excluded_by ops. in_crate target krate))
    \<and> (krate \<in> excluded_by ops \<longrightarrow> \<not> plugin_filter level s' (krate @ ''::'' @ m))
    \<and> \<not> in_crate (krate @ ''_'' @ m) krate"
proof -
  from tel_run_excluded [OF fresh_slot(2) [OF assms(1)], of ops] fresh_slot(4) [OF assms(1)] assms(2)
  have "healthy s'" "set (sl_excluded s') = excluded_by ops" by auto
  then have iff: "plugin_filter level s' target \<longleftrightarrow>
      level target \<and> \<not> (\<exists>krate \<in> excluded_by ops. in_crate target krate)" for target
    by (auto simp: plugin_filter_def is_excluded_def healthy_def list_ex_iff)
  have "krate \<in> excluded_by ops \<Longrightarrow> \<not> plugin_filter level s' (krate @ ''::'' @ m)"
    unfolding iff using crate_prefix.covers_below [of krate m] by auto
  moreover have "\<not> in_crate (krate @ ''_'' @ m) krate"
    using crate_prefix.sibling_not_covered [of "CHR ''_''" krate m] by simp
  ultimately show ?thesis using iff by blast
qed

theorem excluded_targets_hidden_witness:
  "\<exists>s'. tel_run [Exclude [''hyper'', ''tower'']] (fst (telemetry_install False None)) = Some s'
      \<and> \<not> plugin_filter (\<lambda>_. True) (s' :: (nat, nat) slot) ''hyper::client''
      \<and> plugin_filter (\<lambda>_. True) s' ''tower_http''"
proof -
  obtain s :: "(nat, nat) slot" and cell where
    s: "telemetry_install False None = (Some s, cell)"
    using fresh_slot_exists by blast
  obtain s' where s': "tel_run [Exclude [''hyper'', ''tower'']] (Some s) = Some s'"
    using tel_run_excluded [OF fresh_slot(2) [OF s], of "[Exclude [''hyper'', ''tower'']]"]
      fresh_slot(4) [OF s] by auto
  have "in_crate ''hyper::client'' ''hyper'' \<and> \<not> in_crate ''tower_http'' ''tower''
      \<and> \<not> in_crate ''tower_http'' ''hyper''"
    by code_simp
  with excluded_targets_hidden [OF s s', of "\<lambda>_. True"] s s' show ?thesis by auto
qed

end
