(* ===== verification/Core_Ctx.thy ===== *)
theory Core_Ctx
  imports Contracts Core_Error Core_Mode Telemetry
begin

text \<open>
  \<open>muxa-core/src/ctx.rs\<close>: the build context every plugin gets, with the router registry, the task
  registry, the shutdown token, the telemetry registry and the slot of the serve function.

  axum's router is a type \<open>'r\<close> with the operations of \<open>axum_api\<close>; the tokio runtime and
  everything else outside the process image is a world \<open>'w\<close> threaded through the effects;
  \<open>'tok\<close> is a cancellation token, \<open>'h\<close> a join handle, \<open>'fut\<close> a future, \<open>'fig\<close> the
  configuration, \<open>'l\<close> a tracing layer. A boxed \<open>FnOnce\<close> is a function.
\<close>

section \<open>Router registry\<close>

record 'r axum_api =
  router_new :: 'r
  router_merge :: "'r \<Rightarrow> 'r \<Rightarrow> 'r"
  router_nest :: "'r \<Rightarrow> string \<Rightarrow> 'r \<Rightarrow> 'r"
  router_fallback_service :: "'r \<Rightarrow> 'r \<Rightarrow> 'r"

datatype mount = Auto | Manual

record 'r mount_entry =
  me_prefix :: string
  me_router :: 'r
  me_mount :: mount

record 'r router_registry =
  rr_routes :: "'r mount_entry list"
  rr_fallback :: "'r option"
  rr_layer_fns :: "('r \<Rightarrow> 'r) list"

definition router_registry_default :: "'r router_registry" where
  "router_registry_default = \<lparr>rr_routes = [], rr_fallback = None, rr_layer_fns = []\<rparr>"

definition mount_auto :: "string \<Rightarrow> 'r \<Rightarrow> 'r router_registry \<Rightarrow> 'r router_registry" where
  "mount_auto prefix router reg =
     reg\<lparr>rr_routes := rr_routes reg
           @ [\<lparr>me_prefix = prefix, me_router = router, me_mount = Auto\<rparr>]\<rparr>"

definition mount_manual :: "string \<Rightarrow> 'r \<Rightarrow> 'r router_registry \<Rightarrow> 'r router_registry" where
  "mount_manual prefix router reg =
     reg\<lparr>rr_routes := rr_routes reg
           @ [\<lparr>me_prefix = prefix, me_router = router, me_mount = Manual\<rparr>]\<rparr>"

definition set_fallback :: "'r \<Rightarrow> 'r router_registry \<Rightarrow> unit result \<times> 'r router_registry" where
  "set_fallback router reg =
     (if rr_fallback reg \<noteq> None
      then (Inl (error_other ''another plugin already registered a fallback router''), reg)
      else (Inr (), reg\<lparr>rr_fallback := Some router\<rparr>))"

definition has_fallback :: "'r router_registry \<Rightarrow> bool" where
  "has_fallback reg = (rr_fallback reg \<noteq> None)"

definition layer :: "('r \<Rightarrow> 'r) \<Rightarrow> 'r router_registry \<Rightarrow> 'r router_registry" where
  "layer func reg = reg\<lparr>rr_layer_fns := rr_layer_fns reg @ [func]\<rparr>"

definition mounts :: "'r router_registry \<Rightarrow> (string \<times> mount) list" where
  "mounts reg = map (\<lambda>entry. (me_prefix entry, me_mount entry)) (rr_routes reg)"

text \<open>\<open>extract_if\<close> removes the entries the closure accepts and yields them, in order.\<close>

definition take_manual :: "string \<Rightarrow> 'r router_registry \<Rightarrow> 'r list \<times> 'r router_registry" where
  "take_manual prefix reg =
     (let wanted = (\<lambda>entry. me_mount entry = Manual \<and> me_prefix entry = prefix)
      in (map me_router (filter wanted (rr_routes reg)),
          reg\<lparr>rr_routes := filter (\<lambda>entry. \<not> wanted entry) (rr_routes reg)\<rparr>))"

definition compose_entry :: "'r axum_api \<Rightarrow> 'r \<Rightarrow> 'r mount_entry \<Rightarrow> 'r" where
  "compose_entry A out entry =
     (if me_mount entry = Auto
      then (if me_prefix entry = [] \<or> me_prefix entry = ''/''
            then router_merge A out (me_router entry)
            else router_nest A out (me_prefix entry) (me_router entry))
      else out)"

definition compose :: "'r axum_api \<Rightarrow> 'r router_registry \<Rightarrow> 'r" where
  "compose A reg =
     (let out = foldl (compose_entry A) (router_new A) (rr_routes reg);
          out = (case rr_fallback reg of Some fb \<Rightarrow> router_fallback_service A out fb | None \<Rightarrow> out)
      in foldl (\<lambda>out layer_fn. layer_fn out) out (rr_layer_fns reg))"

section \<open>Task registry\<close>

text \<open>
  The future handed to \<open>tokio::spawn\<close>: inside the task's span, log the start, then call \<open>func\<close>
  with the token and await what it returns.
\<close>

record ('tok, 'fut) task_body =
  tb_name :: string
  tb_func :: "'tok \<Rightarrow> 'fut"
  tb_shutdown :: 'tok

record ('tok, 'fut, 'w, 'h) tokio_api =
  tokio_spawn :: "('tok, 'fut) task_body \<Rightarrow> 'w \<Rightarrow> 'h \<times> 'w"
  child_token :: "'tok \<Rightarrow> 'w \<Rightarrow> 'tok \<times> 'w"
  cancel :: "'tok \<Rightarrow> 'w \<Rightarrow> 'w"

type_synonym ('tok, 'w, 'h) spawn_task = "'tok \<Rightarrow> 'w \<Rightarrow> 'h \<times> 'w"

type_synonym ('tok, 'w, 'h) task_registry = "(string \<times> ('tok, 'w, 'h) spawn_task) list"

definition spawn ::
    "('tok, 'fut, 'w, 'h) tokio_api \<Rightarrow> string \<Rightarrow> ('tok \<Rightarrow> 'fut) \<Rightarrow> ('tok, 'w, 'h) task_registry
      \<Rightarrow> ('tok, 'w, 'h) task_registry" where
  "spawn T name func tasks =
     tasks @ [(name, \<lambda>shutdown.
       tokio_spawn T \<lparr>tb_name = name, tb_func = func, tb_shutdown = shutdown\<rparr>)]"

definition task_len :: "('tok, 'w, 'h) task_registry \<Rightarrow> nat" where
  "task_len tasks = length tasks"

definition task_is_empty :: "('tok, 'w, 'h) task_registry \<Rightarrow> bool" where
  "task_is_empty tasks = (tasks = [])"

definition task_names :: "('tok, 'w, 'h) task_registry \<Rightarrow> string list" where
  "task_names tasks = map fst tasks"

fun spawn_all ::
    "('tok, 'fut, 'w, 'h) tokio_api \<Rightarrow> 'tok \<Rightarrow> ('tok, 'w, 'h) task_registry \<Rightarrow> 'w
      \<Rightarrow> (string \<times> 'h) list \<times> 'w" where
  "spawn_all T shutdown [] w = ([], w)"
| "spawn_all T shutdown ((name, spawn_it) # tasks) w =
     (let (tok, w) = child_token T shutdown w;
          (h, w) = spawn_it tok w;
          (hs, w) = spawn_all T shutdown tasks w
      in ((name, h) # hs, w))"

section \<open>Build context\<close>

type_synonym ('r, 'w) serve_fn = "'r \<Rightarrow> 'w \<Rightarrow> unit result \<times> 'w"

record ('fig, 'r, 'tok, 'w, 'h, 'l) build_ctx =
  bc_figment :: 'fig
  bc_mode :: run_mode
  bc_router :: "'r router_registry"
  bc_tasks :: "('tok, 'w, 'h) task_registry"
  bc_shutdown :: 'tok
  bc_telemetry :: "(string, 'l) slot option"
  bc_serve_fn :: "('r, 'w) serve_fn option"

text \<open>
  \<open>BuildCtx::new\<close>: \<open>env_key\<close> is the figment's \<open>env\<close> value, \<open>new_token\<close> a fresh
  \<open>CancellationToken\<close>, \<open>already_set\<close> and \<open>cell\<close> the state of the process-wide subscriber.
\<close>

definition build_ctx_new ::
    "bool \<Rightarrow> ('fig \<Rightarrow> string option) \<Rightarrow> 'tok \<Rightarrow> bool \<Rightarrow> (string, 'l) slot option option \<Rightarrow> 'fig
      \<Rightarrow> ('fig, 'r, 'tok, 'w, 'h, 'l) build_ctx \<times> (string, 'l) slot option option" where
  "build_ctx_new debug_assertions env_key new_token already_set cell fig =
     (let mode = from_figment debug_assertions (env_key fig);
          (tel, cell) = telemetry_install already_set cell
      in (\<lparr>bc_figment = fig, bc_mode = mode, bc_router = router_registry_default, bc_tasks = [],
           bc_shutdown = new_token, bc_telemetry = tel, bc_serve_fn = None\<rparr>, cell))"

definition set_serve_fn ::
    "('r, 'w) serve_fn \<Rightarrow> ('fig, 'r, 'tok, 'w, 'h, 'l) build_ctx
      \<Rightarrow> unit result \<times> ('fig, 'r, 'tok, 'w, 'h, 'l) build_ctx" where
  "set_serve_fn serve ctx =
     (if bc_serve_fn ctx \<noteq> None
      then (Inl (error_other ''another plugin already registered a serve_fn''), ctx)
      else (Inr (), ctx\<lparr>bc_serve_fn := Some serve\<rparr>))"

interpretation fallback_slot: once_slot set_fallback rr_fallback
  by unfold_locales (simp_all add: set_fallback_def)

interpretation serve_slot: once_slot set_serve_fn bc_serve_fn
  by unfold_locales (simp_all add: set_serve_fn_def)

section \<open>What a sequence of registrations composes to\<close>

datatype 'r reg_op =
    OpMount string 'r
  | OpMountManual string 'r
  | OpFallback 'r
  | OpLayer "'r \<Rightarrow> 'r"
  | OpTakeManual string

fun reg_step :: "'r router_registry \<Rightarrow> 'r reg_op \<Rightarrow> 'r router_registry" where
  "reg_step reg (OpMount p r) = mount_auto p r reg"
| "reg_step reg (OpMountManual p r) = mount_manual p r reg"
| "reg_step reg (OpFallback r) = snd (set_fallback r reg)"
| "reg_step reg (OpLayer f) = layer f reg"
| "reg_step reg (OpTakeManual p) = snd (take_manual p reg)"

definition reg_run :: "'r reg_op list \<Rightarrow> 'r router_registry \<Rightarrow> 'r router_registry" where
  "reg_run ops reg = foldl reg_step reg ops"

text \<open>The routes, fallbacks and layers a sequence registers, each in registration order.\<close>

fun autos_of :: "'r reg_op list \<Rightarrow> (string \<times> 'r) list" where
  "autos_of [] = []"
| "autos_of (OpMount p r # ops) = (p, r) # autos_of ops"
| "autos_of (_ # ops) = autos_of ops"

fun fallbacks_of :: "'r reg_op list \<Rightarrow> 'r list" where
  "fallbacks_of [] = []"
| "fallbacks_of (OpFallback r # ops) = r # fallbacks_of ops"
| "fallbacks_of (_ # ops) = fallbacks_of ops"

fun layers_of :: "'r reg_op list \<Rightarrow> ('r \<Rightarrow> 'r) list" where
  "layers_of [] = []"
| "layers_of (OpLayer f # ops) = f # layers_of ops"
| "layers_of (_ # ops) = layers_of ops"

text \<open>The specification of the composed router.\<close>

definition attach :: "'r axum_api \<Rightarrow> 'r \<Rightarrow> string \<times> 'r \<Rightarrow> 'r" where
  "attach A out e =
     (if fst e \<in> {[], ''/''} then router_merge A out (snd e) else router_nest A out (fst e) (snd e))"

definition composed :: "'r axum_api \<Rightarrow> (string \<times> 'r) list \<Rightarrow> 'r list \<Rightarrow> ('r \<Rightarrow> 'r) list \<Rightarrow> 'r" where
  "composed A autos fallbacks layers =
     foldr (\<lambda>f out. f out) (rev layers)
       (let routed = foldl (attach A) (router_new A) autos
        in case fallbacks of [] \<Rightarrow> routed | fb # _ \<Rightarrow> router_fallback_service A routed fb)"

definition auto_entries :: "'r mount_entry list \<Rightarrow> (string \<times> 'r) list" where
  "auto_entries es = map (\<lambda>e. (me_prefix e, me_router e)) (filter (\<lambda>e. me_mount e = Auto) es)"

lemma auto_entries_append: "auto_entries (es @ fs) = auto_entries es @ auto_entries fs"
  by (simp add: auto_entries_def)

lemma foldl_compose_entry: "foldl (compose_entry A) out es = foldl (attach A) out (auto_entries es)"
  by (induction es arbitrary: out) (auto simp: auto_entries_def compose_entry_def attach_def)

lemma foldl_apply: "foldl (\<lambda>out f. f out) x fs = foldr (\<lambda>f out. f out) (rev fs) x"
  by (simp add: foldl_conv_foldr)

lemma compose_composed:
  "compose A reg = composed A (auto_entries (rr_routes reg))
     (case rr_fallback reg of None \<Rightarrow> [] | Some fb \<Rightarrow> [fb]) (rr_layer_fns reg)"
  by (simp add: compose_def composed_def foldl_compose_entry foldl_apply Let_def
      split: option.splits)

lemma auto_entries_take [simp]:
  "auto_entries (filter (\<lambda>e. me_mount e = Manual \<longrightarrow> me_prefix e \<noteq> p) es) = auto_entries es"
  by (induction es) (auto simp: auto_entries_def)

lemma reg_run_parts:
  "auto_entries (rr_routes (reg_run ops reg)) = auto_entries (rr_routes reg) @ autos_of ops
   \<and> rr_layer_fns (reg_run ops reg) = rr_layer_fns reg @ layers_of ops
   \<and> rr_fallback (reg_run ops reg) =
       (case rr_fallback reg of
          Some fb \<Rightarrow> Some fb
        | None \<Rightarrow> (case fallbacks_of ops of [] \<Rightarrow> None | fb # _ \<Rightarrow> Some fb))"
proof (induction ops arbitrary: reg)
  case Nil
  then show ?case by (simp add: reg_run_def split: option.splits)
next
  case (Cons op ops)
  have "reg_run (op # ops) reg = reg_run ops (reg_step reg op)" by (simp add: reg_run_def)
  with Cons.IH [of "reg_step reg op"] show ?case
    by (cases op)
      (auto simp: mount_auto_def mount_manual_def set_fallback_def layer_def take_manual_def Let_def
        auto_entries_append auto_entries_def [of "[_]"] split: option.splits)
qed

lemma compose_reg_run:
  "compose A (reg_run ops router_registry_default)
     = composed A (autos_of ops) (fallbacks_of ops) (layers_of ops)"
  using reg_run_parts [of ops router_registry_default]
  by (cases "fallbacks_of ops")
    (simp_all add: compose_composed router_registry_default_def auto_entries_def composed_def Let_def)

lemma layers_of_append [simp]: "layers_of (xs @ ys) = layers_of xs @ layers_of ys"
  by (induction xs rule: layers_of.induct) auto

lemma autos_of_append [simp]: "autos_of (xs @ ys) = autos_of xs @ autos_of ys"
  by (induction xs rule: autos_of.induct) auto

lemma fallbacks_of_append [simp]: "fallbacks_of (xs @ ys) = fallbacks_of xs @ fallbacks_of ys"
  by (induction xs rule: fallbacks_of.induct) auto

section \<open>Properties\<close>

text \<open>
  C4: however the plugins interleave their registrations (mounts, manual mounts, takes, fallbacks,
  layers), the composed router depends only on the order within each kind: the automatic mounts in
  their order, \<open>""\<close> and \<open>"/"\<close> merged and every other prefix nested, then the first fallback
  registered, then the layers, the last registered outermost. A fallback registered before the
  mounts and one registered after them give the same router.
\<close>

theorem compose_normal_form:
  "compose A (reg_run ops router_registry_default)
     = composed A (autos_of ops) (fallbacks_of ops) (layers_of ops)
   \<and> compose A (reg_run (ops @ [OpLayer f]) router_registry_default)
       = f (compose A (reg_run ops router_registry_default))
   \<and> compose A (reg_run (OpFallback r # ops) router_registry_default)
       = composed A (autos_of ops) [r] (layers_of ops)"
  by (simp add: compose_reg_run composed_def)

text \<open>
  Taking the manual mounts of a prefix yields exactly the routers mounted manually there, in
  order, and removes those entries only: the rest stays in order, a second take yields nothing, and
  the composed router is the same before and after (manual mounts are never composed).
\<close>

theorem take_manual_partition:
  "take_manual p reg = (rs, reg') \<Longrightarrow>
     rs = [me_router e. e \<leftarrow> rr_routes reg, me_mount e = Manual \<and> me_prefix e = p]
     \<and> mounts reg' = filter (\<lambda>m. m \<noteq> (p, Manual)) (mounts reg)
     \<and> length rs + length (mounts reg') = length (mounts reg)
     \<and> take_manual p reg' = ([], reg')
     \<and> compose A reg' = compose A reg"
proof -
  assume take: "take_manual p reg = (rs, reg')"
  let ?w = "\<lambda>e :: 'a mount_entry. me_mount e = Manual \<and> me_prefix e = p"
  from take have rs: "rs = map me_router (filter ?w (rr_routes reg))"
    and reg': "reg' = reg\<lparr>rr_routes := filter (\<lambda>e. \<not> ?w e) (rr_routes reg)\<rparr>"
    by (auto simp: take_manual_def Let_def)
  have "[me_router e. e \<leftarrow> es, ?w e] = map me_router (filter ?w es)" for es
    by (induction es) auto
  then have "rs = [me_router e. e \<leftarrow> rr_routes reg, ?w e]" by (simp add: rs)
  moreover have "map (\<lambda>e. (me_prefix e, me_mount e)) (filter (\<lambda>e. \<not> ?w e) es)
      = filter (\<lambda>m. m \<noteq> (p, Manual)) (map (\<lambda>e. (me_prefix e, me_mount e)) es)" for es
    by (induction es) auto
  then have "mounts reg' = filter (\<lambda>m. m \<noteq> (p, Manual)) (mounts reg)"
    by (simp add: mounts_def reg')
  moreover have "length rs + length (mounts reg') = length (mounts reg)"
    using sum_length_filter_compl [of ?w "rr_routes reg"] by (simp add: rs reg' mounts_def)
  moreover have "take_manual p reg' = ([], reg')"
    by (auto simp: take_manual_def Let_def reg' filter_empty_conv)
  moreover have "compose A reg' = compose A reg"
    using auto_entries_take [of p "rr_routes reg"]
    by (simp only: compose_composed reg' router_registry.simps) simp
  ultimately show ?thesis by blast
qed

theorem take_manual_partition_witness:
  "fst (take_manual ''/admin''
      (mount_auto ''/admin'' 3 (mount_manual ''/admin'' (2::nat)
        (mount_manual ''/other'' 1 router_registry_default)))) = [2]"
proof -
  let ?reg = "mount_auto ''/admin'' 3 (mount_manual ''/admin'' (2::nat)
        (mount_manual ''/other'' 1 router_registry_default))"
  have "[me_router e. e \<leftarrow> rr_routes ?reg, me_mount e = Manual \<and> me_prefix e = ''/admin''] = [2]"
    by code_simp
  with take_manual_partition [of "''/admin''" ?reg "fst (take_manual ''/admin'' ?reg)"
      "snd (take_manual ''/admin'' ?reg)"]
  show ?thesis by simp
qed

text \<open>
  The app-wide slots are filled once. On a fresh context the first serve function and the first
  fallback router are accepted; every later attempt, in whatever number and order, is an error and
  leaves the first one in place.
\<close>

theorem build_slots_filled_once:
  "(let c = fst (build_ctx_new dbg env_key tok already cell fig);
        served = fold (\<lambda>g c. snd (set_serve_fn g c)) (f # gs) c;
        caught = fold (\<lambda>r reg. snd (set_fallback r reg)) (r # rs) (bc_router c)
    in fst (set_serve_fn f c) = Inr () \<and> bc_serve_fn served = Some f
       \<and> is_err (fst (set_serve_fn h served))
       \<and> fst (set_fallback r (bc_router c)) = Inr () \<and> rr_fallback caught = Some r
       \<and> is_err (fst (set_fallback q caught)))"
proof -
  have free: "bc_serve_fn (fst (build_ctx_new dbg env_key tok already cell fig)) = None"
    "rr_fallback (bc_router (fst (build_ctx_new dbg env_key tok already cell fig))) = None"
    by (simp_all add: build_ctx_new_def Let_def case_prod_beta router_registry_default_def)
  show ?thesis
    unfolding Let_def
    by (intro conjI serve_slot.first_wins serve_slot.later_fails fallback_slot.first_wins
        fallback_slot.later_fails serve_slot.ok_iff_free [THEN iffD2]
        fallback_slot.ok_iff_free [THEN iffD2] free)
qed

end
