(* ===== verification/Core_State.thy ===== *)
theory Core_State
  imports Muxa_Prelude
begin

text \<open>
  \<open>muxa-core/src/state.rs\<close> and \<open>capability.rs\<close>: the heterogeneous list of plugin outputs, the
  selector traits that find a resource in it, and the Postgres pool capability.

  The Rust list is typed entry by entry. Here its values live in one type \<open>'v\<close>, and the list's
  Rust type is the list of its entries' types (\<open>shape\<close>). The trait \<open>Selector<T, Idx>\<close> is a
  relation between a type, a position and such a list of types: \<open>selector_impl t i ts\<close> holds
  when the two \<open>impl\<close> blocks give an implementation, that is, when the call compiles.
\<close>

datatype 'v hlist = HNil | HCons (hl_head: 'v) (hl_tail: "'v hlist")

datatype idx = Here | There idx

text \<open>\<open>State::push\<close>, on both implementations.\<close>

fun push :: "'v hlist \<Rightarrow> 'v \<Rightarrow> 'v hlist" where
  "push HNil v = HCons v HNil"
| "push (HCons h t) v = HCons v (HCons h t)"

text \<open>\<open>Selector::select\<close>; \<open>None\<close> is a selector that no \<open>impl\<close> provides.\<close>

fun select :: "idx \<Rightarrow> 'v hlist \<Rightarrow> 'v option" where
  "select Here (HCons h t) = Some h"
| "select (There i) (HCons h t) = select i t"
| "select i HNil = None"

fun hl_entries :: "'v hlist \<Rightarrow> 'v list" where
  "hl_entries HNil = []"
| "hl_entries (HCons h t) = h # hl_entries t"

definition shape :: "('v \<Rightarrow> 't) \<Rightarrow> 'v hlist \<Rightarrow> 't list" where
  "shape ty s = map ty (hl_entries s)"

inductive selector_impl :: "'t \<Rightarrow> idx \<Rightarrow> 't list \<Rightarrow> bool" where
  impl_here: "selector_impl t Here (t # ts)"
| impl_there: "selector_impl t i ts \<Longrightarrow> selector_impl t (There i) (h # ts)"

code_pred selector_impl .

inductive_simps selector_impl_Nil [simp]: "selector_impl t i []"
inductive_simps selector_impl_Here [simp]: "selector_impl t Here (h # ts)"
inductive_simps selector_impl_There [simp]: "selector_impl t (There i) (h # ts)"

text \<open>
  \<open>HasPgExecutorFor<B, Idx>\<close>: a backend names its pool type, and the blanket \<open>impl\<close> gives the
  capability to every state in which that type can be selected.
\<close>

record 't pg_backend = pool_type :: 't

definition has_pg_executor_for :: "'t pg_backend \<Rightarrow> idx \<Rightarrow> 't list \<Rightarrow> bool" where
  "has_pg_executor_for b i ts = selector_impl (pool_type b) i ts"

definition pg_executor :: "idx \<Rightarrow> 'v hlist \<Rightarrow> 'v option" where
  "pg_executor i s = select i s"

section \<open>Lemmas\<close>

fun idx_of_nat :: "nat \<Rightarrow> idx" where
  "idx_of_nat 0 = Here"
| "idx_of_nat (Suc n) = There (idx_of_nat n)"

fun nat_of_idx :: "idx \<Rightarrow> nat" where
  "nat_of_idx Here = 0"
| "nat_of_idx (There i) = Suc (nat_of_idx i)"

lemma idx_of_nat_of_idx [simp]: "idx_of_nat (nat_of_idx i) = i"
  by (induction i) auto

lemma push_HCons [simp]: "push s v = HCons v s"
  by (cases s) auto

lemma hl_entries_push: "hl_entries (push s v) = v # hl_entries s"
  by simp

lemma select_nth:
  "select i s = (if nat_of_idx i < length (hl_entries s) then Some (hl_entries s ! nat_of_idx i) else None)"
  by (induction i s rule: select.induct) auto

lemma selector_impl_nth:
  "selector_impl t i ts \<longleftrightarrow> nat_of_idx i < length ts \<and> ts ! nat_of_idx i = t"
proof
  assume "selector_impl t i ts"
  then show "nat_of_idx i < length ts \<and> ts ! nat_of_idx i = t"
    by induction auto
next
  assume "nat_of_idx i < length ts \<and> ts ! nat_of_idx i = t"
  then show "selector_impl t i ts"
  proof (induction ts arbitrary: i)
    case Nil
    then show ?case by simp
  next
    case (Cons h ts)
    then show ?case by (cases i) auto
  qed
qed

lemma selector_impl_Cons:
  "selector_impl t i (h # ts) \<longleftrightarrow> (i = Here \<and> h = t) \<or> (\<exists>j. i = There j \<and> selector_impl t j ts)"
  by (cases i) auto

lemma selector_impl_exists: "(\<exists>i. selector_impl t i ts) \<longleftrightarrow> t \<in> set ts"
  by (induction ts) (auto simp: selector_impl_Cons)

lemma selector_impl_unique: "(\<exists>!i. selector_impl t i ts) \<longleftrightarrow> count_list ts t = 1"
proof (induction ts)
  case Nil
  show ?case by (simp add: Ex1_def)
next
  case (Cons h ts)
  have none: "t \<notin> set ts \<longleftrightarrow> (\<forall>j. \<not> selector_impl t j ts)"
    using selector_impl_exists [of t ts] by blast
  show ?case
  proof (cases "h = t")
    case True
    have "(\<exists>!i. selector_impl t i (h # ts)) \<longleftrightarrow> (\<forall>j. \<not> selector_impl t j ts)"
      using True by (auto simp: selector_impl_Cons)
    with True none show ?thesis by (simp add: count_list_0_iff)
  next
    case False
    then have "(\<exists>!i. selector_impl t i (h # ts)) \<longleftrightarrow> (\<exists>!j. selector_impl t j ts)"
      by (auto simp: selector_impl_Cons)
    with False Cons.IH show ?thesis by simp
  qed
qed

lemma shape_HCons [simp]: "shape ty (HCons v s) = ty v # shape ty s"
  by (simp add: shape_def)

lemma select_of_impl:
  assumes "selector_impl t i (shape ty s)"
  shows "\<exists>v. select i s = Some v \<and> ty v = t"
  using assms by (auto simp: selector_impl_nth select_nth shape_def)

lemma impl_of_select:
  assumes "select i s = Some v"
  shows "selector_impl (ty v) i (shape ty s)"
  using assms by (auto simp: selector_impl_nth select_nth shape_def split: if_splits)

section \<open>Properties\<close>

text \<open>
  C24: the compiler can infer the position of a resource exactly when its type occurs exactly once
  among the plugin outputs. A selector that compiles always finds a value of the requested type,
  and every later plugin's output leaves it in place, one position further in.
\<close>

theorem selector_sound:
  "((\<exists>!i. selector_impl t i (shape ty s)) \<longleftrightarrow> count_list (shape ty s) t = 1)
   \<and> (selector_impl t i (shape ty s) \<longrightarrow>
        (\<exists>v. select i s = Some v \<and> ty v = t)
        \<and> selector_impl t (There i) (shape ty (push s w))
        \<and> select (There i) (push s w) = select i s)
   \<and> select Here (push s w) = Some w"
  using select_of_impl [of t i ty s] by (auto simp: selector_impl_unique)

theorem selector_sound_witness:
  "\<exists>v. select (There Here) (push (push HNil (42::nat)) 7) = Some v \<and> (v = 42)"
  using selector_sound [of 42 id "push (push HNil 42) 7" "There Here" 5] by (simp add: shape_def)

text \<open>
  The pool capability is position-independent: for every backend, each position at which the
  capability holds yields a value of that backend's pool type, so a consumer of \<open>pg_executor\<close>
  never receives another plugin's resource; and it holds somewhere exactly when a plugin before it
  produced such a pool.
\<close>

theorem pg_executor_sound:
  assumes "has_pg_executor_for b i (shape ty s)"
  shows "\<exists>pool. pg_executor i s = Some pool \<and> ty pool = pool_type b \<and> pool \<in> set (hl_entries s)"
proof -
  from assms obtain v where v: "select i s = Some v" "ty v = pool_type b"
    using select_of_impl [of "pool_type b" i ty s] by (auto simp: has_pg_executor_for_def)
  then have "v \<in> set (hl_entries s)"
    by (auto simp: select_nth split: if_splits)
  with v show ?thesis by (auto simp: pg_executor_def)
qed

theorem pg_executor_sound_witness:
  "\<exists>pool. pg_executor (There Here) (push (push HNil (7::nat)) 2) = Some pool \<and> pool = 7"
  using pg_executor_sound [of "\<lparr>pool_type = 7\<rparr>" "There Here" id "push (push HNil 7) 2"]
  by (simp add: has_pg_executor_for_def)

end
