(* ===== verification/Core_Config.thy ===== *)
theory Core_Config
  imports Core_Error
begin

text \<open>
  \<open>muxa-core/src/config.rs\<close>: the environment prefix of an app, the layers of its configuration,
  and the sections a plugin reads, with the unprefixed environment variables that stand in for
  unset keys.

  figment is a library: its operations are the fields of \<open>figment_api\<close>, over a type \<open>'fig\<close> of
  configurations, \<open>'val\<close> of values and \<open>'prov\<close> of providers.
\<close>

definition DEFAULT_CONFIG_PATH :: string where
  "DEFAULT_CONFIG_PATH = ''config.toml''"

definition env_prefix_char :: "string \<Rightarrow> string" where
  "env_prefix_char ch =
     (case ch of
        [b] \<Rightarrow> if is_ascii_alphanumeric b then [to_ascii_uppercase b] else ''_''
      | _ \<Rightarrow> ''_'')"

definition env_prefix :: "string \<Rightarrow> string" where
  "env_prefix app_name = concat (map env_prefix_char (utf8_chars app_name)) @ ''_''"

record ('fig, 'val, 'prov) figment_api =
  figment_new :: 'fig
  figment_merge :: "'fig \<Rightarrow> 'prov \<Rightarrow> 'fig"
  figment_join :: "'fig \<Rightarrow> 'prov \<Rightarrow> 'fig"
  find_value :: "'fig \<Rightarrow> string \<Rightarrow> 'val option"
  toml_file :: "string \<Rightarrow> 'prov"
  env_prefixed :: "string \<Rightarrow> string \<Rightarrow> string list \<Rightarrow> 'prov"
  parse_value :: "string \<Rightarrow> 'val"
  value_from_dict :: "(string \<times> 'val) list \<Rightarrow> 'val"
  data_provider :: "string \<Rightarrow> (string \<times> 'val) list \<Rightarrow> 'prov"

definition load_figment_from :: "('fig, 'val, 'prov) figment_api \<Rightarrow> string \<Rightarrow> string \<Rightarrow> 'fig" where
  "load_figment_from A path app_name =
     figment_merge A
       (figment_merge A (figment_new A) (toml_file A path))
       (env_prefixed A (env_prefix app_name) ''__'' [''config''])"

text \<open>\<open>var_os\<close> is \<open>std::env::var_os\<close>.\<close>

definition load_figment ::
    "('fig, 'val, 'prov) figment_api \<Rightarrow> (string \<Rightarrow> string option) \<Rightarrow> string \<Rightarrow> 'fig" where
  "load_figment A var_os app_name =
     (case var_os (env_prefix app_name @ ''CONFIG'') of
        Some path \<Rightarrow> load_figment_from A path app_name
      | None \<Rightarrow> load_figment_from A DEFAULT_CONFIG_PATH app_name)"

record env_fallback =
  ef_var :: string
  ef_key :: string

record fallback_value =
  fv_var :: string
  fv_section :: string
  fv_key :: string
  fv_raw :: string

text \<open>\<open>FallbackValue::read\<close>; \<open>env\<close> is \<open>std::env::var(..).ok()\<close>.\<close>

definition fallback_read ::
    "(string \<Rightarrow> string option) \<Rightarrow> string \<Rightarrow> env_fallback \<Rightarrow> fallback_value option" where
  "fallback_read env sec fb =
     (case env (ef_var fb) of
        None \<Rightarrow> None
      | Some raw \<Rightarrow>
          if raw = [] then None
          else Some \<lparr>fv_var = ef_var fb, fv_section = sec, fv_key = ef_key fb, fv_raw = raw\<rparr>)"

definition fallback_metadata :: "fallback_value \<Rightarrow> string" where
  "fallback_metadata fv = ''`'' @ fv_var fv @ ''` environment variable''"

definition fallback_data ::
    "('fig, 'val, 'prov) figment_api \<Rightarrow> fallback_value \<Rightarrow> (string \<times> 'val) list" where
  "fallback_data A fv =
     (let val = parse_value A (fv_raw fv);
          sec = [(fv_key fv, val)]
      in [(fv_section fv, value_from_dict A sec)])"

definition fallback_provider ::
    "('fig, 'val, 'prov) figment_api \<Rightarrow> fallback_value \<Rightarrow> 'prov" where
  "fallback_provider A fv = data_provider A (fallback_metadata fv) (fallback_data A fv)"

text \<open>
  \<open>extr\<close> is \<open>figment.extract_inner\<close> at the plugin's config type, \<open>dflt\<close> that type's
  \<open>Default\<close>.
\<close>

definition extract_section ::
    "('fig, 'val, 'prov) figment_api \<Rightarrow> ('fig \<Rightarrow> string \<Rightarrow> string + 'cfg) \<Rightarrow> 'cfg \<Rightarrow> 'fig \<Rightarrow> string
      \<Rightarrow> 'cfg result" where
  "extract_section A extr dflt fig prefix =
     (case find_value A fig prefix of
        Some _ \<Rightarrow> map_err error_from_figment (extr fig prefix)
      | None \<Rightarrow> Inr dflt)"

definition get_or_env ::
    "('fig, 'val, 'prov) figment_api \<Rightarrow> ('fig \<Rightarrow> string \<Rightarrow> string + 'cfg) \<Rightarrow> 'cfg
      \<Rightarrow> (string \<Rightarrow> string option) \<Rightarrow> 'fig \<Rightarrow> string \<Rightarrow> env_fallback list \<Rightarrow> 'cfg result" where
  "get_or_env A extr dflt env fig prefix fallbacks =
     (if prefix = [] then Inr dflt
      else
        (let set_vars = List.map_filter (fallback_read env prefix) fallbacks
         in if set_vars = [] then extract_section A extr dflt fig prefix
            else extract_section A extr dflt
                   (foldl (\<lambda>f fv. figment_join A f (fallback_provider A fv)) fig set_vars) prefix))"

definition sections_get ::
    "('fig, 'val, 'prov) figment_api \<Rightarrow> ('fig \<Rightarrow> string \<Rightarrow> string + 'cfg) \<Rightarrow> 'cfg
      \<Rightarrow> (string \<Rightarrow> string option) \<Rightarrow> 'fig \<Rightarrow> string \<Rightarrow> 'cfg result" where
  "sections_get A extr dflt env fig prefix = get_or_env A extr dflt env fig prefix []"

section \<open>Lemmas\<close>

text \<open>The configuration a section is read from: the app's own, with the set variables joined.\<close>

definition with_fallbacks ::
    "('fig, 'val, 'prov) figment_api \<Rightarrow> (string \<Rightarrow> string option) \<Rightarrow> 'fig \<Rightarrow> string
      \<Rightarrow> env_fallback list \<Rightarrow> 'fig" where
  "with_fallbacks A env fig prefix fallbacks =
     foldl (\<lambda>f fv. figment_join A f (fallback_provider A fv)) fig
       (List.map_filter (fallback_read env prefix) fallbacks)"

lemma get_or_env_eq:
  "prefix \<noteq> [] \<Longrightarrow> get_or_env A extr dflt env fig prefix fallbacks
     = extract_section A extr dflt (with_fallbacks A env fig prefix fallbacks) prefix"
  by (simp add: get_or_env_def with_fallbacks_def Let_def map_filter_simps)

lemma fallback_read_Some:
  "fallback_read env sec fb = Some fv \<longleftrightarrow>
     (\<exists>raw. env (ef_var fb) = Some raw \<and> raw \<noteq> []
        \<and> fv = \<lparr>fv_var = ef_var fb, fv_section = sec, fv_key = ef_key fb, fv_raw = raw\<rparr>)"
  by (auto simp: fallback_read_def split: option.splits)

lemma env_prefix_char_ok:
  "c \<in> set (env_prefix_char ch) \<Longrightarrow> is_ascii_uppercase c \<or> is_ascii_digit c \<or> c = CHR ''_''"
  using to_ascii_uppercase_alphanumeric
  by (auto simp: env_prefix_char_def split: list.splits if_splits)

lemma env_prefix_char_length: "length (env_prefix_char ch) = 1"
  by (auto simp: env_prefix_char_def split: list.splits)

text \<open>
  figment's \<open>join\<close>, as documented: values of the provider fill the keys that are not there yet and
  never replace one that is. \<open>value_at f s k\<close> reads key \<open>k\<close> of section \<open>s\<close>.
\<close>

definition join_fills_only ::
    "('fig, 'val, 'prov) figment_api \<Rightarrow> ('fig \<Rightarrow> string \<Rightarrow> string \<Rightarrow> 'val option) \<Rightarrow> bool" where
  "join_fills_only A value_at \<longleftrightarrow>
     (\<forall>f name s k v s' k'.
        value_at (figment_join A f (data_provider A name [(s, value_from_dict A [(k, v)])])) s' k'
        = (case value_at f s' k' of
             Some w \<Rightarrow> Some w
           | None \<Rightarrow> if s' = s \<and> k' = k then Some v else None))"

lemma join_fallback:
  assumes "join_fills_only A value_at"
  shows "value_at (figment_join A f (fallback_provider A fv)) s k =
     (case value_at f s k of
        Some w \<Rightarrow> Some w
      | None \<Rightarrow> if s = fv_section fv \<and> k = fv_key fv then Some (parse_value A (fv_raw fv)) else None)"
  using assms by (simp add: join_fills_only_def fallback_provider_def fallback_data_def Let_def)

text \<open>The first listed variable for a key that is set to something non-empty.\<close>

fun first_set :: "(string \<Rightarrow> string option) \<Rightarrow> env_fallback list \<Rightarrow> string \<Rightarrow> string option" where
  "first_set env [] k = None"
| "first_set env (fb # fbs) k =
     (if ef_key fb = k \<and> env (ef_var fb) \<notin> {None, Some []} then env (ef_var fb)
      else first_set env fbs k)"

lemma with_fallbacks_value:
  assumes "join_fills_only A value_at"
  shows "value_at (with_fallbacks A env fig sec fbs) sec k =
    (case value_at fig sec k of
       Some w \<Rightarrow> Some w
     | None \<Rightarrow> map_option (parse_value A) (first_set env fbs k))"
proof (induction fbs arbitrary: fig)
  case Nil
  then show ?case by (simp add: with_fallbacks_def map_filter_simps split: option.splits)
next
  case (Cons fb fbs)
  show ?case
  proof (cases "fallback_read env sec fb")
    case None
    then have "env (ef_var fb) \<in> {None, Some []}"
      by (auto simp: fallback_read_def split: option.splits if_splits)
    then have "first_set env (fb # fbs) k = first_set env fbs k" by auto
    with None Cons.IH [of fig] show ?thesis
      by (simp add: with_fallbacks_def map_filter_simps del: first_set.simps split: option.splits)
  next
    case (Some fv)
    let ?fig = "figment_join A fig (fallback_provider A fv)"
    have "with_fallbacks A env fig sec (fb # fbs) = with_fallbacks A env ?fig sec fbs"
      using Some by (simp add: with_fallbacks_def map_filter_simps)
    moreover from Some obtain raw where "env (ef_var fb) = Some raw" "raw \<noteq> []"
        "fv = \<lparr>fv_var = ef_var fb, fv_section = sec, fv_key = ef_key fb, fv_raw = raw\<rparr>"
      by (auto simp: fallback_read_Some)
    ultimately show ?thesis
      using Cons.IH [of ?fig] by (auto simp: join_fallback [OF assms] split: option.splits)
  qed
qed

section \<open>Properties\<close>

text \<open>
  C20: reading a section applies the documented precedence. With the prefix \<open>""\<close> the result is the
  default. Otherwise the section is read from a configuration in which every key the app's own
  configuration sets keeps that value, and a key it leaves unset has the value of the first listed
  environment variable for it that is set and not empty; the configuration is never overridden.
\<close>

theorem get_or_env_precedence:
  assumes "join_fills_only A value_at"
  shows "get_or_env A extr dflt env fig [] fbs = Inr dflt
    \<and> (sec \<noteq> [] \<longrightarrow>
        (\<exists>eff. get_or_env A extr dflt env fig sec fbs = extract_section A extr dflt eff sec
           \<and> (\<forall>k. value_at eff sec k =
                (case value_at fig sec k of
                   Some w \<Rightarrow> Some w
                 | None \<Rightarrow> map_option (parse_value A) (first_set env fbs k)))))"
proof -
  have "get_or_env A extr dflt env fig [] fbs = Inr dflt" by (simp add: get_or_env_def)
  then show ?thesis
    using get_or_env_eq [of sec A extr dflt env fig fbs]
      with_fallbacks_value [OF assms, of env fig sec fbs] by blast
qed

text \<open>A concrete figment for the witness: a map from section and key to values.\<close>

datatype demo_val = DText string | DDict "(string \<times> demo_val) list"

type_synonym demo_fig = "(string \<times> string) \<Rightarrow> demo_val option"

definition demo_figment :: "(demo_fig, demo_val, (string \<times> demo_val) list) figment_api" where
  "demo_figment =
     \<lparr>figment_new = (\<lambda>_. None),
      figment_merge = (\<lambda>f p. f),
      figment_join = (\<lambda>f p sk.
        (case f sk of
           Some w \<Rightarrow> Some w
         | None \<Rightarrow> (case map_of p (fst sk) of
                       Some (DDict d) \<Rightarrow> map_of d (snd sk)
                     | _ \<Rightarrow> None))),
      find_value = (\<lambda>f s. map_option (\<lambda>v. v) (f (s, ''url''))),
      toml_file = (\<lambda>_. []),
      env_prefixed = (\<lambda>_ _ _. []),
      parse_value = DText,
      value_from_dict = DDict,
      data_provider = (\<lambda>_ d. d)\<rparr>"

lemma demo_join_fills_only: "join_fills_only demo_figment (\<lambda>f s k. f (s, k))"
  by (auto simp: join_fills_only_def demo_figment_def split: option.splits)

theorem get_or_env_precedence_witness:
  "get_or_env demo_figment (\<lambda>_ _. Inr True) False (\<lambda>v. Some ''postgres'') (\<lambda>_. None) []
      [\<lparr>ef_var = ''DATABASE_URL'', ef_key = ''url''\<rparr>] = Inr False
   \<and> (\<exists>eff. eff (''db'', ''url'') = Some (DText ''postgres'')
        \<and> get_or_env demo_figment (\<lambda>_ _. Inr True) False (\<lambda>v. Some ''postgres'') (\<lambda>_. None) ''db''
             [\<lparr>ef_var = ''DATABASE_URL'', ef_key = ''url''\<rparr>]
           = extract_section demo_figment (\<lambda>_ _. Inr True) False eff ''db'')"
proof -
  note p = get_or_env_precedence [OF demo_join_fills_only, of "\<lambda>_ _. Inr True" False
      "\<lambda>v. Some ''postgres''" "\<lambda>_. None" "[\<lparr>ef_var = ''DATABASE_URL'', ef_key = ''url''\<rparr>]" "''db''"]
  from p obtain eff where e: "get_or_env demo_figment (\<lambda>_ _. Inr True) False (\<lambda>v. Some ''postgres'')
        (\<lambda>_. None) ''db'' [\<lparr>ef_var = ''DATABASE_URL'', ef_key = ''url''\<rparr>]
      = extract_section demo_figment (\<lambda>_ _. Inr True) False eff ''db''"
    and v: "\<forall>k. eff (''db'', k) = map_option (parse_value demo_figment)
        (first_set (\<lambda>v. Some ''postgres'') [\<lparr>ef_var = ''DATABASE_URL'', ef_key = ''url''\<rparr>] k)"
    by auto
  from v have "eff (''db'', ''url'') = Some (DText ''postgres'')"
    by (simp add: demo_figment_def)
  with e p show ?thesis by blast
qed

text \<open>
  The environment prefix of an app has one character per character of its name plus a trailing
  \<open>_\<close>, and consists of upper-case ASCII letters, digits and underscores only, whatever the name
  holds, so it is a valid prefix of an environment variable.
\<close>

theorem env_prefix_charset:
  "(\<forall>c \<in> set (env_prefix name). is_ascii_uppercase c \<or> is_ascii_digit c \<or> c = CHR ''_'')
   \<and> length (env_prefix name) = Suc (length (utf8_chars name))
   \<and> last (env_prefix name) = CHR ''_''"
proof -
  have "length (concat (map env_prefix_char cs)) = length cs" for cs
    by (induction cs) (simp_all add: env_prefix_char_length)
  then show ?thesis
    using env_prefix_char_ok by (auto simp: env_prefix_def)
qed

lemma env_prefix_katago: "env_prefix ''katago-ws'' = ''KATAGO_WS_''"
  by code_simp

theorem env_prefix_charset_witness:
  "env_prefix ''katago-ws'' = ''KATAGO_WS_''
   \<and> length (env_prefix ''katago-ws'') = Suc (length (utf8_chars ''katago-ws''))"
  using env_prefix_charset [of "''katago-ws''"] env_prefix_katago by metis

end
