(* ===== verification/Core_App.thy ===== *)
theory Core_App
  imports Core_Ctx Core_State Core_Config
begin

text \<open>
  \<open>muxa-core/src/app.rs\<close> and \<open>plugin.rs\<close>: the plugin chain, the run of the application and the
  bounded wait for its background tasks.

  A plugin is what the trait asks of it: its type's name, how it reads its configuration, and its
  \<open>build\<close>, which may change the build context and the world. All plugins of a chain have their
  outputs in one type \<open>'v\<close> (see \<open>Core_State\<close>) and their configurations in one type \<open>'cfg\<close>.
  The clock of the runtime counts milliseconds.
\<close>

section \<open>Plugins and the builder\<close>

record ('cfg, 'v, 'fig, 'r, 'tok, 'w, 'h, 'l) plugin =
  pl_type_name :: string
  pl_read_config :: "'fig \<Rightarrow> 'cfg result"
  pl_build :: "'cfg \<Rightarrow> 'v hlist \<Rightarrow> ('fig, 'r, 'tok, 'w, 'h, 'l) build_ctx \<Rightarrow> 'w
    \<Rightarrow> 'v result \<times> ('fig, 'r, 'tok, 'w, 'h, 'l) build_ctx \<times> 'w"

text \<open>The default \<open>read_config\<close>: the section at \<open>CONFIG_PREFIX\<close>, with \<open>ENV_FALLBACKS\<close>.\<close>

definition default_read_config ::
    "('fig, 'val, 'prov) figment_api \<Rightarrow> ('fig \<Rightarrow> string \<Rightarrow> string + 'cfg) \<Rightarrow> 'cfg
      \<Rightarrow> (string \<Rightarrow> string option) \<Rightarrow> string \<Rightarrow> env_fallback list \<Rightarrow> 'fig \<Rightarrow> 'cfg result" where
  "default_read_config F extr dflt env config_prefix env_fallbacks fig =
     get_or_env F extr dflt env fig config_prefix env_fallbacks"

record ('v, 'fig, 'r, 'tok, 'w, 'h, 'l) app_builder =
  ab_state :: "'v hlist"
  ab_ctx :: "('fig, 'r, 'tok, 'w, 'h, 'l) build_ctx"

definition with_figment ::
    "bool \<Rightarrow> ('fig \<Rightarrow> string option) \<Rightarrow> 'tok \<Rightarrow> bool \<Rightarrow> (string, 'l) slot option option \<Rightarrow> 'fig
      \<Rightarrow> ('v, 'fig, 'r, 'tok, 'w, 'h, 'l) app_builder" where
  "with_figment dbg env_key tok already cell fig =
     \<lparr>ab_state = HNil, ab_ctx = fst (build_ctx_new dbg env_key tok already cell fig)\<rparr>"

definition named ::
    "bool \<Rightarrow> ('fig \<Rightarrow> string option) \<Rightarrow> 'tok \<Rightarrow> bool \<Rightarrow> (string, 'l) slot option option
      \<Rightarrow> ('fig, 'val, 'prov) figment_api \<Rightarrow> (string \<Rightarrow> string option) \<Rightarrow> string
      \<Rightarrow> ('v, 'fig, 'r, 'tok, 'w, 'h, 'l) app_builder" where
  "named dbg env_key tok already cell F var_os app_name =
     with_figment dbg env_key tok already cell (load_figment F var_os app_name)"

definition tag_build_error :: "string \<Rightarrow> error \<Rightarrow> error" where
  "tag_build_error type_name err =
     (case err of
        PluginBuild _ _ \<Rightarrow> err
      | other \<Rightarrow> PluginBuild type_name (Boxed other))"

definition with_plugin ::
    "('cfg, 'v, 'fig, 'r, 'tok, 'w, 'h, 'l) plugin \<Rightarrow> ('v, 'fig, 'r, 'tok, 'w, 'h, 'l) app_builder
      \<Rightarrow> 'w \<Rightarrow> ('v, 'fig, 'r, 'tok, 'w, 'h, 'l) app_builder result \<times> 'w" where
  "with_plugin p b w =
     (case pl_read_config p (bc_figment (ab_ctx b)) of
        Inl e \<Rightarrow> (Inl e, w)
      | Inr cfg \<Rightarrow>
          (case pl_build p cfg (ab_state b) (ab_ctx b) w of
             (built, ctx, w) \<Rightarrow>
               (case map_err (tag_build_error (pl_type_name p)) built of
                  Inl e \<Rightarrow> (Inl e, w)
                | Inr out \<Rightarrow> (Inr \<lparr>ab_state = push (ab_state b) out, ab_ctx = ctx\<rparr>, w))))"

text \<open>\<open>app.with_plugin(p1).await?.with_plugin(p2).await?...\<close>\<close>

fun with_plugins ::
    "('cfg, 'v, 'fig, 'r, 'tok, 'w, 'h, 'l) plugin list
      \<Rightarrow> ('v, 'fig, 'r, 'tok, 'w, 'h, 'l) app_builder
      \<Rightarrow> 'w \<Rightarrow> ('v, 'fig, 'r, 'tok, 'w, 'h, 'l) app_builder result \<times> 'w" where
  "with_plugins [] b w = (Inr b, w)"
| "with_plugins (p # ps) b w =
     (case with_plugin p b w of
        (Inl e, w) \<Rightarrow> (Inl e, w)
      | (Inr b, w) \<Rightarrow> with_plugins ps b w)"

section \<open>Running\<close>

datatype join_outcome = Returned | JoinFailed string | Elapsed

record ('tok, 'fut, 'w, 'h) runtime_api = "('tok, 'fut, 'w, 'h) tokio_api" +
  clock :: "'w \<Rightarrow> nat"
  timeout_at :: "nat \<Rightarrow> 'h \<Rightarrow> 'w \<Rightarrow> join_outcome \<times> 'w"

definition TASK_SHUTDOWN_GRACE :: nat where
  "TASK_SHUTDOWN_GRACE = 10 * 1000"

record task_outcomes =
  to_failed :: "string list"
  to_abandoned :: "string list"

fun join_loop ::
    "('tok, 'fut, 'w, 'h) runtime_api \<Rightarrow> nat \<Rightarrow> (string \<times> 'h) list \<Rightarrow> task_outcomes \<Rightarrow> 'w
      \<Rightarrow> task_outcomes \<times> 'w" where
  "join_loop T deadline [] outcomes w = (outcomes, w)"
| "join_loop T deadline ((name, handle) # tasks) outcomes w =
     (case timeout_at T deadline handle w of
        (Returned, w) \<Rightarrow> join_loop T deadline tasks outcomes w
      | (JoinFailed err, w) \<Rightarrow>
          join_loop T deadline tasks (outcomes\<lparr>to_failed := to_failed outcomes @ [name]\<rparr>) w
      | (Elapsed, w) \<Rightarrow>
          join_loop T deadline tasks (outcomes\<lparr>to_abandoned := to_abandoned outcomes @ [name]\<rparr>) w)"

definition join_tasks ::
    "('tok, 'fut, 'w, 'h) runtime_api \<Rightarrow> (string \<times> 'h) list \<Rightarrow> 'w \<Rightarrow> task_outcomes \<times> 'w" where
  "join_tasks T tasks w =
     (let deadline = clock T w + TASK_SHUTDOWN_GRACE
      in join_loop T deadline tasks \<lparr>to_failed = [], to_abandoned = []\<rparr> w)"

definition no_serve_message :: string where
  "no_serve_message =
     ''no serve function registered '' @ [CHR 0xE2, CHR 0x80, CHR 0x94]
       @ '' add a serving plugin (e.g. a web plugin) as the last plugin in the chain''"

definition run ::
    "('tok, 'fut, 'w, 'h) runtime_api \<Rightarrow> 'r axum_api
      \<Rightarrow> ('v, 'fig, 'r, 'tok, 'w, 'h, 'l) app_builder \<Rightarrow> 'w \<Rightarrow> unit result \<times> 'w" where
  "run T A b w =
     (let ctx = ab_ctx b
      in case bc_serve_fn ctx of
           None \<Rightarrow> (Inl (error_other no_serve_message), w)
         | Some serve \<Rightarrow>
             (let shutdown = bc_shutdown ctx;
                  (tasks, w) = spawn_all (tokio_api.truncate T) shutdown (bc_tasks ctx) w;
                  router = compose A (bc_router ctx);
                  (served, w) = serve router w;
                  w = cancel T shutdown w;
                  (outcomes, w) = join_tasks T tasks w
              in (served, w)))"

section \<open>Contexts a plugin leaves behind\<close>

text \<open>
  A plugin adds to the context: routes, layers and tasks are appended, a filled slot stays filled
  with what it holds, and the configuration, the mode and the shutdown token stay.
\<close>

definition extends_slot :: "'a option \<Rightarrow> 'a option \<Rightarrow> bool" where
  "extends_slot a b = (a = None \<or> b = a)"

definition ctx_extends ::
    "('fig, 'r, 'tok, 'w, 'h, 'l) build_ctx \<Rightarrow> ('fig, 'r, 'tok, 'w, 'h, 'l) build_ctx \<Rightarrow> bool" where
  "ctx_extends c d \<longleftrightarrow>
     bc_figment d = bc_figment c \<and> bc_mode d = bc_mode c \<and> bc_shutdown d = bc_shutdown c
     \<and> starts_with (rr_routes (bc_router c)) (rr_routes (bc_router d))
     \<and> starts_with (rr_layer_fns (bc_router c)) (rr_layer_fns (bc_router d))
     \<and> starts_with (bc_tasks c) (bc_tasks d)
     \<and> extends_slot (rr_fallback (bc_router c)) (rr_fallback (bc_router d))
     \<and> extends_slot (bc_serve_fn c) (bc_serve_fn d)"

lemma starts_with_refl [simp]: "starts_with s s"
  using starts_with_append [of s "[]"] by simp

lemma starts_with_trans: "starts_with a b \<Longrightarrow> starts_with b c \<Longrightarrow> starts_with a c"
  by (metis append.assoc starts_with_iff)

lemma extends_slot_refl [simp]: "extends_slot a a"
  by (simp add: extends_slot_def)

lemma extends_slot_trans: "extends_slot a b \<Longrightarrow> extends_slot b c \<Longrightarrow> extends_slot a c"
  by (auto simp: extends_slot_def)

lemma ctx_extends_refl [simp]: "ctx_extends c c"
  by (simp add: ctx_extends_def)

lemma ctx_extends_trans:
  "ctx_extends a b \<Longrightarrow> ctx_extends b c \<Longrightarrow> ctx_extends a c"
  unfolding ctx_extends_def
  by (elim conjE) (intro conjI; (erule (1) starts_with_trans extends_slot_trans | simp))

text \<open>The single registrations extend the context.\<close>

lemma ctx_extends_telemetry [simp]: "ctx_extends c (c\<lparr>bc_telemetry := t\<rparr>)"
  by (simp add: ctx_extends_def)

lemma ctx_extends_mount [simp]: "ctx_extends c (c\<lparr>bc_router := mount_auto p r (bc_router c)\<rparr>)"
  by (simp add: ctx_extends_def mount_auto_def)

lemma ctx_extends_layer [simp]: "ctx_extends c (c\<lparr>bc_router := layer f (bc_router c)\<rparr>)"
  by (simp add: ctx_extends_def layer_def)

lemma ctx_extends_fallback [simp]:
  "ctx_extends c (c\<lparr>bc_router := snd (set_fallback r (bc_router c))\<rparr>)"
  by (simp add: ctx_extends_def set_fallback_def extends_slot_def)

lemma ctx_extends_spawn [simp]: "ctx_extends c (c\<lparr>bc_tasks := spawn T n f (bc_tasks c)\<rparr>)"
  by (simp add: ctx_extends_def spawn_def)

lemma ctx_extends_serve [simp]: "ctx_extends c (snd (set_serve_fn f c))"
  by (simp add: ctx_extends_def set_serve_fn_def extends_slot_def)

lemmas ctx_extends_ops = ctx_extends_telemetry ctx_extends_mount ctx_extends_layer
  ctx_extends_fallback ctx_extends_spawn ctx_extends_serve

text \<open>The contract of a plugin's \<open>build\<close>, with everything but the context packed in \<open>'x\<close>.\<close>

locale ctx_extender =
  fixes build :: "'x \<Rightarrow> ('fig, 'r, 'tok, 'w, 'h, 'l) build_ctx
      \<Rightarrow> 'o \<times> ('fig, 'r, 'tok, 'w, 'h, 'l) build_ctx \<times> 'w"
  assumes build_extends: "ctx_extends ctx (fst (snd (build x ctx)))"
begin

lemma serve_fn_kept: "bc_serve_fn ctx = Some f \<Longrightarrow> bc_serve_fn (fst (snd (build x ctx))) = Some f"
  using build_extends [of ctx x] by (auto simp: ctx_extends_def extends_slot_def)

lemma fallback_kept:
  "rr_fallback (bc_router ctx) = Some r \<Longrightarrow> rr_fallback (bc_router (fst (snd (build x ctx)))) = Some r"
  using build_extends [of ctx x] by (auto simp: ctx_extends_def extends_slot_def)

lemma mounts_kept: "starts_with (mounts (bc_router ctx)) (mounts (bc_router (fst (snd (build x ctx)))))"
  using build_extends [of ctx x] by (auto simp: ctx_extends_def mounts_def starts_with_iff)

lemma task_names_kept:
  "starts_with (task_names (bc_tasks ctx)) (task_names (bc_tasks (fst (snd (build x ctx)))))"
  using build_extends [of ctx x] by (auto simp: ctx_extends_def task_names_def starts_with_iff)

lemma mode_kept: "bc_mode (fst (snd (build x ctx))) = bc_mode ctx"
  using build_extends [of ctx x] by (simp add: ctx_extends_def)

end

section \<open>The plugin chain\<close>

text \<open>The outputs of a chain that builds, in order.\<close>

inductive builds_all ::
    "('cfg, 'v, 'fig, 'r, 'tok, 'w, 'h, 'l) plugin list
      \<Rightarrow> ('v, 'fig, 'r, 'tok, 'w, 'h, 'l) app_builder \<Rightarrow> 'w \<Rightarrow> 'v list
      \<Rightarrow> ('v, 'fig, 'r, 'tok, 'w, 'h, 'l) app_builder \<Rightarrow> 'w \<Rightarrow> bool" where
  builds_nil: "builds_all [] b w [] b w"
| builds_cons: "pl_read_config p (bc_figment (ab_ctx b)) = Inr cfg \<Longrightarrow>
    pl_build p cfg (ab_state b) (ab_ctx b) w = (Inr out, ctx, w1) \<Longrightarrow>
    builds_all ps \<lparr>ab_state = HCons out (ab_state b), ab_ctx = ctx\<rparr> w1 outs b' w' \<Longrightarrow>
    builds_all (p # ps) b w (out # outs) b' w'"

inductive_cases builds_all_ConsE: "builds_all (p # ps) b w outs b' w'"
inductive_simps builds_all_Nil [simp]: "builds_all [] b w outs b' w'"

text \<open>Plugin \<open>p\<close>, built on \<open>b\<close>, fails with \<open>e\<close>.\<close>

definition fails_with ::
    "('cfg, 'v, 'fig, 'r, 'tok, 'w, 'h, 'l) plugin
      \<Rightarrow> ('v, 'fig, 'r, 'tok, 'w, 'h, 'l) app_builder \<Rightarrow> 'w \<Rightarrow> error \<Rightarrow> 'w \<Rightarrow> bool" where
  "fails_with p b w e w' \<longleftrightarrow>
     (pl_read_config p (bc_figment (ab_ctx b)) = Inl e \<and> w' = w)
     \<or> (\<exists>cfg err ctx. pl_read_config p (bc_figment (ab_ctx b)) = Inr cfg
          \<and> pl_build p cfg (ab_state b) (ab_ctx b) w = (Inl err, ctx, w')
          \<and> e = (if \<exists>name source. err = PluginBuild name source then err
                  else PluginBuild (pl_type_name p) (Boxed err)))"

lemma with_plugin_cases:
  assumes "with_plugin p b w = (res, w')"
  shows "(\<exists>e. res = Inl e \<and> fails_with p b w e w')
    \<or> (\<exists>cfg out ctx. res = Inr \<lparr>ab_state = HCons out (ab_state b), ab_ctx = ctx\<rparr>
         \<and> pl_read_config p (bc_figment (ab_ctx b)) = Inr cfg
         \<and> pl_build p cfg (ab_state b) (ab_ctx b) w = (Inr out, ctx, w'))"
proof (cases "pl_read_config p (bc_figment (ab_ctx b))")
  case (Inl e)
  with assms show ?thesis by (auto simp: with_plugin_def fails_with_def)
next
  case (Inr cfg)
  obtain built ctx w1 where built: "pl_build p cfg (ab_state b) (ab_ctx b) w = (built, ctx, w1)"
    by (cases "pl_build p cfg (ab_state b) (ab_ctx b) w")
  show ?thesis
  proof (cases built)
    case (Inl err)
    have "tag_build_error (pl_type_name p) err
        = (if \<exists>name source. err = PluginBuild name source then err
           else PluginBuild (pl_type_name p) (Boxed err))"
      by (cases err) (auto simp: tag_build_error_def)
    with assms Inr built Inl show ?thesis
      by (auto simp: with_plugin_def fails_with_def)
  next
    case (Inr out)
    with assms \<open>pl_read_config p _ = Inr cfg\<close> built show ?thesis
      by (auto simp: with_plugin_def)
  qed
qed

lemma with_plugins_cases:
  "with_plugins ps b w = (res, w') \<Longrightarrow>
     (\<exists>b' outs. res = Inr b' \<and> builds_all ps b w outs b' w')
     \<or> (\<exists>e pre p rest outs b1 w1. res = Inl e \<and> ps = pre @ p # rest
          \<and> builds_all pre b w outs b1 w1 \<and> fails_with p b1 w1 e w')"
proof (induction ps arbitrary: b w)
  case Nil
  then show ?case by auto
next
  case (Cons p ps)
  obtain res1 w1 where one: "with_plugin p b w = (res1, w1)" by (cases "with_plugin p b w")
  show ?case
  proof (cases res1)
    case (Inl e)
    with one Cons.prems with_plugin_cases [OF one] have "res = Inl e \<and> fails_with p b w e w'"
      by auto
    then show ?thesis by (metis append_Nil builds_nil)
  next
    case (Inr b1)
    with one Cons.prems have rest: "with_plugins ps b1 w1 = (res, w')" by simp
    from Inr with_plugin_cases [OF one] obtain cfg out ctx where
      b1: "b1 = \<lparr>ab_state = HCons out (ab_state b), ab_ctx = ctx\<rparr>"
      and step: "pl_read_config p (bc_figment (ab_ctx b)) = Inr cfg"
        "pl_build p cfg (ab_state b) (ab_ctx b) w = (Inr out, ctx, w1)"
      by auto
    have extend: "builds_all (p # pre) b w (out # outs) b' w2"
      if "builds_all pre b1 w1 outs b' w2" for pre outs b' w2
      using builds_cons [OF step] that b1 by simp
    from Cons.IH [OF rest] show ?thesis
    proof
      assume "\<exists>b' outs. res = Inr b' \<and> builds_all ps b1 w1 outs b' w'"
      then show ?thesis using extend by blast
    next
      assume "\<exists>e pre q rest outs b2 w2. res = Inl e \<and> ps = pre @ q # rest
          \<and> builds_all pre b1 w1 outs b2 w2 \<and> fails_with q b2 w2 e w'"
      then obtain e pre q rest outs b2 w2 where "res = Inl e" "p # ps = (p # pre) @ q # rest"
          "builds_all pre b1 w1 outs b2 w2" "fails_with q b2 w2 e w'"
        by auto
      then show ?thesis using extend by blast
    qed
  qed
qed

lemma builds_all_state:
  "builds_all ps b w outs b' w' \<Longrightarrow>
     length outs = length ps \<and> hl_entries (ab_state b') = rev outs @ hl_entries (ab_state b)"
  by (induction rule: builds_all.induct) auto

definition extending_plugin :: "('cfg, 'v, 'fig, 'r, 'tok, 'w, 'h, 'l) plugin \<Rightarrow> bool" where
  "extending_plugin p \<longleftrightarrow>
     (\<forall>cfg s ctx w. ctx_extends ctx (fst (snd (pl_build p cfg s ctx w))))"

lemma builds_all_extends:
  "builds_all ps b w outs b' w' \<Longrightarrow> list_all extending_plugin ps \<Longrightarrow>
     ctx_extends (ab_ctx b) (ab_ctx b')"
proof (induction rule: builds_all.induct)
  case (builds_nil b w)
  show ?case by simp
next
  case (builds_cons p b cfg w out ctx w1 ps outs b' w')
  from builds_cons.prems have "ctx_extends (ab_ctx b) (fst (snd (pl_build p cfg (ab_state b) (ab_ctx b) w)))"
    by (simp add: extending_plugin_def)
  with builds_cons.hyps(2) have "ctx_extends (ab_ctx b) ctx" by simp
  with builds_cons.IH builds_cons.prems show ?case by (auto intro: ctx_extends_trans)
qed

section \<open>Waiting for the tasks\<close>

text \<open>
  What tokio documents of \<open>timeout_at\<close> on a join handle: the clock does not run backwards and the
  wait ends by the deadline; \<open>finished h w\<close> is the result of a task that has returned, it stays,
  it is what the wait yields (the handle is polled before the timer), and the wait gives up only
  past the deadline.
\<close>

definition timer_laws ::
    "('tok, 'fut, 'w, 'h) runtime_api \<Rightarrow> ('h \<Rightarrow> 'w \<Rightarrow> join_outcome option) \<Rightarrow> bool" where
  "timer_laws T finished \<longleftrightarrow>
     (\<forall>d h w r w'. timeout_at T d h w = (r, w') \<longrightarrow>
        clock T w \<le> clock T w' \<and> clock T w' \<le> max d (clock T w)
        \<and> (\<forall>h' q. finished h' w = Some q \<longrightarrow> finished h' w' = Some q)
        \<and> (\<forall>q. finished h w = Some q \<longrightarrow> r = q)
        \<and> (if r = Elapsed then d \<le> clock T w' else finished h w' = Some r))"

text \<open>The result of each wait, in order.\<close>

fun join_results ::
    "('tok, 'fut, 'w, 'h) runtime_api \<Rightarrow> nat \<Rightarrow> (string \<times> 'h) list \<Rightarrow> 'w
      \<Rightarrow> join_outcome list \<times> 'w" where
  "join_results T d [] w = ([], w)"
| "join_results T d ((n, h) # tasks) w =
     (let (r, w) = timeout_at T d h w; (rs, w) = join_results T d tasks w in (r # rs, w))"

definition is_failed :: "join_outcome \<Rightarrow> bool" where
  "is_failed r = (case r of JoinFailed _ \<Rightarrow> True | _ \<Rightarrow> False)"

definition names_where :: "(join_outcome \<Rightarrow> bool) \<Rightarrow> (string \<times> 'h) list \<Rightarrow> join_outcome list \<Rightarrow> string list" where
  "names_where p tasks rs = map (fst \<circ> fst) (filter (p \<circ> snd) (zip tasks rs))"

lemma names_where_Cons [simp]:
  "names_where p [] rs = []"
  "names_where p (t # ts) (r # rs) = (if p r then fst t # names_where p ts rs else names_where p ts rs)"
  by (simp_all add: names_where_def)

lemma join_loop_results:
  "join_results T d tasks w = (rs, w') \<Longrightarrow>
     length rs = length tasks
     \<and> join_loop T d tasks out w =
         (\<lparr>to_failed = to_failed out @ names_where is_failed tasks rs,
           to_abandoned = to_abandoned out @ names_where (\<lambda>r. r = Elapsed) tasks rs\<rparr>, w')"
proof (induction tasks arbitrary: out w rs)
  case Nil
  then show ?case by simp
next
  case (Cons t tasks)
  obtain n h where t: "t = (n, h)" by (cases t)
  obtain r w1 where one: "timeout_at T d h w = (r, w1)" by (cases "timeout_at T d h w")
  obtain rs1 w2 where two: "join_results T d tasks w1 = (rs1, w2)" by (cases "join_results T d tasks w1")
  from Cons.prems t one two have rs: "rs = r # rs1" "w' = w2" by auto
  show ?case
    using Cons.IH [OF two [folded rs(2)]] t one rs
    by (cases r) (simp_all add: is_failed_def)
qed

lemma join_results_laws:
  assumes "timer_laws T finished"
  shows "join_results T d tasks w = (rs, w') \<Longrightarrow>
     length rs = length tasks \<and> clock T w \<le> clock T w' \<and> clock T w' \<le> max d (clock T w)
     \<and> (\<forall>h q. finished h w = Some q \<longrightarrow> finished h w' = Some q)
     \<and> (\<forall>i < length tasks.
          (\<forall>q. finished (snd (tasks ! i)) w = Some q \<longrightarrow> rs ! i = q)
          \<and> (if rs ! i = Elapsed then d \<le> clock T w' else finished (snd (tasks ! i)) w' = Some (rs ! i)))"
proof (induction tasks arbitrary: w rs)
  case Nil
  then show ?case by simp
next
  case (Cons t tasks)
  obtain n h where t: "t = (n, h)" by (cases t)
  obtain r w1 where one: "timeout_at T d h w = (r, w1)" by (cases "timeout_at T d h w")
  obtain rs1 w2 where two: "join_results T d tasks w1 = (rs1, w2)" by (cases "join_results T d tasks w1")
  from Cons.prems t one two have rs: "rs = r # rs1" "w' = w2" by auto
  note law = assms [unfolded timer_laws_def, rule_format, OF one]
  note ih = Cons.IH [OF two [folded rs(2)]]
  have "(\<forall>q. finished (snd ((t # tasks) ! i)) w = Some q \<longrightarrow> rs ! i = q)
      \<and> (if rs ! i = Elapsed then d \<le> clock T w'
         else finished (snd ((t # tasks) ! i)) w' = Some (rs ! i))"
    if "i < length (t # tasks)" for i
  proof (cases i)
    case 0
    with law ih t rs show ?thesis by (auto split: if_splits)
  next
    case (Suc j)
    with that have "j < length tasks" by simp
    with ih law Suc rs show ?thesis by auto
  qed
  then show ?case using law ih rs by auto
qed

section \<open>The order of a run\<close>

datatype ('r, 'tok, 'h) run_event =
    Spawned string 'tok 'h
  | Served 'r
  | Cancelled 'tok
  | Awaited 'h

text \<open>The tasks a sequence of \<open>spawn\<close> calls registers.\<close>

definition registered ::
    "('tok, 'fut, 'w, 'h) tokio_api \<Rightarrow> (string \<times> ('tok \<Rightarrow> 'fut)) list \<Rightarrow> ('tok, 'w, 'h) task_registry" where
  "registered T specs = foldl (\<lambda>tasks spec. spawn T (fst spec) (snd spec) tasks) [] specs"

text \<open>
  A log of what the runtime was asked to do, in order; \<open>parent\<close> is the token a child token was
  derived from.
\<close>

definition logs_events ::
    "('tok, 'fut, 'w, 'h) runtime_api \<Rightarrow> ('w \<Rightarrow> ('r, 'tok, 'h) run_event list) \<Rightarrow> ('tok \<Rightarrow> 'tok) \<Rightarrow> bool" where
  "logs_events T log parent \<longleftrightarrow>
     (\<forall>body w. log (snd (tokio_spawn T body w))
        = log w @ [Spawned (tb_name body) (tb_shutdown body) (fst (tokio_spawn T body w))])
     \<and> (\<forall>tok w. log (snd (child_token T tok w)) = log w \<and> parent (fst (child_token T tok w)) = tok)
     \<and> (\<forall>tok w. log (cancel T tok w) = log w @ [Cancelled tok])
     \<and> (\<forall>d h w. log (snd (timeout_at T d h w)) = log w @ [Awaited h])"

lemma registered_map:
  "registered T specs = map (\<lambda>(name, func). (name, \<lambda>shutdown.
     tokio_spawn T \<lparr>tb_name = name, tb_func = func, tb_shutdown = shutdown\<rparr>)) specs"
  by (induction specs rule: rev_induct) (auto simp: registered_def spawn_def)

lemma spawn_all_log:
  assumes "logs_events T log parent"
  shows "spawn_all (tokio_api.truncate T) tok (registered (tokio_api.truncate T) specs) w = (hs, w') \<Longrightarrow>
    \<exists>toks. length toks = length specs \<and> map fst hs = map fst specs
      \<and> list_all (\<lambda>t. parent t = tok) toks
      \<and> log w' = log w @ map (\<lambda>(t, n, h). Spawned n t h) (zip toks hs)"
proof (induction specs arbitrary: w hs w')
  case Nil
  then show ?case by (simp add: registered_map)
next
  case (Cons spec specs)
  obtain n f where spec: "spec = (n, f)" by (cases spec)
  obtain t w1 where one: "child_token T tok w = (t, w1)" by (cases "child_token T tok w")
  let ?body = "\<lparr>tb_name = n, tb_func = f, tb_shutdown = t\<rparr>"
  obtain h w2 where two: "tokio_spawn T ?body w1 = (h, w2)"
    by (cases "tokio_spawn T ?body w1")
  obtain hs1 w3 where three: "spawn_all (tokio_api.truncate T) tok
      (registered (tokio_api.truncate T) specs) w2 = (hs1, w3)"
    by (cases "spawn_all (tokio_api.truncate T) tok (registered (tokio_api.truncate T) specs) w2")
  have "hs = (n, h) # hs1" "w3 = w'"
    using Cons.prems spec one two three by (simp_all add: registered_map tokio_api.defs)
  moreover have "log w2 = log w @ [Spawned n t h]" "parent t = tok"
    using assms one two unfolding logs_events_def
    by (metis (no_types, lifting) fst_conv snd_conv task_body.select_convs(1,3))+
  moreover obtain toks where "length toks = length specs" "map fst hs1 = map fst specs"
    "list_all (\<lambda>t. parent t = tok) toks"
    "log w3 = log w2 @ map (\<lambda>(t, n, h). Spawned n t h) (zip toks hs1)"
    using Cons.IH [OF three] by blast
  ultimately show ?case using spec by (intro exI [of _ "t # toks"]) simp
qed

lemma join_loop_log:
  assumes "logs_events T log parent"
  shows "log (snd (join_loop T d tasks out w)) = log w @ map (Awaited \<circ> snd) tasks"
proof (induction tasks arbitrary: out w)
  case Nil
  then show ?case by simp
next
  case (Cons t tasks)
  obtain n h where t: "t = (n, h)" by (cases t)
  obtain r w1 where one: "timeout_at T d h w = (r, w1)" by (cases "timeout_at T d h w")
  then have "log w1 = log w @ [Awaited h]"
    using assms unfolding logs_events_def by (metis snd_conv)
  with Cons.IH t one show ?case by (cases r) simp_all
qed

section \<open>Properties\<close>

text \<open>
  C8: adding plugins one after the other either builds every one, in order, each on the state and
  the context the earlier ones left, so that the state holds their outputs with the latest first;
  or it stops at the first plugin that fails, no later plugin is built, and the error is that
  plugin's configuration error, or its build's own error, wrapped exactly once in a build error that
  names the plugin and left alone when it is one already. Plugins that only add to the context leave what earlier ones registered in place.
\<close>

theorem plugin_chain_spec:
  assumes "with_plugins ps b w = (res, w')"
  shows "(\<exists>b' outs. res = Inr b' \<and> builds_all ps b w outs b' w' \<and> length outs = length ps
        \<and> hl_entries (ab_state b') = rev outs @ hl_entries (ab_state b)
        \<and> (list_all extending_plugin ps \<longrightarrow> ctx_extends (ab_ctx b) (ab_ctx b')))
    \<or> (\<exists>e pre p rest outs b1 w1. res = Inl e \<and> ps = pre @ p # rest
        \<and> builds_all pre b w outs b1 w1 \<and> fails_with p b1 w1 e w')"
  using with_plugins_cases [OF assms]
proof
  assume "\<exists>b' outs. res = Inr b' \<and> builds_all ps b w outs b' w'"
  then obtain b' outs where b': "res = Inr b'" "builds_all ps b w outs b' w'" by blast
  from b' builds_all_state [OF b'(2)] builds_all_extends [OF b'(2)] show ?thesis by blast
qed blast

definition answer_plugin :: "(unit, nat, 'fig, 'r, 'tok, 'w, 'h, 'l) plugin" where
  "answer_plugin = \<lparr>pl_type_name = ''Answer'', pl_read_config = (\<lambda>_. Inr ()),
     pl_build = (\<lambda>_ _ ctx w. (Inr 42, ctx, w))\<rparr>"

theorem plugin_chain_spec_witness:
  "\<exists>b'. fst (with_plugins [answer_plugin, answer_plugin]
           (with_figment True (\<lambda>_. None) () False None () ::
              (nat, unit, nat, unit, unit, unit, nat) app_builder) ()) = Inr b'
     \<and> hl_entries (ab_state b') = [42, 42]"
proof -
  let ?b = "with_figment True (\<lambda>_. None) () False None () ::
              (nat, unit, nat, unit, unit, unit, nat) app_builder"
  obtain b' where run: "with_plugins [answer_plugin, answer_plugin] ?b () = (Inr b', ())"
    and state: "hl_entries (ab_state b') = [42, 42]"
    by (simp add: with_plugin_def answer_plugin_def with_figment_def)
  from plugin_chain_spec [OF run] have "length (hl_entries (ab_state b')) = 2"
    by (auto simp: with_figment_def)
  with run state show ?thesis by simp
qed

text \<open>
  C3: a run without a serve function fails and does nothing. Otherwise it spawns every registered
  task, in order, each with a child of the shutdown token, serves the composed router, cancels the
  token once serving is over whatever its result, and only then awaits each task; its result is
  the serve function's.
\<close>

theorem run_shutdown_order:
  assumes "logs_events T log parent"
    and "\<And>r w. log (snd (serve r w)) = log w @ [Served r]"
    and "bc_tasks (ab_ctx b) = registered (tokio_api.truncate T) specs"
  shows "(bc_serve_fn (ab_ctx b) = None \<longrightarrow> run T A b w = (Inl (error_other no_serve_message), w))
    \<and> (bc_serve_fn (ab_ctx b) = Some serve \<longrightarrow>
        (let router = compose A (bc_router (ab_ctx b)); shutdown = bc_shutdown (ab_ctx b)
         in \<exists>toks hs w1. length toks = length specs \<and> map fst hs = map fst specs
              \<and> list_all (\<lambda>t. parent t = shutdown) toks
              \<and> fst (run T A b w) = fst (serve router w1)
              \<and> log (snd (run T A b w)) = log w @ map (\<lambda>(t, n, h). Spawned n t h) (zip toks hs)
                   @ [Served router, Cancelled shutdown] @ map (Awaited \<circ> snd) hs))"
proof (cases "bc_serve_fn (ab_ctx b) = Some serve")
  case False
  then show ?thesis by (simp add: run_def Let_def)
next
  case True
  let ?c = "ab_ctx b" and ?router = "compose A (bc_router (ab_ctx b))"
  obtain hs w1 where hs: "spawn_all (tokio_api.truncate T) (bc_shutdown ?c) (bc_tasks ?c) w = (hs, w1)"
    by (cases "spawn_all (tokio_api.truncate T) (bc_shutdown ?c) (bc_tasks ?c) w")
  obtain res w2 where res: "serve ?router w1 = (res, w2)" by (cases "serve ?router w1")
  obtain out w3 where out: "join_tasks T hs (cancel T (bc_shutdown ?c) w2) = (out, w3)"
    by (cases "join_tasks T hs (cancel T (bc_shutdown ?c) w2)")
  have run: "run T A b w = (res, w3)"
    using True hs res out by (simp add: run_def Let_def)
  have "log w3 = log (cancel T (bc_shutdown ?c) w2) @ map (Awaited \<circ> snd) hs"
    using join_loop_log [OF assms(1)] out by (metis join_tasks_def snd_conv)
  moreover have "log (cancel T (bc_shutdown ?c) w2) = log w2 @ [Cancelled (bc_shutdown ?c)]"
    using assms(1) by (simp add: logs_events_def)
  moreover have "log w2 = log w1 @ [Served ?router]"
    using assms(2) res by (metis snd_conv)
  moreover obtain toks where "length toks = length specs" "map fst hs = map fst specs"
    "list_all (\<lambda>t. parent t = bc_shutdown ?c) toks"
    "log w1 = log w @ map (\<lambda>(t, n, h). Spawned n t h) (zip toks hs)"
    using spawn_all_log [OF assms(1) hs [unfolded assms(3)]] by blast
  moreover have "fst (run T A b w) = fst (serve ?router w1)" using run res by simp
  ultimately show ?thesis
    using True run by (simp add: Let_def) blast
qed

text \<open>A runtime that only logs, for the witness: every task returns at once.\<close>

definition logging_runtime ::
    "(nat, unit, (string, nat, nat) run_event list, nat) runtime_api" where
  "logging_runtime =
     \<lparr>tokio_spawn = (\<lambda>body w. (length w, w @ [Spawned (tb_name body) (tb_shutdown body) (length w)])),
      child_token = (\<lambda>tok w. (Suc tok, w)),
      cancel = (\<lambda>tok w. w @ [Cancelled tok]),
      clock = (\<lambda>_. 0),
      timeout_at = (\<lambda>d h w. (Returned, w @ [Awaited h]))\<rparr>"

lemma logging_runtime_logs: "logs_events logging_runtime id (\<lambda>t. t - 1)"
  by (simp add: logs_events_def logging_runtime_def)

definition serving_app ::
    "(unit, unit, string, nat, (string, nat, nat) run_event list, nat, unit) app_builder" where
  "serving_app =
     \<lparr>ab_state = HNil,
      ab_ctx = \<lparr>bc_figment = (), bc_mode = Development, bc_router = router_registry_default,
        bc_tasks = registered (tokio_api.truncate logging_runtime) [(''flush'', \<lambda>_. ())],
        bc_shutdown = 0, bc_telemetry = None,
        bc_serve_fn = Some (\<lambda>r w. (Inl (Io ''bind''), w @ [Served r]))\<rparr>\<rparr>"

theorem run_shutdown_order_witness:
  "\<exists>t h. run logging_runtime \<lparr>router_new = ''app'', router_merge = (@), router_nest = (\<lambda>a p r. a @ p @ r),
        router_fallback_service = (@)\<rparr> serving_app []
     = (Inl (Io ''bind''), [Spawned ''flush'' t h, Served ''app'', Cancelled 0, Awaited h])"
proof -
  let ?A = "\<lparr>router_new = ''app'', router_merge = (@), router_nest = (\<lambda>a p r. a @ p @ r),
        router_fallback_service = (@)\<rparr>"
  let ?serve = "\<lambda>r w. (Inl (Io ''bind''), w @ [Served r])
      :: unit result \<times> (string, nat, nat) run_event list"
  have serve: "id (snd (?serve r w)) = id w @ [Served r]" for r w by simp
  have tasks: "bc_tasks (ab_ctx serving_app)
      = registered (tokio_api.truncate logging_runtime) [(''flush'', \<lambda>_. ())]"
    and fn: "bc_serve_fn (ab_ctx serving_app) = Some ?serve"
    and sh: "bc_shutdown (ab_ctx serving_app) = 0"
    and router: "compose ?A (bc_router (ab_ctx serving_app)) = ''app''"
    by (simp_all add: serving_app_def compose_def router_registry_default_def)
  note p = run_shutdown_order [OF logging_runtime_logs serve tasks, of ?A "[]", THEN conjunct2,
      rule_format, OF fn, unfolded Let_def router sh]
  obtain toks :: "nat list" and hs w1 where
    toks: "length toks = length [(''flush'', \<lambda>_ :: nat. ())]"
      "map fst hs = map fst [(''flush'', \<lambda>_ :: nat. ())]"
    and res: "fst (run logging_runtime ?A serving_app []) = fst (?serve ''app'' w1)"
    and log: "id (snd (run logging_runtime ?A serving_app []))
      = id [] @ map (\<lambda>(t, n, h). Spawned n t h) (zip toks hs) @ [Served ''app'', Cancelled 0]
          @ map (Awaited \<circ> snd) hs"
    using p by blast
  from toks obtain t h where "toks = [t]" "hs = [(''flush'', h)]"
    by (cases toks; cases hs) auto
  with res log have "run logging_runtime ?A serving_app []
      = (Inl (Io ''bind''), [Spawned ''flush'' t h, Served ''app'', Cancelled 0, Awaited h])"
    by (simp add: prod_eq_iff)
  then show ?thesis by blast
qed

text \<open>
  C23: shutdown waits at most ten seconds in all for the background tasks, however many there are:
  every task gets a verdict, a task that had already returned or panicked is reported as such even
  after the deadline passed on an earlier one (no panic is lost), and a task is abandoned only if
  it was still running and the ten seconds have run out.
\<close>

theorem join_tasks_bounded:
  assumes "timer_laws T finished" and "join_tasks T tasks w = (out, w')"
  shows "clock T w' \<le> clock T w + 10000
    \<and> (\<exists>rs. length rs = length tasks
         \<and> out = \<lparr>to_failed = names_where is_failed tasks rs,
                   to_abandoned = names_where (\<lambda>r. r = Elapsed) tasks rs\<rparr>
         \<and> (\<forall>i < length tasks.
              (\<forall>q. finished (snd (tasks ! i)) w = Some q \<longrightarrow> rs ! i = q)
              \<and> (if rs ! i = Elapsed then clock T w + 10000 \<le> clock T w'
                 else finished (snd (tasks ! i)) w' = Some (rs ! i))))"
proof -
  let ?d = "clock T w + TASK_SHUTDOWN_GRACE"
  have d: "?d = clock T w + 10000" by (simp add: TASK_SHUTDOWN_GRACE_def)
  obtain rs w2 where rs: "join_results T ?d tasks w = (rs, w2)" by (cases "join_results T ?d tasks w")
  from join_loop_results [OF rs, of "\<lparr>to_failed = [], to_abandoned = []\<rparr>"] assms(2)
  have "w2 = w'" and "out = \<lparr>to_failed = names_where is_failed tasks rs,
      to_abandoned = names_where (\<lambda>r. r = Elapsed) tasks rs\<rparr>"
    by (simp_all add: join_tasks_def Let_def)
  with join_results_laws [OF assms(1) rs] show ?thesis
    by (intro conjI exI [of _ rs]) (auto simp: d)
qed

text \<open>A runtime for the witness: a task ends at a time, with success or a panic.\<close>

definition timed_runtime :: "(unit, unit, nat, nat \<times> bool) runtime_api" where
  "timed_runtime =
     \<lparr>tokio_spawn = (\<lambda>_ w. ((0, True), w)), child_token = (\<lambda>t w. (t, w)), cancel = (\<lambda>_ w. w),
      clock = id,
      timeout_at = (\<lambda>d h w.
        (let r = (if snd h then Returned else JoinFailed ''panic'')
         in if fst h \<le> w then (r, w) else if fst h \<le> d then (r, fst h) else (Elapsed, max d w)))\<rparr>"

definition timed_finished :: "nat \<times> bool \<Rightarrow> nat \<Rightarrow> join_outcome option" where
  "timed_finished h w =
     (if fst h \<le> w then Some (if snd h then Returned else JoinFailed ''panic'') else None)"

lemma timed_runtime_laws: "timer_laws timed_runtime timed_finished"
  by (auto simp: timer_laws_def timed_runtime_def timed_finished_def Let_def)

theorem join_tasks_bounded_witness:
  "\<exists>w'. join_tasks timed_runtime
        [(''hangs'', (99999, True)), (''fails'', (0, False)), (''returns'', (5, True))] 0
      = (\<lparr>to_failed = [''fails''], to_abandoned = [''hangs'']\<rparr>, w') \<and> w' \<le> 10000"
proof -
  have run: "join_tasks timed_runtime
        [(''hangs'', (99999, True)), (''fails'', (0, False)), (''returns'', (5, True))] 0
      = (\<lparr>to_failed = [''fails''], to_abandoned = [''hangs'']\<rparr>, 10000)"
    by (simp add: join_tasks_def timed_runtime_def TASK_SHUTDOWN_GRACE_def Let_def)
  with join_tasks_bounded [OF timed_runtime_laws run] show ?thesis
    by (simp add: timed_runtime_def)
qed

end
