(* ===== verification/Auth_Plugin.thy ===== *)
theory Auth_Plugin
  imports Auth_Flow Auth_Csrf Core_App
begin

text \<open>
  \<open>muxa-auth/src/plugin.rs\<close>: the plugin that wires sessions, login state, the cross-origin guard and
  the sign-in routes into the app, and the background sweep of expired sessions.

  What the plugin takes from the libraries is \<open>auth_env\<close>: the HTTP client, \<open>Provider::from_config\<close>
  applied to its libraries, the axum router of the routes, the two layers, the URL parser and tokio.
\<close>

section \<open>Parts\<close>

record ('b, 'u, 'w, 'store, 'tok, 'fut) auth_parts =
  ap_backend :: 'b
  ap_resolver :: "(json, 'u, 'w) identity_resolver"
  ap_store :: 'store
  ap_sweeper :: "(u64 \<Rightarrow> 'tok \<Rightarrow> 'fut) option"

definition auth_parts_new ::
    "'b \<Rightarrow> (json, 'u, 'w) identity_resolver \<Rightarrow> 'store \<Rightarrow> ('b, 'u, 'w, 'store, 'tok, 'fut) auth_parts" where
  "auth_parts_new backend resolver store =
     \<lparr>ap_backend = backend, ap_resolver = resolver, ap_store = store, ap_sweeper = None\<rparr>"

text \<open>\<open>sweep\<close> is the future of the loop below, over a store.\<close>

definition sweep_expired ::
    "('store \<Rightarrow> u64 \<Rightarrow> 'tok \<Rightarrow> 'fut) \<Rightarrow> ('b, 'u, 'w, 'store, 'tok, 'fut) auth_parts
      \<Rightarrow> ('b, 'u, 'w, 'store, 'tok, 'fut) auth_parts" where
  "sweep_expired sweep parts =
     parts\<lparr>ap_sweeper := Some (\<lambda>interval shutdown. sweep (ap_store parts) interval shutdown)\<rparr>"

text \<open>
  The sweeper's loop. \<open>wait\<close> sleeps for the interval and says whether the sleep ran to its end
  (\<open>False\<close>: the shutdown token was cancelled first); \<open>delete_expired\<close> is the store's. The loop may
  run forever, so its value is an option.
\<close>

partial_function (option) sweep_loop ::
    "('w \<Rightarrow> bool \<times> 'w) \<Rightarrow> ('w \<Rightarrow> (string + unit) \<times> 'w) \<Rightarrow> 'w \<Rightarrow> 'w option" where
  "sweep_loop wait delete_expired w =
     (let (elapsed, w) = wait w
      in if elapsed then sweep_loop wait delete_expired (snd (delete_expired w)) else Some w)"

section \<open>Handle\<close>

datatype auth_handle = AuthHandle "string list"

fun handle_providers :: "auth_handle \<Rightarrow> string list" where
  "handle_providers (AuthHandle ps) = ps"

definition has_provider :: "auth_handle \<Rightarrow> string \<Rightarrow> bool" where
  "has_provider h i = list_ex (\<lambda>p. p = i) (handle_providers h)"

section \<open>Build\<close>

definition provider_redirect :: "provider_config \<Rightarrow> string option" where
  "provider_redirect cfg =
     (case cfg of OAuth2 c \<Rightarrow> oa_redirect_url c | Oidc c \<Rightarrow> oi_redirect_url c)"

definition mount_of :: "string \<Rightarrow> string" where
  "mount_of cfg_mount =
     (let mount = ''/'' @ trim_matches CHR ''/'' cfg_mount
      in if mount = ''/'' then [] else mount)"

text \<open>The body of the loop over the configured providers.\<close>

definition add_provider ::
    "(string \<Rightarrow> provider_config \<Rightarrow> string \<Rightarrow> provider_error + 'p option) \<Rightarrow> string \<Rightarrow> string
      \<Rightarrow> 'p bmap \<Rightarrow> string \<times> provider_config \<Rightarrow> 'p bmap" where
  "add_provider from_config base_url mount providers entry =
     (case entry of (i, cfg) \<Rightarrow>
        if client_id cfg = [] then providers
        else
          (case (case provider_redirect cfg of
                   Some url \<Rightarrow> Some url
                 | None \<Rightarrow> if base_url \<noteq> [] then Some (base_url @ mount @ ''/'' @ i @ ''/callback'')
                           else None) of
             None \<Rightarrow> providers
           | Some redirect \<Rightarrow>
               (case from_config i cfg redirect of
                  Inr (Some p) \<Rightarrow> bt_insert i p providers
                | Inr None \<Rightarrow> providers
                | Inl err \<Rightarrow> providers)))"

definition build_providers ::
    "(string \<Rightarrow> provider_config \<Rightarrow> string \<Rightarrow> provider_error + 'p option) \<Rightarrow> auth_config \<Rightarrow> 'p bmap" where
  "build_providers from_config cfg =
     foldl (add_provider from_config (trim_end_matches CHR ''/'' (ac_base_url cfg)) (mount_of (ac_mount cfg)))
       [] (ac_providers cfg)"

record 'store session_layer =
  sl_store :: 'store
  sl_name :: string
  sl_path :: string
  sl_http_only :: bool
  sl_secure :: bool
  sl_same_site :: same_site
  sl_expiry_on_inactivity :: i64

record ('p, 'u, 'w, 'r, 'b, 'store, 'uu, 'o, 'tok, 'fut, 'h, 'v) auth_env =
  ae_http_client :: "string + unit"
  ae_from_config :: "string \<Rightarrow> provider_config \<Rightarrow> string \<Rightarrow> provider_error + 'p option"
  ae_router :: "('p, 'u, 'w) flow \<Rightarrow> (string \<times> string) list \<Rightarrow> 'r"
  ae_auth_layer :: "'b \<Rightarrow> 'store session_layer \<Rightarrow> 'r \<Rightarrow> 'r"
  ae_csrf_layer :: "trusted_origins \<Rightarrow> 'r \<Rightarrow> 'r"
  ae_url :: "('uu, 'o) url_api"
  ae_tokio :: "('tok, 'fut, 'w, 'h) tokio_api"
  ae_parts :: "'v hlist \<Rightarrow> ('b, 'u, 'w, 'store, 'tok, 'fut) auth_parts"

definition auth_type_name :: string where
  "auth_type_name = ''muxa_auth::plugin::AuthPlugin''"

definition sweep_interval :: "auth_config \<Rightarrow> u64" where
  "sweep_interval cfg = max (ac_cleanup_interval_secs cfg) 60"

definition session_layer_of :: "auth_config \<Rightarrow> 'store \<Rightarrow> 'store session_layer" where
  "session_layer_of cfg store =
     \<lparr>sl_store = store, sl_name = ck_name (ac_cookie cfg), sl_path = ''/'', sl_http_only = True,
      sl_secure = ck_secure (ac_cookie cfg), sl_same_site = ck_same_site (ac_cookie cfg),
      sl_expiry_on_inactivity = ck_ttl_secs (ac_cookie cfg)\<rparr>"

definition auth_flow_of ::
    "('p, 'u, 'w, 'r, 'b, 'store, 'uu, 'o, 'tok, 'fut, 'h, 'v) auth_env
      \<Rightarrow> (json, 'u, 'w) identity_resolver \<Rightarrow> auth_config \<Rightarrow> ('p, 'u, 'w) flow" where
  "auth_flow_of E resolver cfg =
     \<lparr>fl_providers = build_providers (ae_from_config E) cfg, fl_resolver = resolver,
      fl_sign_in_path = ac_sign_in_path cfg, fl_default_next = ac_default_next cfg,
      fl_error_param = ac_error_param cfg\<rparr>"

definition auth_build ::
    "('p, 'u, 'w, 'r, 'b, 'store, 'uu, 'o, 'tok, 'fut, 'h, 'v) auth_env \<Rightarrow> auth_config \<Rightarrow> 'v hlist
      \<Rightarrow> ('fig, 'r, 'tok, 'w, 'h, 'l) build_ctx \<Rightarrow> 'w
      \<Rightarrow> auth_handle result \<times> ('fig, 'r, 'tok, 'w, 'h, 'l) build_ctx \<times> 'w" where
  "auth_build E cfg state ctx w =
     (let parts = ae_parts E state
      in case ae_http_client E of
           Inl err \<Rightarrow> (Inl (error_plugin_build auth_type_name (Foreign err)), ctx, w)
         | Inr _ \<Rightarrow>
             (let mount = mount_of (ac_mount cfg);
                  base_url = trim_end_matches CHR ''/'' (ac_base_url cfg);
                  providers = build_providers (ae_from_config E) cfg;
                  handle = AuthHandle (map fst providers);
                  fl = auth_flow_of E (ap_resolver parts) cfg;
                  ctx = ctx\<lparr>bc_router := mount_auto ''/'' (ae_router E fl (route_paths mount)) (bc_router ctx)\<rparr>;
                  auth_layer = ae_auth_layer E (ap_backend parts) (session_layer_of cfg (ap_store parts));
                  ctx = ctx\<lparr>bc_router := layer auth_layer (bc_router ctx)\<rparr>;
                  trusted = trusted_origins_new (ae_url E) (base_url # ac_trusted_origins cfg);
                  ctx = ctx\<lparr>bc_router := layer (ae_csrf_layer E trusted) (bc_router ctx)\<rparr>;
                  ctx = (case ap_sweeper parts of
                           None \<Rightarrow> ctx
                         | Some sweeper \<Rightarrow>
                             ctx\<lparr>bc_tasks := spawn (ae_tokio E) ''muxa-auth.sweep''
                                 (\<lambda>shutdown. sweeper (sweep_interval cfg) shutdown) (bc_tasks ctx)\<rparr>)
              in (Inr handle, ctx, w)))"

interpretation auth_extends: ctx_extender "\<lambda>(E, cfg, st, w) ctx. auth_build E cfg st ctx w"
  by unfold_locales
    (auto simp: auth_build_def Let_def ctx_extends_def mount_auto_def layer_def spawn_def
      split: sum.splits option.splits)

section \<open>Lemmas\<close>

text \<open>The redirect URL of a provider, when it has one.\<close>

definition redirect_for :: "auth_config \<Rightarrow> string \<Rightarrow> provider_config \<Rightarrow> string option" where
  "redirect_for cfg i pc =
     (case provider_redirect pc of
        Some url \<Rightarrow> Some url
      | None \<Rightarrow>
          (let base = trim_end_matches CHR ''/'' (ac_base_url cfg)
           in if base \<noteq> [] then Some (base @ mount_of (ac_mount cfg) @ ''/'' @ i @ ''/callback'') else None))"

text \<open>The provider an entry of the configuration gives, if it is on.\<close>

definition enabled_provider ::
    "(string \<Rightarrow> provider_config \<Rightarrow> string \<Rightarrow> provider_error + 'p option) \<Rightarrow> auth_config
      \<Rightarrow> string \<Rightarrow> provider_config \<Rightarrow> 'p option" where
  "enabled_provider from_config cfg i pc =
     (if client_id pc = [] then None
      else Option.bind (redirect_for cfg i pc) (\<lambda>r. Option.bind (ok_of (from_config i pc r)) id))"

lemma add_provider_eq:
  "add_provider fc (trim_end_matches CHR ''/'' (ac_base_url cfg)) (mount_of (ac_mount cfg)) m (i, pc) =
     (case enabled_provider fc cfg i pc of Some p \<Rightarrow> bt_insert i p m | None \<Rightarrow> m)"
  by (auto simp: add_provider_def enabled_provider_def redirect_for_def Let_def
      split: option.splits sum.splits)

lemma build_providers_wf:
  fixes cfg :: auth_config
  shows "bt_wf m \<Longrightarrow>
     bt_wf (foldl (add_provider fc (trim_end_matches CHR ''/'' (ac_base_url cfg)) (mount_of (ac_mount cfg))) m es)"
proof (induction es arbitrary: m)
  case Nil
  then show ?case by simp
next
  case (Cons e es)
  obtain i pc where e: "e = (i, pc)" by (cases e)
  from Cons.prems have "bt_wf (add_provider fc (trim_end_matches CHR ''/'' (ac_base_url cfg))
      (mount_of (ac_mount cfg)) m e)"
    unfolding e add_provider_eq by (cases "enabled_provider fc cfg i pc") (auto simp: bt_wf_insert)
  from Cons.IH [OF this] show ?case by simp
qed

lemma build_providers_get:
  assumes "distinct (map fst es)"
  shows "bt_get i (foldl (add_provider fc (trim_end_matches CHR ''/'' (ac_base_url cfg)) (mount_of (ac_mount cfg))) m es)
    = (case map_of es i of
         Some pc \<Rightarrow> (case enabled_provider fc cfg i pc of Some p \<Rightarrow> Some p | None \<Rightarrow> bt_get i m)
       | None \<Rightarrow> bt_get i m)"
  using assms
proof (induction es arbitrary: m)
  case Nil
  then show ?case by simp
next
  case (Cons e es)
  obtain j pc where e: "e = (j, pc)" by (cases e)
  from Cons.prems have "map_of es j = None" by (simp add: e map_of_eq_None_iff)
  with Cons e show ?case
    by (auto simp: add_provider_eq split: option.splits)
qed

section \<open>Properties\<close>

lemma auth_build_ok:
  assumes "ae_http_client E = Inr u"
  shows "\<exists>ctx'. auth_build E cfg st ctx w
    = (Inr (AuthHandle (map fst (build_providers (ae_from_config E) cfg))), ctx', w)"
  using assms by (simp add: auth_build_def Let_def)

lemma from_config_id:
  "provider_from_config A D feat i pc r = Inr (Some p) \<Longrightarrow> provider_id p = i"
  by (auto simp: provider_from_config_def oauth2_provider_new_def oidc_provider_new_def
      provider_id_def Let_def split: sum.splits if_splits provider_config.splits)

text \<open>
  C27: a bad provider setting never stops the app: the build fails only when the HTTP client cannot
  be set up. The providers that are on are exactly the configured ones with a client id, a redirect
  URL (their own, or one under the base URL and the mount) and settings their library accepts, each
  decided on its own; the handle lists their ids in order, without repetition; and each is kept
  under the id it was configured with.
\<close>

theorem auth_plugin_providers:
  assumes "bt_wf (ac_providers cfg)" and "ae_from_config E = provider_from_config A D feat"
    and "auth_build E cfg st ctx w = (res, ctx', w')"
  shows "(\<exists>e. res = Inl e) = is_err (ae_http_client E)
    \<and> (\<forall>h. res = Inr h \<longrightarrow>
          sorted_wrt (<) (handle_providers h)
          \<and> (\<forall>i. has_provider h i \<longleftrightarrow>
                (\<exists>pc p. bt_get i (ac_providers cfg) = Some pc \<and> client_id pc \<noteq> []
                   \<and> (\<exists>redirect. redirect_for cfg i pc = Some redirect
                        \<and> provider_from_config A D feat i pc redirect = Inr (Some p)))))
    \<and> sign_in_provider.ids_match provider_id (build_providers (ae_from_config E) cfg)"
proof -
  let ?F = "provider_from_config A D feat"
  let ?m = "build_providers ?F cfg"
  have wf: "bt_wf ?m" unfolding build_providers_def by (rule build_providers_wf) simp
  have get: "bt_get i ?m = Option.bind (bt_get i (ac_providers cfg)) (enabled_provider ?F cfg i)" for i
    using build_providers_get [OF bt_wf_distinct [OF assms(1)], of i ?F cfg "[]"]
    by (auto simp: build_providers_def bt_get_def split: option.splits)
  have on: "(\<exists>p. bt_get i ?m = Some p) \<longleftrightarrow> (\<exists>pc p. bt_get i (ac_providers cfg) = Some pc \<and> client_id pc \<noteq> []
      \<and> (\<exists>redirect. redirect_for cfg i pc = Some redirect
           \<and> provider_from_config A D feat i pc redirect = Inr (Some p)))" for i
    by (auto simp: get enabled_provider_def bind_eq_Some_conv split: if_splits)
  have mem: "i \<in> set (map fst ?m) \<longleftrightarrow> (\<exists>p. bt_get i ?m = Some p)" for i
    by (auto simp: bt_get_def map_of_eq_None_iff [symmetric] simp flip: not_None_eq
        intro: weak_map_of_SomeI) (metis fst_conv image_eqI map_of_SomeD)
  have ids: "sign_in_provider.ids_match provider_id ?m"
    by (auto simp: configured.ids_match_def get enabled_provider_def bind_eq_Some_conv
        split: if_splits dest: from_config_id)
  show ?thesis
  proof (cases "ae_http_client E")
    case (Inl e)
    with assms(3) ids show ?thesis by (auto simp: auth_build_def Let_def assms(2))
  next
    case (Inr u)
    with assms(3) auth_build_ok [OF Inr, of cfg st ctx w] have res: "res = Inr (AuthHandle (map fst ?m))"
      by (auto simp: assms(2))
    have "sorted_wrt (<) (map fst ?m)" using wf by (simp add: bt_wf_def)
    moreover have "has_provider (AuthHandle (map fst ?m)) i \<longleftrightarrow> i \<in> set (map fst ?m)" for i
      by (auto simp: has_provider_def list_ex_iff)
    ultimately show ?thesis using res Inr ids on mem by (simp add: assms(2))
  qed
qed

definition demo_config :: auth_config where
  "demo_config = auth_config_default\<lparr>ac_base_url := ''https://x/'',
     ac_providers := [(''a'', OAuth2 oauth2_provider_config_default),
       (''b'', OAuth2 (oauth2_provider_config_default\<lparr>oa_client_id := ''id''\<rparr>))]\<rparr>"

definition demo_env ::
    "((string, nat) provider, string, nat, string, unit, unit, unit, unit, unit, unit, unit, unit) auth_env" where
  "demo_env =
     \<lparr>ae_http_client = Inr (), ae_from_config = provider_from_config echo_oauth2 tick_oidc True,
      ae_router = (\<lambda>fl paths. ''auth''), ae_auth_layer = (\<lambda>b l r. r), ae_csrf_layer = (\<lambda>t r. r),
      ae_url = \<lparr>url_parse = (\<lambda>_. None), url_origin = id, origin_is_tuple = (\<lambda>_. False),
        ascii_serialization = (\<lambda>_. []), host_str = (\<lambda>_. None), url_port = (\<lambda>_. None)\<rparr>,
      ae_tokio = \<lparr>tokio_spawn = (\<lambda>_ w. ((), w)), child_token = (\<lambda>t w. (t, w)), cancel = (\<lambda>_ w. w)\<rparr>,
      ae_parts = (\<lambda>_. auth_parts_new () (\<lambda>i c w. (Inl (refusal_new ''no''), w)) ())\<rparr>"

definition empty_ctx :: "(unit, string, unit, nat, unit, unit) build_ctx" where
  "empty_ctx = fst (build_ctx_new True (\<lambda>_. None) () False None ())"

theorem auth_plugin_providers_witness:
  "\<exists>h ctx' w'. auth_build demo_env demo_config HNil empty_ctx 0 = (Inr h, ctx', w')
     \<and> \<not> has_provider h ''a'' \<and> has_provider h ''b''"
proof -
  have wf: "bt_wf (ac_providers demo_config)"
    and get: "bt_get ''a'' (ac_providers demo_config) = Some (OAuth2 oauth2_provider_config_default)"
      "bt_get ''b'' (ac_providers demo_config)
         = Some (OAuth2 (oauth2_provider_config_default\<lparr>oa_client_id := ''id''\<rparr>))"
    by (simp_all add: demo_config_def bt_wf_def bt_get_def less_char_def)
  have fc: "ae_from_config demo_env = provider_from_config echo_oauth2 tick_oidc True"
    and http: "ae_http_client demo_env = Inr ()"
    by (simp_all add: demo_env_def)
  obtain h ctx' where b: "auth_build demo_env demo_config HNil empty_ctx 0 = (Inr h, ctx', 0)"
    using auth_build_ok [OF http] by blast
  have "redirect_for demo_config ''b'' (OAuth2 (oauth2_provider_config_default\<lparr>oa_client_id := ''id''\<rparr>))
      = Some ''https://x/auth/b/callback''"
    by code_simp
  moreover have "\<exists>p. provider_from_config echo_oauth2 tick_oidc True ''b''
      (OAuth2 (oauth2_provider_config_default\<lparr>oa_client_id := ''id''\<rparr>)) r = Inr (Some p)" for r
    by (simp add: provider_from_config_def oauth2_provider_new_def echo_oauth2_def client_id_def Let_def)
  ultimately have "has_provider h ''b''"
    using auth_plugin_providers [OF wf fc b] get by (auto simp: client_id_def)
  moreover have "\<not> has_provider h ''a''"
    using auth_plugin_providers [OF wf fc b] get
    by (auto simp: client_id_def oauth2_provider_config_default_def)
  ultimately show ?thesis using b by blast
qed

text \<open>
  The plugin mounts its routes once at the root and wraps every route of the app, those of
  earlier plugins included, first in the login layer and then, outermost, in the cross-origin guard
  that trusts the base URL and the configured origins. What other plugins registered stays: serve
  function, fallback, mounts and tasks; a sweep of expired sessions is scheduled exactly when the
  parts ask for one, with an interval of at least a minute.
\<close>

theorem auth_plugin_wiring:
  assumes "auth_build E cfg st ctx w = (Inr h, ctx', w')" and "rr_fallback (bc_router ctx) = None"
  shows "mounts (bc_router ctx') = mounts (bc_router ctx) @ [(''/'', Auto)]
    \<and> compose A (bc_router ctx')
        = ae_csrf_layer E (trusted_origins_new (ae_url E)
              (trim_end_matches CHR ''/'' (ac_base_url cfg) # ac_trusted_origins cfg))
            (ae_auth_layer E (ap_backend (ae_parts E st)) (session_layer_of cfg (ap_store (ae_parts E st)))
              (compose A (mount_auto ''/''
                 (ae_router E (auth_flow_of E (ap_resolver (ae_parts E st)) cfg)
                    (route_paths (mount_of (ac_mount cfg)))) (bc_router ctx))))
    \<and> bc_serve_fn ctx' = bc_serve_fn ctx \<and> rr_fallback (bc_router ctx') = None
    \<and> task_names (bc_tasks ctx') = task_names (bc_tasks ctx)
         @ (if ap_sweeper (ae_parts E st) = None then [] else [''muxa-auth.sweep''])
    \<and> 60 \<le> unat (sweep_interval cfg)"
proof -
  let ?c = "fst (snd (auth_build E cfg st ctx w))"
  obtain u where http: "ae_http_client E = Inr u"
    using assms(1) by (cases "ae_http_client E") (auto simp: auth_build_def Let_def)
  have c: "ctx' = ?c" using assms(1) by simp
  have "60 \<le> unat (sweep_interval cfg)"
  proof -
    have "(60 :: u64) \<le> sweep_interval cfg" by (simp add: sweep_interval_def)
    then show ?thesis by (simp add: word_le_nat_alt)
  qed
  moreover have "mounts (bc_router ctx') = mounts (bc_router ctx) @ [(''/'', Auto)]"
    "bc_serve_fn ctx' = bc_serve_fn ctx" "rr_fallback (bc_router ctx') = None"
    "task_names (bc_tasks ctx') = task_names (bc_tasks ctx)
       @ (if ap_sweeper (ae_parts E st) = None then [] else [''muxa-auth.sweep''])"
    using http assms(2) by (simp_all add: c auth_build_def Let_def mounts_def mount_auto_def layer_def
        task_names_def spawn_def split: option.splits)
  moreover have "compose A (bc_router ctx')
        = ae_csrf_layer E (trusted_origins_new (ae_url E)
              (trim_end_matches CHR ''/'' (ac_base_url cfg) # ac_trusted_origins cfg))
            (ae_auth_layer E (ap_backend (ae_parts E st)) (session_layer_of cfg (ap_store (ae_parts E st)))
              (compose A (mount_auto ''/''
                 (ae_router E (auth_flow_of E (ap_resolver (ae_parts E st)) cfg)
                    (route_paths (mount_of (ac_mount cfg)))) (bc_router ctx))))"
    using http assms(2) by (simp add: c auth_build_def Let_def compose_def mount_auto_def layer_def
        split: option.splits)
  ultimately show ?thesis by blast
qed

theorem auth_plugin_wiring_witness:
  "\<exists>h ctx'. auth_build demo_env demo_config HNil empty_ctx 0 = (Inr h, ctx', 0)
     \<and> mounts (bc_router ctx') = [(''/'', Auto)]"
proof -
  have http: "ae_http_client demo_env = Inr ()" by (simp add: demo_env_def)
  obtain h ctx' where b: "auth_build demo_env demo_config HNil empty_ctx 0 = (Inr h, ctx', 0)"
    using auth_build_ok [OF http] by blast
  have "rr_fallback (bc_router empty_ctx) = None" "mounts (bc_router empty_ctx) = []"
    by (simp_all add: empty_ctx_def build_ctx_new_def telemetry_install_def router_registry_default_def
        mounts_def Let_def)
  with auth_plugin_wiring [OF b] b show ?thesis by auto
qed

section \<open>The sweep\<close>

definition sweep_step :: "('w \<Rightarrow> bool \<times> 'w) \<Rightarrow> ('w \<Rightarrow> (string + unit) \<times> 'w) \<Rightarrow> 'w \<Rightarrow> 'w" where
  "sweep_step wait delete_expired w = snd (delete_expired (snd (wait w)))"

lemma sweep_loop_cancelled:
  "\<not> fst (wait ((sweep_step wait del ^^ n) w)) \<Longrightarrow>
     (\<And>k. k < n \<Longrightarrow> fst (wait ((sweep_step wait del ^^ k) w))) \<Longrightarrow>
     sweep_loop wait del w = Some (snd (wait ((sweep_step wait del ^^ n) w)))"
proof (induction n arbitrary: w)
  case 0
  then show ?case by (subst sweep_loop.simps) (simp add: case_prod_beta)
next
  case (Suc n)
  have first: "fst (wait w)" using Suc.prems(2) [of 0] by simp
  have "sweep_loop wait del (sweep_step wait del w)
      = Some (snd (wait ((sweep_step wait del ^^ n) (sweep_step wait del w))))"
  proof (rule Suc.IH)
    show "\<not> fst (wait ((sweep_step wait del ^^ n) (sweep_step wait del w)))"
      using Suc.prems(1) by (simp add: funpow_swap1)
    show "fst (wait ((sweep_step wait del ^^ k) (sweep_step wait del w)))" if "k < n" for k
      using Suc.prems(2) [of "Suc k"] that by (simp add: funpow_swap1)
  qed
  then show ?case
    using first by (subst sweep_loop.simps)
      (simp add: case_prod_beta sweep_step_def [symmetric] funpow_swap1)
qed


lemma sweep_loop_returns:
  assumes "sweep_loop wait del w = Some w'"
  shows "\<exists>n. \<not> fst (wait ((sweep_step wait del ^^ n) w))"
proof (rule sweep_loop.raw_induct [where P =
      "\<lambda>wait del w w'. \<exists>n. \<not> fst (wait ((sweep_step wait del ^^ n) w))", OF _ assms])
  fix sweep :: "('a \<Rightarrow> bool \<times> 'a) \<Rightarrow> ('a \<Rightarrow> (string + unit) \<times> 'a) \<Rightarrow> 'a \<Rightarrow> 'a option"
    and wait :: "'a \<Rightarrow> bool \<times> 'a" and del w w'
  assume ih: "\<And>wait del w w'. sweep wait del w = Some w' \<Longrightarrow>
      \<exists>n. \<not> fst (wait ((sweep_step wait del ^^ n) w))"
    and eq: "(let (elapsed, w) = wait w
        in if elapsed then sweep wait del (snd (del w)) else Some w) = Some w'"
  show "\<exists>n. \<not> fst (wait ((sweep_step wait del ^^ n) w))"
  proof (cases "fst (wait w)")
    case False
    then show ?thesis by (intro exI [of _ 0]) simp
  next
    case True
    with eq have "sweep wait del (sweep_step wait del w) = Some w'"
      by (simp add: case_prod_beta sweep_step_def)
    from ih [OF this] obtain n where "\<not> fst (wait ((sweep_step wait del ^^ n) (sweep_step wait del w)))"
      by blast
    then show ?thesis by (intro exI [of _ "Suc n"]) (simp add: funpow_swap1)
  qed
qed

text \<open>
  C33: the sweeper deletes after every full interval and goes on whatever a delete answers, so a
  store that fails once is swept again; it ends exactly when the shutdown token is cancelled during
  a wait, in the state of that wait, with one delete for every wait before it.
\<close>

theorem sweep_until_cancelled:
  "(\<exists>w'. sweep_loop wait del w = Some w') = (\<exists>n. \<not> fst (wait ((sweep_step wait del ^^ n) w)))
   \<and> (\<forall>n. \<not> fst (wait ((sweep_step wait del ^^ n) w))
        \<and> (\<forall>k. k < n \<longrightarrow> fst (wait ((sweep_step wait del ^^ k) w)))
        \<longrightarrow> sweep_loop wait del w = Some (snd (wait ((sweep_step wait del ^^ n) w))))"
proof -
  have "\<exists>w'. sweep_loop wait del w = Some w'" if "\<not> fst (wait ((sweep_step wait del ^^ n) w))" for n
  proof -
    let ?P = "\<lambda>n. \<not> fst (wait ((sweep_step wait del ^^ n) w))"
    have "?P (LEAST n. ?P n)" using that by (rule LeastI)
    moreover have "\<not> ?P k" if "k < (LEAST n. ?P n)" for k using that by (rule not_less_Least)
    ultimately show ?thesis using sweep_loop_cancelled [where wait = wait and del = del and n = "LEAST n. ?P n" and w = w] by blast
  qed
  then have "(\<exists>w'. sweep_loop wait del w = Some w') = (\<exists>n. \<not> fst (wait ((sweep_step wait del ^^ n) w)))"
    using sweep_loop_returns by (intro iffI; elim exE; fast)
  moreover have "\<not> fst (wait ((sweep_step wait del ^^ n) w))
      \<and> (\<forall>k. k < n \<longrightarrow> fst (wait ((sweep_step wait del ^^ k) w)))
      \<longrightarrow> sweep_loop wait del w = Some (snd (wait ((sweep_step wait del ^^ n) w)))" for n
    using sweep_loop_cancelled [where wait = wait and del = del and n = n and w = w] by simp
  ultimately show ?thesis by blast
qed

theorem sweep_until_cancelled_witness:
  "sweep_loop (\<lambda>w. (w < (6 :: nat), w)) (\<lambda>w. (Inl ''down'', Suc (Suc w))) 0 = Some 6"
proof -
  let ?s = "sweep_step (\<lambda>w. (w < (6 :: nat), w)) (\<lambda>w. (Inl ''down'', Suc (Suc w)))"
  have s: "(?s ^^ n) 0 = 2 * n" for n
    by (induction n) (simp_all add: sweep_step_def)
  show ?thesis
    using sweep_until_cancelled [of "\<lambda>w. (w < (6 :: nat), w)" "\<lambda>w. (Inl ''down'', Suc (Suc w))" 0,
        THEN conjunct2, rule_format, of 3]
    by (simp add: s)
qed

end
