(* ===== verification/Auth_Oidc_Cache.thy ===== *)
theory Auth_Oidc_Cache
  imports Auth_Provider
begin

text \<open>
  The client cache of an OpenID Connect provider (\<open>OidcProvider::client\<close> in \<open>muxa-auth/src/provider.rs\<close>)
  under concurrent requests.

  \<open>oidc_client\<close> of \<open>Auth_Provider\<close> is one call on its own. Several requests share the \<open>RwLock\<close>: each holds
  it only while it reads (with the check of the age) or writes, and never over the discovery, so other
  requests run between a request's look at the cache, the end of its discovery and its write. The instant
  stored with a client is taken when its discovery ends, before the write lock is awaited.
\<close>

section \<open>Requests in flight\<close>

text \<open>Where a call is; \<open>started\<close> is the instant of the call.\<close>

datatype 'ocl client_call =
    Asked (cc_force: bool) (cc_started: nat)
  | Discovering (cc_force: bool) (cc_started: nat)
  | Storing (cc_force: bool) (cc_started: nat) 'ocl nat

text \<open>An answer, with the instants of its call and of its return.\<close>

record 'ocl client_answer =
  an_force :: bool
  an_started :: nat
  an_client :: 'ocl
  an_time :: nat

text \<open>
  The provider, the world, the calls in flight, and two histories: the answers given, and the clients built
  with the instants at which their discoveries ended.
\<close>

record ('ocl, 'w) cache_run =
  cr_provider :: "'ocl oidc_provider"
  cr_world :: 'w
  cr_calls :: "nat \<Rightarrow> 'ocl client_call option"
  cr_answers :: "'ocl client_answer list"
  cr_found :: "('ocl \<times> nat) list"

definition built_client ::
    "('meta, 'ocl, 'idt, 'clm, 'otok, 'alg, 'key, 'url, 'w) oidc_api \<Rightarrow> 'ocl oidc_provider \<Rightarrow> 'meta \<Rightarrow> 'ocl" where
  "built_client A p metadata =
     client_from_metadata A metadata (dp_client_id p)
       (if dp_client_secret p \<noteq> [] then Some (dp_client_secret p) else None) (dp_redirect p)"

definition give_answer :: "('ocl, 'w) cache_run \<Rightarrow> nat \<Rightarrow> bool \<Rightarrow> nat \<Rightarrow> 'ocl \<Rightarrow> nat \<Rightarrow> ('ocl, 'w) cache_run" where
  "give_answer c i force started cl now =
     c\<lparr>cr_calls := (cr_calls c)(i := None),
       cr_answers := cr_answers c
         @ [\<lparr>an_force = force, an_started = started, an_client = cl, an_time = now\<rparr>]\<rparr>"

text \<open>
  One step of call \<open>i\<close>: the call, a hit, a miss, a discovery that fails or succeeds, the write; a call may be
  dropped at any await, and time passes.
\<close>

inductive cache_step ::
    "('meta, 'ocl, 'idt, 'clm, 'otok, 'alg, 'key, 'url, 'w) oidc_api \<Rightarrow> nat
      \<Rightarrow> ('ocl, 'w) cache_run \<Rightarrow> ('ocl, 'w) cache_run \<Rightarrow> bool" for A i where
  ask: "cr_calls c i = None \<Longrightarrow>
    cache_step A i c (c\<lparr>cr_calls := (cr_calls c)(i \<mapsto> Asked force (instant_now A (cr_world c)))\<rparr>)"
| hit: "cr_calls c i = Some (Asked force started) \<Longrightarrow>
    cached_client A (cr_provider c) force (cr_world c) = Some cl \<Longrightarrow>
    cache_step A i c (give_answer c i force started cl (instant_now A (cr_world c)))"
| miss: "cr_calls c i = Some (Asked force started) \<Longrightarrow>
    cached_client A (cr_provider c) force (cr_world c) = None \<Longrightarrow>
    cache_step A i c (c\<lparr>cr_calls := (cr_calls c)(i \<mapsto> Discovering force started)\<rparr>)"
| discovery_fails: "cr_calls c i = Some (Discovering force started) \<Longrightarrow>
    discover A (dp_issuer (cr_provider c)) (cr_world c) = (Inl e, w) \<Longrightarrow>
    cache_step A i c (c\<lparr>cr_calls := (cr_calls c)(i := None), cr_world := w\<rparr>)"
| discovered: "cr_calls c i = Some (Discovering force started) \<Longrightarrow>
    discover A (dp_issuer (cr_provider c)) (cr_world c) = (Inr metadata, w) \<Longrightarrow>
    cl = built_client A (cr_provider c) metadata \<Longrightarrow>
    cache_step A i c (c\<lparr>cr_world := w, cr_found := cr_found c @ [(cl, instant_now A w)],
      cr_calls := (cr_calls c)(i \<mapsto> Storing force started cl (instant_now A w))\<rparr>)"
| store: "cr_calls c i = Some (Storing force started cl at) \<Longrightarrow>
    cache_step A i c (give_answer (c\<lparr>cr_provider := (cr_provider c)\<lparr>dp_client := Some (cl, at)\<rparr>\<rparr>)
      i force started cl (instant_now A (cr_world c)))"
| dropped: "cr_calls c i = Some call \<Longrightarrow> cache_step A i c (c\<lparr>cr_calls := (cr_calls c)(i := None)\<rparr>)"
| later: "instant_now A (cr_world c) \<le> instant_now A w \<Longrightarrow> cache_step A i c (c\<lparr>cr_world := w\<rparr>)"

inductive_cases cache_stepE: "cache_step A i c c'"

definition cache_initial :: "'ocl oidc_provider \<Rightarrow> 'w \<Rightarrow> ('ocl, 'w) cache_run" where
  "cache_initial p w =
     \<lparr>cr_provider = p, cr_world = w, cr_calls = (\<lambda>_. None), cr_answers = [], cr_found = []\<rparr>"

inductive cache_reachable ::
    "('meta, 'ocl, 'idt, 'clm, 'otok, 'alg, 'key, 'url, 'w) oidc_api \<Rightarrow> 'ocl oidc_provider \<Rightarrow> 'w
      \<Rightarrow> ('ocl, 'w) cache_run \<Rightarrow> bool" for A p w where
  cache_start: "cache_reachable A p w (cache_initial p w)"
| cache_next: "cache_reachable A p w c \<Longrightarrow> cache_step A i c c' \<Longrightarrow> cache_reachable A p w c'"

section \<open>The invariant\<close>

text \<open>The clock does not run backwards over a discovery.\<close>

definition clock_law :: "('meta, 'ocl, 'idt, 'clm, 'otok, 'alg, 'key, 'url, 'w) oidc_api \<Rightarrow> bool" where
  "clock_law A \<longleftrightarrow> (\<forall>issuer w. instant_now A w \<le> instant_now A (snd (discover A issuer w)))"

text \<open>
  An answer is a client whose discovery ended at \<open>at\<close>: one that the cache held for less than the lifetime, or
  one discovered for this very call, after it began; a forced call is always of the second kind.
\<close>

definition answer_ok :: "nat \<Rightarrow> ('ocl \<times> nat) list \<Rightarrow> 'ocl client_answer \<Rightarrow> bool" where
  "answer_ok ttl found a \<longleftrightarrow>
     (\<exists>at. (an_client a, at) \<in> set found \<and> at \<le> an_time a
        \<and> (an_started a \<le> at \<or> \<not> an_force a \<and> an_time a - at < ttl))"

definition call_ok :: "nat \<Rightarrow> ('ocl \<times> nat) list \<Rightarrow> 'ocl client_call \<Rightarrow> bool" where
  "call_ok now found call \<longleftrightarrow> cc_started call \<le> now
     \<and> (case call of Storing _ started cl at \<Rightarrow> (cl, at) \<in> set found \<and> started \<le> at | _ \<Rightarrow> True)"

definition cache_inv ::
    "('meta, 'ocl, 'idt, 'clm, 'otok, 'alg, 'key, 'url, 'w) oidc_api \<Rightarrow> 'ocl oidc_provider
      \<Rightarrow> ('ocl, 'w) cache_run \<Rightarrow> bool" where
  "cache_inv A p c \<longleftrightarrow>
     (\<exists>x. cr_provider c = p\<lparr>dp_client := x\<rparr>)
     \<and> (\<forall>(cl, at) \<in> set (cr_found c). at \<le> instant_now A (cr_world c)
          \<and> (\<exists>metadata. cl = built_client A p metadata))
     \<and> (\<forall>cl at. dp_client (cr_provider c) = Some (cl, at) \<longrightarrow> (cl, at) \<in> set (cr_found c))
     \<and> (\<forall>i call. cr_calls c i = Some call \<longrightarrow> call_ok (instant_now A (cr_world c)) (cr_found c) call)
     \<and> (\<forall>a \<in> set (cr_answers c). answer_ok (dp_ttl p) (cr_found c) a)"

lemma built_client_same [simp]: "built_client A (p\<lparr>dp_client := x\<rparr>) metadata = built_client A p metadata"
  by (simp add: built_client_def)

lemma answer_ok_mono: "answer_ok ttl found a \<Longrightarrow> set found \<subseteq> set found' \<Longrightarrow> answer_ok ttl found' a"
  by (auto simp: answer_ok_def)

lemma call_ok_mono:
  "call_ok now found call \<Longrightarrow> now \<le> now' \<Longrightarrow> set found \<subseteq> set found' \<Longrightarrow> call_ok now' found' call"
  by (auto simp: call_ok_def split: client_call.splits)

lemma call_ok_later: "call_ok now found call \<Longrightarrow> now \<le> now' \<Longrightarrow> call_ok now' found call"
  by (rule call_ok_mono [OF _ _ order_refl])

lemma call_ok_found: "call_ok now found call \<Longrightarrow> now \<le> now' \<Longrightarrow> call_ok now' (found @ new) call"
  by (erule call_ok_mono) simp_all

lemma answer_ok_found: "answer_ok ttl found a \<Longrightarrow> answer_ok ttl (found @ new) a"
  by (erule answer_ok_mono) simp

lemma cached_client_Some:
  "cached_client A p force w = Some cl \<longleftrightarrow>
     \<not> force \<and> (\<exists>at. dp_client p = Some (cl, at) \<and> instant_now A w - at < dp_ttl p)"
  by (auto simp: cached_client_def split: option.splits if_splits)

lemma cache_inv_call:
  "cache_inv A p c \<Longrightarrow> cr_calls c i = Some call \<Longrightarrow> call_ok (instant_now A (cr_world c)) (cr_found c) call"
  by (simp add: cache_inv_def)

lemma cache_inv_later:
  assumes inv: "cache_inv A p c" and time: "instant_now A (cr_world c) \<le> instant_now A w"
  shows "cache_inv A p (c\<lparr>cr_world := w\<rparr>)"
proof -
  have "at \<le> instant_now A w" if "(cl, at) \<in> set (cr_found c)" for cl at
    using inv that time by (fastforce simp: cache_inv_def)
  moreover have "call_ok (instant_now A w) (cr_found c) call" if "cr_calls c i = Some call" for i call
    by (rule call_ok_later [OF cache_inv_call [OF inv that] time])
  ultimately show ?thesis using inv by (auto simp: cache_inv_def)
qed

lemma cache_inv_drop: "cache_inv A p c \<Longrightarrow> cache_inv A p (c\<lparr>cr_calls := (cr_calls c)(i := None)\<rparr>)"
  by (auto simp: cache_inv_def)

lemma cache_inv_found:
  assumes inv: "cache_inv A p c" and "at \<le> instant_now A (cr_world c)"
  shows "cache_inv A p (c\<lparr>cr_found := cr_found c @ [(built_client A p metadata, at)]\<rparr>)"
  using assms by (auto simp: cache_inv_def intro: call_ok_found [OF _ order_refl] answer_ok_found)

lemma cache_inv_call_to:
  "cache_inv A p c \<Longrightarrow> call_ok (instant_now A (cr_world c)) (cr_found c) call \<Longrightarrow>
     cache_inv A p (c\<lparr>cr_calls := (cr_calls c)(i \<mapsto> call)\<rparr>)"
  by (auto simp: cache_inv_def)

lemma cache_inv_step:
  assumes "clock_law A" and inv: "cache_inv A p c" and "cache_step A i c c'"
  shows "cache_inv A p c'"
  using assms(3)
proof cases
  case (ask force)
  with inv show ?thesis by (auto simp: cache_inv_def call_ok_def)
next
  case (hit force started cl)
  then obtain at where at: "\<not> force" "dp_client (cr_provider c) = Some (cl, at)"
      "instant_now A (cr_world c) - at < dp_ttl (cr_provider c)"
    by (auto simp: cached_client_Some)
  from inv have ttl: "dp_ttl (cr_provider c) = dp_ttl p"
    unfolding cache_inv_def by force
  from inv at(2) have found: "(cl, at) \<in> set (cr_found c)" and "at \<le> instant_now A (cr_world c)"
    unfolding cache_inv_def by blast+
  with at ttl have "answer_ok (dp_ttl p) (cr_found c)
      \<lparr>an_force = force, an_started = started, an_client = cl, an_time = instant_now A (cr_world c)\<rparr>"
    unfolding answer_ok_def by auto
  with inv hit show ?thesis by (auto simp: cache_inv_def give_answer_def)
next
  case (miss force started)
  then have "call_ok (instant_now A (cr_world c)) (cr_found c) (Discovering force started)"
    using cache_inv_call [OF inv miss(2)] by (simp add: call_ok_def)
  with inv miss show ?thesis by (auto simp: cache_inv_def)
next
  case (discovery_fails force started e w)
  then have "instant_now A (cr_world c) \<le> instant_now A w"
    using assms(1) unfolding clock_law_def by (metis snd_conv)
  from cache_inv_later [OF cache_inv_drop [OF inv, of i], of w] this discovery_fails(1) show ?thesis by simp
next
  case (discovered force started metadata w cl)
  then have time: "instant_now A (cr_world c) \<le> instant_now A w"
    using assms(1) unfolding clock_law_def by (metis snd_conv)
  let ?c = "c\<lparr>cr_world := w, cr_found := cr_found c @ [(cl, instant_now A w)]\<rparr>"
  from inv obtain x where "cr_provider c = p\<lparr>dp_client := x\<rparr>" by (auto simp: cache_inv_def)
  then have cl: "cl = built_client A p metadata" using discovered by simp
  have "cache_inv A p ?c"
    using cache_inv_found [OF cache_inv_later [OF inv time], of "instant_now A w" metadata] cl by simp
  moreover have "started \<le> instant_now A (cr_world c)"
    using cache_inv_call [OF inv discovered(2)] by (simp add: call_ok_def)
  with time have "call_ok (instant_now A w) (cr_found ?c) (Storing force started cl (instant_now A w))"
    by (simp add: call_ok_def)
  ultimately have "cache_inv A p (?c\<lparr>cr_calls := (cr_calls ?c)(i \<mapsto> Storing force started cl (instant_now A w))\<rparr>)"
    by (intro cache_inv_call_to) simp_all
  with discovered(1) show ?thesis by simp
next
  case (store force started cl at)
  then have call: "call_ok (instant_now A (cr_world c)) (cr_found c) (Storing force started cl at)"
    using inv by (auto simp: cache_inv_def)
  then have found: "(cl, at) \<in> set (cr_found c)" "started \<le> at" by (simp_all add: call_ok_def)
  then have "at \<le> instant_now A (cr_world c)" using inv by (auto simp: cache_inv_def)
  with found have "answer_ok (dp_ttl p) (cr_found c)
      \<lparr>an_force = force, an_started = started, an_client = cl, an_time = instant_now A (cr_world c)\<rparr>"
    by (auto simp: answer_ok_def)
  with inv store found show ?thesis by (auto simp: cache_inv_def give_answer_def)
next
  case (dropped call)
  with inv show ?thesis by (auto simp: cache_inv_def)
next
  case (later w)
  with cache_inv_later [OF inv] show ?thesis by simp
qed

lemma cache_reachable_inv:
  assumes "clock_law A" and "dp_client p = None" and "cache_reachable A p w c"
  shows "cache_inv A p c"
  using assms(3)
proof induction
  case cache_start
  show ?case using assms(2)
    by (auto simp: cache_inv_def cache_initial_def intro: exI [of _ "dp_client p"])
next
  case (cache_next c i c')
  then show ?case using cache_inv_step [OF assms(1)] by blast
qed

section \<open>Progress, and a call on its own\<close>

text \<open>What a step of a call that is not dropped brings it to.\<close>

definition advances ::
    "('meta, 'ocl, 'idt, 'clm, 'otok, 'alg, 'key, 'url, 'w) oidc_api \<Rightarrow> nat \<Rightarrow> ('ocl, 'w) cache_run
      \<Rightarrow> 'ocl client_call \<Rightarrow> ('ocl, 'w) cache_run \<Rightarrow> bool" where
  "advances A i c call c' \<longleftrightarrow>
     (case call of
        Asked force started \<Rightarrow>
          cr_calls c' i = Some (Discovering force started)
          \<or> cr_calls c' i = None \<and> length (cr_answers c') = Suc (length (cr_answers c))
      | Discovering force started \<Rightarrow>
          (\<exists>cl at. cr_calls c' i = Some (Storing force started cl at))
          \<or> cr_calls c' i = None \<and> is_err (fst (discover A (dp_issuer (cr_provider c)) (cr_world c)))
      | Storing force started cl at \<Rightarrow>
          cr_calls c' i = None \<and> dp_client (cr_provider c') = Some (cl, at)
          \<and> map an_client (cr_answers c') = map an_client (cr_answers c) @ [cl])"

lemma cache_progress:
  assumes "cr_calls c i = Some call"
  shows "\<exists>c'. cache_step A i c c' \<and> advances A i c call c'"
proof (cases call)
  case (Asked force started)
  with assms have i: "cr_calls c i = Some (Asked force started)" by simp
  show ?thesis
  proof (cases "cached_client A (cr_provider c) force (cr_world c)")
    case None
    from miss [OF i None] Asked show ?thesis by (fastforce simp: advances_def)
  next
    case (Some cl)
    from hit [OF i Some] Asked show ?thesis by (fastforce simp: advances_def give_answer_def)
  qed
next
  case (Discovering force started)
  with assms have i: "cr_calls c i = Some (Discovering force started)" by simp
  obtain r w where r: "discover A (dp_issuer (cr_provider c)) (cr_world c) = (r, w)" by (metis surj_pair)
  show ?thesis
  proof (cases r)
    case (Inl e)
    from discovery_fails [OF i r [unfolded Inl]] Discovering r Inl show ?thesis
      by (fastforce simp: advances_def)
  next
    case (Inr metadata)
    from discovered [OF i r [unfolded Inr] refl] Discovering show ?thesis by (fastforce simp: advances_def)
  qed
next
  case (Storing force started cl at)
  with assms have "cr_calls c i = Some (Storing force started cl at)" by simp
  from store [OF this] Storing show ?thesis by (fastforce simp: advances_def give_answer_def)
qed

text \<open>A call that no other one interleaves with is \<open>oidc_client\<close>.\<close>

lemma solo_call:
  assumes free: "cr_calls c i = None"
    and call: "oidc_client A (cr_provider c) force (cr_world c) = (r, p', w')"
  shows "\<exists>c'. (cache_step A i)\<^sup>*\<^sup>* c c' \<and> cr_provider c' = p' \<and> cr_world c' = w' \<and> cr_calls c' = cr_calls c
    \<and> map an_client (cr_answers c') = map an_client (cr_answers c) @ (case r of Inl _ \<Rightarrow> [] | Inr cl \<Rightarrow> [cl])"
proof -
  let ?now = "instant_now A (cr_world c)"
  define c1 where "c1 = c\<lparr>cr_calls := (cr_calls c)(i \<mapsto> Asked force ?now)\<rparr>"
  have one: "cache_step A i c c1" unfolding c1_def by (rule ask [OF free])
  have i1: "cr_calls c1 i = Some (Asked force ?now)" by (simp add: c1_def)
  show ?thesis
  proof (cases "cached_client A (cr_provider c) force (cr_world c)")
    case (Some cl)
    then have "cached_client A (cr_provider c1) force (cr_world c1) = Some cl" by (simp add: c1_def)
    from hit [OF i1 this] one have "(cache_step A i)\<^sup>*\<^sup>* c (give_answer c1 i force ?now cl ?now)"
      by (simp add: c1_def)
    with call Some free show ?thesis
      by (intro exI conjI) (assumption, auto simp: oidc_client_def give_answer_def c1_def)
  next
    case None
    then have "cached_client A (cr_provider c1) force (cr_world c1) = None" by (simp add: c1_def)
    note two = miss [OF i1 this]
    define c2 where "c2 = c1\<lparr>cr_calls := (cr_calls c1)(i \<mapsto> Discovering force ?now)\<rparr>"
    have steps: "(cache_step A i)\<^sup>*\<^sup>* c c2" using one two unfolding c2_def by (simp add: rtranclp.rtrancl_into_rtrancl)
    have i2: "cr_calls c2 i = Some (Discovering force ?now)" by (simp add: c2_def)
    obtain found w where found: "discover A (dp_issuer (cr_provider c2)) (cr_world c2) = (found, w)"
      by (metis surj_pair)
    show ?thesis
    proof (cases found)
      case (Inl e)
      from discovery_fails [OF i2 found [unfolded Inl]] steps
      have "(cache_step A i)\<^sup>*\<^sup>* c (c2\<lparr>cr_calls := (cr_calls c2)(i := None), cr_world := w\<rparr>)"
        by (rule rtranclp.rtrancl_into_rtrancl [rotated])
      with call None found Inl free show ?thesis
        by (intro exI conjI) (assumption, auto simp: oidc_client_def c1_def c2_def)
    next
      case (Inr metadata)
      let ?cl = "built_client A (cr_provider c2) metadata"
      define c3 where "c3 = c2\<lparr>cr_world := w, cr_found := cr_found c2 @ [(?cl, instant_now A w)],
        cr_calls := (cr_calls c2)(i \<mapsto> Storing force ?now ?cl (instant_now A w))\<rparr>"
      have "cache_step A i c2 c3" unfolding c3_def by (rule discovered [OF i2 found [unfolded Inr] refl])
      with steps have "(cache_step A i)\<^sup>*\<^sup>* c c3" by (rule rtranclp.rtrancl_into_rtrancl)
      moreover have i3: "cr_calls c3 i = Some (Storing force ?now ?cl (instant_now A w))" by (simp add: c3_def)
      note store [OF i3, of A]
      ultimately have "(cache_step A i)\<^sup>*\<^sup>* c (give_answer (c3\<lparr>cr_provider := (cr_provider c3)
          \<lparr>dp_client := Some (?cl, instant_now A w)\<rparr>\<rparr>) i force ?now ?cl (instant_now A (cr_world c3)))"
        by (rule rtranclp.rtrancl_into_rtrancl)
      with call None found Inr free show ?thesis
        by (intro exI conjI)
          (assumption, auto simp: oidc_client_def Let_def give_answer_def built_client_def c1_def c2_def c3_def)
    qed
  qed
qed

section \<open>Properties\<close>

text \<open>
  C19: the client cache under concurrent requests. However the calls interleave, whatever discoveries fail and
  whichever calls are dropped: every client handed out was built from this provider's metadata, and either it
  was discovered after its own call began, or the cache had held it for less than the configured lifetime since
  its discovery ended, however late it was stored; a forced call never gets a cached one, so it sees keys rotated
  before it. The provider's settings never change. No call waits for another: each can always take its next
  step, and one that is not interleaved is \<open>oidc_client\<close>.
\<close>

theorem concurrent_client_cache:
  assumes "clock_law A" and "dp_client p = None" and "cache_reachable A p w c"
  shows "(\<forall>a \<in> set (cr_answers c). \<exists>at metadata. an_client a = built_client A p metadata
        \<and> (an_client a, at) \<in> set (cr_found c) \<and> at \<le> an_time a
        \<and> (an_started a \<le> at \<or> \<not> an_force a \<and> an_time a - at < dp_ttl p))
    \<and> (\<exists>x. cr_provider c = p\<lparr>dp_client := x\<rparr>)
    \<and> (\<forall>i call. cr_calls c i = Some call \<longrightarrow> (\<exists>c'. cache_step A i c c' \<and> advances A i c call c'))
    \<and> (\<forall>i force r p' w'. cr_calls c i = None \<longrightarrow>
         oidc_client A (cr_provider c) force (cr_world c) = (r, p', w') \<longrightarrow>
         (\<exists>c'. (cache_step A i)\<^sup>*\<^sup>* c c' \<and> cr_provider c' = p' \<and> cr_world c' = w' \<and> cr_calls c' = cr_calls c
            \<and> map an_client (cr_answers c')
              = map an_client (cr_answers c) @ (case r of Inl _ \<Rightarrow> [] | Inr cl \<Rightarrow> [cl])))"
proof (intro conjI allI impI ballI)
  note inv = cache_reachable_inv [OF assms]
  show "\<exists>x. cr_provider c = p\<lparr>dp_client := x\<rparr>" using inv by (simp add: cache_inv_def)
  fix a
  assume "a \<in> set (cr_answers c)"
  with inv obtain at where "(an_client a, at) \<in> set (cr_found c)" "at \<le> an_time a"
      "an_started a \<le> at \<or> \<not> an_force a \<and> an_time a - at < dp_ttl p"
    by (auto simp: cache_inv_def answer_ok_def)
  moreover from this(1) inv obtain metadata where "an_client a = built_client A p metadata"
    unfolding cache_inv_def by blast
  ultimately show "\<exists>at metadata. an_client a = built_client A p metadata
        \<and> (an_client a, at) \<in> set (cr_found c) \<and> at \<le> an_time a
        \<and> (an_started a \<le> at \<or> \<not> an_force a \<and> an_time a - at < dp_ttl p)" by blast
qed (blast intro: cache_progress solo_call)+

text \<open>Two calls: the first discovers and stores, the second gets the cached client.\<close>

definition two_calls :: "(nat, nat) cache_run" where
  "two_calls =
     \<lparr>cr_provider = tick_provider\<lparr>dp_client := Some (0, 1)\<rparr>, cr_world = 1, cr_calls = (\<lambda>_. None),
      cr_answers = [\<lparr>an_force = False, an_started = 0, an_client = 0, an_time = 1\<rparr>,
        \<lparr>an_force = False, an_started = 1, an_client = 0, an_time = 1\<rparr>],
      cr_found = [(0, 1)]\<rparr>"

lemma two_calls_reachable: "cache_reachable tick_oidc tick_provider 0 two_calls"
proof -
  let ?c0 = "cache_initial tick_provider (0 :: nat)"
  let ?c1 = "?c0\<lparr>cr_calls := [1 \<mapsto> Asked False 0]\<rparr>"
  let ?c2 = "?c0\<lparr>cr_calls := [1 \<mapsto> Discovering False 0]\<rparr>"
  let ?c3 = "?c0\<lparr>cr_world := 1, cr_found := [(0, 1)], cr_calls := [1 \<mapsto> Storing False 0 0 1]\<rparr>"
  let ?c4 = "give_answer (?c3\<lparr>cr_provider := tick_provider\<lparr>dp_client := Some (0, 1)\<rparr>\<rparr>) 1 False 0 0 1"
  let ?c5 = "?c4\<lparr>cr_calls := [2 \<mapsto> Asked False 1]\<rparr>"
  note tick = tick_oidc_def tick_provider_def cache_initial_def cached_client_def built_client_def give_answer_def
  have s1: "cache_step tick_oidc 1 ?c0 ?c1"
    using ask [of ?c0 1 tick_oidc False] by (simp add: tick)
  have s2: "cache_step tick_oidc 1 ?c1 ?c2"
    using miss [of ?c1 1 False 0 tick_oidc] by (simp add: tick)
  have s3: "cache_step tick_oidc 1 ?c2 ?c3"
    using discovered [of ?c2 1 False 0 tick_oidc 0 1 0] by (simp add: tick)
  have s4: "cache_step tick_oidc 1 ?c3 ?c4"
    using store [of ?c3 1 False 0 0 1 tick_oidc] by (simp add: tick)
  have s5: "cache_step tick_oidc 2 ?c4 ?c5"
    using ask [of ?c4 2 tick_oidc False] by (simp add: tick)
  have s6: "cache_step tick_oidc 2 ?c5 two_calls"
    using hit [of ?c5 2 False 1 tick_oidc 0] by (simp add: tick two_calls_def)
  show ?thesis
    by (rule cache_next [OF cache_next [OF cache_next [OF cache_next [OF cache_next [OF cache_next
      [OF cache_start s1] s2] s3] s4] s5] s6])
qed

theorem concurrent_client_cache_witness:
  "\<exists>m1 m2. map an_client (cr_answers two_calls)
     = [built_client tick_oidc tick_provider m1, built_client tick_oidc tick_provider m2]"
proof -
  have "clock_law tick_oidc" by (simp add: clock_law_def tick_oidc_def)
  moreover have "dp_client tick_provider = None" by (simp add: tick_provider_def)
  ultimately have "\<forall>a \<in> set (cr_answers two_calls). \<exists>metadata. an_client a = built_client tick_oidc tick_provider metadata"
    using concurrent_client_cache [OF _ _ two_calls_reachable, THEN conjunct1] by blast
  then show ?thesis by (simp add: two_calls_def)
qed

end
