(* ===== verification/Auth_Password.thy ===== *)
theory Auth_Password
  imports Muxa_Prelude
begin

text \<open>
  \<open>muxa-auth/src/password.rs\<close>: hashing and checking passwords. \<open>password-auth\<close>, \<open>bcrypt\<close> and tokio's
  blocking pool are the fields of \<open>password_api\<close>; the slow operations run on the world, so that
  what they cost can be observed.
\<close>

datatype verified = Valid | NeedsRehash | Invalid

definition is_valid :: "verified \<Rightarrow> bool" where
  "is_valid v = (v \<noteq> Invalid)"

record 'w password_api =
  generate_hash :: "string \<Rightarrow> 'w \<Rightarrow> string \<times> 'w"
  verify_password :: "string \<Rightarrow> string \<Rightarrow> 'w \<Rightarrow> (string + unit) \<times> 'w"
  is_hash_obsolete :: "string \<Rightarrow> string + bool"
  bcrypt_verify :: "string \<Rightarrow> string \<Rightarrow> 'w \<Rightarrow> (string + bool) \<times> 'w"
  blocking_fails :: "'w \<Rightarrow> string option"

datatype password_error = PasswordError string

definition is_bcrypt :: "string \<Rightarrow> bool" where
  "is_bcrypt h = list_ex (\<lambda>p. starts_with p h) [''$2a$'', ''$2b$'', ''$2y$'']"

text \<open>The dummy hash, made once; the cell is the process's \<open>OnceLock\<close>.\<close>

definition dummy_hash :: "'w password_api \<Rightarrow> string option \<Rightarrow> 'w \<Rightarrow> string \<times> string option \<times> 'w" where
  "dummy_hash A cell w =
     (case cell of
        Some h \<Rightarrow> (h, cell, w)
      | None \<Rightarrow> (let (h, w) = generate_hash A ''muxa-auth timing equaliser'' w in (h, Some h, w)))"

definition verify_blocking ::
    "'w password_api \<Rightarrow> string \<Rightarrow> string option \<Rightarrow> string option \<Rightarrow> 'w \<Rightarrow> verified \<times> string option \<times> 'w" where
  "verify_blocking A password stored cell w =
     (case (case stored of Some h \<Rightarrow> if h \<noteq> [] then Some h else None | None \<Rightarrow> None) of
        None \<Rightarrow>
          (let (dummy, cell, w) = dummy_hash A cell w;
               (timing, w) = verify_password A password dummy w
           in (Invalid, cell, w))
      | Some stored \<Rightarrow>
          if is_bcrypt stored
          then (let (r, w) = bcrypt_verify A password stored w
                in (case r of Inr True \<Rightarrow> NeedsRehash | _ \<Rightarrow> Invalid, cell, w))
          else (let (r, w) = verify_password A password stored w
                in (case r of
                      Inr _ \<Rightarrow>
                        (if (case is_hash_obsolete A stored of Inr b \<Rightarrow> b | Inl _ \<Rightarrow> True)
                         then NeedsRehash else Valid)
                    | Inl _ \<Rightarrow> Invalid, cell, w)))"

text \<open>\<open>spawn_blocking\<close>: the task may be cancelled or panic.\<close>

definition password_verify ::
    "'w password_api \<Rightarrow> string \<Rightarrow> string option \<Rightarrow> string option \<Rightarrow> 'w
      \<Rightarrow> (password_error + verified) \<times> string option \<times> 'w" where
  "password_verify A password stored cell w =
     (case blocking_fails A w of
        Some e \<Rightarrow> (Inl (PasswordError e), cell, w)
      | None \<Rightarrow> (let (v, cell, w) = verify_blocking A password stored cell w in (Inr v, cell, w)))"

definition password_hash :: "'w password_api \<Rightarrow> string \<Rightarrow> 'w \<Rightarrow> (password_error + string) \<times> 'w" where
  "password_hash A password w =
     (case blocking_fails A w of
        Some e \<Rightarrow> (Inl (PasswordError e), w)
      | None \<Rightarrow> (let (h, w) = generate_hash A password w in (Inr h, w)))"

text \<open>
  What the libraries document. A generated hash is a non-empty PHC string (it starts with \<open>$argon2\<close>), is
  current and matches exactly its password. \<open>argon2 w\<close> and \<open>bcrypt w\<close> are the work spent so far in the
  two algorithms, which do not compare: making a hash costs \<open>current\<close>, the work of the parameters in
  use; checking against a stored text costs what the parameters in it say, \<open>argon2_cost\<close> or
  \<open>bcrypt_cost\<close>, which is \<open>current\<close> for a generated hash and nothing for a text the library cannot read.
\<close>

record 'w slow_work =
  argon2 :: "'w \<Rightarrow> nat"
  bcrypt :: "'w \<Rightarrow> nat"
  argon2_cost :: "string \<Rightarrow> nat"
  bcrypt_cost :: "string \<Rightarrow> nat"
  current :: nat

definition password_laws :: "'w password_api \<Rightarrow> 'w slow_work \<Rightarrow> bool" where
  "password_laws A k \<longleftrightarrow>
     (\<forall>p w h w'. generate_hash A p w = (h, w') \<longrightarrow>
        starts_with ''$argon2'' h \<and> is_hash_obsolete A h = Inr False
        \<and> (\<forall>q v. is_err (fst (verify_password A q h v)) = (q \<noteq> p))
        \<and> argon2_cost k h = current k \<and> argon2 k w' = argon2 k w + current k \<and> bcrypt k w' = bcrypt k w)
     \<and> (\<forall>p h w. argon2 k (snd (verify_password A p h w)) = argon2 k w + argon2_cost k h
          \<and> bcrypt k (snd (verify_password A p h w)) = bcrypt k w)
     \<and> (\<forall>p h w. bcrypt k (snd (bcrypt_verify A p h w)) = bcrypt k w + bcrypt_cost k h
          \<and> argon2 k (snd (bcrypt_verify A p h w)) = argon2 k w)
     \<and> 0 < current k"

text \<open>The cell of the dummy hash is empty or holds what \<open>dummy_hash\<close> put into it.\<close>

definition dummy_cell :: "'w password_api \<Rightarrow> string option \<Rightarrow> bool" where
  "dummy_cell A cell \<longleftrightarrow>
     (\<forall>h. cell = Some h \<longrightarrow> (\<exists>u u'. generate_hash A ''muxa-auth timing equaliser'' u = (h, u')))"

lemma argon2_not_bcrypt: "starts_with ''$argon2'' h \<Longrightarrow> \<not> is_bcrypt h \<and> h \<noteq> []"
  by (auto simp: is_bcrypt_def starts_with_iff)

lemma verify_missing: "stored \<in> {None, Some []} \<Longrightarrow> fst (verify_blocking A p stored cell w) = Invalid"
  by (auto simp: verify_blocking_def split_beta Let_def)

lemma verify_bcrypt:
  "is_bcrypt h \<Longrightarrow> fst (verify_blocking A p (Some h) cell w)
     = (if fst (bcrypt_verify A p h w) = Inr True then NeedsRehash else Invalid)"
  by (auto simp: verify_blocking_def split_beta Let_def is_bcrypt_def split: sum.splits bool.splits)

lemma verify_own:
  assumes "password_laws A k" and "generate_hash A p u = (h, u')"
  shows "fst (verify_blocking A q (Some h) cell w) = (if q = p then Valid else Invalid)"
    and "starts_with ''$argon2'' h"
proof -
  from assms have h: "starts_with ''$argon2'' h" "is_hash_obsolete A h = Inr False"
      "is_err (fst (verify_password A q h w)) = (q \<noteq> p)"
    unfolding password_laws_def by blast+
  then show "starts_with ''$argon2'' h" by blast
  from argon2_not_bcrypt [OF h(1)] have "\<not> is_bcrypt h" "h \<noteq> []" by auto
  with h(2,3) show "fst (verify_blocking A q (Some h) cell w) = (if q = p then Valid else Invalid)"
    by (cases "fst (verify_password A q h w)") (auto simp: verify_blocking_def split_beta Let_def)
qed

lemma verify_work:
  assumes "password_laws A k"
  shows "argon2 k (snd (verify_password A p h w)) = argon2 k w + argon2_cost k h"
    and "bcrypt k (snd (verify_password A p h w)) = bcrypt k w"
    and "bcrypt k (snd (bcrypt_verify A p h w)) = bcrypt k w + bcrypt_cost k h"
    and "argon2 k (snd (bcrypt_verify A p h w)) = argon2 k w"
  using assms by (simp_all add: password_laws_def)

lemma generate_work:
  assumes "password_laws A k" and "generate_hash A p w = (h, w')"
  shows "argon2_cost k h = current k" and "argon2 k w' = argon2 k w + current k" and "bcrypt k w' = bcrypt k w"
  using assms(1) [unfolded password_laws_def, THEN conjunct1, rule_format, OF assms(2)] by simp_all

text \<open>The dummy hash costs its making once, and a check against it what a check of a current hash costs.\<close>

lemma dummy_hash_work:
  assumes "password_laws A k" and "dummy_cell A cell" and "dummy_hash A cell w = (d, cell', w')"
  shows "dummy_cell A cell' \<and> cell' = Some d \<and> argon2_cost k d = current k
    \<and> argon2 k w' = argon2 k w + (if cell = None then current k else 0) \<and> bcrypt k w' = bcrypt k w"
proof (cases cell)
  case None
  obtain h u where made: "generate_hash A ''muxa-auth timing equaliser'' w = (h, u)" by (metis surj_pair)
  with assms(3) None have "d = h" "cell' = Some h" "w' = u" by (auto simp: dummy_hash_def)
  with generate_work [OF assms(1) made] None made show ?thesis by (auto simp: dummy_cell_def)
next
  case (Some h)
  with assms(2) obtain u u' where "generate_hash A ''muxa-auth timing equaliser'' u = (h, u')"
    by (auto simp: dummy_cell_def)
  from generate_work(1) [OF assms(1) this] assms(2,3) Some show ?thesis by (auto simp: dummy_hash_def)
qed

lemma verify_missing_work:
  assumes "password_laws A k" and "dummy_cell A cell" and "stored \<in> {None, Some []}"
    and "verify_blocking A password stored cell w = (v, cell', w')"
  shows "v = Invalid \<and> dummy_cell A cell' \<and> cell' \<noteq> None \<and> bcrypt k w' = bcrypt k w
    \<and> argon2 k w' = argon2 k w + current k + (if cell = None then current k else 0)"
proof -
  obtain d c u where dummy: "dummy_hash A cell w = (d, c, u)" by (metis surj_pair)
  have "v = Invalid" "cell' = c" "w' = snd (verify_password A password d u)"
    using assms(3,4) dummy by (auto simp: verify_blocking_def case_prod_beta)
  with dummy_hash_work [OF assms(1,2) dummy] verify_work(1,2) [OF assms(1)] show ?thesis by auto
qed

lemma verify_stored_work:
  assumes "password_laws A k" and "h \<noteq> []" and "verify_blocking A password (Some h) cell w = (v, cell', w')"
  shows "cell' = cell \<and> argon2 k w' = argon2 k w + (if is_bcrypt h then 0 else argon2_cost k h)
    \<and> bcrypt k w' = bcrypt k w + (if is_bcrypt h then bcrypt_cost k h else 0)"
  using assms(2,3) verify_work [OF assms(1)]
  by (auto simp: verify_blocking_def case_prod_beta Let_def split: if_splits)

text \<open>
  C40: what a check answers and what it costs. An account that does not exist or has no password never
  matches, and is checked against the dummy hash: that spends exactly the work of a check against a hash
  that \<open>hash\<close> makes, plus, in the first such check of the process only, the making of the dummy. A stored
  hash costs the work its own parameters ask for, nothing if it cannot be read, and leaves the dummy
  alone: an imported bcrypt hash is checked by bcrypt, whose time is not argon2's, and is always
  marked for rehashing when it matches. A hash made by \<open>hash\<close> is accepted as valid for its own password
  and for no other.
\<close>

theorem password_check_spec:
  assumes "password_laws A k" and "dummy_cell A cell"
    and "verify_blocking A password stored cell w = (v, cell', w')"
  shows "dummy_cell A cell'
    \<and> (stored \<in> {None, Some []} \<longrightarrow> v = Invalid \<and> cell' \<noteq> None \<and> bcrypt k w' = bcrypt k w
         \<and> argon2 k w' = argon2 k w + current k + (if cell = None then current k else 0))
    \<and> (\<forall>h. stored = Some h \<and> h \<noteq> [] \<longrightarrow> cell' = cell
         \<and> argon2 k w' = argon2 k w + (if is_bcrypt h then 0 else argon2_cost k h)
         \<and> bcrypt k w' = bcrypt k w + (if is_bcrypt h then bcrypt_cost k h else 0))
    \<and> (\<forall>h. stored = Some h \<and> is_bcrypt h \<longrightarrow>
         v = (if fst (bcrypt_verify A password h w) = Inr True then NeedsRehash else Invalid))
    \<and> (\<forall>p h u u'. generate_hash A p u = (h, u') \<and> stored = Some h \<longrightarrow>
         v = (if password = p then Valid else Invalid)
         \<and> argon2 k w' = argon2 k w + current k \<and> bcrypt k w' = bcrypt k w)"
proof -
  have v: "v = fst (verify_blocking A password stored cell w)" using assms(3) by simp
  have kept: "cell' = cell \<and> argon2 k w' = argon2 k w + (if is_bcrypt h then 0 else argon2_cost k h)
      \<and> bcrypt k w' = bcrypt k w + (if is_bcrypt h then bcrypt_cost k h else 0)"
    if "stored = Some h \<and> h \<noteq> []" for h
    using verify_stored_work [OF assms(1)] assms(3) that by blast
  show ?thesis
  proof (intro conjI [of "dummy_cell A cell'"] conjI [of "stored \<in> {None, Some []} \<longrightarrow> _"]
      conjI [of "\<forall>h. stored = Some h \<and> h \<noteq> [] \<longrightarrow> _ h"] conjI [of "\<forall>h. stored = Some h \<and> is_bcrypt h \<longrightarrow> _ h"]
      impI allI)
    show "dummy_cell A cell'"
    proof (cases "stored \<in> {None, Some []}")
      case True
      then show ?thesis using verify_missing_work [OF assms(1,2) _ assms(3)] by blast
    next
      case False
      then obtain h where "stored = Some h \<and> h \<noteq> []" by (cases stored) auto
      with kept assms(2) show ?thesis by auto
    qed
    show "v = Invalid \<and> cell' \<noteq> None \<and> bcrypt k w' = bcrypt k w
        \<and> argon2 k w' = argon2 k w + current k + (if cell = None then current k else 0)"
      if "stored \<in> {None, Some []}"
      using verify_missing_work [OF assms(1,2) that assms(3)] by blast
    show "cell' = cell \<and> argon2 k w' = argon2 k w + (if is_bcrypt h then 0 else argon2_cost k h)
        \<and> bcrypt k w' = bcrypt k w + (if is_bcrypt h then bcrypt_cost k h else 0)"
      if "stored = Some h \<and> h \<noteq> []" for h by (rule kept [OF that])
    show "v = (if fst (bcrypt_verify A password h w) = Inr True then NeedsRehash else Invalid)"
      if "stored = Some h \<and> is_bcrypt h" for h
      using v that by (simp add: verify_bcrypt)
    show "v = (if password = p then Valid else Invalid)
        \<and> argon2 k w' = argon2 k w + current k \<and> bcrypt k w' = bcrypt k w"
      if gen: "generate_hash A p u = (h, u') \<and> stored = Some h" for p h u u'
    proof -
      have h: "\<not> is_bcrypt h" "h \<noteq> []" using argon2_not_bcrypt [OF verify_own(2) [OF assms(1), of p u h u']] gen by simp_all
      with gen kept [of h] generate_work(1) [OF assms(1), of p u h u']
        verify_own(1) [OF assms(1), of p u h u' password cell w] v show ?thesis by simp
    qed
  qed
qed

text \<open>
  A library whose hash is the password itself, for the witness; the world counts the work of argon2, 3 for
  a hash, and of bcrypt.
\<close>

definition plain_passwords :: "(nat \<times> nat) password_api" where
  "plain_passwords =
     \<lparr>generate_hash = (\<lambda>p (a, b). (''$argon2'' @ p, (a + 3, b))),
      verify_password = (\<lambda>p h (a, b). (if h = ''$argon2'' @ p then Inr () else Inl ''no'',
        (if starts_with ''$argon2'' h then a + 3 else a, b))),
      is_hash_obsolete = (\<lambda>h. Inr False), bcrypt_verify = (\<lambda>p h (a, b). (Inr (h = ''$2a$'' @ p), (a, Suc b))),
      blocking_fails = (\<lambda>w. None)\<rparr>"

definition plain_work :: "(nat \<times> nat) slow_work" where
  "plain_work = \<lparr>argon2 = fst, bcrypt = snd, argon2_cost = (\<lambda>h. if starts_with ''$argon2'' h then 3 else 0),
     bcrypt_cost = (\<lambda>h. 1), current = 3\<rparr>"

lemma plain_passwords_laws: "password_laws plain_passwords plain_work"
  by (auto simp: password_laws_def plain_passwords_def plain_work_def starts_with_iff)

theorem password_check_spec_witness:
  "verify_blocking plain_passwords ''hunter22'' (Some ''$2a$hunter22'') None (4, 0) = (NeedsRehash, None, 4, 1)
   \<and> verify_blocking plain_passwords ''x'' None None (4, 1)
       = (Invalid, Some ''$argon2muxa-auth timing equaliser'', 10, 1)
   \<and> verify_blocking plain_passwords ''x'' None (Some ''$argon2muxa-auth timing equaliser'') (10, 1)
       = (Invalid, Some ''$argon2muxa-auth timing equaliser'', 13, 1)"
proof -
  let ?dummy = "Some ''$argon2muxa-auth timing equaliser''"
  obtain v c w where a: "verify_blocking plain_passwords ''hunter22'' (Some ''$2a$hunter22'') None (4, 0) = (v, c, w)"
    by (metis prod.exhaust)
  obtain v2 c2 w2 where b: "verify_blocking plain_passwords ''x'' None None (4, 1) = (v2, c2, w2)"
    by (metis prod.exhaust)
  obtain v3 c3 w3 where d: "verify_blocking plain_passwords ''x'' None ?dummy (10, 1) = (v3, c3, w3)"
    by (metis prod.exhaust)
  have cells: "dummy_cell plain_passwords None" "dummy_cell plain_passwords ?dummy"
    by (simp_all add: dummy_cell_def plain_passwords_def)
  have "is_bcrypt ''$2a$hunter22''" by code_simp
  moreover have "fst (bcrypt_verify plain_passwords ''hunter22'' ''$2a$hunter22'' (4, 0)) = Inr True"
    by (simp add: plain_passwords_def)
  ultimately have "v = NeedsRehash" "w = (4, 1)" "v2 = Invalid" "w2 = (10, 1)" "v3 = Invalid" "w3 = (13, 1)"
    using password_check_spec [OF plain_passwords_laws cells(1) a] password_check_spec [OF plain_passwords_laws cells(1) b]
      password_check_spec [OF plain_passwords_laws cells(2) d]
    by (simp_all add: plain_work_def prod_eq_iff)
  moreover have "c = None" "c2 = ?dummy" "c3 = ?dummy"
    using a b d \<open>is_bcrypt ''$2a$hunter22''\<close>
    by (auto simp: verify_blocking_def dummy_hash_def plain_passwords_def)
  ultimately show ?thesis using a b d by simp
qed

end
