(* ===== verification/Auth_Store.thy ===== *)
theory Auth_Store
  imports Muxa_Prelude "HOL-Library.Sublist"
begin

text \<open>
  \<open>muxa-auth/src/store.rs\<close> and \<open>extract.rs\<close>: sessions in Postgres, and the extractors of the
  signed-in user.

  A statement the code builds is a \<open>statement\<close>; the pool and the database that execute it are
  \<open>store_api\<close>, over a world \<open>'w\<close>. Session ids are \<open>'i\<close>, session data \<open>'d\<close>, their stored form
  \<open>'j\<close>; times are integers.
\<close>

section \<open>The store\<close>

text \<open>The table as diesel sees it, and the statements that create it.\<close>

datatype sql_type = SqlTextType | SqlJsonb | SqlTimestamptz

definition auth_sessions :: "string \<times> string \<times> (string \<times> sql_type) list" where
  "auth_sessions = (''auth_sessions'', ''id'',
     [(''id'', SqlTextType), (''data'', SqlJsonb), (''expiry_date'', SqlTimestamptz)])"

definition MIGRATION_SQL :: string where
  "MIGRATION_SQL =
     ''CREATE TABLE auth_sessions ('' @ [CHR 0x0A]
     @ ''    id          text PRIMARY KEY,'' @ [CHR 0x0A]
     @ ''    data        jsonb NOT NULL,'' @ [CHR 0x0A]
     @ ''    expiry_date timestamptz NOT NULL'' @ [CHR 0x0A]
     @ '');'' @ [CHR 0x0A]
     @ ''CREATE INDEX auth_sessions_expiry_date_idx ON auth_sessions (expiry_date);'' @ [CHR 0x0A]"

datatype ('i, 'j) statement =
    InsertIgnore 'i 'j int
  | Upsert 'i 'j int
  | DeleteId 'i
  | DeleteBefore int

datatype store_error = Backend string | Encode string | Decode string

record ('i, 'd, 'j, 'w) store_api =
  get_conn :: "'w \<Rightarrow> (string + unit) \<times> 'w"
  execute :: "('i, 'j) statement \<Rightarrow> 'w \<Rightarrow> (string + nat) \<times> 'w"
  select_live :: "'i \<Rightarrow> int \<Rightarrow> 'w \<Rightarrow> (string + ('j \<times> int) option) \<times> 'w"
  to_value :: "'d \<Rightarrow> string + 'j"
  from_value :: "'j \<Rightarrow> string + 'd"
  new_id :: "'w \<Rightarrow> 'i \<times> 'w"
  now_utc :: "'w \<Rightarrow> int"

record ('i, 'd) session_record =
  sr_id :: 'i
  sr_data :: 'd
  sr_expiry_date :: int

definition backend_error :: "string \<Rightarrow> store_error" where
  "backend_error err = Backend err"

definition encode_record :: "('i, 'd, 'j, 'w) store_api \<Rightarrow> ('i, 'd) session_record \<Rightarrow> store_error + 'j" where
  "encode_record A rec = map_err Encode (to_value A (sr_data rec))"

definition store_conn :: "('i, 'd, 'j, 'w) store_api \<Rightarrow> 'w \<Rightarrow> (store_error + unit) \<times> 'w" where
  "store_conn A w = (let (r, w) = get_conn A w in (map_err backend_error r, w))"

text \<open>The loop of \<open>create\<close>: draw ids until one is free. It has no bound, so its value is an option.\<close>

partial_function (option) create_loop ::
    "('i, 'd, 'j, 'w) store_api \<Rightarrow> 'j \<Rightarrow> ('i, 'd) session_record \<Rightarrow> 'w
      \<Rightarrow> ((store_error + unit) \<times> ('i, 'd) session_record \<times> 'w) option" where
  "create_loop A val rec w =
     (let (inserted, w) = execute A (InsertIgnore (sr_id rec) val (sr_expiry_date rec)) w
      in if is_err inserted then Some (map_err backend_error (map_sum id (\<lambda>_. ()) inserted), rec, w)
         else if inserted = Inr 1 then Some (Inr (), rec, w)
         else create_loop A val (rec\<lparr>sr_id := fst (new_id A w)\<rparr>) (snd (new_id A w)))"

definition store_create ::
    "('i, 'd, 'j, 'w) store_api \<Rightarrow> ('i, 'd) session_record \<Rightarrow> 'w
      \<Rightarrow> ((store_error + unit) \<times> ('i, 'd) session_record \<times> 'w) option" where
  "store_create A rec w =
     (case encode_record A rec of
        Inl e \<Rightarrow> Some (Inl e, rec, w)
      | Inr val \<Rightarrow>
          (case store_conn A w of
             (Inl e, w) \<Rightarrow> Some (Inl e, rec, w)
           | (Inr _, w) \<Rightarrow> create_loop A val rec w))"

definition store_execute :: "('i, 'd, 'j, 'w) store_api \<Rightarrow> ('i, 'j) statement \<Rightarrow> 'w \<Rightarrow> (store_error + unit) \<times> 'w" where
  "store_execute A stmt w =
     (case store_conn A w of
        (Inl e, w) \<Rightarrow> (Inl e, w)
      | (Inr _, w) \<Rightarrow>
          (let (r, w) = execute A stmt w in (map_err backend_error (map_sum id (\<lambda>_. ()) r), w)))"

definition store_save ::
    "('i, 'd, 'j, 'w) store_api \<Rightarrow> ('i, 'd) session_record \<Rightarrow> 'w \<Rightarrow> (store_error + unit) \<times> 'w" where
  "store_save A rec w =
     (case encode_record A rec of
        Inl e \<Rightarrow> (Inl e, w)
      | Inr val \<Rightarrow> store_execute A (Upsert (sr_id rec) val (sr_expiry_date rec)) w)"

definition store_load ::
    "('i, 'd, 'j, 'w) store_api \<Rightarrow> 'i \<Rightarrow> 'w \<Rightarrow> (store_error + ('i, 'd) session_record option) \<times> 'w" where
  "store_load A session_id w =
     (case store_conn A w of
        (Inl e, w) \<Rightarrow> (Inl e, w)
      | (Inr _, w) \<Rightarrow>
          (let (row, w) = select_live A session_id (now_utc A w) w
           in case map_err backend_error row of
                Inl e \<Rightarrow> (Inl e, w)
              | Inr None \<Rightarrow> (Inr None, w)
              | Inr (Some (val, expires)) \<Rightarrow>
                  (case map_err Decode (from_value A val) of
                     Inl e \<Rightarrow> (Inl e, w)
                   | Inr d \<Rightarrow> (Inr (Some \<lparr>sr_id = session_id, sr_data = d, sr_expiry_date = expires\<rparr>), w))))"

definition store_delete :: "('i, 'd, 'j, 'w) store_api \<Rightarrow> 'i \<Rightarrow> 'w \<Rightarrow> (store_error + unit) \<times> 'w" where
  "store_delete A session_id w = store_execute A (DeleteId session_id) w"

definition delete_expired :: "('i, 'd, 'j, 'w) store_api \<Rightarrow> 'w \<Rightarrow> (store_error + unit) \<times> 'w" where
  "delete_expired A w =
     (case store_conn A w of
        (Inl e, w) \<Rightarrow> (Inl e, w)
      | (Inr _, w) \<Rightarrow>
          (let (r, w) = execute A (DeleteBefore (now_utc A w)) w
           in (map_err backend_error (map_sum id (\<lambda>_. ()) r), w)))"

section \<open>The extractors\<close>

text \<open>\<open>session\<close> is axum-login's extraction of the login state: a rejection without its layer.\<close>

datatype 'resp rejection = NoAuthLayer 'resp | Unauthorized

definition session_user :: "'resp + 'u option \<Rightarrow> 'resp rejection + 'u" where
  "session_user auth_user =
     (case map_err NoAuthLayer auth_user of
        Inl e \<Rightarrow> Inl e
      | Inr None \<Rightarrow> Inl Unauthorized
      | Inr (Some u) \<Rightarrow> Inr u)"

definition maybe_session_user :: "'resp + 'u option \<Rightarrow> 'resp rejection + 'u option" where
  "maybe_session_user auth_user = map_err NoAuthLayer auth_user"

text \<open>An operation's security requirements: each a list of schemes with their scopes.\<close>

type_synonym requirement = "(string \<times> string list) list"

definition SESSION_SCHEME :: string where
  "SESSION_SCHEME = ''session''"

text \<open>The scheme of the session cookie, and the response of an operation without a signed-in user.\<close>

datatype api_key_location = InQuery | InHeader | InCookie

record security_scheme =
  ss_location :: api_key_location
  ss_name :: string
  ss_description :: "string option"

definition session_security_scheme :: "string \<Rightarrow> security_scheme" where
  "session_security_scheme cookie_name =
     \<lparr>ss_location = InCookie, ss_name = cookie_name,
      ss_description = Some ''Session cookie set by signing in.''\<rparr>"

definition session_early_responses :: "(nat \<times> string) list" where
  "session_early_responses = [(401, ''Not signed in.'')]"

definition require_session :: "requirement list \<Rightarrow> requirement list" where
  "require_session sec =
     (let requirement = [(SESSION_SCHEME, [])]
      in if requirement \<in> set sec then sec else sec @ [requirement])"

text \<open>\<open>OperationInput\<close> of the two extractors: \<open>MaybeSessionUser\<close> keeps the trait's defaults.\<close>

datatype session_extractor = ForSessionUser | ForMaybeSessionUser

definition operation_input :: "session_extractor \<Rightarrow> requirement list \<Rightarrow> requirement list" where
  "operation_input x sec = (case x of ForSessionUser \<Rightarrow> require_session sec | ForMaybeSessionUser \<Rightarrow> sec)"

definition early_responses :: "session_extractor \<Rightarrow> (nat \<times> string) list" where
  "early_responses x = (case x of ForSessionUser \<Rightarrow> session_early_responses | ForMaybeSessionUser \<Rightarrow> [])"

text \<open>What the documentation of an operation says of its extractor is what the extractor does.\<close>

lemma documented_rejections:
  "session_user au = Inl Unauthorized \<longleftrightarrow> au = Inr None"
  "maybe_session_user au \<noteq> Inl Unauthorized"
  "map fst (early_responses ForSessionUser) = [401]" "early_responses ForMaybeSessionUser = []"
  by (cases au; simp add: session_user_def maybe_session_user_def early_responses_def
      session_early_responses_def split: option.splits)+

text \<open>The words of the DDL: each column of the table is declared with its type.\<close>

fun sql_words :: "string \<Rightarrow> string \<Rightarrow> string list" where
  "sql_words word [] = (if word = [] then [] else [word])"
| "sql_words word (c # cs) =
     (if c = CHR '' '' \<or> c = CHR 0x0A
      then (if word = [] then sql_words [] cs else word # sql_words [] cs)
      else sql_words (word @ [c]) cs)"

fun sql_type_name :: "sql_type \<Rightarrow> string" where
  "sql_type_name SqlTextType = ''text''"
| "sql_type_name SqlJsonb = ''jsonb''"
| "sql_type_name SqlTimestamptz = ''timestamptz''"

lemma migration_creates_table:
  "case auth_sessions of (name, key, columns) \<Rightarrow>
     sublist [''CREATE'', ''TABLE'', name] (sql_words [] MIGRATION_SQL)
     \<and> sublist [key, ''text'', ''PRIMARY'', ''KEY,''] (sql_words [] MIGRATION_SQL)
     \<and> list_all (\<lambda>(c, ty). sublist [c, sql_type_name ty] (sql_words [] MIGRATION_SQL)) columns"
  by (simp add: auth_sessions_def MIGRATION_SQL_def sublist_Cons_right)

lemma require_session_idem: "require_session (require_session sec) = require_session sec"
  by (simp add: require_session_def Let_def)

section \<open>Lemmas\<close>

text \<open>
  The table as SQL has it: \<open>table w\<close> maps ids to stored data and expiry. A statement that fails
  changes nothing; drawing an id and taking a connection never change the table.
\<close>

definition statement_effect ::
    "('i, 'j) statement \<Rightarrow> ('i \<rightharpoonup> 'j \<times> int) \<Rightarrow> ('i \<rightharpoonup> 'j \<times> int)" where
  "statement_effect stmt t =
     (case stmt of
        InsertIgnore i v e \<Rightarrow> (if t i = None then t(i \<mapsto> (v, e)) else t)
      | Upsert i v e \<Rightarrow> t(i \<mapsto> (v, e))
      | DeleteId i \<Rightarrow> t(i := None)
      | DeleteBefore now \<Rightarrow> (\<lambda>i. case t i of Some (v, e) \<Rightarrow> if e < now then None else Some (v, e) | None \<Rightarrow> None))"

definition table_laws :: "('i, 'd, 'j, 'w) store_api \<Rightarrow> ('w \<Rightarrow> 'i \<rightharpoonup> 'j \<times> int) \<Rightarrow> bool" where
  "table_laws A table \<longleftrightarrow>
     (\<forall>stmt w r w'. execute A stmt w = (r, w') \<longrightarrow>
        table w' = (if is_err r then table w else statement_effect stmt (table w))
        \<and> (\<forall>i v e n. stmt = InsertIgnore i v e \<and> r = Inr n \<longrightarrow> n = (if table w i = None then 1 else 0)))
     \<and> (\<forall>w. table (snd (get_conn A w)) = table w)
     \<and> (\<forall>w. table (snd (new_id A w)) = table w)
     \<and> (\<forall>i now w r w'. select_live A i now w = (r, w') \<longrightarrow> table w' = table w
          \<and> (\<forall>row. r = Inr row \<longrightarrow>
               row = (case table w i of Some (v, e) \<Rightarrow> if now < e then Some (v, e) else None | None \<Rightarrow> None)))
     \<and> (\<forall>d j. to_value A d = Inr j \<longrightarrow> from_value A j = Inr d)"

lemma store_conn_table:
  "table_laws A table \<Longrightarrow> store_conn A w = (r, w') \<Longrightarrow> table w' = table w"
proof -
  assume laws: "table_laws A table" and c: "store_conn A w = (r, w')"
  from laws have "table (snd (get_conn A w)) = table w" unfolding table_laws_def by blast
  with c show ?thesis by (auto simp: store_conn_def case_prod_beta)
qed

lemma execute_table:
  assumes "table_laws A table" and "execute A stmt w = (r, w')"
  shows "table w' = (if is_err r then table w else statement_effect stmt (table w))"
  using assms(1) [unfolded table_laws_def, THEN conjunct1, rule_format, OF assms(2)] by (rule conjunct1)

lemma insert_count:
  assumes "table_laws A table" and "execute A (InsertIgnore i v e) w = (Inr n, w')"
  shows "n = (if table w i = None then 1 else 0)"
  using assms(1) [unfolded table_laws_def, THEN conjunct1, rule_format, OF assms(2), THEN conjunct2] by simp

lemma store_execute_table:
  assumes "table_laws A table" and "store_execute A stmt w = (r, w')"
  shows "table w' = (if is_err r then table w else statement_effect stmt (table w))"
proof -
  obtain c w1 where c: "store_conn A w = (c, w1)" by (cases "store_conn A w")
  obtain q w2 where q: "execute A stmt w1 = (q, w2)" by (cases "execute A stmt w1")
  show ?thesis
    using assms(2) c q store_conn_table [OF assms(1) c] execute_table [OF assms(1) q]
    by (cases c; cases q) (auto simp: store_execute_def)
qed

lemma create_loop_ok:
  assumes laws: "table_laws A table"
    and "create_loop A val rec w = Some (r, rec', w')"
  shows "if is_err r then table w' = table w
    else table w (sr_id rec') = None \<and> table w' = (table w)(sr_id rec' \<mapsto> (val, sr_expiry_date rec))
      \<and> sr_data rec' = sr_data rec \<and> sr_expiry_date rec' = sr_expiry_date rec"
proof -
  define Q where "Q = (\<lambda>(A :: ('a, 'b, 'c, 'd) store_api) val (rec :: ('a, 'b) session_record) w y.
    \<forall>table (r :: store_error + unit) (rec' :: ('a, 'b) session_record) w'.
      table_laws A table \<longrightarrow> y = (r, rec', w') \<longrightarrow>
    (if is_err r then table w' = table w
    else table w (sr_id rec') = None \<and> table w' = (table w)(sr_id rec' \<mapsto> (val, sr_expiry_date rec))
      \<and> sr_data rec' = sr_data rec \<and> sr_expiry_date rec' = sr_expiry_date rec))"
  have "Q A val rec w (r, rec', w')"
  proof (rule create_loop.raw_induct [where P = Q, OF _ assms(2)])
    fix loop :: "('a, 'b, 'c, 'd) store_api \<Rightarrow> 'c \<Rightarrow> ('a, 'b) session_record \<Rightarrow> 'd
        \<Rightarrow> ((store_error + unit) \<times> ('a, 'b) session_record \<times> 'd) option"
      and A val rec w y
    assume ih: "\<And>A val rec w y. loop A val rec w = Some y \<Longrightarrow> Q A val rec w y"
      and eq: "(let (inserted, w) = execute A (InsertIgnore (sr_id rec) val (sr_expiry_date rec)) w
        in if is_err inserted then Some (map_err backend_error (map_sum id (\<lambda>_. ()) inserted), rec, w)
           else if inserted = Inr 1 then Some (Inr (), rec, w)
           else loop A val (rec\<lparr>sr_id := fst (new_id A w)\<rparr>) (snd (new_id A w))) = Some y"
    obtain q w1 where q: "execute A (InsertIgnore (sr_id rec) val (sr_expiry_date rec)) w = (q, w1)"
      by (cases "execute A (InsertIgnore (sr_id rec) val (sr_expiry_date rec)) w")
    show "Q A val rec w y"
      unfolding Q_def
    proof (intro allI impI)
      fix table r rec' w'
      assume laws: "table_laws A table" and y: "y = (r, rec', w')"
      note eff = execute_table [OF laws q]
      have n: "q = Inr n \<Longrightarrow> n = (if table w (sr_id rec) = None then 1 else 0)" for n
        using insert_count [OF laws] q by simp
      show "if is_err r then table w' = table w
        else table w (sr_id rec') = None \<and> table w' = (table w)(sr_id rec' \<mapsto> (val, sr_expiry_date rec))
          \<and> sr_data rec' = sr_data rec \<and> sr_expiry_date rec' = sr_expiry_date rec"
      proof (cases "is_err q \<or> q = Inr 1")
        case True
        with eq q y eff n show ?thesis
          by (cases q) (auto simp: statement_effect_def split: if_splits)
      next
        case False
        with eq q have again: "loop A val (rec\<lparr>sr_id := fst (new_id A w1)\<rparr>) (snd (new_id A w1)) = Some y"
          by simp
        have "table (snd (new_id A w1)) = table w1" using laws by (simp add: table_laws_def)
        moreover have "table w1 = table w"
          using False eff n by (cases q) (auto simp: statement_effect_def split: if_splits)
        ultimately show ?thesis
          using ih [OF again] laws y unfolding Q_def by auto
      qed
    qed
  qed
  with laws show ?thesis unfolding Q_def by blast
qed

text \<open>The ids \<open>create\<close> tries, each with the world it is tried in.\<close>

definition next_try ::
    "('i, 'd, 'j, 'w) store_api \<Rightarrow> 'j \<Rightarrow> int \<Rightarrow> 'i \<times> 'w \<Rightarrow> 'i \<times> 'w" where
  "next_try A val e iw = new_id A (snd (execute A (InsertIgnore (fst iw) val e) (snd iw)))"

lemma create_loop_returns:
  assumes laws: "table_laws A table"
  shows "table w (fst ((next_try A val (sr_expiry_date rec) ^^ n) (sr_id rec, w))) = None \<Longrightarrow>
     \<exists>y. create_loop A val rec w = Some y"
proof (induction n arbitrary: rec w)
  case 0
  obtain q w1 where q: "execute A (InsertIgnore (sr_id rec) val (sr_expiry_date rec)) w = (q, w1)"
    by (cases "execute A (InsertIgnore (sr_id rec) val (sr_expiry_date rec)) w")
  from 0 have free: "table w (sr_id rec) = None" by simp
  have "is_err q \<or> q = Inr 1"
    using insert_count [OF laws, of "sr_id rec" val "sr_expiry_date rec" w _ w1] q free by (cases q) auto
  with q show ?case by (subst create_loop.simps) auto
next
  case (Suc n)
  let ?e = "sr_expiry_date rec"
  obtain q w1 where q: "execute A (InsertIgnore (sr_id rec) val ?e) w = (q, w1)"
    by (cases "execute A (InsertIgnore (sr_id rec) val ?e) w")
  show ?case
  proof (cases "is_err q \<or> q = Inr 1")
    case True
    with q show ?thesis by (subst create_loop.simps) auto
  next
    case False
    have "\<And>m. q = Inr m \<Longrightarrow> m = (if table w (sr_id rec) = None then 1 else 0)"
      using insert_count [OF laws] q by simp
    then have "table w1 = table w"
      using False execute_table [OF laws q] by (cases q) (auto simp: statement_effect_def split: if_splits)
    moreover have "table (snd (new_id A w1)) = table w1" using laws by (simp add: table_laws_def)
    ultimately have same: "table (snd (new_id A w1)) = table w" by simp
    let ?rec = "rec\<lparr>sr_id := fst (new_id A w1)\<rparr>"
    have "next_try A val ?e (sr_id rec, w) = (sr_id ?rec, snd (new_id A w1))"
      using q by (simp add: next_try_def)
    then have "(next_try A val ?e ^^ n) (sr_id ?rec, snd (new_id A w1))
        = (next_try A val ?e ^^ Suc n) (sr_id rec, w)"
      by (simp add: funpow_swap1)
    with Suc.prems same have "table (snd (new_id A w1))
        (fst ((next_try A val (sr_expiry_date ?rec) ^^ n) (sr_id ?rec, snd (new_id A w1)))) = None"
      by simp
    from Suc.IH [OF this] obtain y where "create_loop A val ?rec (snd (new_id A w1)) = Some y" by blast
    with False q show ?thesis by (subst create_loop.simps) (cases y, simp)
  qed
qed

lemma store_create_ok:
  assumes "table_laws A table" and made: "store_create A rec w = Some (r, rec', w')"
  shows "if is_err r then table w' = table w
    else table w (sr_id rec') = None \<and> sr_data rec' = sr_data rec \<and> sr_expiry_date rec' = sr_expiry_date rec
      \<and> (\<exists>j. to_value A (sr_data rec) = Inr j \<and> table w' = (table w)(sr_id rec' \<mapsto> (j, sr_expiry_date rec)))"
proof -
  obtain c w1 where c: "store_conn A w = (c, w1)" by (cases "store_conn A w")
  note same = store_conn_table [OF assms(1) c]
  show ?thesis
  proof (cases "to_value A (sr_data rec)")
    case (Inl e)
    with made show ?thesis by (auto simp: store_create_def encode_record_def)
  next
    case encoded: (Inr j)
    show ?thesis
    proof (cases c)
      case (Inl e)
      with made encoded c same show ?thesis by (auto simp: store_create_def encode_record_def)
    next
      case (Inr u)
      with made encoded c have "create_loop A j rec w1 = Some (r, rec', w')"
        by (simp add: store_create_def encode_record_def)
      from create_loop_ok [OF assms(1) this] same encoded show ?thesis by auto
    qed
  qed
qed

text \<open>
  C21: creating a session never overwrites one. When it succeeds, the session is stored, with its
  data and expiry, under an id that had no row, every other row is unchanged, and the record is told
  that id; when it fails, the table is unchanged. It returns as soon as an id it draws is free.
\<close>

theorem create_never_overwrites:
  assumes "table_laws A table"
  shows "(\<forall>r rec' w'. store_create A rec w = Some (r, rec', w') \<longrightarrow>
      (if is_err r then table w' = table w
       else table w (sr_id rec') = None \<and> sr_data rec' = sr_data rec
         \<and> (\<exists>j. to_value A (sr_data rec) = Inr j
              \<and> table w' = (table w)(sr_id rec' \<mapsto> (j, sr_expiry_date rec)))))
    \<and> (\<forall>j n. to_value A (sr_data rec) = Inr j
        \<and> table w (fst ((next_try A j (sr_expiry_date rec) ^^ n) (sr_id rec, snd (store_conn A w)))) = None
        \<longrightarrow> store_create A rec w \<noteq> None)"
proof -
  obtain c w1 where c: "store_conn A w = (c, w1)" by (cases "store_conn A w")
  note same = store_conn_table [OF assms c]
  have ok: "if is_err r then table w' = table w
       else table w (sr_id rec') = None \<and> sr_data rec' = sr_data rec
         \<and> (\<exists>j. to_value A (sr_data rec) = Inr j
              \<and> table w' = (table w)(sr_id rec' \<mapsto> (j, sr_expiry_date rec)))"
    if "store_create A rec w = Some (r, rec', w')" for r rec' w'
    using store_create_ok [OF assms that] by auto
  have live: "store_create A rec w \<noteq> None"
    if "to_value A (sr_data rec) = Inr j"
      "table w (fst ((next_try A j (sr_expiry_date rec) ^^ n) (sr_id rec, snd (store_conn A w)))) = None" for j n
    using that c same create_loop_returns [OF assms, where w = w1 and val = j and rec = rec and n = n]
    by (cases c) (auto simp: store_create_def encode_record_def)
  show ?thesis using ok live by blast
qed

lemma load_result:
  assumes "table_laws A table" and "store_load A i w = (Inr res, w')"
  shows "table w' = table w"
    and "table w i = None \<Longrightarrow> res = None"
    and "table w i = Some (j, e) \<Longrightarrow> from_value A j = Inr d \<Longrightarrow>
      res = (if now_utc A (snd (store_conn A w)) < e
             then Some \<lparr>sr_id = i, sr_data = d, sr_expiry_date = e\<rparr> else None)"
proof -
  obtain c w1 where c: "store_conn A w = (c, w1)" by (cases "store_conn A w")
  note same = store_conn_table [OF assms(1) c]
  obtain row w2 where row: "select_live A i (now_utc A w1) w1 = (row, w2)"
    by (cases "select_live A i (now_utc A w1) w1")
  have sel: "table w2 = table w1 \<and> (\<forall>q. row = Inr q \<longrightarrow>
      q = (case table w1 i of Some (v, e) \<Rightarrow> if now_utc A w1 < e then Some (v, e) else None | None \<Rightarrow> None))"
    using assms(1) [unfolded table_laws_def, THEN conjunct2, THEN conjunct2, THEN conjunct2,
        THEN conjunct1, rule_format, OF row] by simp
  have cr: "c = Inr ()" using assms(2) c by (cases c) (auto simp: store_load_def)
  have res: "(let (row, w) = (row, w2) in case map_err backend_error row of
                Inl e \<Rightarrow> (Inl e, w)
              | Inr None \<Rightarrow> (Inr None, w)
              | Inr (Some (val, expires)) \<Rightarrow>
                  (case map_err Decode (from_value A val) of
                     Inl e \<Rightarrow> (Inl e, w)
                   | Inr d \<Rightarrow> (Inr (Some \<lparr>sr_id = i, sr_data = d, sr_expiry_date = expires\<rparr>), w)))
      = (Inr res, w')"
    using assms(2) c cr row by (simp add: store_load_def)
  have "w' = w2" using res by (auto split: sum.splits option.splits)
  with same sel show "table w' = table w" by simp
  show "res = None" if "table w i = None"
    using res sel same that by (cases row) auto
  show "res = (if now_utc A (snd (store_conn A w)) < e
             then Some \<lparr>sr_id = i, sr_data = d, sr_expiry_date = e\<rparr> else None)"
    if "table w i = Some (j, e)" "from_value A j = Inr d"
    using res sel same that c by (cases row) auto
qed

lemma load_table:
  assumes "table_laws A table" and "store_load A i w = (r, w')"
  shows "table w' = table w"
proof -
  obtain c w1 where c: "store_conn A w = (c, w1)" by (cases "store_conn A w")
  obtain row w2 where row: "select_live A i (now_utc A w1) w1 = (row, w2)"
    by (cases "select_live A i (now_utc A w1) w1")
  from assms(1) row have "table w2 = table w1" by (simp add: table_laws_def)
  with assms(2) c row store_conn_table [OF assms(1) c] show ?thesis
    by (auto simp: store_load_def split: sum.splits option.splits prod.splits)
qed

lemma delete_expired_failed:
  assumes "table_laws A table" and "delete_expired A w = (Inl e, w')"
  shows "table w' = table w"
proof -
  obtain c w1 where c: "store_conn A w = (c, w1)" by (cases "store_conn A w")
  obtain q w2 where q: "execute A (DeleteBefore (now_utc A w1)) w1 = (q, w2)"
    by (cases "execute A (DeleteBefore (now_utc A w1)) w1")
  show ?thesis
    using assms(2) c q store_conn_table [OF assms(1) c] execute_table [OF assms(1) q]
    by (cases c; cases q) (auto simp: delete_expired_def)
qed

lemma delete_expired_table:
  assumes "table_laws A table" and "delete_expired A w = (Inr (), w')"
  shows "table w' = statement_effect (DeleteBefore (now_utc A (snd (store_conn A w)))) (table w)"
proof -
  obtain c w1 where c: "store_conn A w = (c, w1)" by (cases "store_conn A w")
  obtain q w2 where q: "execute A (DeleteBefore (now_utc A w1)) w1 = (q, w2)"
    by (cases "execute A (DeleteBefore (now_utc A w1)) w1")
  show ?thesis
    using assms(2) c q store_conn_table [OF assms(1) c] execute_table [OF assms(1) q]
    by (cases c; cases q) (auto simp: delete_expired_def)
qed

text \<open>
  A saved session is read back with its data until it expires and not after, a sweep in between
  never takes a session that is still live, and a deleted session is gone.
\<close>

theorem session_lifecycle:
  assumes "table_laws A table"
    and "store_save A rec w = (Inr (), w1)" and "delete_expired A w1 = (Inr (), w2)"
    and "store_load A (sr_id rec) w2 = (Inr res, w3)"
    and "now_utc A (snd (store_conn A w1)) \<le> now_utc A (snd (store_conn A w2))"
    and "store_delete A (sr_id rec) w3 = (Inr (), w4)" and "store_load A (sr_id rec) w4 = (Inr gone, w5)"
  shows "res = (if now_utc A (snd (store_conn A w2)) < sr_expiry_date rec then Some rec else None)
    \<and> gone = None
    \<and> (\<forall>i. i \<noteq> sr_id rec \<longrightarrow> table w1 i = table w i
          \<and> (\<forall>j e. table w i = Some (j, e) \<and> now_utc A (snd (store_conn A w1)) \<le> e \<longrightarrow>
               table w4 i = Some (j, e)))"
proof -
  let ?i = "sr_id rec" and ?e = "sr_expiry_date rec"
  obtain j where j: "to_value A (sr_data rec) = Inr j"
    and save: "store_execute A (Upsert ?i j ?e) w = (Inr (), w1)"
    using assms(2) by (cases "to_value A (sr_data rec)") (auto simp: store_save_def encode_record_def)
  have t1: "table w1 = (table w)(?i \<mapsto> (j, ?e))"
    using store_execute_table [OF assms(1) save] by (simp add: statement_effect_def)
  have t2: "table w2 i = (case table w1 i of Some (v, e) \<Rightarrow>
      if e < now_utc A (snd (store_conn A w1)) then None else Some (v, e) | None \<Rightarrow> None)" for i
    using delete_expired_table [OF assms(1,3)] by (simp add: statement_effect_def)
  have t3: "table w3 = table w2" using load_result(1) [OF assms(1,4)] .
  have t4: "table w4 = (table w3)(?i := None)"
    using store_execute_table [OF assms(1) assms(6) [unfolded store_delete_def]]
    by (simp add: statement_effect_def)
  have "gone = None" using load_result(2) [OF assms(1,7)] t4 by simp
  moreover have "res = (if now_utc A (snd (store_conn A w2)) < ?e then Some rec else None)"
  proof (cases "?e < now_utc A (snd (store_conn A w1))")
    case True
    then have "table w2 ?i = None" using t1 t2 [of ?i] by simp
    with True assms(5) load_result(2) [OF assms(1,4)] show ?thesis by simp
  next
    case False
    then have "table w2 ?i = Some (j, ?e)" using t1 t2 [of ?i] by simp
    moreover from assms(1) j have "from_value A j = Inr (sr_data rec)" by (simp add: table_laws_def)
    ultimately show ?thesis using load_result(3) [OF assms(1,4)] by simp
  qed
  moreover have "table w4 i = Some (k, e)"
    if "i \<noteq> ?i" "table w i = Some (k, e)" "now_utc A (snd (store_conn A w1)) \<le> e" for i k e
    using that t1 t2 [of i] t3 t4 by simp
  ultimately show ?thesis using t1 by simp
qed

text \<open>A table in memory for the witnesses; the world is the table and the time.\<close>

definition memory_store :: "(nat, string, string, (nat \<rightharpoonup> string \<times> int) \<times> int) store_api" where
  "memory_store =
     \<lparr>get_conn = (\<lambda>w. (Inr (), w)),
      execute = (\<lambda>stmt w. (Inr (case stmt of InsertIgnore i v e \<Rightarrow> (if fst w i = None then 1 else 0) | _ \<Rightarrow> 1),
                           (statement_effect stmt (fst w), snd w))),
      select_live = (\<lambda>i now w. (Inr (case fst w i of
          Some (v, e) \<Rightarrow> if now < e then Some (v, e) else None | None \<Rightarrow> None), w)),
      to_value = Inr, from_value = Inr, new_id = (\<lambda>w. (7, w)), now_utc = snd\<rparr>"

lemma memory_store_laws: "table_laws memory_store fst"
  by (auto simp: table_laws_def memory_store_def statement_effect_def split: option.splits)

definition demo_record :: "(nat, string) session_record" where
  "demo_record = \<lparr>sr_id = 3, sr_data = ''user'', sr_expiry_date = 100\<rparr>"

theorem create_never_overwrites_witness:
  "\<exists>r rec' w'. store_create memory_store demo_record ([3 \<mapsto> (''other'', 50)], 10) = Some (r, rec', w')
     \<and> fst w' 3 = Some (''other'', 50)"
proof -
  let ?w = "([3 \<mapsto> (''other'', 50)], 10 :: int)"
  have "fst ?w (fst ((next_try memory_store ''user'' (sr_expiry_date demo_record) ^^ 1)
      (sr_id demo_record, snd (store_conn memory_store ?w)))) = None"
    by (simp add: next_try_def memory_store_def store_conn_def demo_record_def)
  moreover have "to_value memory_store (sr_data demo_record) = Inr ''user''"
    by (simp add: memory_store_def demo_record_def)
  ultimately obtain r rec' w' where made: "store_create memory_store demo_record ?w = Some (r, rec', w')"
    using create_never_overwrites [OF memory_store_laws, of demo_record ?w] by (metis not_Some_eq prod.exhaust)
  moreover have "fst w' 3 = Some (''other'', 50)"
    using create_never_overwrites [OF memory_store_laws, of demo_record ?w, THEN conjunct1, rule_format, OF made]
    by (auto split: if_splits)
  ultimately show ?thesis by blast
qed

lemma memory_load: "\<exists>res. store_load memory_store i (t, n) = (Inr res, (t, n))"
  by (cases "t i") (auto simp: store_load_def store_conn_def memory_store_def)

theorem session_lifecycle_witness:
  "\<exists>w1 w2 w3. store_save memory_store demo_record (Map.empty, 10) = (Inr (), w1)
     \<and> delete_expired memory_store w1 = (Inr (), w2)
     \<and> store_load memory_store 3 w2 = (Inr (Some demo_record), w3)"
proof -
  let ?t = "Map.empty(3 \<mapsto> (''user'', 100)) :: nat \<rightharpoonup> string \<times> int"
  have id: "sr_id demo_record = 3" "sr_expiry_date demo_record = 100" by (simp_all add: demo_record_def)
  have save: "store_save memory_store demo_record (Map.empty, 10) = (Inr (), (?t, 10))"
    by (simp add: store_save_def encode_record_def store_execute_def store_conn_def memory_store_def
        statement_effect_def demo_record_def)
  obtain t2 where sweep: "delete_expired memory_store (?t, 10) = (Inr (), (t2, 10))"
    by (simp add: delete_expired_def store_conn_def memory_store_def)
  have now: "now_utc memory_store (snd (store_conn memory_store (u, 10))) = 10" for u
    by (simp add: store_conn_def memory_store_def)
  obtain res where load: "store_load memory_store (sr_id demo_record) (t2, 10) = (Inr res, (t2, 10))"
    using memory_load by blast
  obtain t4 where del: "store_delete memory_store (sr_id demo_record) (t2, 10) = (Inr (), (t4, 10))"
    by (simp add: store_delete_def store_execute_def store_conn_def memory_store_def)
  obtain gone where load2: "store_load memory_store (sr_id demo_record) (t4, 10) = (Inr gone, (t4, 10))"
    using memory_load by blast
  have "res = Some demo_record"
    using session_lifecycle [OF memory_store_laws save sweep load _ del load2] by (simp add: now id)
  with save sweep load show ?thesis unfolding id by blast
qed

end
