(* ===== verification/Auth_Sessions.thy ===== *)
theory Auth_Sessions
  imports Auth_Store
begin

text \<open>
  What the session store of \<open>muxa-auth/src/store.rs\<close> promises to the session layer above it, as an abstract
  data type: a map from ids to records with an expiry date, in which an expired record cannot be read.

  \<open>session_op\<close> is the interface (the methods of \<open>SessionStore\<close> and \<open>ExpiredDeletion\<close>), \<open>store_perform\<close> the
  store's implementation of it, \<open>session_spec\<close> the abstract one. The locale \<open>expiring_store\<close> is the contract;
  its client lemma reads off a history of operations what a load gives, and the sweeps do not matter for it.
\<close>

section \<open>The interface\<close>

datatype ('i, 'd) session_op =
    Create "('i, 'd) session_record"
  | Save "('i, 'd) session_record"
  | Load 'i
  | Delete 'i
  | Sweep

datatype ('i, 'd) outcome =
    Failed store_error
  | Created "('i, 'd) session_record"
  | Finished
  | Loaded "('i, 'd) session_record option"

fun as_outcome :: "('a \<Rightarrow> ('i, 'd) outcome) \<Rightarrow> store_error + 'a \<Rightarrow> ('i, 'd) outcome" where
  "as_outcome f (Inl e) = Failed e"
| "as_outcome f (Inr x) = f x"

definition store_perform ::
    "('i, 'd, 'j, 'w) store_api \<Rightarrow> ('i, 'd) session_op \<Rightarrow> 'w \<Rightarrow> (('i, 'd) outcome \<times> 'w) option" where
  "store_perform A op w =
     (case op of
        Create rec \<Rightarrow> map_option (\<lambda>(r, rec, w). (as_outcome (\<lambda>_. Created rec) r, w)) (store_create A rec w)
      | Save rec \<Rightarrow> Some (apfst (as_outcome (\<lambda>_. Finished)) (store_save A rec w))
      | Load i \<Rightarrow> Some (apfst (as_outcome Loaded) (store_load A i w))
      | Delete i \<Rightarrow> Some (apfst (as_outcome (\<lambda>_. Finished)) (store_delete A i w))
      | Sweep \<Rightarrow> Some (apfst (as_outcome (\<lambda>_. Finished)) (delete_expired A w)))"

lemma as_outcome_eq:
  "as_outcome f r = out \<longleftrightarrow> (\<exists>e. r = Inl e \<and> out = Failed e) \<or> (\<exists>x. r = Inr x \<and> out = f x)"
  by (cases r) auto

lemma apfst_eq: "apfst f p = (x, w) \<longleftrightarrow> (\<exists>r. p = (r, w) \<and> f r = x)"
  by (cases p) auto

text \<open>The clock as an operation that starts in \<open>w\<close> reads it, after it got its connection.\<close>

definition store_clock :: "('i, 'd, 'j, 'w) store_api \<Rightarrow> 'w \<Rightarrow> int" where
  "store_clock A w = now_utc A (snd (store_conn A w))"

section \<open>The abstract store\<close>

type_synonym ('i, 'd) session_map = "'i \<rightharpoonup> 'd \<times> int"

text \<open>What reading \<open>i\<close> at \<open>now\<close> gives.\<close>

definition visible :: "int \<Rightarrow> 'i \<Rightarrow> ('i, 'd) session_map \<Rightarrow> ('i, 'd) session_record option" where
  "visible now i m =
     (case m i of
        Some (d, e) \<Rightarrow> if now < e then Some \<lparr>sr_id = i, sr_data = d, sr_expiry_date = e\<rparr> else None
      | None \<Rightarrow> None)"

definition put_record :: "('i, 'd) session_record \<Rightarrow> ('i, 'd) session_map \<Rightarrow> ('i, 'd) session_map" where
  "put_record rec m = m(sr_id rec \<mapsto> (sr_data rec, sr_expiry_date rec))"

definition unexpired :: "int \<Rightarrow> ('i, 'd) session_map \<Rightarrow> ('i, 'd) session_map" where
  "unexpired now m i = (case m i of Some (d, e) \<Rightarrow> if e < now then None else Some (d, e) | None \<Rightarrow> None)"

inductive session_spec ::
    "int \<Rightarrow> ('i, 'd) session_op \<Rightarrow> ('i, 'd) session_map \<Rightarrow> ('i, 'd) outcome \<Rightarrow> ('i, 'd) session_map \<Rightarrow> bool"
  for now where
  spec_failed: "session_spec now op m (Failed e) m"
| spec_create: "m i = None \<Longrightarrow> rec' = rec\<lparr>sr_id := i\<rparr> \<Longrightarrow>
    session_spec now (Create rec) m (Created rec') (put_record rec' m)"
| spec_save: "session_spec now (Save rec) m Finished (put_record rec m)"
| spec_load: "session_spec now (Load i) m (Loaded (visible now i m)) m"
| spec_delete: "session_spec now (Delete i) m Finished (m(i := None))"
| spec_sweep: "session_spec now Sweep m Finished (unexpired now m)"

inductive_cases session_specE: "session_spec now op m out m'"
inductive_simps session_spec_load [simp]: "session_spec now (Load i) m out m'"

text \<open>The methods one after the other; the history has the clock of each with its outcome.\<close>

type_synonym ('i, 'd) history = "(int \<times> ('i, 'd) session_op \<times> ('i, 'd) outcome) list"

fun performs ::
    "(('i, 'd) session_op \<Rightarrow> 'w \<Rightarrow> (('i, 'd) outcome \<times> 'w) option) \<Rightarrow> ('w \<Rightarrow> int)
      \<Rightarrow> ('i, 'd) session_op list \<Rightarrow> 'w \<Rightarrow> (('i, 'd) history \<times> 'w) option" where
  "performs act clock [] w = Some ([], w)"
| "performs act clock (op # ops) w =
     (case act op w of
        None \<Rightarrow> None
      | Some (out, w1) \<Rightarrow>
          (case performs act clock ops w1 of
             None \<Rightarrow> None
           | Some (h, w2) \<Rightarrow> Some ((clock w, op, out) # h, w2)))"

text \<open>
  What the history wrote: successful creates, saves and deletes, in their order. Sweeps, loads and failed
  operations do not count.
\<close>

fun wrote :: "('i, 'd) session_op \<Rightarrow> ('i, 'd) outcome \<Rightarrow> ('i, 'd) session_map \<Rightarrow> ('i, 'd) session_map" where
  "wrote (Create rec) (Created made) m = put_record made m"
| "wrote (Save rec) Finished m = put_record rec m"
| "wrote (Delete i) Finished m = m(i := None)"
| "wrote _ _ m = m"

fun written :: "('i, 'd) history \<Rightarrow> ('i, 'd) session_map \<Rightarrow> ('i, 'd) session_map" where
  "written [] m = m"
| "written ((t, op, out) # h) m = written h (wrote op out m)"

text \<open>A history that the abstract store can have.\<close>

inductive spec_run :: "('i, 'd) history \<Rightarrow> ('i, 'd) session_map \<Rightarrow> ('i, 'd) session_map \<Rightarrow> bool" where
  spec_none: "spec_run [] m m"
| spec_next: "session_spec t op m out m1 \<Longrightarrow> spec_run h m1 m' \<Longrightarrow> spec_run ((t, op, out) # h) m m'"

section \<open>The contract\<close>

text \<open>\<open>m\<close> is what was written, \<open>v\<close> what is stored: they differ at most in records that expired before \<open>now\<close>.\<close>

definition swept :: "int \<Rightarrow> ('i, 'd) session_map \<Rightarrow> ('i, 'd) session_map \<Rightarrow> bool" where
  "swept now m v \<longleftrightarrow> (\<forall>i. v i = m i \<or> v i = None \<and> (\<exists>d e. m i = Some (d, e) \<and> e < now))"

lemma swept_refl: "swept now m m" by (simp add: swept_def)

lemma swept_later: "swept now m v \<Longrightarrow> now \<le> now' \<Longrightarrow> swept now' m v"
  by (fastforce simp: swept_def)

lemma swept_visible: "swept now m v \<Longrightarrow> now \<le> now' \<Longrightarrow> visible now' i v = visible now' i m"
  unfolding swept_def visible_def by (drule spec [of _ i]) auto

lemma swept_put: "swept now m v \<Longrightarrow> swept now (put_record rec m) (put_record rec v)"
  by (simp add: swept_def put_record_def)

lemma swept_unexpired: "swept now m v \<Longrightarrow> swept now m (unexpired now v)"
proof -
  assume s: "swept now m v"
  have "unexpired now v i = m i \<or> unexpired now v i = None \<and> (\<exists>d e. m i = Some (d, e) \<and> e < now)" for i
    using s [unfolded swept_def, rule_format, of i] by (cases "m i") (auto simp: unexpired_def split: if_splits)
  then show ?thesis by (simp add: swept_def)
qed

lemma spec_swept:
  assumes "session_spec now op v out v'" and "swept now m v"
  shows "swept now (wrote op out m) v'"
  using assms
proof cases
  case spec_failed
  with assms(2) show ?thesis by (cases op) simp_all
next
  case spec_delete
  with assms(2) show ?thesis by (auto simp: swept_def)
qed (simp_all add: swept_put swept_unexpired)

locale expiring_store =
  fixes act :: "('i, 'd) session_op \<Rightarrow> 'w \<Rightarrow> (('i, 'd) outcome \<times> 'w) option"
    and clock :: "'w \<Rightarrow> int" and view :: "'w \<Rightarrow> ('i, 'd) session_map" and wf :: "'w \<Rightarrow> bool"
  assumes keeps_wf: "wf w \<Longrightarrow> act op w = Some (out, w') \<Longrightarrow> wf w'"
    and refines: "wf w \<Longrightarrow> act op w = Some (out, w') \<Longrightarrow> session_spec (clock w) op (view w) out (view w')"
begin

lemma performs_refines:
  "wf w \<Longrightarrow> performs act clock ops w = Some (h, w') \<Longrightarrow> wf w' \<and> spec_run h (view w) (view w')"
proof (induction ops arbitrary: w h)
  case Nil
  then show ?case by (simp add: spec_none)
next
  case (Cons op ops)
  then obtain out w1 h1 where one: "act op w = Some (out, w1)"
    and rest: "performs act clock ops w1 = Some (h1, w')" and h: "h = (clock w, op, out) # h1"
    by (auto split: option.splits prod.splits)
  from Cons.IH [OF keeps_wf [OF Cons.prems(1) one] rest] spec_next [OF refines [OF Cons.prems(1) one]] h
  show ?case by blast
qed

lemma performs_swept:
  assumes "wf w" and "performs act clock ops w = Some (h, w')" and "sorted (now # map fst h)"
    and "swept now m (view w)"
  shows "wf w' \<and> swept (last (now # map fst h)) (written h m) (view w')"
  using assms
proof (induction ops arbitrary: w h now m)
  case Nil
  then show ?case by simp
next
  case (Cons op ops)
  from Cons.prems(2) obtain out w1 h1 where one: "act op w = Some (out, w1)"
    and rest: "performs act clock ops w1 = Some (h1, w')" and h: "h = (clock w, op, out) # h1"
    by (auto split: option.splits prod.splits)
  have "swept (clock w) m (view w)" using Cons.prems(3,4) h by (auto intro: swept_later)
  from spec_swept [OF refines [OF Cons.prems(1) one] this]
  have "swept (clock w) (wrote op out m) (view w1)" .
  from Cons.IH [OF keeps_wf [OF Cons.prems(1) one] rest _ this] Cons.prems(3) h show ?case by simp
qed

lemma load_reads_history:
  assumes "wf w" and "performs act clock ops w = Some (h, w')" and "sorted (map fst h @ [clock w'])"
    and "act (Load i) w' = Some (Loaded r, w'')"
  shows "r = visible (clock w') i (written h (view w))"
proof -
  let ?now = "case h of [] \<Rightarrow> clock w' | x # _ \<Rightarrow> fst x"
  have s: "sorted (?now # map fst h)" using assms(3) by (cases h) (auto simp: sorted_append)
  have "last (?now # map fst h) \<in> set (?now # map fst h)" by (rule last_in_set) simp
  then have le: "last (?now # map fst h) \<le> clock w'"
    using assms(3) by (cases h) (auto simp: sorted_append)
  from performs_swept [OF assms(1,2) s swept_refl]
  have wf: "wf w'" and sw: "swept (last (?now # map fst h)) (written h (view w)) (view w')" by blast+
  have "r = visible (clock w') i (view w')" using refines [OF wf assms(4)] by simp
  then show ?thesis by (simp add: swept_visible [OF sw le])
qed

end

section \<open>The store provides it\<close>

text \<open>The table read through the decoder, and the rows that it can read.\<close>

definition table_view :: "('i, 'd, 'j, 'w) store_api \<Rightarrow> ('i \<rightharpoonup> 'j \<times> int) \<Rightarrow> ('i, 'd) session_map" where
  "table_view A t i =
     (case t i of
        Some (j, e) \<Rightarrow> (case from_value A j of Inr d \<Rightarrow> Some (d, e) | Inl _ \<Rightarrow> None)
      | None \<Rightarrow> None)"

definition readable :: "('i, 'd, 'j, 'w) store_api \<Rightarrow> ('i \<rightharpoonup> 'j \<times> int) \<Rightarrow> bool" where
  "readable A t \<longleftrightarrow> (\<forall>i j e. t i = Some (j, e) \<longrightarrow> (\<exists>d. from_value A j = Inr d))"

lemma readable_upd:
  "readable A t \<Longrightarrow> from_value A j = Inr d \<Longrightarrow> readable A (t(i \<mapsto> (j, e)))"
  by (simp add: readable_def)

lemma readable_none: "readable A t \<Longrightarrow> t' \<subseteq>\<^sub>m t \<Longrightarrow> readable A t'"
  unfolding readable_def map_le_def by (metis domI)

lemma view_upd:
  "from_value A j = Inr d \<Longrightarrow> table_view A (t(i \<mapsto> (j, e))) = (table_view A t)(i \<mapsto> (d, e))"
  by (auto simp: table_view_def)

lemma view_del: "table_view A (t(i := None)) = (table_view A t)(i := None)"
  by (auto simp: table_view_def)

lemma view_none: "readable A t \<Longrightarrow> table_view A t i = None \<longleftrightarrow> t i = None"
  by (force simp: table_view_def readable_def split: option.splits sum.splits)

lemma view_sweep: "table_view A (statement_effect (DeleteBefore now) t) = unexpired now (table_view A t)"
  by (auto simp: fun_eq_iff table_view_def unexpired_def statement_effect_def split: option.splits sum.splits)

lemma sweep_le: "statement_effect (DeleteBefore now) t \<subseteq>\<^sub>m t"
  by (auto simp: map_le_def statement_effect_def split: option.splits if_splits)

text \<open>The outcomes, read back to the calls they come from.\<close>

lemmas store_perform_simps = store_perform_def as_outcome_eq apfst_eq

lemma store_perform_failed:
  assumes "store_perform A op w = Some (Failed e, w')"
  shows "case op of
      Create rec \<Rightarrow> \<exists>rec'. store_create A rec w = Some (Inl e, rec', w')
    | Save rec \<Rightarrow> store_save A rec w = (Inl e, w')
    | Load i \<Rightarrow> store_load A i w = (Inl e, w')
    | Delete i \<Rightarrow> store_delete A i w = (Inl e, w')
    | Sweep \<Rightarrow> delete_expired A w = (Inl e, w')"
  using assms by (cases op) (auto simp: store_perform_simps)

lemma store_perform_created:
  "store_perform A op w = Some (Created rec', w') \<Longrightarrow>
     \<exists>rec. op = Create rec \<and> store_create A rec w = Some (Inr (), rec', w')"
  by (cases op) (auto simp: store_perform_simps)

lemma store_perform_loaded:
  "store_perform A op w = Some (Loaded r, w') \<Longrightarrow> \<exists>i. op = Load i \<and> store_load A i w = (Inr r, w')"
  by (cases op) (auto simp: store_perform_simps)

lemma store_perform_finished:
  assumes "store_perform A op w = Some (Finished, w')"
  obtains (save) rec where "op = Save rec" "store_save A rec w = (Inr (), w')"
  | (delete) i where "op = Delete i" "store_delete A i w = (Inr (), w')"
  | (sweep) "op = Sweep" "delete_expired A w = (Inr (), w')"
  using assms by (cases op) (auto simp: store_perform_simps)

lemma failed_keeps_table:
  assumes laws: "table_laws A table" and "store_perform A op w = Some (Failed e, w')"
  shows "table w' = table w"
proof -
  note f = store_perform_failed [OF assms(2)]
  have "table w' = table w" if "store_save A rec w = (Inl e, w')" for rec
    using that by (auto simp: store_save_def dest!: store_execute_table [OF laws] split: sum.splits)
  moreover have "table w' = table w" if "store_delete A i w = (Inl e, w')" for i
    using that by (auto simp: store_delete_def dest!: store_execute_table [OF laws])
  ultimately show ?thesis
    using f store_create_ok [OF laws] load_table [OF laws] delete_expired_failed [OF laws]
    by (cases op) (auto split: if_splits)
qed

lemma save_writes:
  assumes laws: "table_laws A table" and "store_save A rec w = (Inr (), w')"
  shows "\<exists>j. from_value A j = Inr (sr_data rec) \<and> table w' = (table w)(sr_id rec \<mapsto> (j, sr_expiry_date rec))"
proof -
  from assms(2) obtain j where j: "to_value A (sr_data rec) = Inr j"
    and ex: "store_execute A (Upsert (sr_id rec) j (sr_expiry_date rec)) w = (Inr (), w')"
    by (cases "to_value A (sr_data rec)") (auto simp: store_save_def encode_record_def)
  from laws j have "from_value A j = Inr (sr_data rec)" by (simp add: table_laws_def)
  with store_execute_table [OF laws ex] show ?thesis by (auto simp: statement_effect_def)
qed

lemma created_refines:
  assumes laws: "table_laws A table" and wf: "readable A (table w)"
    and made: "store_create A rec w = Some (Inr (), rec', w')"
  shows "readable A (table w')
    \<and> session_spec now (Create rec) (table_view A (table w)) (Created rec') (table_view A (table w'))"
proof -
  from store_create_ok [OF laws made] obtain j where free: "table w (sr_id rec') = None"
    and rec': "sr_data rec' = sr_data rec" "sr_expiry_date rec' = sr_expiry_date rec"
    and j: "to_value A (sr_data rec) = Inr j"
    and t: "table w' = (table w)(sr_id rec' \<mapsto> (j, sr_expiry_date rec))" by auto
  have dec: "from_value A j = Inr (sr_data rec)" using laws j by (simp add: table_laws_def)
  from free wf have "table_view A (table w) (sr_id rec') = None" by (simp add: view_none)
  moreover have "rec' = rec\<lparr>sr_id := sr_id rec'\<rparr>" using rec' by simp
  ultimately have "session_spec now (Create rec) (table_view A (table w)) (Created rec')
      (put_record rec' (table_view A (table w)))" by (rule spec_create)
  then show ?thesis
    using readable_upd [OF wf dec] view_upd [OF dec] rec' by (simp add: t put_record_def)
qed

lemma loaded_refines:
  assumes laws: "table_laws A table" and wf: "readable A (table w)" and load: "store_load A i w = (Inr r, w')"
  shows "table w' = table w \<and> r = visible (store_clock A w) i (table_view A (table w))"
proof (cases "table w i")
  case None
  with load_result(1,2) [OF laws load] show ?thesis by (simp add: visible_def table_view_def)
next
  case (Some row)
  with wf obtain j e d where "table w i = Some (j, e)" "from_value A j = Inr d"
    unfolding readable_def by (metis surj_pair)
  with load_result(1,3) [OF laws load] show ?thesis
    by (simp add: visible_def table_view_def store_clock_def)
qed

lemma finished_refines:
  assumes laws: "table_laws A table" and wf: "readable A (table w)"
    and act: "store_perform A op w = Some (Finished, w')"
  shows "readable A (table w')
    \<and> session_spec (store_clock A w) op (table_view A (table w)) Finished (table_view A (table w'))"
  using act
proof (cases rule: store_perform_finished)
  case (save rec)
  from save_writes [OF laws save(2)] obtain j where dec: "from_value A j = Inr (sr_data rec)"
    and t: "table w' = (table w)(sr_id rec \<mapsto> (j, sr_expiry_date rec))" by blast
  show ?thesis
    unfolding save(1) t view_upd [OF dec] put_record_def [symmetric] by (intro conjI readable_upd [OF wf dec] spec_save)
next
  case (delete i)
  from store_execute_table [OF laws delete(2) [unfolded store_delete_def]]
  have t: "table w' = (table w)(i := None)" by (simp add: statement_effect_def)
  have "readable A (table w')" using wf by (rule readable_none) (simp add: t map_le_def)
  then show ?thesis unfolding delete(1) t view_del by (intro conjI spec_delete)
next
  case sweep
  from delete_expired_table [OF laws sweep(2)]
  have t: "table w' = statement_effect (DeleteBefore (store_clock A w)) (table w)"
    by (simp add: store_clock_def)
  have "readable A (table w')" using wf by (rule readable_none) (simp add: t sweep_le)
  then show ?thesis unfolding sweep(1) t view_sweep by (intro conjI spec_sweep)
qed

lemma store_refines:
  assumes laws: "table_laws A table" and wf: "readable A (table w)"
    and act: "store_perform A op w = Some (out, w')"
  shows "readable A (table w')
    \<and> session_spec (store_clock A w) op (table_view A (table w)) out (table_view A (table w'))"
proof (cases out)
  case (Failed e)
  with failed_keeps_table [OF laws] act wf show ?thesis by (simp add: spec_failed)
next
  case (Created rec')
  with store_perform_created [of A op w rec' w'] act created_refines [OF laws wf] show ?thesis by blast
next
  case (Loaded r)
  with store_perform_loaded [of A op w r w'] act loaded_refines [OF laws wf] wf show ?thesis by fastforce
next
  case Finished
  with finished_refines [OF laws wf] act show ?thesis by simp
qed

interpretation diesel_store: expiring_store "store_perform A" "store_clock A"
  "\<lambda>w. table_view A (table w)" "\<lambda>w. table_laws A table \<and> readable A (table w)" for A table
  by unfold_locales (auto dest: store_refines)

section \<open>Properties\<close>

text \<open>
  C13: the session store is an expiring map. Whatever sequence of creates, saves, loads, deletes and sweeps runs
  on it, and whichever of them fail: every step is one of the abstract store, so a create takes an unused id, a
  failed operation changes nothing, and a record can be read up to its expiry date and not after. As long as the
  clock does not run backwards, a load gives exactly what the successful writes before it left under that id;
  the sweeps in between never show.
\<close>

theorem session_store_refines:
  assumes "table_laws A table" and "readable A (table w)"
    and "performs (store_perform A) (store_clock A) ops w = Some (h, w')"
  shows "readable A (table w') \<and> spec_run h (table_view A (table w)) (table_view A (table w'))
    \<and> (\<forall>i r w''. sorted (map fst h @ [store_clock A w']) \<and> store_load A i w' = (Inr r, w'') \<longrightarrow>
         r = visible (store_clock A w') i (written h (table_view A (table w))))"
proof -
  have wf: "table_laws A table \<and> readable A (table w)" using assms(1,2) by blast
  note runs = diesel_store.performs_refines [OF wf assms(3)]
  have "r = visible (store_clock A w') i (written h (table_view A (table w)))"
    if "sorted (map fst h @ [store_clock A w'])" and load: "store_load A i w' = (Inr r, w'')" for i r w''
  proof (rule diesel_store.load_reads_history [OF wf assms(3) that(1)])
    show "store_perform A (Load i) w' = Some (Loaded r, w'')" using load by (simp add: store_perform_def)
  qed
  with runs show ?thesis by blast
qed

theorem session_store_refines_witness:
  "\<exists>h w' w''. performs (store_perform memory_store) (store_clock memory_store)
       [Save demo_record, Sweep, Delete 5] (Map.empty, 10) = Some (h, w')
     \<and> store_load memory_store 3 w' = (Inr (Some demo_record), w'')"
proof -
  let ?ops = "[Save demo_record, Sweep, Delete 5] :: (nat, string) session_op list"
  note eval = store_perform_def store_save_def encode_record_def store_execute_def store_conn_def
    memory_store_def delete_expired_def store_delete_def store_clock_def
  obtain t where run: "performs (store_perform memory_store) (store_clock memory_store) ?ops (Map.empty, 10)
      = Some ([(10, Save demo_record, Finished), (10, Sweep, Finished), (10, Delete 5, Finished)], (t, 10))"
    by (simp add: eval)
  have clock: "store_clock memory_store (t, 10) = 10" by (simp add: eval)
  obtain res where load: "store_load memory_store 3 (t, 10) = (Inr res, (t, 10))" using memory_load by blast
  have "readable memory_store (fst (Map.empty, 10))" by (simp add: readable_def)
  from session_store_refines [OF memory_store_laws this run, THEN conjunct2, THEN conjunct2, rule_format,
      of 3 res "(t, 10)"] load
  have "res = Some demo_record"
    by (simp add: clock visible_def put_record_def demo_record_def)
  with run load show ?thesis by blast
qed

end
