(* ===== verification/Web_Banner.thy ===== *)
theory Web_Banner
  imports Core_Ctx
begin

text \<open>
  \<open>muxa-web/src/banner.rs\<close>: the block of mounted routes in the launch banner, rendered from the
  registry when the web plugin is built.
\<close>

definition FALLBACK :: string where
  "FALLBACK = ''/*''"

definition display_prefix :: "string \<Rightarrow> string" where
  "display_prefix prefix = (if prefix = [] then ''/'' else prefix)"

text \<open>\<open>{prefix:width$}\<close> of a string: padded on the right to \<open>width\<close> characters.\<close>

definition pad_right :: "nat \<Rightarrow> string \<Rightarrow> string" where
  "pad_right width s = s @ replicate (width - length (utf8_chars s)) CHR '' ''"

definition newline :: string where
  "newline = [CHR 0x0A]"

definition banner_rows :: "'r router_registry \<Rightarrow> (string \<times> string) list" where
  "banner_rows registry =
     map (\<lambda>(prefix, mode).
            (display_prefix prefix, (case mode of Auto \<Rightarrow> ''auto'' | Manual \<Rightarrow> ''manual'')))
         (mounts registry)
     @ (if has_fallback registry then [(FALLBACK, ''fallback'')] else [])"

definition banner_row :: "nat \<Rightarrow> string \<times> string \<Rightarrow> string" where
  "banner_row width row =
     (case row of (prefix, tag) \<Rightarrow>
        ''    '' @ pad_right width prefix @ ''  ('' @ tag @ '')'' @ newline)"

definition no_routes_line :: string where
  "no_routes_line = ''    (none '' @ [CHR 0xE2, CHR 0x80, CHR 0x94]
     @ '' only plugin-installed middleware will run)'' @ newline"

definition banner_routes :: "'r router_registry \<Rightarrow> string" where
  "banner_routes registry =
     (let out = ''  routes (mounted)'' @ newline;
          rows = banner_rows registry
      in if rows = [] then out @ no_routes_line
         else (let prefix_width = Max (set (map (\<lambda>row. length (fst row)) rows))
               in foldl (\<lambda>out row. out @ banner_row prefix_width row) out rows))"

text \<open>\<open>print\<close>: the lines written to stderr, with \<open>bound\<close> as \<open>SocketAddr\<close> displays it.\<close>

definition banner_print :: "string \<Rightarrow> string \<Rightarrow> string" where
  "banner_print bound routes =
     newline
     @ [CHR 0xF0, CHR 0x9F, CHR 0xAA, CHR 0xA1] @ ''  muxa serving at http://'' @ bound @ ''/'' @ newline
     @ newline @ routes @ newline"

section \<open>Lemmas\<close>

lemma length_utf8_chars_le: "length (utf8_chars s) \<le> length s"
proof (induction s rule: utf8_chars.induct)
  case 1
  then show ?case by simp
next
  case (2 c s)
  have "0 < utf8_width c" by simp
  then have "length (drop (utf8_width c) (c # s)) \<le> length s"
    unfolding length_drop length_Cons by linarith
  with 2 show ?case by (simp del: drop_Cons take_Cons)
qed

text \<open>The column at which the tag of a row starts, in characters of its prefix part.\<close>

definition padded_width :: "nat \<Rightarrow> string \<Rightarrow> nat" where
  "padded_width width s = length (utf8_chars s) + (width - length (utf8_chars s))"

lemma padded_width_eq: "length s \<le> width \<Longrightarrow> padded_width width s = width"
  using length_utf8_chars_le [of s] by (simp add: padded_width_def)

lemma foldl_append: "foldl (\<lambda>out x. out @ f x) a xs = a @ concat (map f xs)"
  by (induction xs arbitrary: a) auto

text \<open>
  The banner lists every mount of the registry, automatic and manual, once, in registration
  order, then the fallback if there is one, and nothing else; it says that there are none exactly
  when there are none; and every row's tag starts in the same column, whatever characters the
  prefixes hold.
\<close>

theorem banner_lists_registry:
  "(banner_routes registry =
      (let rows = banner_rows registry; width = Max (set (map (\<lambda>row. length (fst row)) rows))
       in ''  routes (mounted)'' @ newline
          @ (if rr_routes registry = [] \<and> rr_fallback registry = None then no_routes_line
             else concat (map (banner_row width) rows))))
   \<and> length (banner_rows registry) = length (rr_routes registry) + (if rr_fallback registry = None then 0 else 1)
   \<and> list_all (\<lambda>row. padded_width (Max (set (map (\<lambda>row. length (fst row)) (banner_rows registry)))) (fst row)
                = Max (set (map (\<lambda>row. length (fst row)) (banner_rows registry)))) (banner_rows registry)"
proof -
  let ?rows = "banner_rows registry"
  let ?w = "Max (set (map (\<lambda>row. length (fst row)) ?rows))"
  have empty: "?rows = [] \<longleftrightarrow> rr_routes registry = [] \<and> rr_fallback registry = None"
    by (auto simp: banner_rows_def mounts_def has_fallback_def)
  have "length (fst row) \<le> ?w" if "row \<in> set ?rows" for row
    using that by (intro Max_ge) auto
  then have "list_all (\<lambda>row. padded_width ?w (fst row) = ?w) ?rows"
    by (auto simp: list_all_iff padded_width_eq)
  moreover have "banner_routes registry = ''  routes (mounted)'' @ newline
      @ (if ?rows = [] then no_routes_line else concat (map (banner_row ?w) ?rows))"
    by (simp add: banner_routes_def Let_def foldl_append)
  moreover have "length ?rows = length (rr_routes registry) + (if rr_fallback registry = None then 0 else 1)"
    by (auto simp: banner_rows_def mounts_def has_fallback_def)
  ultimately show ?thesis unfolding Let_def empty by blast
qed

end
