(* ===== verification/Openapi.thy ===== *)
theory Openapi
  imports Core_App
begin

text \<open>
  \<open>muxa-openapi/src/lib.rs\<close>: the router that serves an OpenAPI document and its docs page.

  aide's document is a type \<open>'api\<close> with \<open>serde_json::to_vec\<close> as \<open>to_json\<close>; axum's
  \<open>Router::new().route(path, get(handler))\<close> is \<open>add_route\<close> on \<open>'r\<close>. A handler always answers with
  the same response, so it is modelled by that response.
\<close>

definition default_json_path :: string where
  "default_json_path = ''/openapi.json''"

definition default_docs_path :: string where
  "default_docs_path = ''/docs''"

definition default_title :: string where
  "default_title = ''muxa API''"

record openapi_config =
  oc_json_path :: string
  oc_docs_path :: string
  oc_title :: string

definition openapi_config_default :: openapi_config where
  "openapi_config_default =
     \<lparr>oc_json_path = default_json_path, oc_docs_path = default_docs_path, oc_title = default_title\<rparr>"

text \<open>One character of the loop of \<open>escape_html\<close>; \<open>CHR 34\<close> is the double and \<open>CHR 39\<close> the single quote.\<close>

definition escape_char :: "string \<Rightarrow> string" where
  "escape_char ch =
     (if ch = ''&'' then ''&amp;''
      else if ch = ''<'' then ''&lt;''
      else if ch = ''>'' then ''&gt;''
      else if ch = [CHR 34] then ''&quot;''
      else if ch = [CHR 39] then ''&#39;''
      else ch)"

definition special_chars :: string where
  "special_chars = [CHR ''&'', CHR ''<'', CHR ''>'', CHR 34, CHR 39]"

definition escape_html :: "string \<Rightarrow> string" where
  "escape_html text =
     (if \<not> list_ex (\<lambda>c. c \<in> set special_chars) text then text
      else foldl (\<lambda>escaped ch. escaped @ escape_char ch) [] (utf8_chars text))"

definition quote :: string where
  "quote = [CHR 34]"

definition nl :: string where
  "nl = [CHR 0x0A]"

text \<open>The page up to the title, from there to the \<open>data-url\<close> attribute, and the rest.\<close>

definition html_head :: string where
  "html_head = ''<!doctype html>'' @ nl @ ''<html>'' @ nl @ ''  <head>'' @ nl @ ''    <title>''"

definition html_mid :: string where
  "html_mid = ''</title>'' @ nl
     @ ''    <meta charset='' @ quote @ ''utf-8'' @ quote @ '' />'' @ nl
     @ ''    <meta name='' @ quote @ ''viewport'' @ quote @ '' content='' @ quote
     @ ''width=device-width, initial-scale=1'' @ quote @ '' />'' @ nl
     @ ''  </head>'' @ nl @ ''  <body>'' @ nl
     @ ''    <script id='' @ quote @ ''api-reference'' @ quote @ '' data-url='' @ quote"

definition html_tail :: string where
  "html_tail = quote @ ''></script>'' @ nl
     @ ''    <script src='' @ quote @ ''https://cdn.jsdelivr.net/npm/@scalar/api-reference'' @ quote
     @ ''></script>'' @ nl @ ''  </body>'' @ nl @ ''</html>'' @ nl"

definition scalar_html :: "string \<Rightarrow> string \<Rightarrow> string" where
  "scalar_html json_path title =
     (let json_path = escape_html json_path;
          title = escape_html title
      in html_head @ title @ html_mid @ json_path @ html_tail)"

datatype docs_response =
    WithContentType string string
  | Html string

text \<open>\<open>add_route path handler r\<close> is \<open>r.route(path, get(handler))\<close>.\<close>

definition docs_router ::
    "'r axum_api \<Rightarrow> (string \<Rightarrow> docs_response \<Rightarrow> 'r \<Rightarrow> 'r) \<Rightarrow> ('api \<Rightarrow> string + string) \<Rightarrow> 'api
      \<Rightarrow> openapi_config \<Rightarrow> 'r result" where
  "docs_router A add_route to_json api cfg =
     (case map_err error_other (to_json api) of
        Inl e \<Rightarrow> Inl e
      | Inr json \<Rightarrow>
          (let docs = scalar_html (oc_json_path cfg) (oc_title cfg);
               content_type = ''application/json''
           in Inr (add_route (oc_docs_path cfg) (Html docs)
                (add_route (oc_json_path cfg) (WithContentType content_type json) (router_new A)))))"

definition openapi_build ::
    "'r axum_api \<Rightarrow> (string \<Rightarrow> docs_response \<Rightarrow> 'r \<Rightarrow> 'r) \<Rightarrow> ('api \<Rightarrow> string + string) \<Rightarrow> 'api
      \<Rightarrow> openapi_config \<Rightarrow> ('fig, 'r, 'tok, 'w, 'h, 'l) build_ctx \<Rightarrow> 'w
      \<Rightarrow> unit result \<times> ('fig, 'r, 'tok, 'w, 'h, 'l) build_ctx \<times> 'w" where
  "openapi_build A add_route to_json api cfg ctx w =
     (case docs_router A add_route to_json api cfg of
        Inl e \<Rightarrow> (Inl e, ctx, w)
      | Inr router \<Rightarrow> (Inr (), ctx\<lparr>bc_router := mount_auto ''/'' router (bc_router ctx)\<rparr>, w))"

interpretation openapi_extends: ctx_extender
  "\<lambda>(A, add_route, to_json, api, cfg, w) ctx. openapi_build A add_route to_json api cfg ctx w"
  by unfold_locales (auto simp: openapi_build_def split: sum.splits)

section \<open>Escaping\<close>

text \<open>The escape of a byte, and what an HTML parser reads back from the five entities.\<close>

definition escape_byte :: "char \<Rightarrow> string" where
  "escape_byte c = escape_char [c]"

definition entities :: "(string \<times> char) list" where
  "entities = [(''amp;'', CHR ''&''), (''lt;'', CHR ''<''), (''gt;'', CHR ''>''), (''quot;'', CHR 34),
     (''#39;'', CHR 39)]"

function unescape :: "string \<Rightarrow> string" where
  "unescape [] = []"
| "unescape (c # s) =
     (case (if c = CHR ''&'' then find (\<lambda>e. starts_with (fst e) s) entities else None) of
        Some (name, ch) \<Rightarrow> ch # unescape (drop (length name) s)
      | None \<Rightarrow> c # unescape s)"
  by pat_completeness auto
termination
  by (relation "measure length") auto

lemma foldl_escape: "foldl (\<lambda>out ch. out @ f ch) out chs = out @ concat (map f chs)"
  by (induction chs arbitrary: out) auto

lemma escape_byte_plain: "c \<notin> set special_chars \<Longrightarrow> escape_byte c = [c]"
  by (simp add: escape_byte_def escape_char_def special_chars_def)

lemma special_chars_ascii: "c \<in> set special_chars \<Longrightarrow> byte c < 128"
  by (auto simp: special_chars_def byte_def)

lemma concat_escape_plain: "\<forall>c \<in> set s. c \<notin> set special_chars \<Longrightarrow> concat (map escape_byte s) = s"
  by (induction s) (simp_all add: escape_byte_plain)

lemma escape_char_bytes:
  assumes "length ch = 1 \<or> list_all (\<lambda>c. 128 \<le> byte c) ch"
  shows "escape_char ch = concat (map escape_byte ch)"
proof (cases "length ch = 1")
  case True
  then obtain c where "ch = [c]" by (cases ch) auto
  then show ?thesis by (simp add: escape_byte_def)
next
  case False
  with assms have high: "list_all (\<lambda>c. 128 \<le> byte c) ch" by simp
  then have "\<forall>c \<in> set ch. c \<notin> set special_chars"
    using special_chars_ascii by (fastforce simp: list_all_iff)
  then have "concat (map escape_byte ch) = ch" by (rule concat_escape_plain)
  moreover from False have "escape_char ch = ch" by (auto simp: escape_char_def)
  ultimately show ?thesis by simp
qed

lemma concat_map_concat:
  "concat (map (\<lambda>ch. concat (map f ch)) chs) = concat (map f (concat chs))"
  by (induction chs) simp_all

text \<open>On a valid string the loop over the characters escapes byte by byte.\<close>

lemma escape_html_bytes:
  assumes "is_str s"
  shows "escape_html s = concat (map escape_byte s)"
proof (cases "list_ex (\<lambda>c. c \<in> set special_chars) s")
  case False
  then have "\<forall>c \<in> set s. c \<notin> set special_chars" by (simp add: list_ex_iff)
  with False show ?thesis by (simp add: escape_html_def concat_escape_plain)
next
  case True
  have "map escape_char (utf8_chars s) = map (\<lambda>ch. concat (map escape_byte ch)) (utf8_chars s)"
    using assms escape_char_bytes by (simp add: is_str_def list_all_iff)
  then have "escape_html s = concat (map (\<lambda>ch. concat (map escape_byte ch)) (utf8_chars s))"
    using True by (simp only: escape_html_def foldl_escape not_True_eq_False if_False append_Nil)
  also have "\<dots> = concat (map escape_byte (concat (utf8_chars s)))"
    by (rule concat_map_concat)
  finally show ?thesis by simp
qed

lemma escape_byte_safe: "set (escape_byte c) \<inter> {CHR ''<'', CHR ''>'', CHR 34, CHR 39} = {}"
  by (auto simp: escape_byte_def escape_char_def)

lemma escape_html_safe:
  assumes "is_str s"
  shows "set (escape_html s) \<inter> {CHR ''<'', CHR ''>'', CHR 34, CHR 39} = {}"
  using escape_byte_safe by (fastforce simp: escape_html_bytes [OF assms])

lemma unescape_byte: "unescape (escape_byte c @ s) = c # unescape s"
proof (cases "c \<in> set special_chars")
  case True
  then consider "c = CHR ''&''" | "c = CHR ''<''" | "c = CHR ''>''" | "c = CHR 34" | "c = CHR 39"
    by (auto simp: special_chars_def)
  then show ?thesis
    by cases (simp_all add: escape_byte_def escape_char_def entities_def starts_with_def)
next
  case False
  then have "c \<noteq> CHR ''&''" by (auto simp: special_chars_def)
  with False show ?thesis by (simp add: escape_byte_plain)
qed

lemma unescape_escape: "is_str s \<Longrightarrow> unescape (escape_html s) = s"
proof -
  assume "is_str s"
  have "unescape (concat (map escape_byte t)) = t" for t
    by (induction t) (simp_all add: unescape_byte)
  with \<open>is_str s\<close> show ?thesis by (simp add: escape_html_bytes)
qed

section \<open>Properties\<close>

text \<open>
  Escaping loses nothing and leaves nothing dangerous: a parser that resolves the entities
  reads the text back, the escaped text has no quote and no angle bracket, and a text without
  special characters is returned as it is. So different texts never render the same.
\<close>

theorem escape_html_roundtrip:
  assumes "is_str s"
  shows "unescape (escape_html s) = s
    \<and> set (escape_html s) \<inter> {CHR ''<'', CHR ''>'', CHR 34, CHR 39} = {}
    \<and> (set s \<inter> set special_chars = {} \<longrightarrow> escape_html s = s)
    \<and> (is_str t \<longrightarrow> escape_html t = escape_html s \<longrightarrow> t = s)"
proof (intro conjI impI)
  assume "is_str t" and "escape_html t = escape_html s"
  then show "t = s"
    using unescape_escape [OF \<open>is_str t\<close>] unescape_escape [OF assms] by argo
next
  assume "set s \<inter> set special_chars = {}"
  then have "\<not> list_ex (\<lambda>c. c \<in> set special_chars) s" by (auto simp: list_ex_iff)
  then show "escape_html s = s" by (simp only: escape_html_def if_True not_False_eq_True)
qed (rule unescape_escape [OF assms], rule escape_html_safe [OF assms])

theorem escape_html_roundtrip_witness:
  "unescape (escape_html ''Widgets <b>'') = ''Widgets <b>'' \<and> CHR ''<'' \<notin> set (escape_html ''Widgets <b>'')"
proof -
  have "is_str ''Widgets <b>''" by code_simp
  from escape_html_roundtrip [OF this, of "[]"] show ?thesis by auto
qed

text \<open>
  C36: the docs page keeps its shape whatever the configuration holds: between the fixed parts the
  title and the \<open>data-url\<close> attribute are the first stretches without an angle bracket or a quote,
  so a parser that reads up to the next of them gets back exactly the configured title and path.
\<close>

theorem scalar_html_injection_free:
  assumes "is_str json_path" and "is_str title"
  shows "\<exists>rest rest'. scalar_html json_path title = html_head @ rest
    \<and> unescape (takeWhile (\<lambda>c. c \<noteq> CHR ''<'') rest) = title
    \<and> dropWhile (\<lambda>c. c \<noteq> CHR ''<'') rest = html_mid @ rest'
    \<and> unescape (takeWhile (\<lambda>c. c \<noteq> CHR 34) rest') = json_path
    \<and> dropWhile (\<lambda>c. c \<noteq> CHR 34) rest' = html_tail"
proof -
  let ?t = "escape_html title" and ?j = "escape_html json_path"
  have mid: "html_mid @ u = CHR ''<'' # tl html_mid @ u" for u
    by (simp add: html_mid_def)
  have tail: "html_tail = CHR 34 # tl html_tail" by (simp add: html_tail_def quote_def)
  have t: "\<forall>c \<in> set ?t. c \<noteq> CHR ''<''" and j: "\<forall>c \<in> set ?j. c \<noteq> CHR 34"
    using escape_html_safe [OF assms(2)] escape_html_safe [OF assms(1)] by auto
  have "takeWhile (\<lambda>c. c \<noteq> CHR ''<'') (?t @ html_mid @ u) = ?t
      \<and> dropWhile (\<lambda>c. c \<noteq> CHR ''<'') (?t @ html_mid @ u) = html_mid @ u" for u
    using t by (subst (1 2 3) mid) (simp add: takeWhile_append dropWhile_append)
  moreover have "takeWhile (\<lambda>c. c \<noteq> CHR 34) (?j @ html_tail) = ?j
      \<and> dropWhile (\<lambda>c. c \<noteq> CHR 34) (?j @ html_tail) = html_tail"
    using j by (subst (1 2 3) tail) (simp add: takeWhile_append dropWhile_append)
  ultimately show ?thesis
    using unescape_escape [OF assms(1)] unescape_escape [OF assms(2)]
    by (intro exI [of _ "?t @ html_mid @ ?j @ html_tail"] exI [of _ "?j @ html_tail"])
      (simp add: scalar_html_def Let_def)
qed

theorem scalar_html_injection_free_witness:
  "\<exists>rest. scalar_html ''/spec.json'' ''A <b>'' = html_head @ rest
    \<and> unescape (takeWhile (\<lambda>c. c \<noteq> CHR ''<'') rest) = ''A <b>''"
proof -
  have "is_str ''/spec.json''" "is_str ''A <b>''" by code_simp+
  from scalar_html_injection_free [OF this] show ?thesis by blast
qed

end
