(* ===== verification/Web_Server.thy ===== *)
theory Web_Server
  imports Web_Banner Openapi
begin

text \<open>
  \<open>muxa-web/src/lib.rs\<close>: the configuration of the web plugin, the two plugins that own the serve
  loop (\<open>WebPlugin\<close>, \<open>ApiPlugin\<close>), the loop itself and the binding of its listener.

  Sockets, name resolution, signals and \<open>axum::serve\<close> are the operations of \<open>net_api\<close> on the
  world \<open>'w\<close>: \<open>'a\<close> is a socket address, \<open>'s\<close> a socket, \<open>'ln\<close> a listener, \<open>'c\<close> a connection.
\<close>

section \<open>Configuration\<close>

definition default_host :: string where
  "default_host = ''0.0.0.0''"

definition default_port :: u16 where
  "default_port = 3000"

definition default_true :: bool where
  "default_true = True"

record web_config =
  wc_host :: string
  wc_port :: u16
  wc_banner :: bool
  wc_backlog :: "u32 option"
  wc_tcp_nodelay :: bool

definition web_config_default :: web_config where
  "web_config_default =
     \<lparr>wc_host = default_host, wc_port = default_port, wc_banner = True, wc_backlog = None,
      wc_tcp_nodelay = True\<rparr>"

text \<open>
  The derived \<open>Deserialize\<close> from the values the section holds: \<open>default_true\<close> for the two fields
  that name it, the container's \<open>Default\<close> for the others.
\<close>

definition web_config_of ::
    "string option \<Rightarrow> u16 option \<Rightarrow> bool option \<Rightarrow> u32 option option \<Rightarrow> bool option \<Rightarrow> web_config" where
  "web_config_of host port banner backlog tcp_nodelay =
     \<lparr>wc_host = (case host of Some h \<Rightarrow> h | None \<Rightarrow> wc_host web_config_default),
      wc_port = (case port of Some p \<Rightarrow> p | None \<Rightarrow> wc_port web_config_default),
      wc_banner = (case banner of Some b \<Rightarrow> b | None \<Rightarrow> default_true),
      wc_backlog = (case backlog of Some b \<Rightarrow> b | None \<Rightarrow> wc_backlog web_config_default),
      wc_tcp_nodelay = (case tcp_nodelay of Some b \<Rightarrow> b | None \<Rightarrow> default_true)\<rparr>"

text \<open>\<open>str::parse::<u32>()\<close>: an optional plus sign, then digits, without overflow.\<close>

definition digits_value :: "string \<Rightarrow> nat" where
  "digits_value s = foldl (\<lambda>acc c. acc * 10 + (byte c - 48)) 0 s"

definition parse_u32 :: "string \<Rightarrow> u32 option" where
  "parse_u32 s =
     (let digits = (case s of c # rest \<Rightarrow> if c = CHR ''+'' then rest else s | [] \<Rightarrow> [])
      in if digits = [] \<or> \<not> list_all is_ascii_digit digits \<or> 2 ^ 32 \<le> digits_value digits then None
         else Some (of_nat (digits_value digits)))"

text \<open>\<open>somaxconn\<close> is the content of the file in \<open>/proc\<close>, if it reads.\<close>

definition host_backlog_ceiling :: "bool \<Rightarrow> string option \<Rightarrow> u32 option" where
  "host_backlog_ceiling linux somaxconn =
     (if linux then (case somaxconn of None \<Rightarrow> None | Some text \<Rightarrow> parse_u32 (str_trim text)) else None)"

definition default_backlog :: "bool \<Rightarrow> string option \<Rightarrow> u32" where
  "default_backlog linux somaxconn =
     (case host_backlog_ceiling linux somaxconn of Some n \<Rightarrow> n | None \<Rightarrow> 1024)"

definition WEB_ENV_FALLBACKS :: "env_fallback list" where
  "WEB_ENV_FALLBACKS = [\<lparr>ef_var = ''PORT'', ef_key = ''port''\<rparr>]"

definition no_routes :: "'r axum_api \<Rightarrow> 'v hlist \<Rightarrow> 'r" where
  "no_routes A state = router_new A"

section \<open>Binding\<close>

datatype io_error = IoError (io_kind: string) (io_text: string)

text \<open>\<open>?\<close> of an \<open>io::Error\<close> in a function that returns muxa's \<open>Result\<close>.\<close>

definition from_io :: "io_error \<Rightarrow> error" where
  "from_io e = Io (io_text e)"

record ('a, 's, 'ln, 'c, 'r, 'tok, 'w) net_api =
  lookup_host :: "string \<times> u16 \<Rightarrow> 'w \<Rightarrow> (io_error + 'a list) \<times> 'w"
  is_ipv4 :: "'a \<Rightarrow> bool"
  new_v4 :: "'w \<Rightarrow> (io_error + 's) \<times> 'w"
  new_v6 :: "'w \<Rightarrow> (io_error + 's) \<times> 'w"
  set_reuseaddr :: "'s \<Rightarrow> bool \<Rightarrow> 'w \<Rightarrow> (io_error + unit) \<times> 'w"
  sock_bind :: "'s \<Rightarrow> 'a \<Rightarrow> 'w \<Rightarrow> (io_error + unit) \<times> 'w"
  sock_listen :: "'s \<Rightarrow> u32 \<Rightarrow> 'w \<Rightarrow> (io_error + 'ln) \<times> 'w"
  local_addr :: "'ln \<Rightarrow> io_error + 'a"
  addr_display :: "'a \<Rightarrow> string"
  eprint :: "string \<Rightarrow> 'w \<Rightarrow> 'w"
  set_nodelay :: "'c \<Rightarrow> bool \<Rightarrow> 'w \<Rightarrow> (io_error + unit) \<times> 'w"
  axum_serve :: "'ln \<Rightarrow> ('c \<Rightarrow> 'w \<Rightarrow> 'w) \<Rightarrow> 'r \<Rightarrow> 'tok \<Rightarrow> 'w \<Rightarrow> (io_error + unit) \<times> 'w"
  ctrl_c :: "'w \<Rightarrow> (io_error + unit) \<times> 'w"
  spawn_detached :: "('w \<Rightarrow> 'w) \<Rightarrow> 'w \<Rightarrow> 'w"
  cancel_token :: "'tok \<Rightarrow> 'w \<Rightarrow> 'w"

definition bind_host :: "string \<Rightarrow> string" where
  "bind_host host =
     (case (case strip_prefix ''['' host of Some inner \<Rightarrow> strip_suffix '']'' inner | None \<Rightarrow> None) of
        Some inner \<Rightarrow> inner
      | None \<Rightarrow> host)"

text \<open>\<open>let x = op()?;\<close> on the world.\<close>

definition io_then ::
    "('w \<Rightarrow> ('e + 'x) \<times> 'w) \<Rightarrow> ('x \<Rightarrow> 'w \<Rightarrow> ('e + 'y) \<times> 'w) \<Rightarrow> 'w \<Rightarrow> ('e + 'y) \<times> 'w" where
  "io_then m k w = (case m w of (Inl e, w) \<Rightarrow> (Inl e, w) | (Inr x, w) \<Rightarrow> k x w)"

definition listen_on ::
    "bool \<Rightarrow> ('a, 's, 'ln, 'c, 'r, 'tok, 'w) net_api \<Rightarrow> 'a \<Rightarrow> u32 \<Rightarrow> 'w \<Rightarrow> (io_error + 'ln) \<times> 'w" where
  "listen_on unix N addr backlog =
     io_then (if is_ipv4 N addr then new_v4 N else new_v6 N) (\<lambda>socket.
     io_then (if unix then set_reuseaddr N socket True else (\<lambda>w. (Inr (), w))) (\<lambda>_.
     io_then (sock_bind N socket addr) (\<lambda>_.
     sock_listen N socket backlog)))"

text \<open>The loop of \<open>bind\<close>, with \<open>last_err\<close>.\<close>

fun bind_loop ::
    "bool \<Rightarrow> ('a, 's, 'ln, 'c, 'r, 'tok, 'w) net_api \<Rightarrow> string \<Rightarrow> u32 \<Rightarrow> 'a list \<Rightarrow> io_error option
      \<Rightarrow> 'w \<Rightarrow> (io_error + 'ln) \<times> 'w" where
  "bind_loop unix N host backlog [] last_err w =
     (Inl (case last_err of
             Some err \<Rightarrow> err
           | None \<Rightarrow> IoError ''InvalidInput'' (''`'' @ host @ ''` resolved to no address'')), w)"
| "bind_loop unix N host backlog (addr # addrs) last_err w =
     (case listen_on unix N addr backlog w of
        (Inr listener, w) \<Rightarrow> (Inr listener, w)
      | (Inl err, w) \<Rightarrow> bind_loop unix N host backlog addrs (Some err) w)"

definition bind_listener ::
    "bool \<Rightarrow> ('a, 's, 'ln, 'c, 'r, 'tok, 'w) net_api \<Rightarrow> string \<Rightarrow> u16 \<Rightarrow> u32 \<Rightarrow> 'w
      \<Rightarrow> (io_error + 'ln) \<times> 'w" where
  "bind_listener unix N host port backlog =
     io_then (lookup_host N (bind_host host, port)) (\<lambda>addrs.
       bind_loop unix N host backlog addrs None)"

section \<open>Serving\<close>

definition nodelay_tap ::
    "('a, 's, 'ln, 'c, 'r, 'tok, 'w) net_api \<Rightarrow> bool \<Rightarrow> 'c \<Rightarrow> 'w \<Rightarrow> 'w" where
  "nodelay_tap N tcp_nodelay tcp w = (if tcp_nodelay then snd (set_nodelay N tcp True w) else w)"

definition serve ::
    "('a, 's, 'ln, 'c, 'r, 'tok, 'w) net_api \<Rightarrow> 'ln \<Rightarrow> 'r \<Rightarrow> bool \<Rightarrow> 'tok \<Rightarrow> 'w
      \<Rightarrow> (io_error + unit) \<times> 'w" where
  "serve N listener router tcp_nodelay shutdown =
     axum_serve N listener (nodelay_tap N tcp_nodelay) router shutdown"

text \<open>The task that turns ctrl-c into a shutdown.\<close>

definition signal_bridge :: "('a, 's, 'ln, 'c, 'r, 'tok, 'w) net_api \<Rightarrow> 'tok \<Rightarrow> 'w \<Rightarrow> 'w" where
  "signal_bridge N signal_token w =
     (let (signal, w) = ctrl_c N w in if is_err signal then w else cancel_token N signal_token w)"

text \<open>What the build fixes: the target, the \<open>graceful-shutdown\<close> feature and the kernel's ceiling.\<close>

record server_env =
  se_unix :: bool
  se_linux :: bool
  se_graceful :: bool
  se_somaxconn :: "string option"

definition serve_loop ::
    "server_env \<Rightarrow> ('a, 's, 'ln, 'c, 'r, 'tok, 'w) net_api \<Rightarrow> 'r \<Rightarrow> web_config \<Rightarrow> string option
      \<Rightarrow> 'tok \<Rightarrow> 'w \<Rightarrow> unit result \<times> 'w" where
  "serve_loop E N router cfg routes shutdown w =
     (let backlog = (case wc_backlog cfg of
                       Some n \<Rightarrow> n
                     | None \<Rightarrow> default_backlog (se_linux E) (se_somaxconn E))
      in case bind_listener (se_unix E) N (wc_host cfg) (wc_port cfg) backlog w of
           (Inl e, w) \<Rightarrow> (Inl (from_io e), w)
         | (Inr listener, w) \<Rightarrow>
             (case local_addr N listener of
                Inl e \<Rightarrow> (Inl (from_io e), w)
              | Inr bound \<Rightarrow>
                  (let w = (case routes of
                              Some text \<Rightarrow> eprint N (banner_print (addr_display N bound) text) w
                            | None \<Rightarrow> w);
                       w = (if se_graceful E then spawn_detached N (signal_bridge N shutdown) w else w);
                       (r, w) = serve N listener router (wc_tcp_nodelay cfg) shutdown w
                   in (map_err from_io r, w))))"

section \<open>Plugins\<close>

definition schedule_serve ::
    "server_env \<Rightarrow> ('a, 's, 'ln, 'c, 'r, 'tok, 'w) net_api \<Rightarrow> web_config
      \<Rightarrow> ('fig, 'r, 'tok, 'w, 'h, 'l) build_ctx
      \<Rightarrow> unit result \<times> ('fig, 'r, 'tok, 'w, 'h, 'l) build_ctx" where
  "schedule_serve E N cfg ctx =
     (let routes = (if wc_banner cfg then Some (banner_routes (bc_router ctx)) else None);
          shutdown = bc_shutdown ctx;
          serve_fn = (\<lambda>router. serve_loop E N router cfg routes shutdown)
      in set_serve_fn serve_fn ctx)"

definition web_build ::
    "server_env \<Rightarrow> ('a, 's, 'ln, 'c, 'r, 'tok, 'w) net_api \<Rightarrow> ('v hlist \<Rightarrow> 'r) \<Rightarrow> web_config \<Rightarrow> 'v hlist
      \<Rightarrow> ('fig, 'r, 'tok, 'w, 'h, 'l) build_ctx \<Rightarrow> 'w
      \<Rightarrow> unit result \<times> ('fig, 'r, 'tok, 'w, 'h, 'l) build_ctx \<times> 'w" where
  "web_build E N routes cfg state ctx w =
     (let user_router = routes state;
          ctx = ctx\<lparr>bc_router := mount_auto ''/'' user_router (bc_router ctx)\<rparr>;
          (r, ctx) = schedule_serve E N cfg ctx
      in (r, ctx, w))"

record api_config =
  ac_web :: web_config
  ac_openapi :: openapi_config

definition api_config_default :: api_config where
  "api_config_default = \<lparr>ac_web = web_config_default, ac_openapi = openapi_config_default\<rparr>"

definition api_read_config ::
    "('fig, 'val, 'prov) figment_api \<Rightarrow> ('fig \<Rightarrow> string \<Rightarrow> string + web_config)
      \<Rightarrow> ('fig \<Rightarrow> string \<Rightarrow> string + openapi_config) \<Rightarrow> (string \<Rightarrow> string option) \<Rightarrow> 'fig
      \<Rightarrow> api_config result" where
  "api_read_config F extr_web extr_openapi env fig =
     (case get_or_env F extr_web web_config_default env fig ''web'' WEB_ENV_FALLBACKS of
        Inl e \<Rightarrow> Inl e
      | Inr web \<Rightarrow>
          (case sections_get F extr_openapi openapi_config_default env fig ''openapi'' of
             Inl e \<Rightarrow> Inl e
           | Inr openapi \<Rightarrow> Inr \<lparr>ac_web = web, ac_openapi = openapi\<rparr>))"

text \<open>\<open>routes\<close> gives an \<open>ApiRouter\<close>; \<open>finish_api\<close> its axum router and the document filled in.\<close>

definition api_build ::
    "server_env \<Rightarrow> ('a, 's, 'ln, 'c, 'r, 'tok, 'w) net_api \<Rightarrow> 'r axum_api
      \<Rightarrow> (string \<Rightarrow> docs_response \<Rightarrow> 'r \<Rightarrow> 'r) \<Rightarrow> ('api \<Rightarrow> string + string)
      \<Rightarrow> ('ar \<Rightarrow> 'api \<Rightarrow> 'r \<times> 'api) \<Rightarrow> ('v hlist \<Rightarrow> 'ar) \<Rightarrow> 'api \<Rightarrow> api_config \<Rightarrow> 'v hlist
      \<Rightarrow> ('fig, 'r, 'tok, 'w, 'h, 'l) build_ctx \<Rightarrow> 'w
      \<Rightarrow> unit result \<times> ('fig, 'r, 'tok, 'w, 'h, 'l) build_ctx \<times> 'w" where
  "api_build E N A add_route to_json finish_api routes api cfg state ctx w =
     (let (router, api) = finish_api (routes state) api;
          ctx = ctx\<lparr>bc_router := mount_auto ''/'' router (bc_router ctx)\<rparr>
      in case docs_router A add_route to_json api (ac_openapi cfg) of
           Inl e \<Rightarrow> (Inl e, ctx, w)
         | Inr docs \<Rightarrow>
             (let ctx = ctx\<lparr>bc_router := mount_auto ''/'' docs (bc_router ctx)\<rparr>;
                  (r, ctx) = schedule_serve E N (ac_web cfg) ctx
              in (r, ctx, w)))"

section \<open>Lemmas\<close>

lemma schedule_serve_extends: "ctx_extends ctx (snd (schedule_serve E N cfg ctx))"
  by (simp add: schedule_serve_def Let_def)

lemma mount_schedule_extends:
  "ctx_extends ctx (snd (schedule_serve E N cfg (ctx\<lparr>bc_router := mount_auto p r (bc_router ctx)\<rparr>)))"
  by (rule ctx_extends_trans [OF ctx_extends_mount schedule_serve_extends])

lemma two_mounts_extend:
  "ctx_extends ctx (ctx\<lparr>bc_router := mount_auto p r (mount_auto q s (bc_router ctx))\<rparr>)"
  by (simp add: ctx_extends_def mount_auto_def)

interpretation web_extends: ctx_extender
  "\<lambda>(E, N, routes, cfg, state, w) ctx. web_build E N routes cfg state ctx w"
  by unfold_locales (simp add: web_build_def Let_def case_prod_beta mount_schedule_extends)

interpretation api_extends: ctx_extender
  "\<lambda>(E, N, A, add_route, to_json, finish_api, routes, api, cfg, state, w) ctx.
     api_build E N A add_route to_json finish_api routes api cfg state ctx w"
  by unfold_locales
    (auto simp: api_build_def Let_def case_prod_beta split: sum.split
      intro: ctx_extends_trans [OF two_mounts_extend schedule_serve_extends])

text \<open>A web plugin that builds: what it leaves in the context, and what a run then serves.\<close>

lemma web_build_ok:
  "web_build E N routes cfg state ctx w = (Inr (), ctx', w') \<longleftrightarrow>
     bc_serve_fn ctx = None \<and> w' = w
     \<and> (let reg = mount_auto ''/'' (routes state) (bc_router ctx)
        in ctx' = ctx\<lparr>bc_router := reg,
             bc_serve_fn := Some (\<lambda>router. serve_loop E N router cfg
               (if wc_banner cfg then Some (banner_routes reg) else None) (bc_shutdown ctx))\<rparr>)"
  by (auto simp: web_build_def schedule_serve_def set_serve_fn_def Let_def)

lemma web_build_run:
  assumes "web_build E N routes cfg state ctx w = (Inr (), ctx', w')"
  shows "fst (run T A \<lparr>ab_state = state', ab_ctx = ctx'\<rparr> w0)
      = fst (serve_loop E N (compose A (bc_router ctx')) cfg
          (if wc_banner cfg then Some (banner_routes (bc_router ctx')) else None) (bc_shutdown ctx)
          (snd (spawn_all (tokio_api.truncate T) (bc_shutdown ctx) (bc_tasks ctx) w0)))"
  using assms by (simp add: web_build_ok Let_def run_def case_prod_beta)

text \<open>The addresses that were tried in order and all failed, with their errors.\<close>

inductive refused ::
    "bool \<Rightarrow> ('a, 's, 'ln, 'c, 'r, 'tok, 'w) net_api \<Rightarrow> u32 \<Rightarrow> 'a list \<Rightarrow> 'w \<Rightarrow> io_error list \<Rightarrow> 'w
      \<Rightarrow> bool" for unix N backlog where
  refused_nil: "refused unix N backlog [] w [] w"
| refused_cons: "listen_on unix N a backlog w = (Inl e, w1) \<Longrightarrow> refused unix N backlog addrs w1 es w' \<Longrightarrow>
    refused unix N backlog (a # addrs) w (e # es) w'"

inductive_simps refused_Nil [simp]: "refused unix N backlog [] w es w'"
inductive_simps refused_Cons [simp]: "refused unix N backlog (a # addrs) w es w'"

definition bind_failure :: "string \<Rightarrow> io_error list \<Rightarrow> io_error option \<Rightarrow> io_error" where
  "bind_failure host es last_err =
     (if es \<noteq> [] then last es
      else case last_err of
             Some e \<Rightarrow> e
           | None \<Rightarrow> IoError ''InvalidInput'' (''`'' @ host @ ''` resolved to no address''))"

lemma bind_loop_iff:
  "bind_loop unix N host backlog addrs last_err w = (r, w') \<longleftrightarrow>
     (\<exists>pre a post es w1 l. addrs = pre @ a # post \<and> refused unix N backlog pre w es w1
        \<and> listen_on unix N a backlog w1 = (Inr l, w') \<and> r = Inr l)
     \<or> (\<exists>es. refused unix N backlog addrs w es w' \<and> r = Inl (bind_failure host es last_err))"
proof (induction addrs arbitrary: last_err w)
  case Nil
  then show ?case by (auto simp: bind_failure_def)
next
  case (Cons a addrs)
  obtain res w1 where l: "listen_on unix N a backlog w = (res, w1)" by (metis surj_pair)
  show ?case
  proof (cases res)
    case (Inr ln)
    have "pre = [] \<and> a' = a" if "a # addrs = pre @ a' # post" "refused unix N backlog pre w es w2"
      for pre a' post es w2
      using that l Inr by (cases pre) auto
    with l Inr show ?thesis by fastforce
  next
    case (Inl e)
    have "bind_failure host (e # es) last_err = bind_failure host es (Some e)" for es
      by (simp add: bind_failure_def)
    then have fail: "(\<exists>es. refused unix N backlog (a # addrs) w es w' \<and> r = Inl (bind_failure host es last_err))
        \<longleftrightarrow> (\<exists>es. refused unix N backlog addrs w1 es w' \<and> r = Inl (bind_failure host es (Some e)))"
      using l Inl by auto
    have ok: "(\<exists>pre a' post es w2 l'. a # addrs = pre @ a' # post \<and> refused unix N backlog pre w es w2
          \<and> listen_on unix N a' backlog w2 = (Inr l', w') \<and> r = Inr l')
        \<longleftrightarrow> (\<exists>pre a' post es w2 l'. addrs = pre @ a' # post \<and> refused unix N backlog pre w1 es w2
          \<and> listen_on unix N a' backlog w2 = (Inr l', w') \<and> r = Inr l')" (is "?L \<longleftrightarrow> ?R")
    proof
      assume ?L
      then obtain pre a' post es w2 l' where L: "a # addrs = pre @ a' # post"
        "refused unix N backlog pre w es w2" "listen_on unix N a' backlog w2 = (Inr l', w')" "r = Inr l'"
        by blast
      with l Inl obtain pre' where pre: "pre = a # pre'" by (cases pre) auto
      with L l Inl obtain es' where "refused unix N backlog pre' w1 es' w2" by auto
      with L pre show ?R by auto
    next
      assume ?R
      then obtain pre a' post es w2 l' where "addrs = pre @ a' # post"
        "refused unix N backlog pre w1 es w2" "listen_on unix N a' backlog w2 = (Inr l', w')" "r = Inr l'"
        by blast
      with l Inl have "a # addrs = (a # pre) @ a' # post" "refused unix N backlog (a # pre) w (e # es) w2"
        by auto
      with \<open>listen_on unix N a' backlog w2 = (Inr l', w')\<close> \<open>r = Inr l'\<close> show ?L by blast
    qed
    from l Inl Cons.IH [of "Some e" w1] show ?thesis by (simp only: fail ok) simp
  qed
qed

lemma digits_value_snoc [simp]: "digits_value (s @ [c]) = digits_value s * 10 + (byte c - 48)"
  by (simp add: digits_value_def)

lemma digits_value_dec: "digits_value (dec_string n) = n"
proof (induction n rule: dec_string.induct)
  case (1 n)
  show ?case
  proof (cases "n < 10")
    case True
    then show ?thesis
      by (subst dec_string.simps) (simp add: digits_value_def digit_char_def)
  next
    case False
    with 1 have "digits_value (dec_string (n div 10)) = n div 10" by simp
    moreover have "dec_string n = dec_string (n div 10) @ [digit_char (n mod 10)]"
      using False by (subst dec_string.simps) simp
    ultimately show ?thesis by (simp add: digit_char_def)
  qed
qed

lemma parse_u32_dec: "n < 2 ^ 32 \<Longrightarrow> parse_u32 (dec_string n) = Some (of_nat n)"
proof -
  assume n: "n < 2 ^ 32"
  have digits: "\<forall>c \<in> set (dec_string n). is_ascii_digit c" by (rule dec_string_digits)
  obtain c s where cs: "dec_string n = c # s" using dec_string_nonempty [of n] by (cases "dec_string n") auto
  with digits have "is_ascii_digit c" by simp
  then have "c \<noteq> CHR ''+''" by (auto simp: is_ascii_digit_def byte_def)
  with cs n digits digits_value_dec [of n] show ?thesis
    by (simp add: parse_u32_def list_all_iff)
qed

text \<open>Trimming the blanks around a text without blanks.\<close>

lemma str_trim_blanks:
  assumes "\<forall>c \<in> set a \<union> set b. byte c < 128 \<and> char_is_whitespace [c]"
    and "\<forall>c \<in> set s. byte c < 128 \<and> \<not> char_is_whitespace [c]" and "s \<noteq> []"
  shows "str_trim (a @ s @ b) = s"
proof -
  have drop: "dropWhile char_is_whitespace (map (\<lambda>c. [c]) (xs @ ys)) = map (\<lambda>c. [c]) ys"
    if "\<forall>c \<in> set xs. char_is_whitespace [c]" "ys \<noteq> []" "\<not> char_is_whitespace [hd ys]" for xs ys
    using that by (cases ys) (auto simp: dropWhile_append dropWhile_eq_Nil_conv [THEN iffD2])
  have flat: "concat (map (\<lambda>c. [c]) xs) = xs" for xs :: string by (induction xs) auto
  have chars: "utf8_chars (a' @ s @ b) = map (\<lambda>c. [c]) (a' @ s @ b)" if "set a' \<subseteq> set a" for a'
    by (rule utf8_chars_ascii) (use assms(1,2) that in auto)
  have "dropWhile char_is_whitespace (utf8_chars (a @ s @ b)) = map (\<lambda>c. [c]) (s @ b)"
    unfolding chars [OF order_refl] by (rule drop) (use assms in \<open>auto simp: hd_append\<close>)
  then have "str_trim (a @ s @ b) = str_trim_end (s @ b)" by (simp add: str_trim_def flat)
  also have "\<dots> = concat (rev (dropWhile char_is_whitespace (map (\<lambda>c. [c]) (rev b @ rev s))))"
    using chars [of "[]"] by (simp only: append_Nil list.set empty_subsetI str_trim_end_def rev_map rev_append)
  also have "dropWhile char_is_whitespace (map (\<lambda>c. [c]) (rev b @ rev s)) = map (\<lambda>c. [c]) (rev s)"
    by (rule drop) (use assms in \<open>auto simp: hd_rev last_in_set\<close>)
  finally show ?thesis by (simp only: rev_map rev_rev_ident flat)
qed

lemma digit_not_blank: "is_ascii_digit c \<Longrightarrow> byte c < 128 \<and> \<not> char_is_whitespace [c]"
  by (auto simp: is_ascii_digit_def char_is_whitespace_def)

text \<open>With the serve slot taken no plugin that serves builds, and the slot keeps what it has.\<close>

lemma serve_slot_taken:
  assumes "bc_serve_fn ctx \<noteq> None"
  shows "set_serve_fn f ctx = (Inl (error_other ''another plugin already registered a serve_fn''), ctx)"
    and "is_err (fst (web_build E N routes cfg state ctx w))"
    and "bc_serve_fn (fst (snd (web_build E N routes cfg state ctx w))) = bc_serve_fn ctx"
    and "is_err (fst (api_build E N A add_route to_json finish_api api_routes api acfg state ctx w))"
    and "bc_serve_fn (fst (snd (api_build E N A add_route to_json finish_api api_routes api acfg state ctx w)))
      = bc_serve_fn ctx"
  using assms by (auto simp: web_build_def api_build_def schedule_serve_def set_serve_fn_def Let_def case_prod_beta
      split: sum.splits)

lemma bind_host_iff:
  "(if \<exists>inner. host = ''['' @ inner @ '']'' then host = ''['' @ name @ '']'' else name = host) \<longleftrightarrow> name = bind_host host"
proof (cases "\<exists>inner. host = ''['' @ inner @ '']''")
  case True
  then obtain inner where host: "host = ''['' @ inner @ '']''" ..
  have "strip_prefix ''['' host = Some (inner @ '']'')" by (simp add: host str_iff)
  moreover have "strip_suffix '']'' (inner @ '']'') = Some inner" by (simp add: str_iff)
  ultimately have "bind_host host = inner" by (simp add: bind_host_def)
  then show ?thesis using True by (auto simp: host)
next
  case False
  have "(case strip_prefix ''['' host of Some inner \<Rightarrow> strip_suffix '']'' inner | None \<Rightarrow> None) = None"
  proof (rule ccontr)
    assume "(case strip_prefix ''['' host of Some inner \<Rightarrow> strip_suffix '']'' inner | None \<Rightarrow> None) \<noteq> None"
    then obtain inner name where "strip_prefix ''['' host = Some inner" "strip_suffix '']'' inner = Some name"
      by (auto split: option.splits)
    with False show False by (simp add: str_iff)
  qed
  then show ?thesis using False by (simp add: bind_host_def)
qed

section \<open>Properties\<close>

text \<open>
  C34: binding tries the addresses the host resolves to strictly in order: the first that can be
  listened on wins and nothing after it is touched; when every one fails the error is the last
  address's; a host that resolves to nothing is an \<open>InvalidInput\<close> error that names it as it is
  configured. The resolver gets the text between the brackets of a host that stands in brackets, as
  an IPv6 literal does, and any other host as it is.
\<close>

theorem bind_tries_in_order:
  "bind_listener unix N host port backlog w = (r, w') \<longleftrightarrow>
     (\<exists>name. (if \<exists>inner. host = ''['' @ inner @ '']'' then host = ''['' @ name @ '']'' else name = host)
      \<and> ((\<exists>e. lookup_host N (name, port) w = (Inl e, w') \<and> r = Inl e)
       \<or> (\<exists>addrs w1. lookup_host N (name, port) w = (Inr addrs, w1)
          \<and> ((\<exists>pre a post es w2 l. addrs = pre @ a # post \<and> refused unix N backlog pre w1 es w2
                \<and> listen_on unix N a backlog w2 = (Inr l, w') \<and> r = Inr l)
             \<or> (\<exists>es. refused unix N backlog addrs w1 es w'
                \<and> r = Inl (if es = [] then IoError ''InvalidInput'' (''`'' @ host @ ''` resolved to no address'')
                           else last es))))))"
proof -
  have "bind_failure host es None = (if es = [] then IoError ''InvalidInput'' (''`'' @ host @ ''` resolved to no address'')
      else last es)" for es by (simp add: bind_failure_def)
  then have "bind_listener unix N host port backlog w = (r, w') \<longleftrightarrow>
     (\<exists>e. lookup_host N (bind_host host, port) w = (Inl e, w') \<and> r = Inl e)
     \<or> (\<exists>addrs w1. lookup_host N (bind_host host, port) w = (Inr addrs, w1)
        \<and> ((\<exists>pre a post es w2 l. addrs = pre @ a # post \<and> refused unix N backlog pre w1 es w2
              \<and> listen_on unix N a backlog w2 = (Inr l, w') \<and> r = Inr l)
           \<or> (\<exists>es. refused unix N backlog addrs w1 es w'
              \<and> r = Inl (if es = [] then IoError ''InvalidInput'' (''`'' @ host @ ''` resolved to no address'')
                         else last es))))"
    by (cases "lookup_host N (bind_host host, port) w")
      (auto simp: bind_listener_def io_then_def bind_loop_iff split: sum.splits)
  then show ?thesis by (simp only: bind_host_iff simp_thms)
qed

text \<open>
  With no \<open>backlog\<close> configured the listener gets the kernel's ceiling: on Linux the number that
  \<open>somaxconn\<close> holds, read back exactly for every 32-bit value whatever blanks surround it, and 1024
  when the file does not read or does not hold a number that fits (or off Linux).
\<close>

theorem default_backlog_reads_ceiling:
  assumes "n < 2 ^ 32" and "\<forall>c \<in> set a \<union> set b. byte c < 128 \<and> char_is_whitespace [c]"
  shows "unat (default_backlog True (Some (a @ dec_string n @ b))) = n
    \<and> (2 ^ 32 \<le> m \<longrightarrow> default_backlog True (Some (a @ dec_string m @ b)) = 1024)
    \<and> default_backlog True None = 1024 \<and> default_backlog False file = 1024
    \<and> default_backlog True (Some (a @ b)) = 1024"
proof -
  have trim: "str_trim (a @ dec_string k @ b) = dec_string k" for k
    using assms(2) dec_string_digits digit_not_blank by (intro str_trim_blanks) auto
  have "unat (default_backlog True (Some (a @ dec_string n @ b))) = n"
    using assms(1) by (simp add: default_backlog_def host_backlog_ceiling_def trim parse_u32_dec unat_of_nat
        take_bit_nat_eq_self)
  moreover have "default_backlog True (Some (a @ dec_string m @ b)) = 1024" if "2 ^ 32 \<le> m"
  proof -
    obtain c s where cs: "dec_string m = c # s" using dec_string_nonempty [of m] by (cases "dec_string m") auto
    with dec_string_digits [of m] have "is_ascii_digit c" by simp
    then have "c \<noteq> CHR ''+''" by (auto simp: is_ascii_digit_def byte_def)
    with cs that digits_value_dec [of m] have "parse_u32 (dec_string m) = None"
      by (simp add: parse_u32_def)
    then show ?thesis by (simp add: default_backlog_def host_backlog_ceiling_def trim)
  qed
  moreover have "str_trim (a @ b) = []"
  proof -
    have "utf8_chars (a @ b) = map (\<lambda>c. [c]) (a @ b)"
      by (rule utf8_chars_ascii) (use assms(2) in auto)
    moreover have "dropWhile char_is_whitespace (map (\<lambda>c. [c]) (a @ b)) = []"
      using assms(2) by (auto simp: dropWhile_eq_Nil_conv)
    ultimately have "dropWhile char_is_whitespace (utf8_chars (a @ b)) = []" by (simp only:)
    then have "str_trim (a @ b) = str_trim_end (concat [])" by (simp only: str_trim_def)
    then show ?thesis by (simp add: str_trim_end_def)
  qed
  ultimately show ?thesis
    by (simp add: default_backlog_def host_backlog_ceiling_def parse_u32_def)
qed

theorem default_backlog_reads_ceiling_witness:
  "unat (default_backlog True (Some (dec_string 4096 @ [CHR 0x0A]))) = 4096"
proof -
  have "\<forall>c \<in> set [] \<union> set [CHR 0x0A]. byte c < 128 \<and> char_is_whitespace [c]" by code_simp
  from default_backlog_reads_ceiling [OF _ this, of 4096 0 None] show ?thesis by simp
qed

text \<open>
  C35: the web plugin on a context whose serve slot is free succeeds, mounts the user's router at the
  root after everything mounted so far (so without fallback and layers the app's router is merged
  last), and running the app then spawns the tasks and serves the composed router with the banner of
  the mounts as they are at that point and the app's own shutdown token. From then on, whatever
  plugins that do not serve add in between, every attempt to register a serve function fails, and with
  it a second web plugin and an API plugin, and the first one's serve function stays in place.
\<close>

theorem web_plugin_serves:
  fixes ctx :: "('fig, 'r, 'tok, 'w, 'h, 'l) build_ctx"
  assumes "bc_serve_fn ctx = None"
  shows "\<exists>ctx'. web_build E N routes cfg state ctx w = (Inr (), ctx', w)
    \<and> mounts (bc_router ctx') = mounts (bc_router ctx) @ [(''/'', Auto)]
    \<and> (rr_layer_fns (bc_router ctx) = [] \<and> rr_fallback (bc_router ctx) = None \<longrightarrow>
         compose A (bc_router ctx') = router_merge A (compose A (bc_router ctx)) (routes state))
    \<and> fst (run T A \<lparr>ab_state = state', ab_ctx = ctx'\<rparr> w0)
        = fst (serve_loop E N (compose A (bc_router ctx')) cfg
            (if wc_banner cfg then Some (banner_routes (bc_router ctx')) else None) (bc_shutdown ctx)
            (snd (spawn_all (tokio_api.truncate T) (bc_shutdown ctx) (bc_tasks ctx) w0)))
    \<and> (\<forall>ctx2. bc_serve_fn ctx2 = bc_serve_fn ctx' \<longrightarrow>
         (\<forall>f. set_serve_fn f ctx2 = (Inl (error_other ''another plugin already registered a serve_fn''), ctx2))
       \<and> is_err (fst (web_build E' N' routes' cfg' state2 ctx2 w'))
       \<and> bc_serve_fn (fst (snd (web_build E' N' routes' cfg' state2 ctx2 w'))) = bc_serve_fn ctx'
       \<and> is_err (fst (api_build E' N' A' add_route to_json finish_api api_routes api acfg state2 ctx2 w'))
       \<and> bc_serve_fn (fst (snd (api_build E' N' A' add_route to_json finish_api api_routes api acfg state2 ctx2 w')))
           = bc_serve_fn ctx')"
proof -
  let ?reg = "mount_auto ''/'' (routes state) (bc_router ctx)"
  define ctx' where "ctx' = ctx\<lparr>bc_router := ?reg,
      bc_serve_fn := Some (\<lambda>router. serve_loop E N router cfg
        (if wc_banner cfg then Some (banner_routes ?reg) else None) (bc_shutdown ctx))\<rparr>"
  have build: "web_build E N routes cfg state ctx w = (Inr (), ctx', w)"
    using assms by (simp add: web_build_ok Let_def ctx'_def)
  have mounts: "mounts (bc_router ctx') = mounts (bc_router ctx) @ [(''/'', Auto)]"
    by (simp add: ctx'_def mounts_def mount_auto_def)
  have compose: "rr_layer_fns (bc_router ctx) = [] \<and> rr_fallback (bc_router ctx) = None \<longrightarrow>
      compose A (bc_router ctx') = router_merge A (compose A (bc_router ctx)) (routes state)"
    by (simp add: ctx'_def compose_def mount_auto_def compose_entry_def)
  have taken: "bc_serve_fn ctx' \<noteq> None" by (simp add: ctx'_def)
  have again: "(\<forall>f. set_serve_fn f ctx2 = (Inl (error_other ''another plugin already registered a serve_fn''), ctx2))
       \<and> is_err (fst (web_build E' N' routes' cfg' state2 ctx2 w'))
       \<and> bc_serve_fn (fst (snd (web_build E' N' routes' cfg' state2 ctx2 w'))) = bc_serve_fn ctx'
       \<and> is_err (fst (api_build E' N' A' add_route to_json finish_api api_routes api acfg state2 ctx2 w'))
       \<and> bc_serve_fn (fst (snd (api_build E' N' A' add_route to_json finish_api api_routes api acfg state2 ctx2 w')))
           = bc_serve_fn ctx'" if "bc_serve_fn ctx2 = bc_serve_fn ctx'" for ctx2
    using serve_slot_taken [of ctx2] taken that by auto
  show ?thesis
    by (intro exI [of _ ctx'] conjI allI impI again build mounts compose)
      (rule web_build_run [OF build])
qed

definition demo_ctx :: "(unit, string list, unit, nat, unit, unit) build_ctx" where
  "demo_ctx = \<lparr>bc_figment = (), bc_mode = Development, bc_router = router_registry_default, bc_tasks = [],
     bc_shutdown = (), bc_telemetry = None, bc_serve_fn = None\<rparr>"

theorem web_plugin_serves_witness:
  "\<forall>E (N :: (unit, unit, unit, unit, string list, unit, nat) net_api).
    \<exists>ctx'. web_build E N (\<lambda>_. [''app'']) web_config_default (HNil :: unit hlist) demo_ctx 0 = (Inr (), ctx', 0)
    \<and> mounts (bc_router ctx') = [(''/'', Auto)]
    \<and> is_err (fst (web_build E N (\<lambda>_. [''other'']) web_config_default (HNil :: unit hlist) ctx' 0))"
proof (intro allI)
  fix E and N :: "(unit, unit, unit, unit, string list, unit, nat) net_api"
  have "bc_serve_fn demo_ctx = None" by (simp add: demo_ctx_def)
  from web_plugin_serves [OF this, where routes = "\<lambda>_. [''app'']" and E = E and N = N
      and cfg = web_config_default and state = "HNil :: unit hlist" and w = 0
      and E' = E and N' = N and routes' = "\<lambda>_. [''other'']" and cfg' = web_config_default
      and ?state2.0 = "HNil :: unit hlist" and w' = 0 and A = undefined and T = undefined and state' = undefined
      and ?w0.0 = 0 and A' = undefined and add_route = undefined and to_json = undefined
      and finish_api = undefined and api_routes = undefined and api = undefined and acfg = undefined]
  obtain ctx' where "web_build E N (\<lambda>_. [''app'']) web_config_default (HNil :: unit hlist) demo_ctx 0
      = (Inr (), ctx', 0)"
    and "mounts (bc_router ctx') = mounts (bc_router demo_ctx) @ [(''/'', Auto)]"
    and "is_err (fst (web_build E N (\<lambda>_. [''other'']) web_config_default (HNil :: unit hlist) ctx' 0))"
    by - (elim exE conjE, rule that, assumption, assumption, blast)
  moreover have "mounts (bc_router demo_ctx) = []"
    by (simp add: demo_ctx_def mounts_def router_registry_default_def)
  ultimately show "\<exists>ctx'. web_build E N (\<lambda>_. [''app'']) web_config_default (HNil :: unit hlist) demo_ctx 0
      = (Inr (), ctx', 0) \<and> mounts (bc_router ctx') = [(''/'', Auto)]
      \<and> is_err (fst (web_build E N (\<lambda>_. [''other'']) web_config_default (HNil :: unit hlist) ctx' 0))"
    by (intro exI [of _ ctx'] conjI) (assumption, simp only: append_Nil, assumption)
qed

end
