(* ===== verification/Web_Spa.thy ===== *)
theory Web_Spa
  imports Core_App Auth_Csrf
begin

text \<open>
  \<open>muxa-web/src/spa.rs\<close>: a single-page app's build served as the app's fallback.

  \<open>memory-serve\<close>'s router of the embedded files is a parameter, like axum's middleware: \<open>files\<close>
  answers a request on the world \<open>'w\<close>. A response is its status, its headers and a body \<open>'body\<close>.
\<close>

definition INDEX :: string where
  "INDEX = ''/index.html''"

definition IMMUTABLE :: string where
  "IMMUTABLE = ''max-age=31536000, immutable''"

definition NO_CACHE :: string where
  "NO_CACHE = ''no-cache''"

record spa_config =
  sp_enabled :: bool
  sp_exclude_prefixes :: "string list"
  sp_assets_prefix :: string
  sp_no_cache :: "string list"

definition spa_config_default :: spa_config where
  "spa_config_default =
     \<lparr>sp_enabled = True, sp_exclude_prefixes = [''/api'', ''/health'', ''/openapi.json'', ''/docs''],
      sp_assets_prefix = ''/assets'', sp_no_cache = [''/sw.js'']\<rparr>"

text \<open>\<open>as_bytes\<close> is \<open>None\<close> for a file that is read from disk at \<open>as_path\<close> (debug builds).\<close>

record asset =
  as_route :: string
  as_path :: string
  as_etag :: string
  as_content_type :: string
  as_bytes :: "string option"
  as_is_compressed :: bool
  as_should_compress :: bool

text \<open>\<open>spa_assets!\<close>: the first set of assets, or the one of a name; none is an empty set.\<close>

definition spa_assets :: "(string \<times> asset list) list \<Rightarrow> asset list" where
  "spa_assets sets = (case sets of [] \<Rightarrow> [] | (_, assets) # _ \<Rightarrow> assets)"

definition spa_assets_named :: "(string \<times> asset list) list \<Rightarrow> string \<Rightarrow> asset list" where
  "spa_assets_named sets name =
     (case find (\<lambda>e. fst e = name) sets of Some (_, assets) \<Rightarrow> assets | None \<Rightarrow> [])"

definition under :: "string \<Rightarrow> string \<Rightarrow> bool" where
  "under path prefix =
     (let prefix = trim_end_matches CHR ''/'' prefix
      in case strip_prefix prefix path of
           Some rest \<Rightarrow> rest = [] \<or> starts_with ''/'' rest
         | None \<Rightarrow> False)"

record spa_request =
  sr_method :: http_method
  sr_path :: string
  sr_headers :: "string \<Rightarrow> string option"

record 'body spa_response =
  rp_status :: nat
  rp_headers :: "string \<Rightarrow> string option"
  rp_body :: 'body

definition is_success :: "nat \<Rightarrow> bool" where
  "is_success status = (200 \<le> status \<and> status < 300)"

definition not_found :: "'body \<Rightarrow> 'body spa_response" where
  "not_found empty_body = \<lparr>rp_status = 404, rp_headers = Map.empty, rp_body = empty_body\<rparr>"

type_synonym ('body, 'w) service = "spa_request \<Rightarrow> 'w \<Rightarrow> 'body spa_response \<times> 'w"

definition client_route ::
    "'body \<Rightarrow> ('body, 'w) service \<Rightarrow> spa_config \<Rightarrow> ('body, 'w) service" where
  "client_route empty_body files cfg request w =
     (let path = sr_path request;
          excluded = list_ex (\<lambda>prefix. under path prefix) (sp_exclude_prefixes cfg @ [sp_assets_prefix cfg])
      in if excluded \<or> sr_method request \<notin> {GET, HEAD}
         then (not_found empty_body, w)
         else files (request\<lparr>sr_path := INDEX\<rparr>) w)"

definition cache_headers ::
    "('body, 'w) service \<Rightarrow> spa_config \<Rightarrow> bool \<Rightarrow> ('body, 'w) service" where
  "cache_headers nxt cfg embedded request w =
     (let path = sr_path request;
          (response, w) = nxt request w
      in if \<not> is_success (rp_status response) then (response, w)
         else if path \<in> set (sp_no_cache cfg)
         then (response\<lparr>rp_headers := (rp_headers response)(''cache-control'' \<mapsto> NO_CACHE)\<rparr>, w)
         else if embedded \<and> under path (sp_assets_prefix cfg)
         then (response\<lparr>rp_headers := (rp_headers response)(''cache-control'' \<mapsto> IMMUTABLE)\<rparr>, w)
         else (response, w))"

datatype cache_control = CacheMedium | CacheNoCache

text \<open>
  memory-serve: its router for a set of assets with an HTML and a default cache policy, which gives
  a file or \<open>None\<close> (its fallback).
\<close>

record ('body, 'w) memory_serve =
  ms_files :: "asset list \<Rightarrow> cache_control \<Rightarrow> cache_control \<Rightarrow> spa_request \<Rightarrow> 'w
    \<Rightarrow> 'body spa_response option \<times> 'w"
  ms_empty :: 'body

text \<open>The router without a fallback of its own answers 404.\<close>

definition files_service ::
    "('body, 'w) memory_serve \<Rightarrow> asset list \<Rightarrow> bool \<Rightarrow> ('body, 'w) service" where
  "files_service M assets embedded request w =
     (case ms_files M assets CacheNoCache (if embedded then CacheMedium else CacheNoCache) request w of
        (Some response, w) \<Rightarrow> (response, w)
      | (None, w) \<Rightarrow> (not_found (ms_empty M), w))"

definition spa_router ::
    "('body, 'w) memory_serve \<Rightarrow> asset list \<Rightarrow> spa_config \<Rightarrow> ('body, 'w) service" where
  "spa_router M assets cfg =
     (let embedded = list_all (\<lambda>asset. as_bytes asset \<noteq> None) assets;
          index = files_service M assets embedded;
          routed = (\<lambda>request w.
            (case ms_files M assets CacheNoCache (if embedded then CacheMedium else CacheNoCache) request w of
               (Some response, w) \<Rightarrow> (response, w)
             | (None, w) \<Rightarrow> client_route (ms_empty M) index cfg request w))
      in cache_headers routed cfg embedded)"

text \<open>\<open>mk\<close> turns the service into an axum router.\<close>

definition spa_build ::
    "('body, 'w) memory_serve \<Rightarrow> (('body, 'w) service \<Rightarrow> 'r) \<Rightarrow> asset list \<Rightarrow> spa_config
      \<Rightarrow> ('fig, 'r, 'tok, 'w, 'h, 'l) build_ctx \<Rightarrow> 'w
      \<Rightarrow> unit result \<times> ('fig, 'r, 'tok, 'w, 'h, 'l) build_ctx \<times> 'w" where
  "spa_build M mk assets cfg ctx w =
     (if \<not> sp_enabled cfg then (Inr (), ctx, w)
      else if assets = [] then (Inr (), ctx, w)
      else if \<not> list_ex (\<lambda>asset. as_route asset = INDEX) assets then (Inr (), ctx, w)
      else (let (r, router) = set_fallback (mk (spa_router M assets cfg)) (bc_router ctx)
            in (r, ctx\<lparr>bc_router := router\<rparr>, w)))"

section \<open>Lemmas\<close>

lemma under_iff:
  "under path prefix \<longleftrightarrow>
     (\<exists>r. path = trim_end_matches CHR ''/'' prefix @ r \<and> (r = [] \<or> starts_with ''/'' r))"
  by (auto simp: under_def Let_def str_iff split: option.splits)

interpretation path_prefix: segment_prefix "''/''" "trim_end_matches CHR ''/''" under
  by unfold_locales (simp_all only: under_iff, simp)

interpretation spa_extends: ctx_extender "\<lambda>(M, mk, assets, cfg, w) ctx. spa_build M mk assets cfg ctx w"
  by unfold_locales
    (auto simp: spa_build_def Let_def set_fallback_def ctx_extends_def extends_slot_def split: if_splits)

lemma plain_prefix: "s \<noteq> [] \<Longrightarrow> last s \<noteq> CHR ''/'' \<Longrightarrow> trim_end_matches CHR ''/'' s = s"
  by (simp add: trim_end_matches_id)

section \<open>Properties\<close>

text \<open>
  Prefixes match whole path segments. A prefix covers itself and everything below it, with or
  without a trailing slash in the configuration, and not a sibling that merely starts with the same
  letters (\<open>/api\<close> covers \<open>/api/x\<close>, not \<open>/apiary\<close>); the prefix \<open>/\<close>, or an empty one, covers
  every path.
\<close>

theorem under_segments:
  "under (trim_end_matches CHR ''/'' q @ ''/'' @ r) q \<and> under (trim_end_matches CHR ''/'' q) q
   \<and> under p (q @ replicate n CHR ''/'') = under p q
   \<and> (c \<noteq> CHR ''/'' \<longrightarrow> \<not> under (trim_end_matches CHR ''/'' q @ c # r) q)
   \<and> under (CHR ''/'' # r) ''/'' \<and> under (CHR ''/'' # r) []"
proof -
  have "trim_end_matches CHR ''/'' (q @ replicate n CHR ''/'') = trim_end_matches CHR ''/'' q"
    by (simp add: trim_end_matches_def dropWhile_append)
  then have "under p (q @ replicate n CHR ''/'') = under p q" by (simp add: under_def)
  moreover have "under (CHR ''/'' # r) ''/''" "under (CHR ''/'' # r) []"
    by (simp_all add: under_def trim_end_matches_def)
  ultimately show ?thesis
    using path_prefix.covers_below [of q r] path_prefix.covers_self [of q]
      path_prefix.sibling_not_covered [of c q r] by simp
qed

theorem under_segments_witness:
  "under ''/api/x'' ''/api'' \<and> \<not> under ''/apiary'' ''/api''"
proof -
  have "trim_end_matches CHR ''/'' ''/api'' = ''/api''" by code_simp
  with under_segments [of "''/api''" "''x''"] under_segments [of "''/api''" "''ry''" p 0 "CHR ''a''"]
  show ?thesis by simp
qed

text \<open>
  A path that is no file of the build gets \<open>index.html\<close> exactly when it is asked for with GET or
  HEAD and is under none of the server's prefixes nor under the assets; otherwise it gets a plain
  404 and the files are not consulted. The request for \<open>index.html\<close> keeps the method and the headers.
\<close>

theorem client_route_spec:
  "client_route empty_body files cfg request w =
     (if sr_method request \<in> {GET, HEAD}
         \<and> (\<forall>prefix. prefix \<in> set (sp_assets_prefix cfg # sp_exclude_prefixes cfg) \<longrightarrow>
              \<not> under (sr_path request) prefix)
      then files \<lparr>sr_method = sr_method request, sr_path = ''/index.html'', sr_headers = sr_headers request\<rparr> w
      else (\<lparr>rp_status = 404, rp_headers = Map.empty, rp_body = empty_body\<rparr>, w))"
proof -
  have "request\<lparr>sr_path := INDEX\<rparr>
      = \<lparr>sr_method = sr_method request, sr_path = ''/index.html'', sr_headers = sr_headers request\<rparr>"
    by (simp add: INDEX_def)
  then show ?thesis
    by (auto simp: client_route_def Let_def not_found_def list_ex_iff)
qed

lemma api_path_under: "under ''/api/x'' ''/api''"
  by code_simp

theorem client_route_spec_witness:
  "fst (client_route () (\<lambda>r w. (\<lparr>rp_status = 200, rp_headers = Map.empty, rp_body = ()\<rparr>, Suc w))
      spa_config_default \<lparr>sr_method = GET, sr_path = ''/api/x'', sr_headers = Map.empty\<rparr> (0 :: nat))
     = \<lparr>rp_status = 404, rp_headers = Map.empty, rp_body = ()\<rparr>"
proof -
  have "under (sr_path \<lparr>sr_method = GET, sr_path = ''/api/x'', sr_headers = Map.empty\<rparr>) ''/api''"
    by (simp only: spa_request.simps api_path_under)
  moreover have "''/api'' \<in> set (sp_assets_prefix spa_config_default # sp_exclude_prefixes spa_config_default)"
    by code_simp
  ultimately show ?thesis
    by (subst client_route_spec, subst if_not_P) (blast, simp only: fst_conv)
qed

text \<open>
  The cache policy of a response. An answer that is no success keeps the headers it has; a file
  of the \<open>no_cache\<close> list is never cached; a fingerprinted file, under the assets prefix of an
  embedded build, is immutable, whatever its content type, so an HTML file there is cached for a
  year too; everything else keeps the policy of the files. Status, body and other headers never
  change.
\<close>

theorem cache_policy:
  assumes "nxt request w = (response, w')"
  shows "\<exists>hdrs. cache_headers nxt cfg embedded request w = (response\<lparr>rp_headers := hdrs\<rparr>, w')
    \<and> (\<forall>name. name \<noteq> ''cache-control'' \<longrightarrow> hdrs name = rp_headers response name)
    \<and> hdrs ''cache-control'' =
        (if is_success (rp_status response) \<and> sr_path request \<in> set (sp_no_cache cfg) then Some ''no-cache''
         else if is_success (rp_status response) \<and> embedded \<and> under (sr_path request) (sp_assets_prefix cfg)
         then Some ''max-age=31536000, immutable''
         else rp_headers response ''cache-control'')"
  using assms
  by (intro exI [of _ "rp_headers (fst (cache_headers nxt cfg embedded request w))"])
    (auto simp: cache_headers_def Let_def NO_CACHE_def IMMUTABLE_def)

theorem cache_policy_witness:
  "\<exists>hdrs. cache_headers (\<lambda>r w. (\<lparr>rp_status = 200, rp_headers = [''cache-control'' \<mapsto> ''no-cache''],
        rp_body = ''<html>''\<rparr>, w))
      spa_config_default True \<lparr>sr_method = GET, sr_path = ''/assets/a.html'', sr_headers = Map.empty\<rparr> ()
     = (\<lparr>rp_status = 200, rp_headers = hdrs, rp_body = ''<html>''\<rparr>, ())
     \<and> hdrs ''cache-control'' = Some ''max-age=31536000, immutable''"
proof -
  have "under ''/assets/a.html'' ''/assets''" by code_simp
  with cache_policy [of "\<lambda>r w. (\<lparr>rp_status = 200, rp_headers = [''cache-control'' \<mapsto> ''no-cache''],
        rp_body = ''<html>''\<rparr>, w)" "\<lparr>sr_method = GET, sr_path = ''/assets/a.html'', sr_headers = Map.empty\<rparr>"
      "()" _ _ spa_config_default True, OF refl]
  show ?thesis by (auto simp: spa_config_default_def is_success_def)
qed

text \<open>
  The plugin registers nothing when it is disabled or has no usable build (no assets, or none
  of them \<open>index.html\<close>); otherwise it becomes the app's fallback, fails if there is one already, and
  never replaces one. Either way it mounts nothing, so the routes of the app win over it.
\<close>

theorem spa_plugin_fallback_only:
  "(let (r, ctx', w') = spa_build M mk assets cfg ctx w;
        usable = (sp_enabled cfg \<and> (\<exists>a. a \<in> set assets \<and> as_route a = ''/index.html''))
    in w' = w \<and> mounts (bc_router ctx') = mounts (bc_router ctx)
       \<and> is_err r = (usable \<and> has_fallback (bc_router ctx))
       \<and> rr_fallback (bc_router ctx') =
           (case rr_fallback (bc_router ctx) of
              Some fb \<Rightarrow> Some fb
            | None \<Rightarrow> if usable then Some (mk (spa_router M assets cfg)) else None))"
  by (cases assets)
    (auto simp: spa_build_def Let_def mounts_def set_fallback_def has_fallback_def list_ex_iff
      INDEX_def split: option.splits)

end
