(* ===== verification/Web_Ratelimit.thy ===== *)
theory Web_Ratelimit
  imports Core_Error
begin

text \<open>
  \<open>muxa-web/src/ratelimit.rs\<close>: the per-IP rate limit. \<open>governor\<close>'s limiter is a parameter: a key
  extractor per policy, the configuration builder's \<open>finish\<close>, and the weak handle the janitor holds.
  Durations count milliseconds.
\<close>

definition EVICT_INTERVAL :: nat where
  "EVICT_INTERVAL = 60 * 1000"

record rate_limit_config =
  rl_enabled :: bool
  rl_period_ms :: u64
  rl_burst :: u32
  rl_trust_forwarded_for :: bool

definition rate_limit_config_default :: rate_limit_config where
  "rate_limit_config_default =
     \<lparr>rl_enabled = True, rl_period_ms = 1000, rl_burst = 5, rl_trust_forwarded_for = False\<rparr>"

record ip_key_extractor =
  trust_forwarded :: bool

text \<open>The extractors of tower_governor: the proxy-aware one and the peer's.\<close>

record ('req, 'ip, 'e) extractors =
  smart_ip :: "'req \<Rightarrow> 'e + 'ip"
  peer_ip :: "'req \<Rightarrow> 'e + 'ip"

definition extract_key ::
    "('req, 'ip, 'e) extractors \<Rightarrow> ip_key_extractor \<Rightarrow> 'req \<Rightarrow> 'e + 'ip" where
  "extract_key X self req = (if trust_forwarded self then smart_ip X req else peer_ip X req)"

record governor_config =
  gc_period_ms :: u64
  gc_burst_size :: u32
  gc_extractor :: ip_key_extractor
  gc_use_headers :: bool

text \<open>
  \<open>finish\<close> gives the configuration's limiter or \<open>None\<close> for an invalid quota; the janitor sleeps,
  upgrades its weak handle and calls \<open>retain_recent\<close>.
\<close>

record ('lim, 'w) governor_api =
  finish :: "governor_config \<Rightarrow> 'lim option"
  sleep_ms :: "nat \<Rightarrow> 'w \<Rightarrow> 'w"
  upgrade :: "'lim \<Rightarrow> 'w \<Rightarrow> bool \<times> 'w"
  retain_recent :: "'lim \<Rightarrow> 'w \<Rightarrow> 'w"
  spawn_janitor :: "('w \<Rightarrow> 'w option) \<Rightarrow> 'w \<Rightarrow> 'w"

partial_function (option) janitor :: "('lim, 'w) governor_api \<Rightarrow> 'lim \<Rightarrow> 'w \<Rightarrow> 'w option" where
  "janitor G limiter w =
     (let w = sleep_ms G EVICT_INTERVAL w;
          up = upgrade G limiter w
      in if \<not> fst up then Some (snd up)
         else janitor G limiter (retain_recent G limiter (snd up)))"

definition per_ip_layer ::
    "('lim, 'w) governor_api \<Rightarrow> rate_limit_config \<Rightarrow> 'w
      \<Rightarrow> (governor_config \<times> 'lim) result \<times> 'w" where
  "per_ip_layer G cfg w =
     (let period = max (rl_period_ms cfg) 1;
          burst = max (rl_burst cfg) 1;
          config = \<lparr>gc_period_ms = period, gc_burst_size = burst,
            gc_extractor = \<lparr>trust_forwarded = rl_trust_forwarded_for cfg\<rparr>, gc_use_headers = True\<rparr>
      in case finish G config of
           None \<Rightarrow> (Inl (error_other ''rate limit: invalid quota (zero burst or period)''), w)
         | Some limiter \<Rightarrow>
             (let w = spawn_janitor G (janitor G limiter) w in (Inr (config, limiter), w)))"

section \<open>Properties\<close>

text \<open>One round of the janitor while the limiter lives.\<close>

definition janitor_round :: "('lim, 'w) governor_api \<Rightarrow> 'lim \<Rightarrow> 'w \<Rightarrow> 'w" where
  "janitor_round G limiter w = retain_recent G limiter (snd (upgrade G limiter (sleep_ms G EVICT_INTERVAL w)))"

definition alive :: "('lim, 'w) governor_api \<Rightarrow> 'lim \<Rightarrow> 'w \<Rightarrow> bool" where
  "alive G limiter w = fst (upgrade G limiter (sleep_ms G EVICT_INTERVAL w))"

lemma janitor_rounds:
  assumes "\<forall>j < n. alive G limiter ((janitor_round G limiter ^^ j) w)"
  shows "janitor G limiter w = janitor G limiter ((janitor_round G limiter ^^ n) w)"
  using assms
proof (induction n)
  case 0
  then show ?case by simp
next
  case (Suc n)
  then have "alive G limiter ((janitor_round G limiter ^^ n) w)" by simp
  then have "janitor G limiter ((janitor_round G limiter ^^ n) w)
      = janitor G limiter (janitor_round G limiter ((janitor_round G limiter ^^ n) w))"
    by (subst janitor.simps) (simp add: alive_def janitor_round_def Let_def)
  with Suc show ?case by simp
qed

text \<open>
  A quota is never zero: whatever the configuration holds, the limiter is built with a period of
  at least one millisecond and a burst of at least one, so with a governor that accepts every
  non-zero quota building the layer never fails. The client's IP is taken from the forwarded headers
  only when the configuration trusts them. The janitor evicts once per minute for as long as the
  limiter is alive and returns at the first tick after it is gone.
\<close>

theorem rate_limit_quota:
  assumes "\<forall>c. gc_period_ms c \<noteq> 0 \<and> gc_burst_size c \<noteq> 0 \<longrightarrow> finish G c \<noteq> None"
    and "\<forall>j < n. alive G limiter ((janitor_round G limiter ^^ j) w)"
    and "\<not> alive G limiter ((janitor_round G limiter ^^ n) w)"
  shows "(\<exists>c lim. per_ip_layer G cfg w0 = (Inr (c, lim), spawn_janitor G (janitor G lim) w0)
      \<and> finish G c = Some lim \<and> gc_period_ms c = max 1 (rl_period_ms cfg)
      \<and> gc_burst_size c = max 1 (rl_burst cfg)
      \<and> extract_key X (gc_extractor c) req
          = (if rl_trust_forwarded_for cfg then smart_ip X req else peer_ip X req))
    \<and> janitor G limiter w
        = Some (snd (upgrade G limiter (sleep_ms G EVICT_INTERVAL ((janitor_round G limiter ^^ n) w))))"
proof -
  let ?c = "\<lparr>gc_period_ms = max (rl_period_ms cfg) 1, gc_burst_size = max (rl_burst cfg) 1,
    gc_extractor = \<lparr>trust_forwarded = rl_trust_forwarded_for cfg\<rparr>, gc_use_headers = True\<rparr>"
  have "max x 1 \<noteq> 0" for x :: u64
    by (metis max.cobounded2 word_le_0_iff zero_neq_one)
  moreover have "max x 1 \<noteq> 0" for x :: u32
    by (metis max.cobounded2 word_le_0_iff zero_neq_one)
  ultimately have "finish G ?c \<noteq> None" using assms(1) [rule_format, of ?c] by simp
  then obtain lim where lim: "finish G ?c = Some lim" by blast
  then have "per_ip_layer G cfg w0 = (Inr (?c, lim), spawn_janitor G (janitor G lim) w0)"
    by (simp add: per_ip_layer_def Let_def)
  moreover have "janitor G limiter ((janitor_round G limiter ^^ n) w)
      = Some (snd (upgrade G limiter (sleep_ms G EVICT_INTERVAL ((janitor_round G limiter ^^ n) w))))"
    using assms(3) by (subst janitor.simps) (simp add: alive_def Let_def)
  ultimately show ?thesis
    using lim janitor_rounds [OF assms(2)]
    by (auto simp: extract_key_def max.commute intro!: exI [of _ ?c] exI [of _ lim])
qed

text \<open>A governor that accepts every quota and whose limiter lives for three ticks.\<close>

definition demo_governor :: "(unit, nat) governor_api" where
  "demo_governor =
     \<lparr>finish = (\<lambda>c. if gc_period_ms c = 0 \<or> gc_burst_size c = 0 then None else Some ()),
      sleep_ms = (\<lambda>_ w. Suc w), upgrade = (\<lambda>_ w. (w \<le> 3, w)), retain_recent = (\<lambda>_ w. w),
      spawn_janitor = (\<lambda>_ w. w)\<rparr>"

lemma demo_rounds: "(janitor_round demo_governor () ^^ n) w = w + n"
  by (induction n) (simp_all add: janitor_round_def demo_governor_def)

theorem rate_limit_quota_witness:
  "janitor demo_governor () 0 = Some 4
   \<and> (\<exists>c. fst (per_ip_layer demo_governor \<lparr>rl_enabled = True, rl_period_ms = 0, rl_burst = 0,
        rl_trust_forwarded_for = False\<rparr> 0) = Inr (c, ()) \<and> gc_burst_size c = 1)"
proof -
  have ok: "\<forall>c. gc_period_ms c \<noteq> 0 \<and> gc_burst_size c \<noteq> 0 \<longrightarrow> finish demo_governor c \<noteq> None"
    by (simp add: demo_governor_def)
  have live: "\<forall>j < 3. alive demo_governor () ((janitor_round demo_governor () ^^ j) 0)"
    by (simp add: demo_rounds) (simp add: alive_def demo_governor_def)
  have gone: "\<not> alive demo_governor () ((janitor_round demo_governor () ^^ 3) 0)"
    by (simp add: demo_rounds) (simp add: alive_def demo_governor_def)
  note q = rate_limit_quota [OF ok live gone, where cfg = "\<lparr>rl_enabled = True, rl_period_ms = 0, rl_burst = 0,
        rl_trust_forwarded_for = False\<rparr>" and ?w0.0 = 0]
  from q [THEN conjunct2] have "janitor demo_governor () 0 = Some 4"
    by (simp add: demo_rounds) (simp add: demo_governor_def)
  moreover from q [THEN conjunct1, simplified] have "\<exists>c. fst (per_ip_layer demo_governor \<lparr>rl_enabled = True,
      rl_period_ms = 0, rl_burst = 0, rl_trust_forwarded_for = False\<rparr> 0) = Inr (c, ()) \<and> gc_burst_size c = 1"
    by (metis fst_conv)
  ultimately show ?thesis ..
qed

end
