(* ===== verification/Otel.thy ===== *)
theory Otel
  imports Core_App
begin

text \<open>
  \<open>muxa-otel/src/lib.rs\<close>: the OpenTelemetry plugin, the export it sets up per signal and the flush
  of its providers at shutdown.

  The crate's features are a record, so every build of it is covered. The SDK is a parameter: an
  exporter \<open>'e\<close> built from its specification, a provider \<open>'p\<close>, its blocking shutdown. The future of a
  task is a step of the world.
\<close>

record otel_features =
  of_http_layer :: bool
  of_otlp_tonic :: bool
  of_otlp_http :: bool
  of_tracing_bridge :: bool
  of_metrics :: bool
  of_logs :: bool

definition default_service_name :: string where
  "default_service_name = ''muxa-app''"

definition default_timeout_secs :: u64 where
  "default_timeout_secs = 10"

definition default_metric_interval_secs :: u64 where
  "default_metric_interval_secs = 60"

record otel_config =
  ot_service_name :: string
  ot_endpoint :: "string option"
  ot_timeout_secs :: u64
  ot_metric_interval_secs :: u64

definition otel_config_default :: otel_config where
  "otel_config_default =
     \<lparr>ot_service_name = default_service_name, ot_endpoint = None, ot_timeout_secs = default_timeout_secs,
      ot_metric_interval_secs = default_metric_interval_secs\<rparr>"

definition OTEL_ENV_FALLBACKS :: "env_fallback list" where
  "OTEL_ENV_FALLBACKS =
     [\<lparr>ef_var = ''OTEL_SERVICE_NAME'', ef_key = ''service_name''\<rparr>,
      \<lparr>ef_var = ''OTEL_EXPORTER_OTLP_ENDPOINT'', ef_key = ''endpoint''\<rparr>]"

record telemetry_handles =
  th_service_name :: string
  th_endpoint :: "string option"

section \<open>Export\<close>

datatype transport = Tonic | HttpTransport

datatype signal = Traces | Metrics | Logs

record exporter_spec =
  ex_signal :: signal
  ex_transport :: transport
  ex_endpoint :: string
  ex_timeout_secs :: u64

record ('e, 'p, 'l, 'r, 'tok, 'jh, 'w) otel_api =
  build_exporter :: "exporter_spec \<Rightarrow> 'w \<Rightarrow> (string + 'e) \<times> 'w"
  batch_tracer :: "'e \<Rightarrow> string \<Rightarrow> 'p"
  periodic_meter :: "'e \<Rightarrow> u64 \<Rightarrow> string \<Rightarrow> 'p"
  batch_logger :: "'e \<Rightarrow> string \<Rightarrow> 'p"
  tracer_layer :: "'p \<Rightarrow> string \<Rightarrow> 'l"
  logger_layer :: "'p \<Rightarrow> 'l"
  set_tracer_provider :: "'p \<Rightarrow> 'w \<Rightarrow> 'w"
  set_meter_provider :: "'p \<Rightarrow> 'w \<Rightarrow> 'w"
  trace_http_layer :: "'r \<Rightarrow> 'r"
  provider_shutdown :: "'p \<Rightarrow> 'w \<Rightarrow> (string + unit) \<times> 'w"
  spawn_blocking :: "('w \<Rightarrow> 'w) \<Rightarrow> 'w \<Rightarrow> 'jh \<times> 'w"
  await_blocking :: "'jh \<Rightarrow> 'w \<Rightarrow> 'w"
  token_cancelled :: "'tok \<Rightarrow> 'w \<Rightarrow> 'w"

text \<open>The macro \<open>configured_exporter!\<close>: tonic wins when both transports are compiled in.\<close>

definition signal_endpoint :: "otel_features \<Rightarrow> string \<Rightarrow> string \<Rightarrow> string" where
  "signal_endpoint F endpoint path =
     (if of_otlp_tonic F then endpoint else trim_end_matches CHR ''/'' endpoint @ path)"

definition configured_exporter ::
    "otel_features \<Rightarrow> ('e, 'p, 'l, 'r, 'tok, 'jh, 'w) otel_api \<Rightarrow> signal \<Rightarrow> string \<Rightarrow> string \<Rightarrow> u64 \<Rightarrow> 'w
      \<Rightarrow> 'e result \<times> 'w" where
  "configured_exporter F X sig endpoint path timeout w =
     (let (built, w) = build_exporter X
            \<lparr>ex_signal = sig, ex_transport = (if of_otlp_tonic F then Tonic else HttpTransport),
             ex_endpoint = signal_endpoint F endpoint path, ex_timeout_secs = timeout\<rparr> w
      in (map_err error_other built, w))"

record 'p providers =
  pv_tracer :: "'p option"
  pv_meter :: "'p option"
  pv_logger :: "'p option"

text \<open>\<open>off_runtime\<close>: the shutdown's result is dropped.\<close>

definition off_runtime ::
    "('e, 'p, 'l, 'r, 'tok, 'jh, 'w) otel_api \<Rightarrow> ('w \<Rightarrow> (string + unit) \<times> 'w) \<Rightarrow> 'w \<Rightarrow> 'jh \<times> 'w" where
  "off_runtime X shut w = spawn_blocking X (\<lambda>w. snd (shut w)) w"

text \<open>A provider that is not compiled in is neither spawned nor awaited.\<close>

definition spawn_shutdown ::
    "('e, 'p, 'l, 'r, 'tok, 'jh, 'w) otel_api \<Rightarrow> 'p option \<Rightarrow> 'w \<Rightarrow> 'jh option \<times> 'w" where
  "spawn_shutdown X p w =
     (case p of
        None \<Rightarrow> (None, w)
      | Some provider \<Rightarrow> (let (h, w) = off_runtime X (provider_shutdown X provider) w in (Some h, w)))"

definition await_shutdown :: "('e, 'p, 'l, 'r, 'tok, 'jh, 'w) otel_api \<Rightarrow> 'jh option \<Rightarrow> 'w \<Rightarrow> 'w" where
  "await_shutdown X h w = (case h of None \<Rightarrow> w | Some handle \<Rightarrow> await_blocking X handle w)"

definition providers_shutdown ::
    "('e, 'p, 'l, 'r, 'tok, 'jh, 'w) otel_api \<Rightarrow> 'p providers \<Rightarrow> 'w \<Rightarrow> 'w" where
  "providers_shutdown X self w =
     (let (tracer, w) = spawn_shutdown X (pv_tracer self) w;
          (meter, w) = spawn_shutdown X (pv_meter self) w;
          (logger, w) = spawn_shutdown X (pv_logger self) w;
          w = await_shutdown X tracer w;
          w = await_shutdown X meter w;
          w = await_shutdown X logger w
      in w)"

definition otel_excluded :: "string list" where
  "otel_excluded = [''h2'', ''hyper'', ''hyper_util'', ''tower'', ''tonic'', ''reqwest'', ''opentelemetry'',
     ''opentelemetry_sdk'', ''opentelemetry_otlp'']"

definition tracer_layer_type :: string where
  "tracer_layer_type = ''tracing_opentelemetry::OpenTelemetryLayer''"

definition logger_layer_type :: string where
  "logger_layer_type = ''opentelemetry_appender_tracing::layer::OpenTelemetryTracingBridge''"

text \<open>The three signals of \<open>install\<close>; each gives its provider when its feature is on.\<close>

definition install_traces ::
    "otel_features \<Rightarrow> ('e, 'p, 'l, 'r, 'tok, 'jh, 'w) otel_api \<Rightarrow> otel_config \<Rightarrow> string
      \<Rightarrow> ('fig, 'r, 'tok, 'w, 'h, 'l) build_ctx \<Rightarrow> 'w
      \<Rightarrow> 'p option result \<times> ('fig, 'r, 'tok, 'w, 'h, 'l) build_ctx \<times> 'w" where
  "install_traces F X cfg endpoint ctx w =
     (if \<not> of_tracing_bridge F then (Inr None, ctx, w)
      else (case configured_exporter F X Traces endpoint ''/v1/traces'' (ot_timeout_secs cfg) w of
              (Inl e, w) \<Rightarrow> (Inl e, ctx, w)
            | (Inr exporter, w) \<Rightarrow>
                (let provider = batch_tracer X exporter (ot_service_name cfg);
                     ctx = ctx\<lparr>bc_telemetry := add_layer tracer_layer_type
                             (tracer_layer X provider (ot_service_name cfg)) (bc_telemetry ctx)\<rparr>;
                     w = set_tracer_provider X provider w
                 in (Inr (Some provider), ctx, w))))"

definition install_metrics ::
    "otel_features \<Rightarrow> ('e, 'p, 'l, 'r, 'tok, 'jh, 'w) otel_api \<Rightarrow> otel_config \<Rightarrow> string
      \<Rightarrow> ('fig, 'r, 'tok, 'w, 'h, 'l) build_ctx \<Rightarrow> 'w
      \<Rightarrow> 'p option result \<times> ('fig, 'r, 'tok, 'w, 'h, 'l) build_ctx \<times> 'w" where
  "install_metrics F X cfg endpoint ctx w =
     (if \<not> of_metrics F then (Inr None, ctx, w)
      else (case configured_exporter F X Metrics endpoint ''/v1/metrics'' (ot_timeout_secs cfg) w of
              (Inl e, w) \<Rightarrow> (Inl e, ctx, w)
            | (Inr exporter, w) \<Rightarrow>
                (let provider = periodic_meter X exporter (ot_metric_interval_secs cfg) (ot_service_name cfg);
                     w = set_meter_provider X provider w
                 in (Inr (Some provider), ctx, w))))"

definition install_logs ::
    "otel_features \<Rightarrow> ('e, 'p, 'l, 'r, 'tok, 'jh, 'w) otel_api \<Rightarrow> otel_config \<Rightarrow> string
      \<Rightarrow> ('fig, 'r, 'tok, 'w, 'h, 'l) build_ctx \<Rightarrow> 'w
      \<Rightarrow> 'p option result \<times> ('fig, 'r, 'tok, 'w, 'h, 'l) build_ctx \<times> 'w" where
  "install_logs F X cfg endpoint ctx w =
     (if \<not> of_logs F then (Inr None, ctx, w)
      else (case configured_exporter F X Logs endpoint ''/v1/logs'' (ot_timeout_secs cfg) w of
              (Inl e, w) \<Rightarrow> (Inl e, ctx, w)
            | (Inr exporter, w) \<Rightarrow>
                (let provider = batch_logger X exporter (ot_service_name cfg);
                     ctx = ctx\<lparr>bc_telemetry := add_layer logger_layer_type (logger_layer X provider)
                             (bc_telemetry ctx)\<rparr>
                 in (Inr (Some provider), ctx, w))))"

text \<open>\<open>let x = step()?;\<close> where the step also changes the context.\<close>

definition ctx_then ::
    "('c \<Rightarrow> 'w \<Rightarrow> ('err + 'x) \<times> 'c \<times> 'w) \<Rightarrow> ('x \<Rightarrow> 'c \<Rightarrow> 'w \<Rightarrow> ('err + 'y) \<times> 'c \<times> 'w) \<Rightarrow> 'c \<Rightarrow> 'w
      \<Rightarrow> ('err + 'y) \<times> 'c \<times> 'w" where
  "ctx_then m k c w =
     (case m c w of (Inl e, c, w) \<Rightarrow> (Inl e, c, w) | (Inr x, c, w) \<Rightarrow> k x c w)"

definition otel_install ::
    "otel_features \<Rightarrow> ('e, 'p, 'l, 'r, 'tok, 'jh, 'w) otel_api \<Rightarrow> ('tok, 'w \<Rightarrow> 'w, 'w, 'h) tokio_api
      \<Rightarrow> otel_config \<Rightarrow> string \<Rightarrow> ('fig, 'r, 'tok, 'w, 'h, 'l) build_ctx \<Rightarrow> 'w
      \<Rightarrow> unit result \<times> ('fig, 'r, 'tok, 'w, 'h, 'l) build_ctx \<times> 'w" where
  "otel_install F X T cfg endpoint ctx =
     (let ctx = ctx\<lparr>bc_telemetry := exclude_targets otel_excluded (bc_telemetry ctx)\<rparr>
      in ctx_then (install_traces F X cfg endpoint) (\<lambda>tracer.
         ctx_then (install_metrics F X cfg endpoint) (\<lambda>meter.
         ctx_then (install_logs F X cfg endpoint) (\<lambda>logger ctx w.
           (let providers = \<lparr>pv_tracer = tracer, pv_meter = meter, pv_logger = logger\<rparr>;
                ctx = ctx\<lparr>bc_tasks := spawn T ''otel-shutdown''
                        (\<lambda>shutdown w. providers_shutdown X providers (token_cancelled X shutdown w))
                        (bc_tasks ctx)\<rparr>
            in (Inr (), ctx, w))))) ctx)"

definition export_compiled :: "otel_features \<Rightarrow> bool" where
  "export_compiled F =
     ((of_otlp_tonic F \<or> of_otlp_http F) \<and> (of_tracing_bridge F \<or> of_metrics F \<or> of_logs F))"

definition otel_build ::
    "otel_features \<Rightarrow> ('e, 'p, 'l, 'r, 'tok, 'jh, 'w) otel_api \<Rightarrow> ('tok, 'w \<Rightarrow> 'w, 'w, 'h) tokio_api
      \<Rightarrow> otel_config \<Rightarrow> ('fig, 'r, 'tok, 'w, 'h, 'l) build_ctx \<Rightarrow> 'w
      \<Rightarrow> telemetry_handles result \<times> ('fig, 'r, 'tok, 'w, 'h, 'l) build_ctx \<times> 'w" where
  "otel_build F X T cfg ctx w =
     (let ctx = (if of_http_layer F
                 then ctx\<lparr>bc_router := layer (trace_http_layer X) (bc_router ctx)\<rparr> else ctx)
      in case (if export_compiled F then ot_endpoint cfg else None) of
           Some endpoint \<Rightarrow>
             (case otel_install F X T cfg endpoint ctx w of
                (Inl e, ctx, w) \<Rightarrow> (Inl e, ctx, w)
              | (Inr _, ctx, w) \<Rightarrow>
                  (Inr \<lparr>th_service_name = ot_service_name cfg, th_endpoint = ot_endpoint cfg\<rparr>, ctx, w))
         | None \<Rightarrow> (Inr \<lparr>th_service_name = ot_service_name cfg, th_endpoint = None\<rparr>, ctx, w))"

section \<open>Lemmas\<close>

text \<open>
  What a step of the export may do to the context: add layers to the subscriber, nothing else.
\<close>

definition telemetry_only ::
    "('fig, 'r, 'tok, 'w, 'h, 'l) build_ctx \<Rightarrow> ('fig, 'r, 'tok, 'w, 'h, 'l) build_ctx \<Rightarrow> bool" where
  "telemetry_only c d \<longleftrightarrow>
     (\<exists>ops. d = c\<lparr>bc_telemetry := tel_run ops (bc_telemetry c)\<rparr> \<and> excluded_by ops = {})"

lemma telemetry_only_refl [simp]: "telemetry_only c c"
  unfolding telemetry_only_def by (rule exI [of _ "[]"]) (simp add: tel_run_def)

lemma telemetry_only_layer [simp]:
  "telemetry_only c (c\<lparr>bc_telemetry := add_layer k l (bc_telemetry c)\<rparr>)"
  unfolding telemetry_only_def by (rule exI [of _ "[AddLayer k l]"]) (simp add: tel_run_def)

lemma excluded_by_append [simp]: "excluded_by (xs @ ys) = excluded_by xs \<union> excluded_by ys"
  by (induction xs rule: excluded_by.induct) auto

lemma tel_run_append: "tel_run (xs @ ys) reg = tel_run ys (tel_run xs reg)"
  by (simp add: tel_run_def)

lemma telemetry_only_trans: "telemetry_only a b \<Longrightarrow> telemetry_only b c \<Longrightarrow> telemetry_only a c"
  unfolding telemetry_only_def
proof (elim exE conjE)
  fix xs ys
  assume "b = a\<lparr>bc_telemetry := tel_run xs (bc_telemetry a)\<rparr>" "excluded_by xs = {}"
    and "c = b\<lparr>bc_telemetry := tel_run ys (bc_telemetry b)\<rparr>" "excluded_by ys = {}"
  then show "\<exists>ops. c = a\<lparr>bc_telemetry := tel_run ops (bc_telemetry a)\<rparr> \<and> excluded_by ops = {}"
    by (intro exI [of _ "xs @ ys"]) (simp add: tel_run_append)
qed

lemma install_signals_telemetry:
  "telemetry_only ctx (fst (snd (install_traces F X cfg endpoint ctx w)))"
  "telemetry_only ctx (fst (snd (install_metrics F X cfg endpoint ctx w)))"
  "telemetry_only ctx (fst (snd (install_logs F X cfg endpoint ctx w)))"
  by (auto simp: install_traces_def install_metrics_def install_logs_def Let_def case_prod_beta
      split: sum.splits prod.splits)

lemma install_signals_provider:
  "install_traces F X cfg endpoint ctx w = (Inr p, ctx', w') \<Longrightarrow> p \<noteq> None \<longleftrightarrow> of_tracing_bridge F"
  "install_metrics F X cfg endpoint ctx w = (Inr p, ctx', w') \<Longrightarrow> p \<noteq> None \<longleftrightarrow> of_metrics F"
  "install_logs F X cfg endpoint ctx w = (Inr p, ctx', w') \<Longrightarrow> p \<noteq> None \<longleftrightarrow> of_logs F"
  by (auto simp: install_traces_def install_metrics_def install_logs_def Let_def
      split: sum.splits prod.splits if_splits)

text \<open>The outcome of the export: it stops at the first exporter that fails, or spawns the flush.\<close>

lemma otel_install_cases:
  assumes "otel_install F X T cfg endpoint ctx w = (r, ctx', w')"
  defines "ctx0 \<equiv> ctx\<lparr>bc_telemetry := exclude_targets otel_excluded (bc_telemetry ctx)\<rparr>"
  shows "(is_err r \<and> telemetry_only ctx0 ctx')
    \<or> (r = Inr () \<and> (\<exists>d ps. telemetry_only ctx0 d
        \<and> (pv_tracer ps \<noteq> None \<longleftrightarrow> of_tracing_bridge F) \<and> (pv_meter ps \<noteq> None \<longleftrightarrow> of_metrics F)
        \<and> (pv_logger ps \<noteq> None \<longleftrightarrow> of_logs F)
        \<and> ctx' = d\<lparr>bc_tasks := spawn T ''otel-shutdown''
            (\<lambda>shutdown w. providers_shutdown X ps (token_cancelled X shutdown w)) (bc_tasks d)\<rparr>))"
proof -
  obtain r1 c1 w1 where 1: "install_traces F X cfg endpoint ctx0 w = (r1, c1, w1)" by (metis surj_pair)
  have t1: "telemetry_only ctx0 c1" using install_signals_telemetry(1) [of ctx0 F X cfg endpoint w] 1 by simp
  show ?thesis
  proof (cases r1)
    case (Inl e)
    with assms(1) 1 t1 show ?thesis by (auto simp: otel_install_def ctx_then_def ctx0_def)
  next
    case (Inr p1)
    obtain r2 c2 w2 where 2: "install_metrics F X cfg endpoint c1 w1 = (r2, c2, w2)" by (metis surj_pair)
    have t2: "telemetry_only ctx0 c2"
      using telemetry_only_trans [OF t1] install_signals_telemetry(2) [of c1 F X cfg endpoint w1] 2 by simp
    show ?thesis
    proof (cases r2)
      case (Inl e)
      with assms(1) 1 2 Inr t2 show ?thesis by (auto simp: otel_install_def ctx_then_def ctx0_def)
    next
      case r2: (Inr p2)
      obtain r3 c3 w3 where 3: "install_logs F X cfg endpoint c2 w2 = (r3, c3, w3)" by (metis surj_pair)
      have t3: "telemetry_only ctx0 c3"
        using telemetry_only_trans [OF t2] install_signals_telemetry(3) [of c2 F X cfg endpoint w2] 3 by simp
      show ?thesis
      proof (cases r3)
        case (Inl e)
        with assms(1) 1 2 3 Inr r2 t3 show ?thesis by (auto simp: otel_install_def ctx_then_def ctx0_def)
      next
        case r3: (Inr p3)
        let ?ps = "\<lparr>pv_tracer = p1, pv_meter = p2, pv_logger = p3\<rparr>"
        from assms(1) 1 2 3 Inr r2 r3 have "r = Inr ()" "ctx' = c3\<lparr>bc_tasks := spawn T ''otel-shutdown''
            (\<lambda>shutdown w. providers_shutdown X ?ps (token_cancelled X shutdown w)) (bc_tasks c3)\<rparr>"
          by (auto simp: otel_install_def ctx_then_def ctx0_def Let_def)
        moreover have "p1 \<noteq> None \<longleftrightarrow> of_tracing_bridge F" "p2 \<noteq> None \<longleftrightarrow> of_metrics F" "p3 \<noteq> None \<longleftrightarrow> of_logs F"
          using install_signals_provider 1 2 3 Inr r2 r3 by metis+
        ultimately show ?thesis using t3 by (intro disjI2 conjI exI [of _ c3] exI [of _ ?ps]) simp_all
      qed
    qed
  qed
qed

lemma telemetry_only_extends: "telemetry_only c d \<Longrightarrow> ctx_extends c d"
  by (auto simp: telemetry_only_def)

lemma otel_install_extends: "ctx_extends ctx (fst (snd (otel_install F X T cfg endpoint ctx w)))"
proof -
  obtain r ctx' w' where i: "otel_install F X T cfg endpoint ctx w = (r, ctx', w')" by (metis surj_pair)
  let ?ctx0 = "ctx\<lparr>bc_telemetry := exclude_targets otel_excluded (bc_telemetry ctx)\<rparr>"
  have "ctx_extends ctx ?ctx0" by (rule ctx_extends_telemetry)
  moreover have "ctx_extends ?ctx0 ctx'"
    using otel_install_cases [OF i] telemetry_only_extends ctx_extends_trans [OF _ ctx_extends_spawn] by blast
  ultimately show ?thesis using i ctx_extends_trans by fastforce
qed

lemma otel_build_extends: "ctx_extends ctx (fst (snd (otel_build F X T cfg ctx w)))"
proof -
  define ctx1 where "ctx1 = (if of_http_layer F
    then ctx\<lparr>bc_router := layer (trace_http_layer X) (bc_router ctx)\<rparr> else ctx)"
  have ctx1: "ctx_extends ctx ctx1" by (simp add: ctx1_def)
  show ?thesis
  proof (cases "if export_compiled F then ot_endpoint cfg else None")
    case None
    with ctx1 show ?thesis by (simp add: otel_build_def ctx1_def [symmetric])
  next
    case (Some endpoint)
    then have "fst (snd (otel_build F X T cfg ctx w)) = fst (snd (otel_install F X T cfg endpoint ctx1 w))"
      by (auto simp: otel_build_def ctx1_def [symmetric] split: sum.splits prod.splits)
    with ctx_extends_trans [OF ctx1 otel_install_extends] show ?thesis by simp
  qed
qed

interpretation otel_extends: ctx_extender "\<lambda>(F, X, T, cfg, w) ctx. otel_build F X T cfg ctx w"
  by unfold_locales (auto simp: otel_build_extends)

text \<open>Spawning and awaiting a list of shutdowns.\<close>

fun spawn_list :: "('e, 'p, 'l, 'r, 'tok, 'jh, 'w) otel_api \<Rightarrow> 'p list \<Rightarrow> 'w \<Rightarrow> 'jh list \<times> 'w" where
  "spawn_list X [] w = ([], w)"
| "spawn_list X (p # ps) w =
     (let (h, w) = spawn_blocking X (\<lambda>w. snd (provider_shutdown X p w)) w;
          (hs, w) = spawn_list X ps w
      in (h # hs, w))"

definition provider_list :: "'p providers \<Rightarrow> 'p list" where
  "provider_list ps = List.map_filter (\<lambda>x. x) [pv_tracer ps, pv_meter ps, pv_logger ps]"

text \<open>Every shutdown is spawned before the first is awaited.\<close>

definition flush_providers :: "('e, 'p, 'l, 'r, 'tok, 'jh, 'w) otel_api \<Rightarrow> 'p list \<Rightarrow> 'w \<Rightarrow> 'w" where
  "flush_providers X ps w = (let (hs, w) = spawn_list X ps w in foldl (\<lambda>w h. await_blocking X h w) w hs)"

lemma providers_shutdown_flush: "providers_shutdown X ps = flush_providers X (provider_list ps)"
  by (cases "pv_tracer ps"; cases "pv_meter ps"; cases "pv_logger ps")
    (simp_all add: fun_eq_iff flush_providers_def providers_shutdown_def spawn_shutdown_def await_shutdown_def off_runtime_def
      provider_list_def map_filter_simps Let_def case_prod_beta)

section \<open>What an export amounts to\<close>

text \<open>
  For each signal: the exporter it asks for, the provider over it, where the provider is published and
  the layer it adds. The signals that are compiled in are exported in order until one has no exporter:
  \<open>exported sigs w ps ops w' failure\<close> gives the providers built, the layers added and the world, and
  the error of the exporter that stopped it, if one did.
\<close>

definition exporter_for :: "otel_features \<Rightarrow> otel_config \<Rightarrow> string \<Rightarrow> signal \<Rightarrow> exporter_spec" where
  "exporter_for F cfg endpoint sig =
     \<lparr>ex_signal = sig, ex_transport = (if of_otlp_tonic F then Tonic else HttpTransport),
      ex_endpoint = (if of_otlp_tonic F then endpoint
        else trim_end_matches CHR ''/'' endpoint
          @ (case sig of Traces \<Rightarrow> ''/v1/traces'' | Metrics \<Rightarrow> ''/v1/metrics'' | Logs \<Rightarrow> ''/v1/logs'')),
      ex_timeout_secs = ot_timeout_secs cfg\<rparr>"

definition provider_for ::
    "('e, 'p, 'l, 'r, 'tok, 'jh, 'w) otel_api \<Rightarrow> otel_config \<Rightarrow> signal \<Rightarrow> 'e \<Rightarrow> 'p" where
  "provider_for X cfg sig ex =
     (case sig of
        Traces \<Rightarrow> batch_tracer X ex (ot_service_name cfg)
      | Metrics \<Rightarrow> periodic_meter X ex (ot_metric_interval_secs cfg) (ot_service_name cfg)
      | Logs \<Rightarrow> batch_logger X ex (ot_service_name cfg))"

definition publish_provider ::
    "('e, 'p, 'l, 'r, 'tok, 'jh, 'w) otel_api \<Rightarrow> signal \<Rightarrow> 'p \<Rightarrow> 'w \<Rightarrow> 'w" where
  "publish_provider X sig p w =
     (case sig of Traces \<Rightarrow> set_tracer_provider X p w | Metrics \<Rightarrow> set_meter_provider X p w | Logs \<Rightarrow> w)"

definition layers_of ::
    "('e, 'p, 'l, 'r, 'tok, 'jh, 'w) otel_api \<Rightarrow> otel_config \<Rightarrow> signal \<Rightarrow> 'p \<Rightarrow> (string, 'l) tel_op list" where
  "layers_of X cfg sig p =
     (case sig of
        Traces \<Rightarrow> [AddLayer tracer_layer_type (tracer_layer X p (ot_service_name cfg))]
      | Metrics \<Rightarrow> []
      | Logs \<Rightarrow> [AddLayer logger_layer_type (logger_layer X p)])"

definition compiled_signals :: "otel_features \<Rightarrow> signal list" where
  "compiled_signals F =
     (if of_tracing_bridge F then [Traces] else []) @ (if of_metrics F then [Metrics] else [])
       @ (if of_logs F then [Logs] else [])"

inductive exported ::
    "otel_features \<Rightarrow> ('e, 'p, 'l, 'r, 'tok, 'jh, 'w) otel_api \<Rightarrow> otel_config \<Rightarrow> string \<Rightarrow> signal list \<Rightarrow> 'w
      \<Rightarrow> 'p list \<Rightarrow> (string, 'l) tel_op list \<Rightarrow> 'w \<Rightarrow> string option \<Rightarrow> bool"
  for F :: otel_features and X :: "('e, 'p, 'l, 'r, 'tok, 'jh, 'w) otel_api" and cfg :: otel_config and endpoint :: string where
  all_built: "exported F X cfg endpoint [] w [] [] w None"
| no_exporter: "build_exporter X (exporter_for F cfg endpoint sig) w = (Inl e, w') \<Longrightarrow>
    exported F X cfg endpoint (sig # sigs) w [] [] w' (Some e)"
| built: "build_exporter X (exporter_for F cfg endpoint sig) w = (Inr ex, w1) \<Longrightarrow> p = provider_for X cfg sig ex \<Longrightarrow>
    exported F X cfg endpoint sigs (publish_provider X sig p w1) ps ops w' failure \<Longrightarrow>
    exported F X cfg endpoint (sig # sigs) w (p # ps) (layers_of X cfg sig p @ ops) w' failure"

lemma exported_append:
  "exported F X cfg endpoint sigs w ps ops w1 failure \<Longrightarrow> failure = None \<Longrightarrow>
     exported F X cfg endpoint sigs' w1 ps' ops' w' failure' \<Longrightarrow>
     exported F X cfg endpoint (sigs @ sigs') w (ps @ ps') (ops @ ops') w' failure'"
  by (induction rule: exported.induct) (auto intro: exported.intros)

lemma exported_stops:
  "exported F X cfg endpoint sigs w ps ops w1 failure \<Longrightarrow> failure = Some e \<Longrightarrow>
     exported F X cfg endpoint (sigs @ sigs') w ps ops w1 (Some e)"
  by (induction rule: exported.induct) (auto intro: exported.intros)

lemma exported_all:
  "exported F X cfg endpoint sigs w ps ops w' failure \<Longrightarrow> failure = None \<Longrightarrow> length ps = length sigs"
  by (induction rule: exported.induct) auto

lemma exported_excludes: "exported F X cfg endpoint sigs w ps ops w' failure \<Longrightarrow> excluded_by ops = {}"
  by (induction rule: exported.induct) (auto simp: layers_of_def split: signal.splits)

text \<open>A step of \<open>install\<close> exports its signal when it is compiled in.\<close>

definition signal_step ::
    "otel_features \<Rightarrow> ('e, 'p, 'l, 'r, 'tok, 'jh, 'w) otel_api \<Rightarrow> otel_config \<Rightarrow> string \<Rightarrow> signal list
      \<Rightarrow> ('fig, 'r, 'tok, 'w, 'h, 'l) build_ctx \<Rightarrow> 'w \<Rightarrow> 'p option result
      \<Rightarrow> ('fig, 'r, 'tok, 'w, 'h, 'l) build_ctx \<Rightarrow> 'w \<Rightarrow> bool" where
  "signal_step F X cfg endpoint sigs c w r c' w' \<longleftrightarrow>
     (\<exists>ps ops failure. exported F X cfg endpoint sigs w ps ops w' failure
        \<and> c' = c\<lparr>bc_telemetry := tel_run ops (bc_telemetry c)\<rparr>
        \<and> (case failure of
             Some e \<Rightarrow> r = Inl (error_other e)
           | None \<Rightarrow> r = Inr (case ps of [] \<Rightarrow> None | p # _ \<Rightarrow> Some p) \<and> length ps \<le> 1))"

lemma signal_step_off: "signal_step F X cfg endpoint [] c w (Inr None) c w"
  unfolding signal_step_def
  by (rule exI [of _ "[]"], rule exI [of _ "[]"], rule exI [of _ None]) (simp add: all_built tel_run_def)

definition export_signal ::
    "otel_features \<Rightarrow> ('e, 'p, 'l, 'r, 'tok, 'jh, 'w) otel_api \<Rightarrow> otel_config \<Rightarrow> string \<Rightarrow> signal
      \<Rightarrow> ('fig, 'r, 'tok, 'w, 'h, 'l) build_ctx \<Rightarrow> 'w
      \<Rightarrow> 'p option result \<times> ('fig, 'r, 'tok, 'w, 'h, 'l) build_ctx \<times> 'w" where
  "export_signal F X cfg endpoint sig c w =
     (case build_exporter X (exporter_for F cfg endpoint sig) w of
        (Inl e, w) \<Rightarrow> (Inl (error_other e), c, w)
      | (Inr ex, w) \<Rightarrow>
          (Inr (Some (provider_for X cfg sig ex)),
           c\<lparr>bc_telemetry := tel_run (layers_of X cfg sig (provider_for X cfg sig ex)) (bc_telemetry c)\<rparr>,
           publish_provider X sig (provider_for X cfg sig ex) w))"

lemma install_signals_export:
  "install_traces F X cfg endpoint c w
     = (if of_tracing_bridge F then export_signal F X cfg endpoint Traces c w else (Inr None, c, w))"
  "install_metrics F X cfg endpoint c w
     = (if of_metrics F then export_signal F X cfg endpoint Metrics c w else (Inr None, c, w))"
  "install_logs F X cfg endpoint c w
     = (if of_logs F then export_signal F X cfg endpoint Logs c w else (Inr None, c, w))"
  by (auto simp: install_traces_def install_metrics_def install_logs_def export_signal_def configured_exporter_def
      exporter_for_def provider_for_def publish_provider_def layers_of_def signal_endpoint_def tel_run_def Let_def
      split: sum.splits prod.splits)

lemma signal_step_on:
  assumes "export_signal F X cfg endpoint sig c w = (r, c', w')"
  shows "signal_step F X cfg endpoint [sig] c w r c' w'"
proof -
  obtain made w1 where made: "build_exporter X (exporter_for F cfg endpoint sig) w = (made, w1)" by (metis surj_pair)
  show ?thesis
  proof (cases made)
    case (Inl e)
    with assms made have "r = Inl (error_other e)" "c' = c" "w' = w1" by (simp_all add: export_signal_def)
    with no_exporter [OF made [unfolded Inl], of "[]"] show ?thesis
      unfolding signal_step_def
      by (intro exI [of _ "[]"] exI [of _ "[]"] exI [of _ "Some e"]) (simp add: tel_run_def)
  next
    case (Inr ex)
    define p where "p = provider_for X cfg sig ex"
    have "exported F X cfg endpoint [sig] w [p] (layers_of X cfg sig p @ []) (publish_provider X sig p w1) None"
      by (rule built [OF made [unfolded Inr] p_def all_built])
    moreover have "r = Inr (Some p)" "c' = c\<lparr>bc_telemetry := tel_run (layers_of X cfg sig p) (bc_telemetry c)\<rparr>"
      "w' = publish_provider X sig p w1" using assms made Inr by (simp_all add: export_signal_def p_def)
    ultimately show ?thesis
      unfolding signal_step_def
      by (intro exI [of _ "[p]"] exI [of _ "layers_of X cfg sig p"] exI [of _ None]) simp
  qed
qed

lemma install_signal_steps:
  "install_traces F X cfg endpoint c w = (r, c', w') \<Longrightarrow>
     signal_step F X cfg endpoint (if of_tracing_bridge F then [Traces] else []) c w r c' w'"
  "install_metrics F X cfg endpoint c w = (r, c', w') \<Longrightarrow>
     signal_step F X cfg endpoint (if of_metrics F then [Metrics] else []) c w r c' w'"
  "install_logs F X cfg endpoint c w = (r, c', w') \<Longrightarrow>
     signal_step F X cfg endpoint (if of_logs F then [Logs] else []) c w r c' w'"
  by (auto simp: install_signals_export signal_step_off intro: signal_step_on split: if_splits)

text \<open>Steps one after the other, until one fails.\<close>

definition export_run ::
    "otel_features \<Rightarrow> ('e, 'p, 'l, 'r, 'tok, 'jh, 'w) otel_api \<Rightarrow> otel_config \<Rightarrow> string \<Rightarrow> signal list
      \<Rightarrow> ('fig, 'r, 'tok, 'w, 'h, 'l) build_ctx \<Rightarrow> 'w \<Rightarrow> string + 'p option list
      \<Rightarrow> ('fig, 'r, 'tok, 'w, 'h, 'l) build_ctx \<Rightarrow> 'w \<Rightarrow> bool" where
  "export_run F X cfg endpoint sigs c w r c' w' \<longleftrightarrow>
     (\<exists>ps ops failure. exported F X cfg endpoint sigs w ps ops w' failure
        \<and> c' = c\<lparr>bc_telemetry := tel_run ops (bc_telemetry c)\<rparr>
        \<and> (case r of Inl e \<Rightarrow> failure = Some e | Inr opts \<Rightarrow> failure = None \<and> List.map_filter (\<lambda>x. x) opts = ps))"

lemma export_run_nil: "export_run F X cfg endpoint [] c w (Inr []) c w"
  unfolding export_run_def
  by (rule exI [of _ "[]"], rule exI [of _ "[]"], rule exI [of _ None]) (simp add: all_built tel_run_def map_filter_simps)

lemma export_run_fails:
  assumes "export_run F X cfg endpoint sigs c w (Inr opts) c1 w1"
    and "signal_step F X cfg endpoint sigs' c1 w1 (Inl e) c' w'"
  shows "\<exists>msg. e = error_other msg \<and> export_run F X cfg endpoint (sigs @ sigs' @ rest) c w (Inl msg) c' w'"
proof -
  obtain ps ops where 1: "exported F X cfg endpoint sigs w ps ops w1 None"
    "c1 = c\<lparr>bc_telemetry := tel_run ops (bc_telemetry c)\<rparr>"
    using assms(1) by (auto simp: export_run_def)
  obtain ps' ops' msg where 2: "exported F X cfg endpoint sigs' w1 ps' ops' w' (Some msg)"
    "c' = c1\<lparr>bc_telemetry := tel_run ops' (bc_telemetry c1)\<rparr>" "e = error_other msg"
    using assms(2) by (auto simp: signal_step_def split: option.splits)
  have "exported F X cfg endpoint (sigs @ sigs' @ rest) w (ps @ ps') (ops @ ops') w' (Some msg)"
    by (rule exported_append [OF 1(1) refl exported_stops [OF 2(1) refl]])
  then have "export_run F X cfg endpoint (sigs @ sigs' @ rest) c w (Inl msg) c' w'"
    using 1(2) 2(2) unfolding export_run_def
    by (intro exI [of _ "ps @ ps'"] exI [of _ "ops @ ops'"] exI [of _ "Some msg"]) (simp add: tel_run_append)
  with 2(3) show ?thesis by blast
qed

lemma export_run_goes_on:
  assumes "export_run F X cfg endpoint sigs c w (Inr opts) c1 w1"
    and "signal_step F X cfg endpoint sigs' c1 w1 (Inr opt) c' w'"
  shows "export_run F X cfg endpoint (sigs @ sigs') c w (Inr (opts @ [opt])) c' w'"
proof -
  obtain ps ops where 1: "exported F X cfg endpoint sigs w ps ops w1 None"
    "c1 = c\<lparr>bc_telemetry := tel_run ops (bc_telemetry c)\<rparr>" "List.map_filter (\<lambda>x. x) opts = ps"
    using assms(1) by (auto simp: export_run_def)
  obtain ps' ops' where 2: "exported F X cfg endpoint sigs' w1 ps' ops' w' None"
    "c' = c1\<lparr>bc_telemetry := tel_run ops' (bc_telemetry c1)\<rparr>" "opt = (case ps' of [] \<Rightarrow> None | p # _ \<Rightarrow> Some p)"
    "length ps' \<le> 1"
    using assms(2) by (auto simp: signal_step_def split: option.splits)
  have "List.map_filter (\<lambda>x. x) [opt] = ps'" using 2(3,4) by (cases ps') (auto simp: map_filter_simps)
  then have "List.map_filter (\<lambda>x. x) (opts @ [opt]) = ps @ ps'" using 1(3) by (simp add: map_filter_def)
  with exported_append [OF 1(1) refl 2(1)] 1(2) 2(2) show ?thesis
    unfolding export_run_def
    by (intro exI [of _ "ps @ ps'"] exI [of _ "ops @ ops'"] exI [of _ None]) (simp add: tel_run_append)
qed

lemma otel_install_exported:
  assumes "otel_install F X T cfg endpoint ctx w = (r, ctx', w')"
  shows "\<exists>ps ops failure. exported F X cfg endpoint (compiled_signals F) w ps ops w' failure
    \<and> bc_router ctx' = bc_router ctx
    \<and> bc_telemetry ctx' = tel_run (Exclude otel_excluded # ops) (bc_telemetry ctx)
    \<and> (case failure of
         Some e \<Rightarrow> r = Inl (error_other e) \<and> bc_tasks ctx' = bc_tasks ctx
       | None \<Rightarrow> r = Inr () \<and> bc_tasks ctx' = spawn T ''otel-shutdown''
           (\<lambda>shutdown w. flush_providers X ps (token_cancelled X shutdown w)) (bc_tasks ctx))"
proof -
  let ?ctx0 = "ctx\<lparr>bc_telemetry := exclude_targets otel_excluded (bc_telemetry ctx)\<rparr>"
  let ?t = "if of_tracing_bridge F then [Traces] else []" and ?m = "if of_metrics F then [Metrics] else []"
    and ?l = "if of_logs F then [Logs] else []"
  have failed: ?thesis
    if "export_run F X cfg endpoint (compiled_signals F) ?ctx0 w (Inl msg) ctx' w'" "r = Inl (error_other msg)" for msg
    using that unfolding export_run_def
    by (elim exE) (rule exI, rule exI, rule exI [of _ "Some msg"], auto simp: tel_run_def)
  have succeeded: ?thesis
    if "export_run F X cfg endpoint (compiled_signals F) ?ctx0 w (Inr opts) d w'" "r = Inr ()"
      "ctx' = d\<lparr>bc_tasks := spawn T ''otel-shutdown''
         (\<lambda>shutdown w. flush_providers X (List.map_filter (\<lambda>x. x) opts) (token_cancelled X shutdown w)) (bc_tasks d)\<rparr>" for opts d
    using that unfolding export_run_def
    by (elim exE) (rule exI, rule exI, rule exI [of _ None], auto simp: tel_run_def)
  obtain r1 c1 w1 where 1: "install_traces F X cfg endpoint ?ctx0 w = (r1, c1, w1)" by (metis surj_pair)
  note s1 = install_signal_steps(1) [OF 1]
  show ?thesis
  proof (cases r1)
    case (Inl e)
    with assms 1 have "r = Inl e" "ctx' = c1" "w' = w1" by (simp_all add: otel_install_def ctx_then_def)
    moreover obtain msg where "e = error_other msg" "export_run F X cfg endpoint (compiled_signals F) ?ctx0 w (Inl msg) c1 w1"
      using export_run_fails [OF export_run_nil s1 [unfolded Inl], of "?m @ ?l"] by (auto simp: compiled_signals_def)
    ultimately show ?thesis by (intro failed) simp_all
  next
    case (Inr p1)
    have e1: "export_run F X cfg endpoint ?t ?ctx0 w (Inr [p1]) c1 w1"
      using export_run_goes_on [OF export_run_nil s1 [unfolded Inr]] by simp
    obtain r2 c2 w2 where 2: "install_metrics F X cfg endpoint c1 w1 = (r2, c2, w2)" by (metis surj_pair)
    note s2 = install_signal_steps(2) [OF 2]
    show ?thesis
    proof (cases r2)
      case (Inl e)
      with assms 1 2 Inr have "r = Inl e" "ctx' = c2" "w' = w2" by (simp_all add: otel_install_def ctx_then_def)
      moreover obtain msg where "e = error_other msg" "export_run F X cfg endpoint (compiled_signals F) ?ctx0 w (Inl msg) c2 w2"
        using export_run_fails [OF e1 s2 [unfolded Inl], of ?l] by (auto simp: compiled_signals_def)
      ultimately show ?thesis by (intro failed) simp_all
    next
      case r2: (Inr p2)
      note e2 = export_run_goes_on [OF e1 s2 [unfolded r2]]
      obtain r3 c3 w3 where 3: "install_logs F X cfg endpoint c2 w2 = (r3, c3, w3)" by (metis surj_pair)
      note s3 = install_signal_steps(3) [OF 3]
      show ?thesis
      proof (cases r3)
        case (Inl e)
        with assms 1 2 3 Inr r2 have "r = Inl e" "ctx' = c3" "w' = w3"
          by (simp_all add: otel_install_def ctx_then_def)
        moreover obtain msg where "e = error_other msg" "export_run F X cfg endpoint (compiled_signals F) ?ctx0 w (Inl msg) c3 w3"
          using export_run_fails [OF e2 s3 [unfolded Inl], of "[]"] by (auto simp: compiled_signals_def)
        ultimately show ?thesis by (intro failed) simp_all
      next
        case r3: (Inr p3)
        have "export_run F X cfg endpoint (compiled_signals F) ?ctx0 w (Inr [p1, p2, p3]) c3 w3"
          using export_run_goes_on [OF e2 s3 [unfolded r3]] by (simp only: compiled_signals_def append.assoc append.simps)
        moreover have "r = Inr ()" "w' = w3"
          and "ctx' = c3\<lparr>bc_tasks := spawn T ''otel-shutdown''
            (\<lambda>shutdown w. flush_providers X (provider_list \<lparr>pv_tracer = p1, pv_meter = p2, pv_logger = p3\<rparr>)
               (token_cancelled X shutdown w)) (bc_tasks c3)\<rparr>"
          using assms 1 2 3 Inr r2 r3
          by (auto simp: otel_install_def ctx_then_def Let_def providers_shutdown_flush)
        moreover have "provider_list \<lparr>pv_tracer = p1, pv_meter = p2, pv_logger = p3\<rparr>
            = List.map_filter (\<lambda>x. x) [p1, p2, p3]" by (simp only: provider_list_def providers.simps)
        ultimately have "export_run F X cfg endpoint (compiled_signals F) ?ctx0 w (Inr [p1, p2, p3]) c3 w'"
          and "r = Inr ()" and "ctx' = c3\<lparr>bc_tasks := spawn T ''otel-shutdown''
            (\<lambda>shutdown w. flush_providers X (List.map_filter (\<lambda>x. x) [p1, p2, p3]) (token_cancelled X shutdown w))
            (bc_tasks c3)\<rparr>" by (simp_all only:)
        then show ?thesis by (rule succeeded)
      qed
    qed
  qed
qed

section \<open>Properties\<close>

text \<open>
  C37: export is on exactly when a transport and a signal are compiled in and an endpoint is
  configured. When it is off the plugin touches neither the subscriber nor the tasks nor the SDK and
  reports no endpoint. When it is on, the exporters of the compiled-in signals are built in order for
  the endpoint. If one cannot be built, the build fails with its error and adds no task. Otherwise every
  signal has its provider, over its exporter, published and with its layer on the subscriber, the
  endpoint is reported, and one task is added, which after the shutdown starts the blocking shutdown of
  all the providers, each once, before it awaits the first. Either way what the nine crates of the export
  path log is hidden from the plugin layers, and the routes never change.
\<close>

theorem otel_export_spec:
  assumes "otel_build F X T cfg ctx w = (r, ctx', w')"
  shows "mounts (bc_router ctx') = mounts (bc_router ctx)
    \<and> (case if (of_otlp_tonic F \<or> of_otlp_http F) \<and> compiled_signals F \<noteq> [] then ot_endpoint cfg else None of
         None \<Rightarrow> r = Inr \<lparr>th_service_name = ot_service_name cfg, th_endpoint = None\<rparr> \<and> w' = w
           \<and> bc_telemetry ctx' = bc_telemetry ctx \<and> bc_tasks ctx' = bc_tasks ctx
       | Some endpoint \<Rightarrow>
           (\<exists>ps ops failure. exported F X cfg endpoint (compiled_signals F) w ps ops w' failure
              \<and> bc_telemetry ctx' = tel_run (Exclude otel_excluded # ops) (bc_telemetry ctx)
              \<and> (case failure of
                   Some e \<Rightarrow> r = Inl (error_other e) \<and> bc_tasks ctx' = bc_tasks ctx
                 | None \<Rightarrow> r = Inr \<lparr>th_service_name = ot_service_name cfg, th_endpoint = Some endpoint\<rparr>
                     \<and> length ps = length (compiled_signals F)
                     \<and> bc_tasks ctx' = spawn T ''otel-shutdown''
                         (\<lambda>shutdown w. flush_providers X ps (token_cancelled X shutdown w)) (bc_tasks ctx)))
         \<and> (bc_telemetry ctx = Some s \<and> healthy s
             \<and> krate \<in> {''h2'', ''hyper'', ''hyper_util'', ''tower'', ''tonic'', ''reqwest'', ''opentelemetry'',
                  ''opentelemetry_sdk'', ''opentelemetry_otlp''} \<longrightarrow>
              (\<exists>s'. bc_telemetry ctx' = Some s' \<and> \<not> plugin_filter level s' (krate @ ''::'' @ m))))"
proof -
  define ctx1 where "ctx1 = (if of_http_layer F
    then ctx\<lparr>bc_router := layer (trace_http_layer X) (bc_router ctx)\<rparr> else ctx)"
  have same: "mounts (bc_router ctx1) = mounts (bc_router ctx)" "bc_tasks ctx1 = bc_tasks ctx"
    "bc_telemetry ctx1 = bc_telemetry ctx"
    by (simp_all add: ctx1_def mounts_def layer_def)
  have on: "export_compiled F \<longleftrightarrow> (of_otlp_tonic F \<or> of_otlp_http F) \<and> compiled_signals F \<noteq> []"
    by (auto simp: export_compiled_def compiled_signals_def)
  show ?thesis
  proof (cases "if export_compiled F then ot_endpoint cfg else None")
    case None
    then have "otel_build F X T cfg ctx w = (Inr \<lparr>th_service_name = ot_service_name cfg, th_endpoint = None\<rparr>, ctx1, w)"
      by (simp add: otel_build_def ctx1_def Let_def)
    with assms None same show ?thesis unfolding on by simp
  next
    case (Some endpoint)
    then have ep: "ot_endpoint cfg = Some endpoint" by (auto split: if_splits)
    obtain ri ci wi where i: "otel_install F X T cfg endpoint ctx1 w = (ri, ci, wi)" by (metis surj_pair)
    have out: "ctx' = ci" "w' = wi" "r = map_sum id (\<lambda>_. \<lparr>th_service_name = ot_service_name cfg, th_endpoint = Some endpoint\<rparr>) ri"
      using assms Some ep i
      by (auto simp: otel_build_def ctx1_def [symmetric] Let_def split: sum.splits)
    obtain ps ops failure where ex: "exported F X cfg endpoint (compiled_signals F) w ps ops w' failure"
      and rest: "bc_router ctx' = bc_router ctx1"
        "bc_telemetry ctx' = tel_run (Exclude otel_excluded # ops) (bc_telemetry ctx)"
        "case failure of
           Some e \<Rightarrow> r = Inl (error_other e) \<and> bc_tasks ctx' = bc_tasks ctx
         | None \<Rightarrow> r = Inr \<lparr>th_service_name = ot_service_name cfg, th_endpoint = Some endpoint\<rparr>
             \<and> length ps = length (compiled_signals F)
             \<and> bc_tasks ctx' = spawn T ''otel-shutdown''
                 (\<lambda>shutdown w. flush_providers X ps (token_cancelled X shutdown w)) (bc_tasks ctx)"
      using otel_install_exported [OF i] out same exported_all by (force split: option.splits)
    have "\<exists>s'. bc_telemetry ctx' = Some s' \<and> \<not> plugin_filter level s' (krate @ ''::'' @ m)"
      if "bc_telemetry ctx = Some s \<and> healthy s \<and> krate \<in> {''h2'', ''hyper'', ''hyper_util'', ''tower'', ''tonic'',
        ''reqwest'', ''opentelemetry'', ''opentelemetry_sdk'', ''opentelemetry_otlp''}"
    proof -
      obtain s' where s': "tel_run (Exclude otel_excluded # ops) (Some s) = Some s'" using tel_run_Some by blast
      moreover have "in_crate (krate @ ''::'' @ m) krate" using crate_prefix.covers_below [of krate m] by simp
      moreover have "krate \<in> set otel_excluded" using that by (simp add: otel_excluded_def)
      ultimately show ?thesis using tel_run_hides [OF _ s', of krate] that rest(2) by simp
    qed
    with ex rest same Some show ?thesis unfolding on by auto
  qed
qed

definition otel_demo_features :: otel_features where
  "otel_demo_features = \<lparr>of_http_layer = False, of_otlp_tonic = False, of_otlp_http = True,
     of_tracing_bridge = True, of_metrics = True, of_logs = False\<rparr>"

text \<open>A collector that takes what is sent to \<open>http://up\<close>; the world counts the exporters and providers.\<close>

definition demo_otel :: "(string, string, string, unit, unit, unit, nat) otel_api" where
  "demo_otel =
     \<lparr>build_exporter = (\<lambda>spec w. (if starts_with ''http://up'' (ex_endpoint spec) then Inr (ex_endpoint spec) else Inl ''refused'', Suc w)),
      batch_tracer = (\<lambda>e n. e), periodic_meter = (\<lambda>e i n. e), batch_logger = (\<lambda>e n. e),
      tracer_layer = (\<lambda>p n. p), logger_layer = (\<lambda>p. p), set_tracer_provider = (\<lambda>p w. w + 10),
      set_meter_provider = (\<lambda>p w. w + 100), trace_http_layer = id, provider_shutdown = (\<lambda>p w. (Inr (), w)),
      spawn_blocking = (\<lambda>f w. ((), f w)), await_blocking = (\<lambda>h w. w), token_cancelled = (\<lambda>t w. w)\<rparr>"

definition demo_otel_config :: "string \<Rightarrow> otel_config" where
  "demo_otel_config endpoint = otel_config_default\<lparr>ot_endpoint := Some endpoint\<rparr>"

theorem otel_export_spec_witness:
  "\<forall>(T :: (unit, nat \<Rightarrow> nat, nat, unit) tokio_api) (ctx :: (unit, unit, unit, nat, unit, string) build_ctx).
    bc_tasks (fst (snd (otel_build otel_demo_features demo_otel T otel_config_default ctx 0))) = bc_tasks ctx
    \<and> fst (otel_build otel_demo_features demo_otel T (demo_otel_config ''http://down'') ctx 0) = Inl (error_other ''refused'')
    \<and> task_names (bc_tasks (fst (snd (otel_build otel_demo_features demo_otel T (demo_otel_config ''http://up'') ctx 0))))
        = task_names (bc_tasks ctx) @ [''otel-shutdown'']"
proof (intro allI)
  fix T :: "(unit, nat \<Rightarrow> nat, nat, unit) tokio_api" and ctx :: "(unit, unit, unit, nat, unit, string) build_ctx"
  let ?b = "\<lambda>cfg. otel_build otel_demo_features demo_otel T cfg ctx 0"
  have signals: "compiled_signals otel_demo_features = [Traces, Metrics]" "of_otlp_http otel_demo_features"
    by (simp_all add: compiled_signals_def otel_demo_features_def)
  have ends: "ot_endpoint otel_config_default = None" "ot_endpoint (demo_otel_config e) = Some e" for e
    by (simp_all add: otel_config_default_def demo_otel_config_def)
  have spec: "build_exporter demo_otel (exporter_for otel_demo_features cfg ''http://up'' sig) v
      = (Inr (trim_end_matches CHR ''/'' ''http://up''
          @ (case sig of Traces \<Rightarrow> ''/v1/traces'' | Metrics \<Rightarrow> ''/v1/metrics'' | Logs \<Rightarrow> ''/v1/logs'')), Suc v)"
    "build_exporter demo_otel (exporter_for otel_demo_features cfg ''http://down'' sig) v = (Inl ''refused'', Suc v)" for cfg sig v
    by (cases sig; simp add: demo_otel_def exporter_for_def otel_demo_features_def trim_end_matches_def starts_with_def)+
  have up: "failure = None"
    if "exported otel_demo_features demo_otel cfg ''http://up'' sigs v ps ops v' failure" for cfg sigs v ps ops v' failure
    using that by induction (simp_all add: spec)
  have down: "failure = Some ''refused''"
    if "exported otel_demo_features demo_otel cfg ''http://down'' [Traces, Metrics] v ps ops v' failure" for cfg v ps ops v' failure
    using that by cases (simp_all add: spec)
  note at = otel_export_spec [where s = undefined and krate = "[]" and level = undefined and m = "[]", THEN conjunct2]
  obtain r1 c1 w1 where off: "?b otel_config_default = (r1, c1, w1)" by (metis surj_pair)
  obtain r2 c2 w2 where bad: "?b (demo_otel_config ''http://down'') = (r2, c2, w2)" by (metis surj_pair)
  obtain r3 c3 w3 where good: "?b (demo_otel_config ''http://up'') = (r3, c3, w3)" by (metis surj_pair)
  have "bc_tasks c1 = bc_tasks ctx"
    using at [OF off, unfolded ends(1) if_cancel option.case] by (elim conjE)
  moreover have "r2 = Inl (error_other ''refused'')"
    using at [OF bad] by (auto simp: ends signals dest: down)
  moreover have "task_names (bc_tasks c3) = task_names (bc_tasks ctx) @ [''otel-shutdown'']"
    using at [OF good]
    by (auto simp: ends signals spawn_def task_names_def dest: up)
  ultimately show "bc_tasks (fst (snd (?b otel_config_default))) = bc_tasks ctx
    \<and> fst (?b (demo_otel_config ''http://down'')) = Inl (error_other ''refused'')
    \<and> task_names (bc_tasks (fst (snd (?b (demo_otel_config ''http://up'')))))
        = task_names (bc_tasks ctx) @ [''otel-shutdown'']"
    by (simp add: off bad good)
qed

text \<open>
  The flush at shutdown blocks no worker and waits for nothing too early: each provider there is
  gets its blocking shutdown spawned exactly once, in the order traces, metrics, logs; all of them are
  running before the first is awaited, and each is awaited, in the same order. Each exporter was sent
  to the configured endpoint: as it is over gRPC, over HTTP to the signal's path under it whether or
  not it ends in slashes.
\<close>

theorem providers_flushed_together:
  "providers_shutdown X ps w
     = (let (hs, w1) = spawn_list X (provider_list ps) w in foldl (\<lambda>w h. await_blocking X h w) w1 hs)
   \<and> signal_endpoint F (endpoint @ replicate n CHR ''/'') path
     = (if of_otlp_tonic F then endpoint @ replicate n CHR ''/''
        else signal_endpoint F endpoint [] @ path)"
proof
  show "providers_shutdown X ps w
     = (let (hs, w1) = spawn_list X (provider_list ps) w in foldl (\<lambda>w h. await_blocking X h w) w1 hs)"
    by (simp add: providers_shutdown_flush flush_providers_def)
  show "signal_endpoint F (endpoint @ replicate n CHR ''/'') path
     = (if of_otlp_tonic F then endpoint @ replicate n CHR ''/'' else signal_endpoint F endpoint [] @ path)"
    by (simp add: signal_endpoint_def trim_end_matches_def dropWhile_append)
qed

end
