(* ===== verification/Sentry.thy ===== *)
theory Sentry
  imports Core_App
begin

text \<open>
  \<open>muxa-sentry/src/lib.rs\<close>: the Sentry plugin and the sampling of transactions.

  The SDK is a parameter: parsing a DSN, \<open>sentry::init\<close> and the tower layers. A rate is an \<open>f32\<close>,
  kept as its IEEE bits; muxa only stores and compares nothing of it.
\<close>

type_synonym f32 = "32 word"

definition F32_0 :: f32 where "F32_0 = 0x00000000"
definition F32_0_1 :: f32 where "F32_0_1 = 0x3DCCCCCD"
definition F32_1 :: f32 where "F32_1 = 0x3F800000"

record sentry_config =
  sc_dsn :: "string option"
  sc_environment :: "string option"
  sc_release :: "string option"
  sc_traces_sample_rate :: "f32 option"
  sc_transaction_sample_rates :: "(string, f32) hmap"
  sc_attach_stacktrace :: bool
  sc_send_default_pii :: bool
  sc_http_transactions :: bool
  sc_logs :: bool

definition sentry_config_default :: sentry_config where
  "sentry_config_default =
     \<lparr>sc_dsn = None, sc_environment = None, sc_release = None, sc_traces_sample_rate = None,
      sc_transaction_sample_rates = [], sc_attach_stacktrace = True, sc_send_default_pii = False,
      sc_http_transactions = True, sc_logs = True\<rparr>"

definition default_traces_sample_rate :: "run_mode \<Rightarrow> f32" where
  "default_traces_sample_rate mode = (case mode of Production \<Rightarrow> F32_0_1 | Development \<Rightarrow> F32_1)"

definition DEFAULT_TRANSACTION_SAMPLE_RATES :: "(string \<times> f32) list" where
  "DEFAULT_TRANSACTION_SAMPLE_RATES = [(''muxa.task'', F32_0)]"

text \<open>\<open>f32::from\<close> of a \<open>bool\<close>.\<close>

definition f32_from_bool :: "bool \<Rightarrow> f32" where
  "f32_from_bool b = (if b then F32_1 else F32_0)"

definition sample_rate_for :: "(string, f32) hmap \<Rightarrow> f32 \<Rightarrow> string \<Rightarrow> bool option \<Rightarrow> f32" where
  "sample_rate_for rates default_rate name parent_sampled =
     (case parent_sampled of
        None \<Rightarrow> (case hm_get name rates of Some rate \<Rightarrow> rate | None \<Rightarrow> default_rate)
      | Some sampled \<Rightarrow> f32_from_bool sampled)"

text \<open>\<open>HashMap::extend\<close> and \<open>collect\<close>: insert one entry after the other.\<close>

definition hm_extend :: "('k, 'v) hmap \<Rightarrow> ('k \<times> 'v) list \<Rightarrow> ('k, 'v) hmap" where
  "hm_extend m es = foldl (\<lambda>m (k, v). hm_insert k v m) m es"

definition sampling_rates :: "sentry_config \<Rightarrow> (string, f32) hmap" where
  "sampling_rates cfg =
     hm_extend (hm_extend [] DEFAULT_TRANSACTION_SAMPLE_RATES) (sc_transaction_sample_rates cfg)"

record 'dsn client_options =
  co_dsn :: "'dsn option"
  co_environment :: "string option"
  co_release :: "string option"
  co_traces_sample_rate :: f32
  co_traces_sampler :: "string \<Rightarrow> bool option \<Rightarrow> f32"
  co_attach_stacktrace :: bool
  co_send_default_pii :: bool
  co_enable_logs :: bool

record ('dsn, 'guard, 'r, 'w, 'l) sentry_api =
  parse_dsn :: "string \<Rightarrow> string + 'dsn"
  sentry_init :: "'dsn client_options \<Rightarrow> 'w \<Rightarrow> 'guard \<times> 'w"
  http_layer :: "bool \<Rightarrow> 'r \<Rightarrow> 'r"
  new_hub_layer :: "'r \<Rightarrow> 'r"
  tracing_layer :: 'l

text \<open>The \<open>TypeId\<close> of \<open>sentry_tracing::layer()\<close>.\<close>

definition sentry_layer_type :: string where
  "sentry_layer_type = ''sentry_tracing::SentryLayer''"

definition sentry_excluded :: "string list" where
  "sentry_excluded = [''h2'', ''hyper'', ''hyper_util'', ''reqwest'', ''tower'']"

definition SENTRY_ENV_FALLBACKS :: "env_fallback list" where
  "SENTRY_ENV_FALLBACKS =
     [\<lparr>ef_var = ''SENTRY_DSN'', ef_key = ''dsn''\<rparr>,
      \<lparr>ef_var = ''SENTRY_ENVIRONMENT'', ef_key = ''environment''\<rparr>,
      \<lparr>ef_var = ''SENTRY_RELEASE'', ef_key = ''release''\<rparr>]"

definition invalid_dsn :: "string \<Rightarrow> error" where
  "invalid_dsn err = error_other (''muxa-sentry: `sentry.dsn` is not a valid DSN: '' @ err)"

text \<open>The DSN of the configuration: unset and empty are none, anything else must parse.\<close>

definition resolve_dsn ::
    "('dsn, 'guard, 'r, 'w, 'l) sentry_api \<Rightarrow> sentry_config \<Rightarrow> 'dsn option result" where
  "resolve_dsn S cfg =
     (case (case sc_dsn cfg of Some raw \<Rightarrow> if raw \<noteq> [] then Some raw else None | None \<Rightarrow> None) of
        None \<Rightarrow> Inr None
      | Some raw \<Rightarrow>
          (case map_err invalid_dsn (parse_dsn S raw) of Inl e \<Rightarrow> Inl e | Inr dsn \<Rightarrow> Inr (Some dsn)))"

definition client_options_of ::
    "bool \<Rightarrow> sentry_config \<Rightarrow> run_mode \<Rightarrow> 'dsn option \<Rightarrow> 'dsn client_options" where
  "client_options_of tracing_bridge cfg mode dsn =
     (let environment = (case sc_environment cfg of None \<Rightarrow> as_str mode | Some e \<Rightarrow> e);
          traces_sample_rate = (case sc_traces_sample_rate cfg of
                                  Some rate \<Rightarrow> rate
                                | None \<Rightarrow> default_traces_sample_rate mode);
          enable_logs = (sc_logs cfg \<and> tracing_bridge);
          rates = sampling_rates cfg
      in \<lparr>co_dsn = dsn, co_environment = Some environment, co_release = sc_release cfg,
          co_traces_sample_rate = traces_sample_rate,
          co_traces_sampler = (\<lambda>name sampled. sample_rate_for rates traces_sample_rate name sampled),
          co_attach_stacktrace = sc_attach_stacktrace cfg, co_send_default_pii = sc_send_default_pii cfg,
          co_enable_logs = enable_logs\<rparr>)"

text \<open>\<open>tracing_bridge\<close> is the crate's feature of that name. The output handle is the guard.\<close>

definition sentry_build ::
    "bool \<Rightarrow> ('dsn, 'guard, 'r, 'w, 'l) sentry_api \<Rightarrow> sentry_config
      \<Rightarrow> ('fig, 'r, 'tok, 'w, 'h, 'l) build_ctx \<Rightarrow> 'w
      \<Rightarrow> 'guard result \<times> ('fig, 'r, 'tok, 'w, 'h, 'l) build_ctx \<times> 'w" where
  "sentry_build tracing_bridge S cfg ctx w =
     (case resolve_dsn S cfg of
        Inl e \<Rightarrow> (Inl e, ctx, w)
      | Inr dsn \<Rightarrow>
          (let options = client_options_of tracing_bridge cfg (bc_mode ctx) dsn;
               (guard, w) = sentry_init S options w;
               http_transactions = sc_http_transactions cfg;
               ctx = ctx\<lparr>bc_router := layer (\<lambda>router.
                       new_hub_layer S (http_layer S http_transactions router)) (bc_router ctx)\<rparr>;
               ctx = (if tracing_bridge
                      then ctx\<lparr>bc_telemetry := add_layer sentry_layer_type (tracing_layer S)
                               (exclude_targets sentry_excluded (bc_telemetry ctx))\<rparr>
                      else ctx)
           in (Inr guard, ctx, w)))"

section \<open>Lemmas\<close>

lemma hm_get_extend:
  "distinct (map fst es) \<Longrightarrow> hm_get k (hm_extend m es) = (case map_of es k of Some v \<Rightarrow> Some v | None \<Rightarrow> hm_get k m)"
proof (induction es arbitrary: m)
  case Nil
  then show ?case by (simp add: hm_extend_def)
next
  case (Cons e es)
  obtain j v where e: "e = (j, v)" by (metis surj_pair)
  from Cons e have "hm_get k (hm_extend (hm_insert j v m) es)
      = (case map_of es k of Some u \<Rightarrow> Some u | None \<Rightarrow> hm_get k (hm_insert j v m))" by simp
  moreover have "k = j \<Longrightarrow> map_of es k = None" using Cons.prems e by (simp add: map_of_eq_None_iff)
  ultimately show ?case using e by (auto simp: hm_extend_def split: option.splits)
qed

lemma hm_extend_wf: "hm_wf m \<Longrightarrow> hm_wf (hm_extend m es)"
proof (induction es arbitrary: m)
  case Nil
  then show ?case by (simp add: hm_extend_def)
next
  case (Cons e es)
  then have "hm_wf (hm_extend (hm_insert (fst e) (snd e) m) es)" by auto
  then show ?case by (simp add: hm_extend_def case_prod_beta)
qed

lemma sampling_rates_get:
  assumes "hm_wf (sc_transaction_sample_rates cfg)"
  shows "hm_get name (sampling_rates cfg) =
    (case hm_get name (sc_transaction_sample_rates cfg) of
       Some rate \<Rightarrow> Some rate
     | None \<Rightarrow> if name = ''muxa.task'' then Some F32_0 else None)"
proof -
  have "hm_get name (hm_extend [] DEFAULT_TRANSACTION_SAMPLE_RATES)
      = (if name = ''muxa.task'' then Some F32_0 else None)"
    by (simp add: DEFAULT_TRANSACTION_SAMPLE_RATES_def hm_extend_def hm_get_insert) (simp add: hm_get_def)
  with hm_get_extend [OF assms [unfolded hm_wf_def], of name "hm_extend [] DEFAULT_TRANSACTION_SAMPLE_RATES"]
  show ?thesis by (simp only: sampling_rates_def hm_get_def [of name "sc_transaction_sample_rates cfg"])
qed

lemma resolve_dsn_ok:
  assumes "\<not> (\<exists>raw e. sc_dsn cfg = Some raw \<and> raw \<noteq> [] \<and> parse_dsn S raw = Inl e)"
  shows "\<exists>dsn. resolve_dsn S cfg = Inr dsn \<and> (dsn = None \<longleftrightarrow> sc_dsn cfg = None \<or> sc_dsn cfg = Some [])"
proof (cases "sc_dsn cfg")
  case None
  then show ?thesis by (simp add: resolve_dsn_def)
next
  case (Some raw)
  with assms show ?thesis by (cases "parse_dsn S raw") (auto simp: resolve_dsn_def)
qed

lemma ctx_extends_layer_telemetry:
  "ctx_extends ctx (ctx\<lparr>bc_router := layer f (bc_router ctx), bc_telemetry := t\<rparr>)"
  using ctx_extends_trans [OF ctx_extends_layer ctx_extends_telemetry] .

interpretation sentry_extends: ctx_extender "\<lambda>(tb, S, cfg, w) ctx. sentry_build tb S cfg ctx w"
  by unfold_locales
    (auto simp: sentry_build_def Let_def case_prod_beta ctx_extends_layer_telemetry split: sum.splits)

text \<open>The five crates of Sentry's transport are hidden from the plugin layers.\<close>

lemma transport_hidden:
  assumes "healthy s"
  shows "\<exists>s'. tel_run [Exclude sentry_excluded, AddLayer k l] (Some s) = Some s'
    \<and> (\<forall>krate \<in> {''h2'', ''hyper'', ''hyper_util'', ''reqwest'', ''tower''}.
         \<not> plugin_filter level s' krate \<and> \<not> plugin_filter level s' (krate @ ''::'' @ m))"
proof -
  let ?ops = "[Exclude sentry_excluded, AddLayer k l]"
  obtain s' where s': "tel_run ?ops (Some s) = Some s'" using tel_run_Some by blast
  have hidden: "\<not> plugin_filter level s' krate \<and> \<not> plugin_filter level s' (krate @ ''::'' @ m)"
    if "krate \<in> {''h2'', ''hyper'', ''hyper_util'', ''reqwest'', ''tower''}" for krate
  proof -
    have "krate \<in> excluded_by ?ops" using that by (auto simp: sentry_excluded_def)
    note hides = tel_run_hides [OF assms s' this]
    have "in_crate krate krate" "in_crate (krate @ ''::'' @ m) krate"
      using crate_prefix.covers_self [of krate] crate_prefix.covers_below [of krate m] by simp_all
    with hides show ?thesis by blast
  qed
  show ?thesis by (rule exI [of _ s'], intro conjI s' ballI hidden)
qed

section \<open>Properties\<close>

text \<open>
  The rate of a transaction is decided in this order: a transaction that continues a trace
  takes its parent's decision (all or nothing); else the configuration's entry for its exact name;
  else \<open>muxa.task\<close> is never sampled; else the configured rate, an explicit \<open>0.0\<close> included; else
  1.0 in development and 0.1 in production.
\<close>

theorem sampler_precedence:
  assumes "hm_wf (sc_transaction_sample_rates cfg)"
  shows "co_traces_sampler (client_options_of tb cfg mode dsn) name parent =
    (case parent of
       Some sampled \<Rightarrow> if sampled then F32_1 else F32_0
     | None \<Rightarrow>
         (case hm_get name (sc_transaction_sample_rates cfg) of
            Some rate \<Rightarrow> rate
          | None \<Rightarrow>
              if name = ''muxa.task'' then F32_0
              else (case sc_traces_sample_rate cfg of
                      Some rate \<Rightarrow> rate
                    | None \<Rightarrow> if mode = Production then F32_0_1 else F32_1)))"
  by (cases mode) (auto simp: client_options_of_def Let_def sample_rate_for_def sampling_rates_get [OF assms]
      f32_from_bool_def default_traces_sample_rate_def split: option.splits)

theorem sampler_precedence_witness:
  "co_traces_sampler (client_options_of True
      (sentry_config_default\<lparr>sc_transaction_sample_rates := [(''GET /healthz'', F32_0)]\<rparr>) Production (None :: unit option))
    ''GET /jobs/{id}'' None = F32_0_1"
proof -
  have wf: "hm_wf (sc_transaction_sample_rates
      (sentry_config_default\<lparr>sc_transaction_sample_rates := [(''GET /healthz'', F32_0)]\<rparr>))"
    by (simp add: hm_wf_def)
  show ?thesis
    by (subst sampler_precedence [OF wf]) (simp add: hm_get_def sentry_config_default_def)
qed

text \<open>
  C38: a DSN that does not parse fails the build before anything happened: no client, no layer, no
  exclusion. Otherwise the client is initialised exactly once, with a DSN unless it is unset or
  empty, the environment of the configuration or else the run mode's label, and logs only with the
  tracing bridge; the composed app is wrapped by the HTTP layer and, outermost, by the layer that
  gives each request its scope; and with the bridge nothing that its own transport logs, in any of the
  five crates it goes through, reaches it.
\<close>

theorem sentry_build_spec:
  assumes "sentry_build tb S cfg ctx w = (r, ctx', w')"
  shows "if \<exists>raw e. sc_dsn cfg = Some raw \<and> raw \<noteq> [] \<and> parse_dsn S raw = Inl e
    then is_err r \<and> ctx' = ctx \<and> w' = w
    else \<exists>guard options. r = Inr guard \<and> sentry_init S options w = (guard, w')
      \<and> (co_dsn options = None \<longleftrightarrow> sc_dsn cfg = None \<or> sc_dsn cfg = Some [])
      \<and> co_environment options = Some (case sc_environment cfg of Some e \<Rightarrow> e | None \<Rightarrow> as_str (bc_mode ctx))
      \<and> co_enable_logs options = (sc_logs cfg \<and> tb)
      \<and> compose A (bc_router ctx')
          = new_hub_layer S (http_layer S (sc_http_transactions cfg) (compose A (bc_router ctx)))
      \<and> (tb \<and> bc_telemetry ctx = Some s \<and> healthy s \<longrightarrow>
          (\<exists>s'. bc_telemetry ctx' = Some s'
             \<and> (\<forall>krate \<in> {''h2'', ''hyper'', ''hyper_util'', ''reqwest'', ''tower''}.
                  \<not> plugin_filter level s' krate \<and> \<not> plugin_filter level s' (krate @ ''::'' @ m))))"
proof (cases "\<exists>raw e. sc_dsn cfg = Some raw \<and> raw \<noteq> [] \<and> parse_dsn S raw = Inl e")
  case True
  with assms have "is_err r \<and> ctx' = ctx \<and> w' = w" by (auto simp: sentry_build_def resolve_dsn_def)
  with True show ?thesis by simp
next
  case False
  obtain dsn where dsn: "resolve_dsn S cfg = Inr dsn" "dsn = None \<longleftrightarrow> sc_dsn cfg = None \<or> sc_dsn cfg = Some []"
    using resolve_dsn_ok [of cfg S] False by blast
  define options where "options = client_options_of tb cfg (bc_mode ctx) dsn"
  obtain guard w1 where init: "sentry_init S options w = (guard, w1)" by (metis surj_pair)
  let ?tel = "if tb then tel_run [Exclude sentry_excluded, AddLayer sentry_layer_type (tracing_layer S)]
    (bc_telemetry ctx) else bc_telemetry ctx"
  have build: "r = Inr guard" "w' = w1"
    "bc_router ctx' = layer (\<lambda>router. new_hub_layer S (http_layer S (sc_http_transactions cfg) router)) (bc_router ctx)"
    "bc_telemetry ctx' = ?tel"
    using assms dsn(1) init
    by (auto simp: sentry_build_def Let_def options_def tel_run_def split: if_splits)
  have "compose A (bc_router ctx')
      = new_hub_layer S (http_layer S (sc_http_transactions cfg) (compose A (bc_router ctx)))"
    by (simp add: build(3) compose_def layer_def Let_def)
  moreover have "\<exists>s'. bc_telemetry ctx' = Some s'
      \<and> (\<forall>krate \<in> {''h2'', ''hyper'', ''hyper_util'', ''reqwest'', ''tower''}.
           \<not> plugin_filter level s' krate \<and> \<not> plugin_filter level s' (krate @ ''::'' @ m))"
    if "tb \<and> bc_telemetry ctx = Some s \<and> healthy s"
    using transport_hidden [of s] that build(4) by auto
  ultimately have "\<exists>guard options. r = Inr guard \<and> sentry_init S options w = (guard, w')
      \<and> (co_dsn options = None \<longleftrightarrow> sc_dsn cfg = None \<or> sc_dsn cfg = Some [])
      \<and> co_environment options = Some (case sc_environment cfg of Some e \<Rightarrow> e | None \<Rightarrow> as_str (bc_mode ctx))
      \<and> co_enable_logs options = (sc_logs cfg \<and> tb)
      \<and> compose A (bc_router ctx')
          = new_hub_layer S (http_layer S (sc_http_transactions cfg) (compose A (bc_router ctx)))
      \<and> (tb \<and> bc_telemetry ctx = Some s \<and> healthy s \<longrightarrow>
          (\<exists>s'. bc_telemetry ctx' = Some s'
             \<and> (\<forall>krate \<in> {''h2'', ''hyper'', ''hyper_util'', ''reqwest'', ''tower''}.
                  \<not> plugin_filter level s' krate \<and> \<not> plugin_filter level s' (krate @ ''::'' @ m))))"
    using build(1,2) init dsn(2)
    by (intro exI [of _ guard] exI [of _ options])
      (simp add: options_def client_options_of_def Let_def split: option.splits)
  with False show ?thesis by argo
qed

definition demo_sentry :: "(string, unit, string, nat, unit) sentry_api" where
  "demo_sentry = \<lparr>parse_dsn = (\<lambda>s. if starts_with ''https://'' s then Inr s else Inl ''scheme''),
     sentry_init = (\<lambda>_ w. ((), Suc w)), http_layer = (\<lambda>_ r. ''http('' @ r @ '')''),
     new_hub_layer = (\<lambda>r. ''hub('' @ r @ '')''), tracing_layer = ()\<rparr>"

definition demo_slot :: "(string, unit) slot" where
  "demo_slot = \<lparr>sl_layers = [], sl_kinds = [], sl_excluded = [], sl_kinds_poisoned = False,
     sl_excluded_poisoned = False, sl_reload_gone = False, sl_interest_rebuilds = 0\<rparr>"

theorem sentry_build_spec_witness:
  "\<forall>(ctx :: (unit, string, unit, nat, unit, unit) build_ctx) level.
     snd (sentry_build True demo_sentry (sentry_config_default\<lparr>sc_dsn := Some ''ftp://x''\<rparr>) ctx 0) = (ctx, 0)
     \<and> (\<exists>s' ctx'. sentry_build True demo_sentry (sentry_config_default\<lparr>sc_dsn := Some ''https://x''\<rparr>)
             (ctx\<lparr>bc_telemetry := Some demo_slot\<rparr>) 0 = (Inr (), ctx', 1)
          \<and> bc_telemetry ctx' = Some s' \<and> \<not> plugin_filter level s' ''h2::codec'')"
proof (intro allI)
  fix ctx :: "(unit, string, unit, nat, unit, unit) build_ctx" and level
  let ?bad = "sentry_config_default\<lparr>sc_dsn := Some ''ftp://x''\<rparr>"
    and ?good = "sentry_config_default\<lparr>sc_dsn := Some ''https://x''\<rparr>"
  let ?ctx = "ctx\<lparr>bc_telemetry := Some demo_slot\<rparr>"
  obtain r ctx' w' where b: "sentry_build True demo_sentry ?bad ctx 0 = (r, ctx', w')" by (metis surj_pair)
  have "parse_dsn demo_sentry ''ftp://x'' = Inl ''scheme''" by (simp add: demo_sentry_def)
  then have bad: "snd (sentry_build True demo_sentry ?bad ctx 0) = (ctx, 0)"
    using sentry_build_spec [OF b] b by simp
  obtain r1 ctx1 w1 where g: "sentry_build True demo_sentry ?good ?ctx 0 = (r1, ctx1, w1)" by (metis surj_pair)
  have "parse_dsn demo_sentry ''https://x'' = Inr ''https://x''" by (simp add: demo_sentry_def starts_with_def)
  moreover have "healthy demo_slot" by (simp add: healthy_def demo_slot_def)
  ultimately have good: "r1 = Inr ()" "w1 = 1"
    "\<exists>s'. bc_telemetry ctx1 = Some s' \<and> \<not> plugin_filter level s' ''h2::codec''"
    using sentry_build_spec [OF g, where A = undefined and s = demo_slot and level = level and m = "''codec''"]
    by (auto simp: demo_sentry_def)
  with g bad show "snd (sentry_build True demo_sentry ?bad ctx 0) = (ctx, 0)
     \<and> (\<exists>s' ctx'. sentry_build True demo_sentry ?good ?ctx 0 = (Inr (), ctx', 1)
          \<and> bc_telemetry ctx' = Some s' \<and> \<not> plugin_filter level s' ''h2::codec'')" by auto
qed

end
