(* ===== verification/Core_Host.thy ===== *)
theory Core_Host
  imports Contracts
begin

text \<open>
  \<open>muxa-core/src/host.rs\<close>: how many CPUs the process may use, and the default size of a
  database pool derived from it.
\<close>

text \<open>
  \<open>cpus()\<close>: the cached value if there is one, else \<open>available_parallelism\<close> (an
  \<open>io::Result<NonZeroUsize>\<close>, the first argument), which is then cached.
\<close>

definition cpus :: "'e + usize \<Rightarrow> usize option \<Rightarrow> usize \<times> usize option" where
  "cpus available cell =
     (case cell of
        Some n \<Rightarrow> (n, cell)
      | None \<Rightarrow> (let n = (case available of Inr n \<Rightarrow> n | Inl _ \<Rightarrow> 1) in (n, Some n)))"

text \<open>\<open>u32::try_from(n).unwrap_or(u32::MAX)\<close>.\<close>

definition u32_saturating_from :: "usize \<Rightarrow> u32" where
  "u32_saturating_from n = (if unat n < 2 ^ 32 then ucast n else - 1)"

definition db_pool_size_for :: "usize \<Rightarrow> u32" where
  "db_pool_size_for n =
     (let per_cpu = saturating_mul (u32_saturating_from n) 4
      in clamp_word per_cpu 4 32)"

text \<open>\<open>db_pool_size()\<close>, with the CPU cell threaded through.\<close>

definition db_pool_size :: "'e + usize \<Rightarrow> usize option \<Rightarrow> u32 \<times> usize option" where
  "db_pool_size available cell =
     (let (n, cell') = cpus available cell in (db_pool_size_for n, cell'))"

lemma unat_u32_saturating_from: "unat (u32_saturating_from n) = min (unat n) (2 ^ 32 - 1)"
proof (cases "unat n < 2 ^ 32")
  case True
  then have "unat (ucast n :: u32) = unat n"
    by (simp add: unsigned_ucast_eq take_bit_nat_eq_self)
  with True show ?thesis by (simp add: u32_saturating_from_def)
next
  case False
  then show ?thesis
    by (simp add: u32_saturating_from_def unsigned_minus_1_eq_mask mask_eq_exp_minus_1)
qed

lemma unat_clamp_word:
  "lo \<le> hi \<Longrightarrow> unat (clamp_word x lo hi) = max (unat lo) (min (unat hi) (unat x))"
  by (auto simp: clamp_word_def word_less_nat_alt word_le_nat_alt)

lemma cpus_stable: "cpus a c = (n, c') \<Longrightarrow> cpus b c' = (n, c')"
  by (auto simp: cpus_def Let_def split: option.splits)

lemma unat_db_pool_size_for: "unat (db_pool_size_for n) = max 4 (min 32 (4 * unat n))"
  by (simp add: db_pool_size_for_def unat_clamp_word word_le_nat_alt unat_saturating_mul
      unat_u32_saturating_from)

interpretation db_pool: cpu_sizing db_pool_size_for 4 4 32
  by unfold_locales (simp_all add: unat_db_pool_size_for)

text \<open>
  The default size of a database pool is four connections per CPU, never below 4 and never
  above 32, for every number of CPUs a \<open>usize\<close> holds (no overflow), and it never shrinks when
  CPUs are added; the CPU count is read once and every later call sees the same size.
\<close>

theorem db_pool_size_spec:
  "unat (db_pool_size_for n) = max 4 (min 32 (4 * unat n))
   \<and> 4 \<le> unat (db_pool_size_for n) \<and> unat (db_pool_size_for n) \<le> 32
   \<and> (n \<le> m \<longrightarrow> db_pool_size_for n \<le> db_pool_size_for m)
   \<and> fst (db_pool_size b (snd (db_pool_size a c))) = fst (db_pool_size a c)"
proof -
  have "fst (cpus b (snd (cpus a c))) = fst (cpus a c)"
    using cpus_stable [of a c "fst (cpus a c)" "snd (cpus a c)" b] by simp
  then have "fst (db_pool_size b (snd (db_pool_size a c))) = fst (db_pool_size a c)"
    by (simp add: db_pool_size_def case_prod_beta)
  then show ?thesis
    using db_pool.size_bounds [of n] db_pool.size_mono [of n m] unat_db_pool_size_for [of n] by simp
qed

theorem db_pool_size_spec_witness:
  "unat (db_pool_size_for 2) = 8 \<and> db_pool_size_for 2 \<le> db_pool_size_for 64"
  using db_pool_size_spec [of 2 64 "Inr 2 :: unit + usize" "Inl ()" None] by simp

end
