(* ===== verification/Diesel.thy ===== *)
theory Diesel
  imports Core_App Core_Host
begin

text \<open>
  \<open>muxa-diesel/src/pg.rs\<close> and \<open>migrations.rs\<close>: the Diesel plugin, its pool, and the migration runner
  with the advisory lock that serializes concurrent runs.

  Diesel, deadpool and the tokio blocking pool are the operations of \<open>diesel_api\<close> on the world
  \<open>'w\<close>. The statements of the migration transaction are a script (\<open>migration_script\<close>), run in order
  until one fails.
\<close>

section \<open>The lock key\<close>

text \<open>\<open>fnv1a_64\<close>: the loop over the index of a byte slice.\<close>

definition FNV_OFFSET :: u64 where
  "FNV_OFFSET = 0xcbf29ce484222325"

definition FNV_PRIME :: u64 where
  "FNV_PRIME = 0x00000100000001b3"

function fnv_loop :: "u8 list \<Rightarrow> nat \<Rightarrow> u64 \<Rightarrow> u64" where
  "fnv_loop bytes i hash =
     (if i < length bytes
      then fnv_loop bytes (i + 1) (xor hash (ucast (bytes ! i)) * FNV_PRIME)
      else hash)"
  by pat_completeness auto
termination
  by (relation "measure (\<lambda>(bytes, i, _). length bytes - i)") auto

declare fnv_loop.simps [simp del]

definition fnv1a_64 :: "u8 list \<Rightarrow> u64" where
  "fnv1a_64 bytes = fnv_loop bytes 0 FNV_OFFSET"

definition bytes_of :: "string \<Rightarrow> u8 list" where
  "bytes_of s = map (\<lambda>c. of_nat (byte c)) s"

definition DEFAULT_LOCK_KEY :: i64 where
  "DEFAULT_LOCK_KEY = fnv1a_64 (bytes_of ''muxa-diesel-migrations'')"

section \<open>The migration runner\<close>

record 'm migrations_runner =
  mr_migrations :: "'m list"
  mr_lock_key :: i64

definition migrations_runner_new :: "'m list \<Rightarrow> 'm migrations_runner" where
  "migrations_runner_new migrations = \<lparr>mr_migrations = migrations, mr_lock_key = DEFAULT_LOCK_KEY\<rparr>"

definition with_lock_key :: "i64 \<Rightarrow> 'm migrations_runner \<Rightarrow> 'm migrations_runner" where
  "with_lock_key key self = self\<lparr>mr_lock_key := key\<rparr>"

datatype 'm statement =
    BatchExecute string
  | AdvisoryXactLock i64
  | RunPendingMigrations "'m list"

definition migration_script :: "'m migrations_runner \<Rightarrow> 'm statement list" where
  "migration_script self =
     [BatchExecute ''SET TRANSACTION ISOLATION LEVEL READ COMMITTED'',
      AdvisoryXactLock (mr_lock_key self),
      RunPendingMigrations (mr_migrations self)]"

text \<open>
  \<open>exec_statement\<close> gives the number of versions a statement ran; \<open>transaction\<close> is
  \<open>diesel::Connection::transaction\<close>, \<open>join_blocking\<close> awaits a closure on the blocking pool.
\<close>

record ('m, 'conn, 'pool, 'w) diesel_api =
  establish :: "string \<Rightarrow> 'w \<Rightarrow> (string + 'conn) \<times> 'w"
  exec_statement :: "'conn \<Rightarrow> 'm statement \<Rightarrow> 'w \<Rightarrow> (string + nat) \<times> 'w"
  transaction :: "'conn \<Rightarrow> ('w \<Rightarrow> (string + nat) \<times> 'w) \<Rightarrow> 'w \<Rightarrow> (string + nat) \<times> 'w"
  join_blocking :: "('w \<Rightarrow> (string + nat) \<times> 'w) \<Rightarrow> 'w \<Rightarrow> (string + (string + nat)) \<times> 'w"
  install_instrumentation :: "'w \<Rightarrow> (string + unit) \<times> 'w"
  create_pool :: "string \<Rightarrow> nat \<Rightarrow> u64 option \<Rightarrow> u64 option \<Rightarrow> bool \<Rightarrow> string + 'pool"

text \<open>The closure: each statement with \<open>?\<close>, the last one's count returned.\<close>

fun run_statements ::
    "('m, 'conn, 'pool, 'w) diesel_api \<Rightarrow> 'conn \<Rightarrow> 'm statement list \<Rightarrow> nat \<Rightarrow> 'w
      \<Rightarrow> (string + nat) \<times> 'w" where
  "run_statements D conn [] count w = (Inr count, w)"
| "run_statements D conn (s # ss) count w =
     (case exec_statement D conn s w of
        (Inl e, w) \<Rightarrow> (Inl e, w)
      | (Inr n, w) \<Rightarrow> run_statements D conn ss n w)"

definition migrations_run ::
    "('m, 'conn, 'pool, 'w) diesel_api \<Rightarrow> 'm migrations_runner \<Rightarrow> string \<Rightarrow> 'w \<Rightarrow> nat result \<times> 'w" where
  "migrations_run D self url w =
     (case establish D url w of
        (Inl e, w) \<Rightarrow> (Inl (error_other e), w)
      | (Inr conn, w) \<Rightarrow>
          (case join_blocking D (transaction D conn (run_statements D conn (migration_script self) 0)) w of
             (Inl e, w) \<Rightarrow> (Inl (error_other e), w)
           | (Inr r, w) \<Rightarrow> (map_err error_other r, w)))"

section \<open>The plugin\<close>

definition default_acquire_timeout_secs :: u64 where
  "default_acquire_timeout_secs = 30"

record diesel_config =
  dc_url :: string
  dc_max_connections :: u32
  dc_acquire_timeout_secs :: u64

text \<open>\<open>available\<close> and \<open>cell\<close> are the CPU count of the host (\<open>Core_Host\<close>).\<close>

definition diesel_config_default :: "'e + usize \<Rightarrow> usize option \<Rightarrow> diesel_config" where
  "diesel_config_default available cell =
     \<lparr>dc_url = [], dc_max_connections = fst (db_pool_size available cell),
      dc_acquire_timeout_secs = default_acquire_timeout_secs\<rparr>"

definition DIESEL_ENV_FALLBACKS :: "env_fallback list" where
  "DIESEL_ENV_FALLBACKS = [\<lparr>ef_var = ''DATABASE_URL'', ef_key = ''url''\<rparr>]"

definition diesel_url_required :: error where
  "diesel_url_required = error_other
     (''muxa-diesel: `diesel.url` is required (set `[diesel] url` in config.toml, the app''
      @ [CHR 39] @ ''s `<APP>_DIESEL__URL` env var, or `DATABASE_URL`)'')"

text \<open>\<open>create_pool url max_size wait create has_runtime\<close> is the deadpool builder.\<close>

definition build_pool :: "('m, 'conn, 'pool, 'w) diesel_api \<Rightarrow> diesel_config \<Rightarrow> 'pool result" where
  "build_pool D cfg =
     (let acquire_timeout = (if dc_acquire_timeout_secs cfg > 0 then Some (dc_acquire_timeout_secs cfg) else None)
      in map_err error_other
           (create_pool D (dc_url cfg) (unat (dc_max_connections cfg)) acquire_timeout acquire_timeout True))"

definition diesel_build ::
    "bool \<Rightarrow> ('m, 'conn, 'pool, 'w) diesel_api \<Rightarrow> 'm migrations_runner option \<Rightarrow> diesel_config
      \<Rightarrow> ('fig, 'r, 'tok, 'w, 'h, 'l) build_ctx \<Rightarrow> 'w
      \<Rightarrow> 'pool result \<times> ('fig, 'r, 'tok, 'w, 'h, 'l) build_ctx \<times> 'w" where
  "diesel_build sentry D migrations cfg ctx w =
     (if dc_url cfg = [] then (Inl diesel_url_required, ctx, w)
      else (case (if sentry then install_instrumentation D w else (Inr (), w)) of
              (Inl e, w) \<Rightarrow> (Inl (error_other e), ctx, w)
            | (Inr _, w) \<Rightarrow>
                (case (case migrations of
                         None \<Rightarrow> (Inr 0, w)
                       | Some runner \<Rightarrow> migrations_run D runner (dc_url cfg) w) of
                   (Inl e, w) \<Rightarrow> (Inl e, ctx, w)
                 | (Inr applied, w) \<Rightarrow>
                     (case build_pool D cfg of
                        Inl e \<Rightarrow> (Inl e, ctx, w)
                      | Inr pool \<Rightarrow> (Inr pool, ctx, w)))))"

interpretation diesel_extends: ctx_extender
  "\<lambda>(sentry, D, migrations, cfg, w) ctx. diesel_build sentry D migrations cfg ctx w"
  by unfold_locales (auto simp: diesel_build_def case_prod_beta split: sum.splits option.splits prod.splits)

section \<open>FNV-1a\<close>

definition fnv_step :: "u64 \<Rightarrow> u8 \<Rightarrow> u64" where
  "fnv_step hash b = xor hash (ucast b) * FNV_PRIME"

lemma fnv_loop_foldl: "i \<le> length bytes \<Longrightarrow> fnv_loop bytes i hash = foldl fnv_step hash (drop i bytes)"
proof (induction bytes i hash rule: fnv_loop.induct)
  case (1 bytes i hash)
  show ?case
  proof (cases "i < length bytes")
    case True
    then have "drop i bytes = bytes ! i # drop (Suc i) bytes" by (simp add: Cons_nth_drop_Suc)
    with True 1 show ?thesis by (subst fnv_loop.simps) (simp add: fnv_step_def [symmetric])
  next
    case False
    then show ?thesis by (subst fnv_loop.simps) simp
  qed
qed

lemma fnv1a_64_foldl: "fnv1a_64 bytes = foldl fnv_step FNV_OFFSET bytes"
  by (simp add: fnv1a_64_def fnv_loop_foldl)

text \<open>The prime is odd, so multiplying by it can be undone.\<close>

definition FNV_INVERSE :: u64 where
  "FNV_INVERSE = 0xce965057aff6957b"

lemma FNV_PRIME_inverse: "FNV_PRIME * FNV_INVERSE = 1"
  by (simp add: FNV_PRIME_def FNV_INVERSE_def)

lemma fnv_mult_cancel: "a * FNV_PRIME = b * FNV_PRIME \<Longrightarrow> a = b"
proof -
  assume "a * FNV_PRIME = b * FNV_PRIME"
  then have "a * FNV_PRIME * FNV_INVERSE = b * FNV_PRIME * FNV_INVERSE" by (rule arg_cong)
  then show ?thesis by (simp only: mult.assoc FNV_PRIME_inverse mult_1_right)
qed

lemma fnv_step_inj: "fnv_step h a = fnv_step h' a \<Longrightarrow> h = h'"
proof -
  assume "fnv_step h a = fnv_step h' a"
  then have "xor h (ucast a) = xor h' (ucast a)" unfolding fnv_step_def by (rule fnv_mult_cancel)
  then have "xor (xor h (ucast a)) (ucast a) = xor (xor h' (ucast a)) (ucast a)" by (rule arg_cong)
  then show ?thesis by (simp only: xor.assoc xor_self_eq xor.right_neutral)
qed

lemma unat_ucast_u8: "unat (ucast b :: u64) = unat (b :: u8)"
proof -
  have "unat b < 2 ^ 8" using unsigned_less [of b, where ?'a = nat] by simp
  then have "unat b < 2 ^ 64" by simp
  then show ?thesis by (simp add: unsigned_ucast_eq take_bit_nat_eq_self)
qed

lemma fnv_step_inj_byte: "fnv_step h a = fnv_step h b \<Longrightarrow> a = b"
proof -
  assume "fnv_step h a = fnv_step h b"
  then have "xor h (ucast a) = xor h (ucast b)" unfolding fnv_step_def by (rule fnv_mult_cancel)
  then have "xor h (xor h (ucast a)) = xor h (xor h (ucast b))" by (rule arg_cong)
  then have "(ucast a :: u64) = ucast b"
    by (simp only: xor.assoc [symmetric] xor_self_eq xor.left_neutral)
  then have "unat (ucast a :: u64) = unat (ucast b :: u64)" by (rule arg_cong)
  then show ?thesis by (simp only: unat_ucast_u8 word_unat_eq_iff)
qed

lemma fnv_fold_inj: "foldl fnv_step h s = foldl fnv_step h' s \<Longrightarrow> h = h'"
  by (induction s arbitrary: h h') (auto dest: fnv_step_inj)

lemma unat_fnv_fold:
  "unat (foldl fnv_step h bytes)
     = foldl (\<lambda>h b. unat (xor (word_of_nat h :: u64) (ucast b)) * 0x100000001b3 mod 2 ^ 64) (unat h) bytes"
proof (induction bytes arbitrary: h)
  case Nil
  then show ?case by simp
next
  case (Cons b bytes)
  have "unat (fnv_step h b) = unat (xor h (ucast b)) * 0x100000001b3 mod 2 ^ 64"
    by (simp add: fnv_step_def FNV_PRIME_def unat_word_ariths)
  with Cons.IH [of "fnv_step h b"] show ?case by simp
qed

text \<open>
  C39: the index loop is the 64-bit FNV-1a hash: it folds the bytes, each step a xor and a
  multiplication modulo \<open>2^64\<close>. No two byte strings that differ in a single byte collide, and the
  default lock key is this fixed number.
\<close>

theorem fnv1a_64_correct:
  "unat (fnv1a_64 bytes)
     = foldl (\<lambda>h b. unat (xor (word_of_nat h :: u64) (ucast b)) * 0x100000001b3 mod 2 ^ 64) 0xcbf29ce484222325 bytes
   \<and> (fnv1a_64 (pre @ a # post) = fnv1a_64 (pre @ b # post) \<longleftrightarrow> a = b)
   \<and> DEFAULT_LOCK_KEY = 0x86681c3551637081"
proof (intro conjI)
  show "unat (fnv1a_64 bytes)
     = foldl (\<lambda>h b. unat (xor (word_of_nat h :: u64) (ucast b)) * 0x100000001b3 mod 2 ^ 64) 0xcbf29ce484222325 bytes"
    by (simp add: fnv1a_64_foldl unat_fnv_fold FNV_OFFSET_def)
  show "fnv1a_64 (pre @ a # post) = fnv1a_64 (pre @ b # post) \<longleftrightarrow> a = b"
    by (auto simp: fnv1a_64_foldl dest!: fnv_fold_inj fnv_step_inj_byte)
  show "DEFAULT_LOCK_KEY = 0x86681c3551637081" by code_simp
qed

section \<open>Concurrent runs\<close>

text \<open>
  Several replicas run the same migrations against one database, as Postgres documents its part. A
  transaction starts at the server's default isolation level, any of the three, until \<open>SET TRANSACTION\<close>
  changes it, which Postgres allows only before the transaction's first snapshot. A statement starts
  by taking its snapshot: under READ COMMITTED a fresh one of what is committed then, under the
  stricter levels the one the transaction's first statement took. The statement that asks for the
  advisory lock takes its snapshot when it starts, before it waits. The lock is held by at most one
  transaction and released when that commits or rolls back; what a transaction wrote is seen by others
  once it commits. A runner is at a statement of its script; what it ran is staged until the commit.
  It can fail or die at any point. \<open>db_results\<close> are the counts the successful runs returned. The
  primary key of Diesel's table of versions is not relied on.
\<close>

datatype isolation = ReadCommitted | RepeatableRead | Serializable

definition isolation_set :: "string \<Rightarrow> isolation option" where
  "isolation_set q = map_of
     [(''SET TRANSACTION ISOLATION LEVEL READ UNCOMMITTED'', ReadCommitted),
      (''SET TRANSACTION ISOLATION LEVEL READ COMMITTED'', ReadCommitted),
      (''SET TRANSACTION ISOLATION LEVEL REPEATABLE READ'', RepeatableRead),
      (''SET TRANSACTION ISOLATION LEVEL SERIALIZABLE'', Serializable)] q"

record 'm runner_state =
  rs_pc :: nat
  rs_isolation :: isolation
  rs_snapshot :: "'m list option"
  rs_waiting :: bool
  rs_staged :: "'m list"

record 'm database =
  db_applied :: "'m list"
  db_lock :: "i64 \<Rightarrow> nat option"
  db_runners :: "nat \<Rightarrow> 'm runner_state option"
  db_results :: "nat list"

definition pending :: "'m list \<Rightarrow> 'm list \<Rightarrow> 'm list" where
  "pending migrations applied = filter (\<lambda>m. m \<notin> set applied) migrations"

definition release_locks :: "nat \<Rightarrow> (i64 \<Rightarrow> nat option) \<Rightarrow> (i64 \<Rightarrow> nat option)" where
  "release_locks i locks = (\<lambda>k. if locks k = Some i then None else locks k)"

definition put_runner :: "nat \<Rightarrow> 'm runner_state \<Rightarrow> 'm database \<Rightarrow> 'm database" where
  "put_runner i r d = d\<lparr>db_runners := (db_runners d)(i \<mapsto> r)\<rparr>"

definition fresh_runner :: "isolation \<Rightarrow> 'm runner_state" where
  "fresh_runner level =
     \<lparr>rs_pc = 0, rs_isolation = level, rs_snapshot = None, rs_waiting = False, rs_staged = []\<rparr>"

text \<open>The snapshot a statement that starts now reads.\<close>

definition snapshot_now :: "'m database \<Rightarrow> 'm runner_state \<Rightarrow> 'm list" where
  "snapshot_now d r =
     (case rs_snapshot r of
        Some s \<Rightarrow> if rs_isolation r = ReadCommitted then db_applied d else s
      | None \<Rightarrow> db_applied d)"

text \<open>The next move of runner \<open>i\<close> when nothing fails; none while it waits for a lock another holds.\<close>

definition mig_next :: "'m statement list \<Rightarrow> nat \<Rightarrow> 'm database \<Rightarrow> 'm database option" where
  "mig_next script i d =
     (case db_runners d i of
        None \<Rightarrow> None
      | Some r \<Rightarrow>
          if rs_pc r < length script then
            (case script ! rs_pc r of
               BatchExecute q \<Rightarrow>
                 (case isolation_set q of
                    Some level \<Rightarrow>
                      if rs_snapshot r = None
                      then Some (put_runner i (r\<lparr>rs_pc := Suc (rs_pc r), rs_isolation := level\<rparr>) d)
                      else None
                  | None \<Rightarrow> None)
             | AdvisoryXactLock k \<Rightarrow>
                 if \<not> rs_waiting r
                 then Some (put_runner i (r\<lparr>rs_snapshot := Some (snapshot_now d r), rs_waiting := True\<rparr>) d)
                 else if db_lock d k = None \<or> db_lock d k = Some i
                 then Some (put_runner i (r\<lparr>rs_pc := Suc (rs_pc r), rs_waiting := False\<rparr>)
                              (d\<lparr>db_lock := (db_lock d)(k \<mapsto> i)\<rparr>))
                 else None
             | RunPendingMigrations ms \<Rightarrow>
                 Some (put_runner i (r\<lparr>rs_pc := Suc (rs_pc r), rs_snapshot := Some (snapshot_now d r),
                         rs_staged := rs_staged r @ pending ms (snapshot_now d r @ rs_staged r)\<rparr>) d))
          else Some \<lparr>db_applied = db_applied d @ rs_staged r, db_lock = release_locks i (db_lock d),
                     db_runners = (db_runners d)(i := None),
                     db_results = db_results d @ [length (rs_staged r)]\<rparr>)"

inductive mig_step :: "'m statement list \<Rightarrow> 'm database \<Rightarrow> 'm database \<Rightarrow> bool" for script where
  begin_run: "db_runners d i = None \<Longrightarrow> mig_step script d (put_runner i (fresh_runner level) d)"
| carry_on: "mig_next script i d = Some d' \<Longrightarrow> mig_step script d d'"
| rollback: "db_runners d i = Some r \<Longrightarrow>
    mig_step script d (d\<lparr>db_lock := release_locks i (db_lock d), db_runners := (db_runners d)(i := None)\<rparr>)"

inductive_cases mig_stepE: "mig_step script d d'"

definition mig_initial :: "'m list \<Rightarrow> 'm database" where
  "mig_initial applied =
     \<lparr>db_applied = applied, db_lock = (\<lambda>_. None), db_runners = (\<lambda>_. None), db_results = []\<rparr>"

text \<open>A schedule of runs, executed: who starts at which level, who goes on, who dies.\<close>

datatype mig_event = Begin nat isolation | Go nat | Die nat

fun mig_exec :: "'m statement list \<Rightarrow> mig_event list \<Rightarrow> 'm database \<Rightarrow> 'm database option" where
  "mig_exec script [] d = Some d"
| "mig_exec script (Begin i level # es) d =
     (if db_runners d i = None then mig_exec script es (put_runner i (fresh_runner level) d) else None)"
| "mig_exec script (Go i # es) d = Option.bind (mig_next script i d) (mig_exec script es)"
| "mig_exec script (Die i # es) d =
     (if db_runners d i = None then None
      else mig_exec script es
             (d\<lparr>db_lock := release_locks i (db_lock d), db_runners := (db_runners d)(i := None)\<rparr>))"








































section \<open>Properties\<close>



definition demo_runner :: "string migrations_runner" where
  "demo_runner = migrations_runner_new [''m1'', ''m2'', ''m3'']"


lemmas demo_defs = mig_next_def migration_script_def demo_runner_def migrations_runner_new_def
  mig_initial_def put_runner_def fresh_runner_def snapshot_now_def release_locks_def pending_def isolation_set_def



text \<open>
  The two mistakes the transaction avoids, on the same kind of schedule: without the lock, and with a
  snapshot that predates the wait, both replicas apply the migrations.
\<close>

lemma without_lock_twice:
  "map_option db_applied (mig_exec [BatchExecute ''SET TRANSACTION ISOLATION LEVEL READ COMMITTED'', RunPendingMigrations [''m'']]
     [Begin 0 ReadCommitted, Begin 1 ReadCommitted, Go 0, Go 1, Go 0, Go 1, Go 0, Go 1] (mig_initial [])) = Some [''m'', ''m'']"
  by (simp add: demo_defs)

lemma stale_snapshot_twice:
  "map_option db_applied (mig_exec [BatchExecute ''SET TRANSACTION ISOLATION LEVEL REPEATABLE READ'', AdvisoryXactLock 7, RunPendingMigrations [''m'']]
     [Begin 0 ReadCommitted, Begin 1 ReadCommitted, Go 0, Go 1, Go 0, Go 1, Go 0, Go 0, Go 0, Go 1, Go 1, Go 1] (mig_initial [])) = Some [''m'', ''m'']"
  by (simp add: demo_defs)






text \<open>
  The pool is published only after everything before it succeeded, in this order: a URL is
  configured (without one nothing is touched), the query instrumentation is registered, the pending
  migrations ran. The pool has the configured size, waits and connects with the same timeout, none for
  \<open>0\<close>, and a runtime to enforce it. Any failure is the build's error and leaves the context alone.
\<close>

theorem diesel_build_order:
  "(diesel_build sentry D migrations cfg ctx w = (Inr pool, ctx', w')) \<longleftrightarrow>
     dc_url cfg \<noteq> [] \<and> ctx' = ctx
     \<and> (\<exists>w1. (if sentry then install_instrumentation D w = (Inr (), w1) else w1 = w)
          \<and> (case migrations of
               None \<Rightarrow> w' = w1
             | Some runner \<Rightarrow> \<exists>n. migrations_run D runner (dc_url cfg) w1 = (Inr n, w')))
     \<and> create_pool D (dc_url cfg) (unat (dc_max_connections cfg))
          (if dc_acquire_timeout_secs cfg = 0 then None else Some (dc_acquire_timeout_secs cfg))
          (if dc_acquire_timeout_secs cfg = 0 then None else Some (dc_acquire_timeout_secs cfg)) True = Inr pool"
proof -
  let ?t = "if dc_acquire_timeout_secs cfg = 0 then None else Some (dc_acquire_timeout_secs cfg)"
  define pool_r where "pool_r = create_pool D (dc_url cfg) (unat (dc_max_connections cfg)) ?t ?t True"
  define inst where "inst = (if sentry then install_instrumentation D w else (Inr (), w))"
  define migr where "migr = (\<lambda>w. case migrations of None \<Rightarrow> (Inr 0, w)
    | Some runner \<Rightarrow> migrations_run D runner (dc_url cfg) w)"
  have "build_pool D cfg = map_err error_other pool_r"
    by (simp add: build_pool_def pool_r_def Let_def word_neq_0_conv [symmetric])
  then have build: "diesel_build sentry D migrations cfg ctx w =
     (if dc_url cfg = [] then (Inl diesel_url_required, ctx, w)
      else (case inst of
              (Inl e, w) \<Rightarrow> (Inl (error_other e), ctx, w)
            | (Inr _, w) \<Rightarrow>
                (case migr w of
                   (Inl e, w) \<Rightarrow> (Inl e, ctx, w)
                 | (Inr applied, w) \<Rightarrow>
                     (case map_err error_other pool_r of Inl e \<Rightarrow> (Inl e, ctx, w) | Inr pool \<Rightarrow> (Inr pool, ctx, w)))))"
    by (simp only: diesel_build_def inst_def migr_def)
  have "(diesel_build sentry D migrations cfg ctx w = (Inr pool, ctx', w')) \<longleftrightarrow>
      dc_url cfg \<noteq> [] \<and> ctx' = ctx \<and> (\<exists>w1 n. inst = (Inr (), w1) \<and> migr w1 = (Inr n, w')) \<and> pool_r = Inr pool"
    unfolding build by (cases pool_r) (auto split: sum.splits prod.splits)
  moreover have "inst = (Inr (), w1) \<longleftrightarrow> (if sentry then install_instrumentation D w = (Inr (), w1) else w1 = w)" for w1
    by (auto simp: inst_def)
  moreover have "(\<exists>n. migr w1 = (Inr n, w')) \<longleftrightarrow> (case migrations of
      None \<Rightarrow> w' = w1 | Some runner \<Rightarrow> \<exists>n. migrations_run D runner (dc_url cfg) w1 = (Inr n, w'))" for w1
    by (cases migrations) (auto simp: migr_def)
  ultimately show ?thesis unfolding pool_r_def [symmetric] by blast
qed

end
