(* ===== verification/Diesel_Sentry.thy ===== *)
theory Diesel_Sentry
  imports Muxa_Prelude "HOL-Library.Multiset"
begin

text \<open>
  \<open>diesel-sentry/src/lib.rs\<close>: the instrumentation that mirrors a connection's events as spans, as a
  state machine over the events, and the renderer that keeps bind values out of the SQL.

  A query's \<open>Display\<close> is a tree: it writes a chunk and goes on depending on whether the write was
  accepted, until it returns (\<open>True\<close> for \<open>Ok\<close>). A span is its fields. Dropping a span closes
  it: each operation returns the spans it closes, in order. The \<open>u64\<close> hash of a string under
  the standard library's \<open>DefaultHasher\<close>, whose algorithm is unspecified, is a parameter.
\<close>

definition BINDS_MARKER :: string where
  "BINDS_MARKER = '' -- binds:''"

definition MAX_RETAINED_SQL :: nat where
  "MAX_RETAINED_SQL = 16 * 1024"

definition MAX_IN_FLIGHT :: nat where
  "MAX_IN_FLIGHT = 32"

definition OTHER_SQL :: string where
  "OTHER_SQL = ''other_sql''"

section \<open>Rendering the SQL\<close>

text \<open>A \<open>String\<close> with its capacity; \<open>push_str\<close> grows it the way \<open>Vec\<close> does.\<close>

record str_buf =
  sb_text :: string
  sb_cap :: nat

definition push_str :: "str_buf \<Rightarrow> string \<Rightarrow> str_buf" where
  "push_str b s =
     (let needed = length (sb_text b) + length s
      in \<lparr>sb_text = sb_text b @ s,
          sb_cap = (if needed \<le> sb_cap b then sb_cap b else max 8 (max (2 * sb_cap b) needed))\<rparr>)"

definition truncate_buf :: "nat \<Rightarrow> str_buf \<Rightarrow> str_buf" where
  "truncate_buf n b = b\<lparr>sb_text := take n (sb_text b)\<rparr>"

datatype display = FmtDone bool | FmtWrite string "bool \<Rightarrow> display"

record until_binds =
  ub_buf :: str_buf
  ub_cut :: bool

text \<open>\<open>haystack.windows(n).position(|window| window == marker)\<close>.\<close>

definition window_position :: "'a list \<Rightarrow> 'a list \<Rightarrow> nat option" where
  "window_position marker s =
     position (\<lambda>window. window = marker)
       (map (\<lambda>i. take (length marker) (drop i s)) [0..<Suc (length s) - length marker])"

text \<open>\<open>write_str\<close>: whether the write is accepted, and the sink after it.\<close>

definition write_str :: "string \<Rightarrow> until_binds \<Rightarrow> bool \<times> until_binds" where
  "write_str chunk u =
     (if ub_cut u then (False, u)
      else (let start = length (sb_text (ub_buf u)) - length BINDS_MARKER;
                buf = push_str (ub_buf u) chunk
            in case window_position BINDS_MARKER (drop start (sb_text buf)) of
                 Some at \<Rightarrow> (False, \<lparr>ub_buf = truncate_buf (start + at) buf, ub_cut = True\<rparr>)
               | None \<Rightarrow> (True, u\<lparr>ub_buf := buf\<rparr>)))"

text \<open>\<open>fmt::write\<close> of the query into the sink.\<close>

primrec fmt_write :: "display \<Rightarrow> until_binds \<Rightarrow> bool \<times> until_binds" where
  "fmt_write (FmtDone ok) u = (ok, u)"
| "fmt_write (FmtWrite chunk k) u = (case write_str chunk u of (ok, u) \<Rightarrow> fmt_write (k ok) u)"

definition write_sql :: "display \<Rightarrow> str_buf \<Rightarrow> str_buf" where
  "write_sql query buf =
     (let buf = buf\<lparr>sb_text := []\<rparr>;
          (_, u) = fmt_write query \<lparr>ub_buf = buf, ub_cut = False\<rparr>;
          buf = ub_buf u;
          end_of = length (str_trim_end (sb_text buf))
      in truncate_buf end_of buf)"

definition operation :: "string \<Rightarrow> string" where
  "operation sql =
     (let word = concat (takeWhile (\<lambda>ch. \<not> char_is_whitespace ch)
                   (dropWhile char_is_whitespace (utf8_chars sql)))
      in if list_ex is_ascii_lowercase word then map to_ascii_uppercase word else word)"

definition db_system :: "string \<Rightarrow> string" where
  "db_system url =
     (let scheme = (case split_once CHR '':'' url of None \<Rightarrow> [] | Some (scheme, _) \<Rightarrow> scheme);
          is = (\<lambda>name. eq_ignore_ascii_case scheme name)
      in if is ''postgres'' \<or> is ''postgresql'' then ''postgresql''
         else if is ''mysql'' \<or> is ''mariadb'' then ''mysql''
         else if is ''sqlite'' \<or> is ''file'' then ''sqlite''
         else OTHER_SQL)"

section \<open>The instrumentation\<close>

record span =
  span_name :: string
  sentry_op :: string
  sentry_name :: string
  span_db_system :: string
  span_statement :: "string option"
  span_operation :: "string option"
  span_tx_depth :: "u32 option"
  otel_kind :: string
  span_error :: "string option"

record instr =
  queries :: "(u64 \<times> span) list"
  connect :: "span option"
  tx_depth :: u32
  instr_db_system :: "string option"
  sql :: str_buf

definition instr_default :: instr where
  "instr_default =
     \<lparr>queries = [], connect = None, tx_depth = 0, instr_db_system = None, sql = \<lparr>sb_text = [], sb_cap = 0\<rparr>\<rparr>"

definition with_db_system :: "string \<Rightarrow> instr \<Rightarrow> instr" where
  "with_db_system system self = self\<lparr>instr_db_system := Some system\<rparr>"

definition self_db_system :: "instr \<Rightarrow> string" where
  "self_db_system self = (case instr_db_system self of Some s \<Rightarrow> s | None \<Rightarrow> OTHER_SQL)"

definition release_large_buffer :: "instr \<Rightarrow> instr" where
  "release_large_buffer self =
     (if MAX_RETAINED_SQL < sb_cap (sql self)
      then self\<lparr>sql := \<lparr>sb_text = [], sb_cap = max 0 MAX_RETAINED_SQL\<rparr>\<rparr>
      else self)"

definition query_span :: "instr \<Rightarrow> string \<Rightarrow> span" where
  "query_span self text =
     \<lparr>span_name = ''db.query'', sentry_op = ''db.sql.query'', sentry_name = text,
      span_db_system = self_db_system self, span_statement = Some text,
      span_operation = Some (operation text), span_tx_depth = Some (tx_depth self),
      otel_kind = ''client'', span_error = None\<rparr>"

definition connect_span :: "instr \<Rightarrow> span" where
  "connect_span self =
     \<lparr>span_name = ''db.connect'', sentry_op = ''db.connect'', sentry_name = ''establish_connection'',
      span_db_system = self_db_system self, span_statement = None, span_operation = None,
      span_tx_depth = None, otel_kind = ''client'', span_error = None\<rparr>"

text \<open>\<open>enabled\<close> is \<open>span_enabled!(Level::INFO)\<close>, \<open>hash\<close> is \<open>sql_key\<close>.\<close>

definition start_query :: "(string \<Rightarrow> u64) \<Rightarrow> bool \<Rightarrow> display \<Rightarrow> instr \<Rightarrow> instr \<times> span list" where
  "start_query hash enabled query self =
     (if \<not> enabled then (self, [])
      else (let self = self\<lparr>sql := write_sql query (sql self)\<rparr>;
                text = sb_text (sql self);
                span = query_span self text;
                (kept, closed) =
                  (if length (queries self) = MAX_IN_FLIGHT
                   then (tl (queries self), map snd (take 1 (queries self)))
                   else (queries self, []));
                self = self\<lparr>queries := kept @ [(hash text, span)]\<rparr>
            in (release_large_buffer self, closed)))"

text \<open>\<open>VecDeque::remove\<close>.\<close>

definition remove_at :: "nat \<Rightarrow> 'a list \<Rightarrow> 'a list" where
  "remove_at i xs = take i xs @ drop (Suc i) xs"

definition finish_query ::
    "(string \<Rightarrow> u64) \<Rightarrow> display \<Rightarrow> string option \<Rightarrow> instr \<Rightarrow> instr \<times> span list" where
  "finish_query hash query err self =
     (let (found, self) =
        (if length (queries self) \<le> 1
         then (case queries self of
                 [] \<Rightarrow> (None, self)
               | q # rest \<Rightarrow> (Some (snd q), self\<lparr>queries := rest\<rparr>))
         else (let self = self\<lparr>sql := write_sql query (sql self)\<rparr>;
                   key = hash (sb_text (sql self));
                   self = release_large_buffer self
               in case position (\<lambda>q. fst q = key) (queries self) of
                    None \<Rightarrow> (None, self)
                  | Some index \<Rightarrow>
                      (Some (snd (queries self ! index)),
                       self\<lparr>queries := remove_at index (queries self)\<rparr>)))
      in case found of
           None \<Rightarrow> (self, [])
         | Some span \<Rightarrow>
             (self, [case err of None \<Rightarrow> span | Some e \<Rightarrow> span\<lparr>span_error := Some e\<rparr>]))"

datatype event =
    StartEstablishConnection string
  | FinishEstablishConnection "string option"
  | StartQuery display
  | FinishQuery display "string option"
  | CacheQuery string
  | BeginTransaction u32
  | CommitTransaction u32
  | RollbackTransaction u32
  | OtherEvent

fun on_connection_event ::
    "(string \<Rightarrow> u64) \<Rightarrow> bool \<Rightarrow> event \<Rightarrow> instr \<Rightarrow> instr \<times> span list" where
  "on_connection_event hash enabled (StartEstablishConnection url) self =
     (let self = self\<lparr>instr_db_system :=
            (case instr_db_system self of Some s \<Rightarrow> Some s | None \<Rightarrow> Some (db_system url))\<rparr>;
          old = (case connect self of Some span \<Rightarrow> [span] | None \<Rightarrow> [])
      in (self\<lparr>connect := Some (connect_span self)\<rparr>, old))"
| "on_connection_event hash enabled (FinishEstablishConnection err) self =
     (case connect self of
        None \<Rightarrow> (self, [])
      | Some span \<Rightarrow>
          (self\<lparr>connect := None\<rparr>,
           [case err of None \<Rightarrow> span | Some e \<Rightarrow> span\<lparr>span_error := Some e\<rparr>]))"
| "on_connection_event hash enabled (StartQuery query) self = start_query hash enabled query self"
| "on_connection_event hash enabled (FinishQuery query err) self = finish_query hash query err self"
| "on_connection_event hash enabled (CacheQuery text) self = (self, [])"
| "on_connection_event hash enabled (BeginTransaction depth) self = (self\<lparr>tx_depth := depth\<rparr>, [])"
| "on_connection_event hash enabled (CommitTransaction depth) self =
     (self\<lparr>tx_depth := saturating_sub depth 1\<rparr>, [])"
| "on_connection_event hash enabled (RollbackTransaction depth) self =
     (self\<lparr>tx_depth := saturating_sub depth 1\<rparr>, [])"
| "on_connection_event hash enabled OtherEvent self = (self, [])"

section \<open>Where the rendering stops\<close>

text \<open>The part of a text before the first occurrence of a marker; the whole text when there is none.\<close>

fun before :: "'a list \<Rightarrow> 'a list \<Rightarrow> 'a list" where
  "before p [] = []"
| "before p (c # s) = (if starts_with p (c # s) then [] else c # before p s)"

text \<open>What a query writes to a sink that accepts everything.\<close>

primrec text_of :: "display \<Rightarrow> string" where
  "text_of (FmtDone ok) = []"
| "text_of (FmtWrite chunk k) = chunk @ text_of (k True)"

definition occurs_at :: "'a list \<Rightarrow> 'a list \<Rightarrow> nat \<Rightarrow> bool" where
  "occurs_at p s i \<longleftrightarrow> i + length p \<le> length s \<and> take (length p) (drop i s) = p"

lemma occurs_at_iff: "occurs_at p s i \<longleftrightarrow> i \<le> length s \<and> starts_with p (drop i s)"
  unfolding occurs_at_def starts_with_iff
  by (auto simp: append_eq_conv_conj [symmetric] dest: arg_cong [where f = length])
    (metis append_take_drop_id)

lemma occurs_at_Cons: "occurs_at p (c # s) (Suc i) \<longleftrightarrow> occurs_at p s i"
  by (simp add: occurs_at_def)

lemma before_take:
  assumes "occurs_at p s i" and "\<forall>j < i. \<not> occurs_at p s j" and "p \<noteq> []"
  shows "before p s = take i s"
  using assms(1,2)
proof (induction s arbitrary: i)
  case Nil
  then show ?case by simp
next
  case (Cons c s)
  show ?case
  proof (cases i)
    case 0
    with Cons.prems show ?thesis by (simp add: occurs_at_iff)
  next
    case (Suc k)
    have "\<not> occurs_at p (c # s) 0" using Cons.prems(2) Suc by blast
    then have "\<not> starts_with p (c # s)" by (simp add: occurs_at_iff)
    moreover have "occurs_at p s k" using Cons.prems(1) Suc by (simp add: occurs_at_Cons)
    moreover have "\<forall>j < k. \<not> occurs_at p s j"
      using Cons.prems(2) Suc occurs_at_Cons by (metis Suc_less_eq)
    ultimately show ?thesis using Cons.IH [of k] Suc by simp
  qed
qed

lemma before_id: "\<forall>j. \<not> occurs_at p s j \<Longrightarrow> before p s = s"
proof (induction s)
  case Nil
  then show ?case by simp
next
  case (Cons c s)
  then have "\<forall>j. \<not> occurs_at p s j" by (metis occurs_at_Cons)
  moreover have "\<not> starts_with p (c # s)"
    using Cons.prems [rule_format, of 0] by (simp add: occurs_at_iff)
  ultimately show ?case using Cons.IH by simp
qed

lemma before_append_occ:
  assumes "occurs_at p s i" and "p \<noteq> []"
  shows "before p (s @ t) = before p s"
  using assms(1)
proof (induction s arbitrary: i)
  case Nil
  with assms(2) show ?case by (simp add: occurs_at_def)
next
  case (Cons c s)
  show ?case
  proof (cases "starts_with p (c # s)")
    case True
    then obtain r where "c # s = p @ r" by (auto simp: starts_with_iff)
    then have "(c # s) @ t = p @ (r @ t)" by simp
    then have "starts_with p ((c # s) @ t)" by (metis starts_with_append)
    with True show ?thesis by simp
  next
    case False
    with Cons.prems obtain k where k: "i = Suc k" by (cases i) (auto simp: occurs_at_iff)
    with Cons.prems have occ: "occurs_at p s k" by (simp add: occurs_at_Cons)
    then have "length p \<le> length s" by (simp add: occurs_at_def)
    have "\<not> starts_with p ((c # s) @ t)"
    proof
      assume "starts_with p ((c # s) @ t)"
      then have "take (length p) ((c # s) @ t) = p" by (auto simp: starts_with_iff)
      moreover have "take (length p) ((c # s) @ t) = take (length p) (c # s)"
        using \<open>length p \<le> length s\<close> by (subst take_append) simp
      ultimately show False using False by (metis append_take_drop_id starts_with_append)
    qed
    with False Cons.IH [OF occ] show ?thesis by simp
  qed
qed

lemma window_position_Some:
  assumes "window_position p s = Some i"
  shows "occurs_at p s i" and "\<forall>j < i. \<not> occurs_at p s j"
proof -
  let ?ws = "map (\<lambda>i. take (length p) (drop i s)) [0..<Suc (length s) - length p]"
  from position_SomeD [OF assms [unfolded window_position_def]]
  have i: "i < length ?ws" "?ws ! i = p" "\<forall>j < i. ?ws ! j \<noteq> p" by auto
  then show "occurs_at p s i" by (simp add: occurs_at_def)
  show "\<forall>j < i. \<not> occurs_at p s j"
  proof (intro allI impI)
    fix j assume "j < i"
    with i have "j < length ?ws" "?ws ! j \<noteq> p" by auto
    then show "\<not> occurs_at p s j" by (simp add: occurs_at_def)
  qed
qed

lemma window_position_None: "window_position p s = None \<Longrightarrow> \<not> occurs_at p s j"
  by (auto simp: window_position_def occurs_at_def)

text \<open>
  Looking back one marker length is enough: in a buffer without the marker, an occurrence in the
  buffer with a chunk added ends in the chunk.
\<close>

lemma look_back_enough:
  assumes "\<forall>j. \<not> occurs_at p s j" and "occurs_at p (s @ t) j"
  shows "length s - length p \<le> j"
proof (rule ccontr)
  assume "\<not> length s - length p \<le> j"
  then have "j + length p \<le> length s" by simp
  then have "occurs_at p s j" using assms(2) by (simp add: occurs_at_def)
  with assms(1) show False by blast
qed

lemma occurs_at_drop: "k \<le> length s \<Longrightarrow> occurs_at p (drop k s) j \<longleftrightarrow> occurs_at p s (k + j)"
  by (auto simp: occurs_at_def add.commute add.left_commute)

lemma write_str_cut: "ub_cut u \<Longrightarrow> write_str chunk u = (False, u)"
  by (simp add: write_str_def)

lemma fmt_write_cut: "ub_cut u \<Longrightarrow> snd (fmt_write d u) = u"
  by (induction d arbitrary: u) (simp_all add: write_str_cut)

lemma BINDS_MARKER_nonempty: "BINDS_MARKER \<noteq> []"
  by (simp add: BINDS_MARKER_def)

lemma write_str_text:
  fixes u :: until_binds
  assumes "\<not> ub_cut u" and "\<forall>j. \<not> occurs_at BINDS_MARKER (sb_text (ub_buf u)) j"
    and "write_str chunk u = (ok, u')"
  shows "ok = (\<not> ub_cut u')
    \<and> sb_text (ub_buf u') = before BINDS_MARKER (sb_text (ub_buf u) @ chunk)
    \<and> (ok \<longrightarrow> (\<forall>j. \<not> occurs_at BINDS_MARKER (sb_text (ub_buf u) @ chunk) j))
    \<and> (\<not> ok \<longrightarrow> (\<exists>j. occurs_at BINDS_MARKER (sb_text (ub_buf u) @ chunk) j))"
proof -
  let ?s = "sb_text (ub_buf u)" and ?m = BINDS_MARKER
  let ?k = "length ?s - length ?m"
  have push: "sb_text (push_str (ub_buf u) chunk) = ?s @ chunk" by (simp add: push_str_def Let_def)
  have k: "?k \<le> length (?s @ chunk)" by simp
  have occ: "occurs_at ?m (?s @ chunk) j \<Longrightarrow> ?k \<le> j" for j
    by (rule look_back_enough [OF assms(2)])
  show ?thesis
  proof (cases "window_position ?m (drop ?k (?s @ chunk))")
    case None
    have none: "\<not> occurs_at ?m (?s @ chunk) j" for j
    proof
      assume o: "occurs_at ?m (?s @ chunk) j"
      with occ [OF this] have "occurs_at ?m (drop ?k (?s @ chunk)) (j - ?k)"
        using occurs_at_drop [OF k, of ?m "j - ?k"] by simp
      with window_position_None [OF None] show False by blast
    qed
    from None assms(1,3) have "ok" "u' = u\<lparr>ub_buf := push_str (ub_buf u) chunk\<rparr>"
      by (auto simp: write_str_def Let_def push)
    with none assms(1) before_id [of ?m "?s @ chunk"] show ?thesis by (simp add: push)
  next
    case (Some at)
    from window_position_Some [OF Some] occurs_at_drop [OF k]
    have at: "occurs_at ?m (?s @ chunk) (?k + at)"
      and first: "\<forall>j < at. \<not> occurs_at ?m (?s @ chunk) (?k + j)" by auto
    have "\<forall>j < ?k + at. \<not> occurs_at ?m (?s @ chunk) j"
    proof (intro allI impI notI)
      fix j assume "j < ?k + at" and o: "occurs_at ?m (?s @ chunk) j"
      with occ [OF o] have "j - ?k < at" "j = ?k + (j - ?k)" by auto
      with first o show False by metis
    qed
    from before_take [OF at this BINDS_MARKER_nonempty]
    have "before ?m (?s @ chunk) = take (?k + at) (?s @ chunk)" .
    moreover from Some assms(1,3)
    have "\<not> ok" "u' = \<lparr>ub_buf = truncate_buf (?k + at) (push_str (ub_buf u) chunk), ub_cut = True\<rparr>"
      by (auto simp: write_str_def Let_def push)
    ultimately show ?thesis using at by (auto simp: truncate_buf_def push)
  qed
qed

lemma fmt_write_text:
  fixes u :: until_binds
  assumes "\<not> ub_cut u" and "\<forall>j. \<not> occurs_at BINDS_MARKER (sb_text (ub_buf u)) j"
  shows "sb_text (ub_buf (snd (fmt_write d u))) = before BINDS_MARKER (sb_text (ub_buf u) @ text_of d)"
  using assms
proof (induction d arbitrary: u)
  case (FmtDone ok)
  then show ?case by (simp add: before_id)
next
  case (FmtWrite chunk k)
  obtain ok u' where w: "write_str chunk u = (ok, u')" by (metis surj_pair)
  note wt = write_str_text [OF FmtWrite.prems w]
  show ?case
  proof (cases ok)
    case True
    with wt have no: "\<forall>j. \<not> occurs_at BINDS_MARKER (sb_text (ub_buf u) @ chunk) j" by blast
    with wt True have "\<not> ub_cut u'" "sb_text (ub_buf u') = sb_text (ub_buf u) @ chunk"
      by (simp_all add: before_id)
    with FmtWrite.IH [of "k True" u'] no w True show ?thesis by simp
  next
    case False
    with wt obtain j where j: "occurs_at BINDS_MARKER (sb_text (ub_buf u) @ chunk) j" by blast
    from wt False have "snd (fmt_write (k ok) u') = u'" by (intro fmt_write_cut) simp
    with wt w before_append_occ [OF j BINDS_MARKER_nonempty, of "text_of (k True)"] show ?thesis by simp
  qed
qed

lemma take_str_trim_end: "take (length (str_trim_end s)) s = str_trim_end s"
proof -
  obtain r where "s = str_trim_end s @ r" using str_trim_end_prefix by blast
  then show ?thesis by (metis append_eq_conv_conj)
qed

text \<open>The SQL of a query: what comes before the bind values, without trailing blanks.\<close>

definition sql_of :: "display \<Rightarrow> string" where
  "sql_of d = str_trim_end (before BINDS_MARKER (text_of d))"

lemma write_sql_text: "sb_text (write_sql d b) = sql_of d"
proof -
  let ?u = "\<lparr>ub_buf = b\<lparr>sb_text := []\<rparr>, ub_cut = False\<rparr>"
  have "\<not> occurs_at BINDS_MARKER [] j" for j by (simp add: occurs_at_def BINDS_MARKER_def)
  then have "sb_text (ub_buf (snd (fmt_write d ?u))) = before BINDS_MARKER (text_of d)"
    using fmt_write_text [of ?u d] by simp
  then show ?thesis
    by (simp add: write_sql_def Let_def case_prod_beta truncate_buf_def take_str_trim_end sql_of_def)
qed

lemma before_marker: "p \<noteq> [] \<Longrightarrow> \<forall>j < length s. \<not> occurs_at p (s @ p) j \<Longrightarrow> before p (s @ p @ r) = s"
proof -
  assume p: "p \<noteq> []" and no: "\<forall>j < length s. \<not> occurs_at p (s @ p) j"
  have at: "occurs_at p (s @ p) (length s)" by (simp add: occurs_at_def)
  from before_append_occ [OF at p, of r] before_take [OF at no p] show ?thesis by simp
qed

section \<open>Spans in flight\<close>

text \<open>A run of events: the state after it and every span it closed, in order.\<close>

fun run_events :: "(string \<Rightarrow> u64) \<Rightarrow> (bool \<times> event) list \<Rightarrow> instr \<Rightarrow> instr \<times> span list" where
  "run_events hash [] self = (self, [])"
| "run_events hash ((enabled, e) # es) self =
     (let (self, closed) = on_connection_event hash enabled e self;
          (self, closed') = run_events hash es self
      in (self, closed @ closed'))"

definition open_spans :: "instr \<Rightarrow> span list" where
  "open_spans self = map snd (queries self) @ (case connect self of Some s \<Rightarrow> [s] | None \<Rightarrow> [])"

text \<open>The spans an event opens.\<close>

fun opened :: "bool \<Rightarrow> event \<Rightarrow> instr \<Rightarrow> span list" where
  "opened enabled (StartQuery d) self = (if enabled then [query_span self (sql_of d)] else [])"
| "opened enabled (StartEstablishConnection url) self =
     [connect_span (self\<lparr>instr_db_system :=
        (case instr_db_system self of Some s \<Rightarrow> Some s | None \<Rightarrow> Some (db_system url))\<rparr>)]"
| "opened enabled _ self = []"

fun all_opened :: "(string \<Rightarrow> u64) \<Rightarrow> (bool \<times> event) list \<Rightarrow> instr \<Rightarrow> span list" where
  "all_opened hash [] self = []"
| "all_opened hash ((enabled, e) # es) self =
     opened enabled e self @ all_opened hash es (fst (on_connection_event hash enabled e self))"

definition without_error :: "span \<Rightarrow> span" where
  "without_error s = s\<lparr>span_error := None\<rparr>"

lemma without_error_opened: "s \<in> set (opened enabled e self) \<Longrightarrow> without_error s = s"
  by (cases e) (auto simp: without_error_def query_span_def connect_span_def split: if_splits)

lemma release_simps [simp]:
  "queries (release_large_buffer self) = queries self"
  "connect (release_large_buffer self) = connect self"
  "tx_depth (release_large_buffer self) = tx_depth self"
  "instr_db_system (release_large_buffer self) = instr_db_system self"
  by (simp_all add: release_large_buffer_def)

lemma query_span_sql [simp]: "query_span (self\<lparr>sql := b\<rparr>) text = query_span self text"
  by (simp add: query_span_def self_db_system_def)

text \<open>What starting a query does to the queue.\<close>

lemma start_query_effect:
  assumes "start_query hash True d self = (self', closed)"
  shows "queries self' = (if length (queries self) = MAX_IN_FLIGHT then tl (queries self) else queries self)
      @ [(hash (sql_of d), query_span self (sql_of d))]
    \<and> closed = (if length (queries self) = MAX_IN_FLIGHT then map snd (take 1 (queries self)) else [])
    \<and> connect self' = connect self \<and> query_span self' = query_span self"
  using assms by (auto simp: query_span_def self_db_system_def start_query_def Let_def write_sql_text split: if_splits)

definition finished :: "string option \<Rightarrow> span \<Rightarrow> span" where
  "finished err s = (case err of None \<Rightarrow> s | Some e \<Rightarrow> s\<lparr>span_error := Some e\<rparr>)"

lemma without_error_finished [simp]: "without_error (finished err s) = without_error s"
  by (simp add: without_error_def finished_def split: option.splits)

lemma finish_query_effect:
  assumes "finish_query hash d err self = (self', closed)"
  shows "connect self' = connect self \<and> query_span self' = query_span self
    \<and> ((closed = [] \<and> queries self' = queries self
          \<and> (queries self = [] \<or> 2 \<le> length (queries self) \<and> hash (sql_of d) \<notin> fst ` set (queries self)))
       \<or> (\<exists>pre q post. queries self = pre @ q # post \<and> queries self' = pre @ post
            \<and> closed = [finished err (snd q)]
            \<and> (pre = [] \<and> post = [] \<or> fst q = hash (sql_of d) \<and> hash (sql_of d) \<notin> fst ` set pre)))"
proof (cases "length (queries self) \<le> 1")
  case True
  then consider "queries self = []" | q where "queries self = [q]"
    by (cases "queries self") auto
  then show ?thesis
    using assms by cases (auto simp: finish_query_def Let_def finished_def query_span_def self_db_system_def)
next
  case False
  let ?key = "hash (sql_of d)" and ?qs = "queries self"
  let ?self = "release_large_buffer (self\<lparr>sql := write_sql d (sql self)\<rparr>)"
  have qs: "queries ?self = ?qs" "connect ?self = connect self" "query_span ?self = query_span self"
    "query_span (?self\<lparr>queries := x\<rparr>) = query_span self" for x
    by (auto simp: query_span_def self_db_system_def)
  show ?thesis
  proof (cases "position (\<lambda>q. fst q = ?key) ?qs")
    case None
    then have "?key \<notin> fst ` set ?qs" by auto
    moreover have "finish_query hash d err self = (?self, [])"
      using False None by (simp add: finish_query_def Let_def write_sql_text del: position_None)
    ultimately show ?thesis using assms False qs by auto
  next
    case (Some i)
    from position_SomeD [OF Some]
    have i: "i < length ?qs" "fst (?qs ! i) = ?key" "\<forall>j < i. fst (?qs ! j) \<noteq> ?key" by auto
    have "finish_query hash d err self
        = (?self\<lparr>queries := remove_at i ?qs\<rparr>, [finished err (snd (?qs ! i))])"
      using False Some by (simp add: finish_query_def Let_def write_sql_text finished_def)
    moreover have "?qs = take i ?qs @ ?qs ! i # drop (Suc i) ?qs" using i(1) by (rule id_take_nth_drop)
    moreover have "?key \<notin> fst ` set (take i ?qs)" using i by (auto simp: in_set_conv_nth) (metis fst_conv)
    ultimately show ?thesis using assms i(2) qs
      by (intro conjI disjI2 exI [of _ "take i ?qs"] exI [of _ "?qs ! i"] exI [of _ "drop (Suc i) ?qs"])
        (auto simp: remove_at_def)
  qed
qed

lemma start_query_disabled: "start_query hash False d self = (self, [])"
  by (simp add: start_query_def)

text \<open>The invariant of the queue, and the account of the spans, of a single event.\<close>

lemma event_account:
  assumes "on_connection_event hash enabled e self = (self', closed)"
    and "length (queries self) \<le> MAX_IN_FLIGHT"
  shows "length (queries self') \<le> MAX_IN_FLIGHT
    \<and> mset (map without_error closed) + mset (map without_error (open_spans self'))
      = mset (map without_error (open_spans self)) + mset (map without_error (opened enabled e self))"
proof (cases e)
  case (StartQuery d)
  show ?thesis
  proof (cases enabled)
    case True
    with assms(1) StartQuery have "start_query hash True d self = (self', closed)" by simp
    from start_query_effect [OF this] True StartQuery assms(2) show ?thesis
      by (cases "queries self") (auto simp: open_spans_def MAX_IN_FLIGHT_def split: if_splits)
  next
    case False
    with assms StartQuery show ?thesis by (auto simp: start_query_disabled)
  qed
next
  case (FinishQuery d err)
  with assms(1) have "finish_query hash d err self = (self', closed)" by simp
  from finish_query_effect [OF this] FinishQuery assms(2) show ?thesis
    by (auto simp: open_spans_def)
qed (use assms in \<open>auto simp: open_spans_def without_error_def Let_def split: option.splits\<close>)

lemma run_account:
  assumes "run_events hash es self = (self', closed)" and "length (queries self) \<le> MAX_IN_FLIGHT"
  shows "length (queries self') \<le> MAX_IN_FLIGHT
    \<and> mset (map without_error closed) + mset (map without_error (open_spans self'))
      = mset (map without_error (open_spans self)) + mset (map without_error (all_opened hash es self))"
  using assms
proof (induction es arbitrary: self closed)
  case Nil
  then show ?case by simp
next
  case (Cons p es)
  obtain enabled e where p: "p = (enabled, e)" by (metis surj_pair)
  obtain s1 c1 where e: "on_connection_event hash enabled e self = (s1, c1)" by (metis surj_pair)
  obtain c2 where r: "run_events hash es s1 = (self', c2)" "closed = c1 @ c2"
    using Cons.prems(1) p e by (auto simp: Let_def split: prod.splits)
  note ev = event_account [OF e Cons.prems(2)]
  from Cons.IH [OF r(1)] ev have
    "length (queries self') \<le> MAX_IN_FLIGHT"
    "mset (map without_error c2) + mset (map without_error (open_spans self'))
      = mset (map without_error (open_spans s1)) + mset (map without_error (all_opened hash es s1))"
    by blast+
  with ev r(2) p e show ?case by (simp add: ac_simps)
qed

lemma all_opened_no_error: "map without_error (all_opened hash es self) = all_opened hash es self"
proof (induction es arbitrary: self)
  case Nil
  then show ?case by simp
next
  case (Cons p es)
  have "map without_error (opened enabled e s) = opened enabled e s" for enabled e s
    using without_error_opened by (metis map_idI)
  with Cons show ?case by (cases p) simp
qed

text \<open>Starting and finishing many queries.\<close>

lemma run_events_append:
  "run_events hash (es @ fs) self =
     (let (s1, c1) = run_events hash es self; (s2, c2) = run_events hash fs s1 in (s2, c1 @ c2))"
  by (induction es arbitrary: self) (auto simp: Let_def split: prod.splits)

lemma run_starts:
  assumes "length (queries self) + length ds \<le> MAX_IN_FLIGHT"
  shows "\<exists>self'. run_events hash (map (\<lambda>d. (True, StartQuery d)) ds) self = (self', [])
    \<and> queries self' = queries self @ map (\<lambda>d. (hash (sql_of d), query_span self (sql_of d))) ds
    \<and> query_span self' = query_span self"
  using assms
proof (induction ds arbitrary: self)
  case Nil
  then show ?case by simp
next
  case (Cons d ds)
  obtain s1 c1 where s: "start_query hash True d self = (s1, c1)" by (metis surj_pair)
  from start_query_effect [OF s] Cons.prems
  have s1: "queries s1 = queries self @ [(hash (sql_of d), query_span self (sql_of d))]" "c1 = []"
    "query_span s1 = query_span self" by auto
  with Cons.IH [of s1] Cons.prems s show ?case by (auto simp: Let_def)
qed

lemma finish_one:
  assumes "queries self = map (\<lambda>s. (hash s, query_span self s)) ss" and "distinct (map hash ss)"
    and "sql_of d \<in> set ss"
  shows "\<exists>self' pre post. finish_query hash d err self = (self', [finished err (query_span self (sql_of d))])
    \<and> ss = pre @ sql_of d # post \<and> queries self' = map (\<lambda>s. (hash s, query_span self s)) (pre @ post)
    \<and> query_span self' = query_span self"
proof -
  obtain self' closed where f: "finish_query hash d err self = (self', closed)" by (metis surj_pair)
  have mem: "hash (sql_of d) \<in> fst ` set (queries self)" "queries self \<noteq> []"
    using assms(1,3) by force+
  from finish_query_effect [OF f] mem obtain pre q post where q: "queries self = pre @ q # post"
    "queries self' = pre @ post" "closed = [finished err (snd q)]"
    "pre = [] \<and> post = [] \<or> fst q = hash (sql_of d)"
    and same: "query_span self' = query_span self" by blast
  from q(1) assms(1) obtain a x b where ss: "ss = a @ x # b"
    "pre = map (\<lambda>s. (hash s, query_span self s)) a" "q = (hash x, query_span self x)"
    "post = map (\<lambda>s. (hash s, query_span self s)) b"
    by (auto simp: map_eq_append_conv map_eq_Cons_conv)
  have "x = sql_of d"
  proof (cases "pre = [] \<and> post = []")
    case True
    with ss assms(3) show ?thesis by simp
  next
    case False
    with q(4) ss(3) have "hash x = hash (sql_of d)" by auto
    moreover have "inj_on hash (set ss)" using assms(2) by (simp add: distinct_map)
    ultimately show ?thesis using assms(3) ss(1) by (auto dest: inj_onD)
  qed
  with f q ss same show ?thesis by auto
qed

lemma run_finishes:
  assumes "queries self = map (\<lambda>s. (hash s, query_span self s)) ss" and "distinct (map hash ss)"
    and "mset (map (sql_of \<circ> fst) fs) = mset ss"
  shows "\<exists>self'. run_events hash (map (\<lambda>(d, err). (enabled, FinishQuery d err)) fs) self
      = (self', map (\<lambda>(d, err). finished err (query_span self (sql_of d))) fs) \<and> queries self' = []"
  using assms
proof (induction fs arbitrary: self ss)
  case Nil
  then show ?case by simp
next
  case (Cons p fs)
  obtain d err where p: "p = (d, err)" by (metis surj_pair)
  have "sql_of d \<in># mset ss" using Cons.prems(3) p by (metis comp_apply fst_conv image_eqI list.set_intros(1) set_map set_mset_mset)
  then have "sql_of d \<in> set ss" by simp
  from finish_one [OF Cons.prems(1,2) this, of err] obtain self1 pre post where
    f: "finish_query hash d err self = (self1, [finished err (query_span self (sql_of d))])"
    and ss: "ss = pre @ sql_of d # post"
    and qs: "queries self1 = map (\<lambda>s. (hash s, query_span self s)) (pre @ post)"
    and same: "query_span self1 = query_span self" by blast
  have "queries self1 = map (\<lambda>s. (hash s, query_span self1 s)) (pre @ post)" by (simp add: qs same)
  moreover have "distinct (map hash (pre @ post))" using Cons.prems(2) ss by auto
  moreover have "mset (map (sql_of \<circ> fst) fs) = mset (pre @ post)" using Cons.prems(3) p ss by (simp add: comp_def)
  ultimately obtain self' where
    "run_events hash (map (\<lambda>(d, err). (enabled, FinishQuery d err)) fs) self1
      = (self', map (\<lambda>(d, err). finished err (query_span self1 (sql_of d))) fs)" "queries self' = []"
    using Cons.IH by blast
  with f p same show ?case by (simp add: Let_def)
qed

lemma occurs_at_append: "occurs_at p s j \<Longrightarrow> occurs_at p (s @ r) j"
  by (auto simp: occurs_at_def)

lemma not_occurs_prefix: "\<forall>j. \<not> occurs_at p (s @ r) j \<Longrightarrow> \<not> occurs_at p s j"
  using occurs_at_append by blast

lemma before_no_marker:
  assumes "p \<noteq> []"
  shows "\<not> occurs_at p (before p s) j"
proof (cases "\<exists>i. occurs_at p s i")
  case False
  then show ?thesis by (simp add: before_id)
next
  case True
  define i where "i = (LEAST i. occurs_at p s i)"
  from True have i: "occurs_at p s i" and least: "\<forall>j < i. \<not> occurs_at p s j"
    unfolding i_def using not_less_Least by (auto intro: LeastI_ex)
  show ?thesis
  proof
    assume "occurs_at p (before p s) j"
    then have o: "occurs_at p (take i s) j" using before_take [OF i least assms] by simp
    with assms have "j < i" by (cases p) (auto simp: occurs_at_def)
    moreover from occurs_at_append [OF o, of "drop i s"] have "occurs_at p s j" by simp
    ultimately show False using least by blast
  qed
qed

lemma sql_of_no_marker: "\<not> occurs_at BINDS_MARKER (sql_of d) j"
proof -
  let ?t = "before BINDS_MARKER (text_of d)"
  obtain r where r: "?t = sql_of d @ r" using str_trim_end_prefix [of ?t] by (auto simp: sql_of_def)
  have "\<forall>j. \<not> occurs_at BINDS_MARKER (sql_of d @ r) j"
    unfolding r [symmetric] using before_no_marker [OF BINDS_MARKER_nonempty] by blast
  then show ?thesis by (rule not_occurs_prefix)
qed

section \<open>Properties\<close>

text \<open>
  C16: bind values never reach the SQL of a span. Whatever chunks a query's \<open>Display\<close> writes (the
  marker may straddle several) and whether or not it stops when a write is refused, the buffer ends
  with exactly the text before the first \<open>-- binds:\<close> marker, without trailing blanks and whatever
  the buffer held before; it never holds the marker. So two queries that differ only in their binds
  render the same.
\<close>

theorem write_sql_keeps_binds_out:
  "sb_text (write_sql d buf) = str_trim_end (before '' -- binds:'' (text_of d))
   \<and> (\<forall>j. \<not> occurs_at '' -- binds:'' (sb_text (write_sql d buf)) j)
   \<and> (text_of d = text @ '' -- binds:'' @ binds \<longrightarrow>
        (\<forall>j. j < length text \<longrightarrow> \<not> occurs_at '' -- binds:'' (text @ '' -- binds:'') j) \<longrightarrow>
        sb_text (write_sql d buf) = str_trim_end text)"
proof -
  have "sb_text (write_sql d buf) = str_trim_end (before BINDS_MARKER (text_of d))"
    by (simp add: write_sql_text sql_of_def)
  moreover have "\<forall>j. \<not> occurs_at BINDS_MARKER (sb_text (write_sql d buf)) j"
    by (simp add: write_sql_text sql_of_no_marker)
  ultimately show ?thesis
    using before_marker [of "'' -- binds:''" "text" binds] unfolding BINDS_MARKER_def by simp
qed

theorem write_sql_keeps_binds_out_witness:
  "sb_text (write_sql
      (FmtWrite ''SELECT 1 -- bi'' (\<lambda>_. FmtWrite ''nds: '' (\<lambda>_. FmtWrite ''secret'' (\<lambda>_. FmtDone True))))
      \<lparr>sb_text = ''stale'', sb_cap = 8\<rparr>) = ''SELECT 1''"
proof -
  let ?d = "FmtWrite ''SELECT 1 -- bi'' (\<lambda>_. FmtWrite ''nds: '' (\<lambda>_. FmtWrite ''secret'' (\<lambda>_. FmtDone True)))"
  have whole: "text_of ?d = ''SELECT 1'' @ '' -- binds:'' @ '' secret''" by simp
  have "\<not> list_ex (\<lambda>j. occurs_at '' -- binds:'' (''SELECT 1'' @ '' -- binds:'') j) [0..<length ''SELECT 1'']"
    by code_simp
  then have no: "\<forall>j. j < length ''SELECT 1'' \<longrightarrow> \<not> occurs_at '' -- binds:'' (''SELECT 1'' @ '' -- binds:'') j"
    by (auto simp only: list_ex_iff set_upt atLeastLessThan_iff)
  have "str_trim_end ''SELECT 1'' = ''SELECT 1''" by code_simp
  with write_sql_keeps_binds_out [THEN conjunct2, THEN conjunct2, rule_format, OF whole] no
  show ?thesis by (metis (no_types, lifting))
qed

text \<open>
  C31: the queue of spans is bounded and no span is lost or duplicated. From a new instrumentation,
  whatever events arrive and in whatever order (finishes that never come, finishes without a start,
  nested transactions), at most 32 query spans are in flight, and the spans closed so far together
  with those still open are exactly the spans opened, each once.
\<close>

theorem spans_in_flight_account:
  assumes "run_events hash es instr_default = (self, closed)"
  shows "length (queries self) \<le> 32
    \<and> mset (map without_error closed) + mset (map without_error (open_spans self))
      = mset (all_opened hash es instr_default)"
proof -
  have "length (queries instr_default) \<le> MAX_IN_FLIGHT" and "open_spans instr_default = []"
    by (simp_all add: instr_default_def open_spans_def)
  with run_account [OF assms] show ?thesis
    by (simp only: all_opened_no_error MAX_IN_FLIGHT_def list.map mset.simps add_0_left)
qed

theorem spans_in_flight_account_witness:
  "\<exists>self closed. run_events (\<lambda>_. 0)
      [(True, StartQuery (FmtDone True)), (True, FinishQuery (FmtDone True) None)] instr_default = (self, closed)
    \<and> length (queries self) \<le> 32"
proof -
  obtain self closed where r: "run_events (\<lambda>_. 0)
      [(True, StartQuery (FmtDone True)), (True, FinishQuery (FmtDone True) None)] instr_default = (self, closed)"
    by (metis surj_pair)
  from spans_in_flight_account [OF r] r show ?thesis by blast
qed

text \<open>
  C7: pipelined queries close their own spans. When up to 32 queries, no two of them with the same
  key, are started one after the other and then finish in any order, each with a text that renders
  to the same SQL, every finish closes the span of its own query, with its own error, and nothing
  stays in flight.
\<close>

theorem pipelined_finishes_close_own:
  assumes "distinct (map (hash \<circ> sql_of) ds)" and "length ds \<le> 32"
    and "mset (map (sql_of \<circ> fst) fs) = mset (map sql_of ds)"
  shows "\<exists>self. run_events hash
      (map (\<lambda>d. (True, StartQuery d)) ds @ map (\<lambda>(d, err). (enabled, FinishQuery d err)) fs) instr_default
    = (self, map (\<lambda>(d, err). finished err (query_span instr_default (sql_of d))) fs)
    \<and> queries self = []"
proof -
  have "length (queries instr_default) + length ds \<le> MAX_IN_FLIGHT"
    using assms(2) by (simp add: instr_default_def MAX_IN_FLIGHT_def)
  from run_starts [OF this, of hash] obtain s1 where s1:
    "run_events hash (map (\<lambda>d. (True, StartQuery d)) ds) instr_default = (s1, [])"
    "queries s1 = map (\<lambda>d. (hash (sql_of d), query_span instr_default (sql_of d))) ds"
    "query_span s1 = query_span instr_default" by (auto simp: instr_default_def)
  have "queries s1 = map (\<lambda>s. (hash s, query_span s1 s)) (map sql_of ds)" using s1 by simp
  from run_finishes [OF this _ assms(3), of enabled] assms(1) obtain self where
    "run_events hash (map (\<lambda>(d, err). (enabled, FinishQuery d err)) fs) s1
      = (self, map (\<lambda>(d, err). finished err (query_span s1 (sql_of d))) fs)" "queries self = []"
    by auto
  with s1 show ?thesis by (simp add: run_events_append)
qed

theorem pipelined_finishes_close_own_witness:
  "\<exists>self. run_events (\<lambda>s. of_nat (length s))
      [(True, StartQuery (FmtWrite ''A'' FmtDone)), (True, StartQuery (FmtDone True)),
       (True, FinishQuery (FmtDone True) (Some ''e'')), (True, FinishQuery (FmtWrite ''A'' FmtDone) None)] instr_default
    = (self, [finished (Some ''e'') (query_span instr_default []), query_span instr_default ''A''])
    \<and> queries self = []"
proof -
  let ?a = "FmtWrite ''A'' FmtDone" and ?b = "FmtDone True"
  have sql: "sql_of ?a = ''A''" "sql_of ?b = []" by code_simp+
  have "distinct (map ((\<lambda>s. of_nat (length s) :: u64) \<circ> sql_of) [?a, ?b])" by (simp add: sql)
  from pipelined_finishes_close_own [OF this, of "[(?b, Some ''e''), (?a, None)]" True] sql
  show ?thesis by (simp add: finished_def)
qed

end
