(* ===== verification/Sqlx.thy ===== *)
theory Sqlx
  imports Core_App Core_Host
begin

text \<open>
  \<open>muxa-sqlx/src/pg.rs\<close> and \<open>sqlite.rs\<close>: the two SQLx plugins and the defaults of their pools.

  sqlx is a parameter: parsing a SQLite URL and connecting a pool with its options.
\<close>

section \<open>Postgres\<close>

definition default_min_connections :: u32 where
  "default_min_connections = 0"

record sqlx_config =
  sx_url :: string
  sx_max_connections :: u32
  sx_min_connections :: u32

definition sqlx_config_default :: "'e + usize \<Rightarrow> usize option \<Rightarrow> sqlx_config" where
  "sqlx_config_default available cell =
     \<lparr>sx_url = [], sx_max_connections = fst (db_pool_size available cell),
      sx_min_connections = default_min_connections\<rparr>"

definition SQLX_ENV_FALLBACKS :: "env_fallback list" where
  "SQLX_ENV_FALLBACKS = [\<lparr>ef_var = ''DATABASE_URL'', ef_key = ''url''\<rparr>]"

definition sqlx_url_required :: error where
  "sqlx_url_required = error_other
     (''muxa-sqlx: `sqlx.url` is required (set `[sqlx] url` in config.toml, the app''
      @ [CHR 39] @ ''s `<APP>_SQLX__URL` env var, or `DATABASE_URL`)'')"

text \<open>\<open>pg_connect max min url\<close> and \<open>sqlite_connect max options\<close> open the pools.\<close>

record ('opts, 'pg, 'lite, 'w) sqlx_api =
  pg_connect :: "u32 \<Rightarrow> u32 \<Rightarrow> string \<Rightarrow> 'w \<Rightarrow> (string + 'pg) \<times> 'w"
  sqlite_options :: "string \<Rightarrow> string + 'opts"
  create_if_missing :: "bool \<Rightarrow> 'opts \<Rightarrow> 'opts"
  sqlite_connect :: "u32 \<Rightarrow> 'opts \<Rightarrow> 'w \<Rightarrow> (string + 'lite) \<times> 'w"

definition sqlx_build ::
    "('opts, 'pg, 'lite, 'w) sqlx_api \<Rightarrow> sqlx_config \<Rightarrow> ('fig, 'r, 'tok, 'w, 'h, 'l) build_ctx \<Rightarrow> 'w
      \<Rightarrow> 'pg result \<times> ('fig, 'r, 'tok, 'w, 'h, 'l) build_ctx \<times> 'w" where
  "sqlx_build Q cfg ctx w =
     (if sx_url cfg = [] then (Inl sqlx_url_required, ctx, w)
      else (let (pool, w) = pg_connect Q (sx_max_connections cfg) (sx_min_connections cfg) (sx_url cfg) w
            in (map_err error_other pool, ctx, w)))"

section \<open>SQLite\<close>

definition default_sqlite_url :: string where
  "default_sqlite_url = ''sqlite::memory:''"

definition sqlite_pool_size_for :: "usize \<Rightarrow> u32" where
  "sqlite_pool_size_for n = clamp_word (u32_saturating_from n) 2 8"

definition default_sqlite_connections :: "'e + usize \<Rightarrow> usize option \<Rightarrow> u32" where
  "default_sqlite_connections available cell = sqlite_pool_size_for (fst (cpus available cell))"

definition default_create_if_missing :: bool where
  "default_create_if_missing = True"

record sqlite_config =
  sq_url :: string
  sq_create_if_missing :: bool
  sq_max_connections :: u32

definition sqlite_config_default :: "'e + usize \<Rightarrow> usize option \<Rightarrow> sqlite_config" where
  "sqlite_config_default available cell =
     \<lparr>sq_url = default_sqlite_url, sq_create_if_missing = default_create_if_missing,
      sq_max_connections = default_sqlite_connections available cell\<rparr>"

definition sqlite_build ::
    "('opts, 'pg, 'lite, 'w) sqlx_api \<Rightarrow> sqlite_config \<Rightarrow> ('fig, 'r, 'tok, 'w, 'h, 'l) build_ctx \<Rightarrow> 'w
      \<Rightarrow> 'lite result \<times> ('fig, 'r, 'tok, 'w, 'h, 'l) build_ctx \<times> 'w" where
  "sqlite_build Q cfg ctx w =
     (case map_err error_other (sqlite_options Q (sq_url cfg)) of
        Inl e \<Rightarrow> (Inl e, ctx, w)
      | Inr opts \<Rightarrow>
          (let (pool, w) = sqlite_connect Q (sq_max_connections cfg)
                             (create_if_missing Q (sq_create_if_missing cfg) opts) w
           in (map_err error_other pool, ctx, w)))"

interpretation sqlx_extends: ctx_extender "\<lambda>(Q, cfg, w) ctx. sqlx_build Q cfg ctx w"
  by unfold_locales (simp add: sqlx_build_def case_prod_beta)

interpretation sqlite_extends: ctx_extender "\<lambda>(Q, cfg, w) ctx. sqlite_build Q cfg ctx w"
  by unfold_locales (auto simp: sqlite_build_def case_prod_beta split: sum.splits)

lemma unat_sqlite_pool_size_for: "unat (sqlite_pool_size_for n) = max 2 (min 8 (1 * unat n))"
  by (simp add: sqlite_pool_size_for_def unat_clamp_word word_le_nat_alt unat_u32_saturating_from)

interpretation sqlite_pool: cpu_sizing sqlite_pool_size_for 1 2 8
  by unfold_locales (rule unat_sqlite_pool_size_for, simp)

section \<open>Properties\<close>

text \<open>
  SQLite's pool has one connection per CPU, at least 2 and at most 8, whatever number a \<open>usize\<close>
  holds, never shrinks when CPUs are added, and is never larger than the Postgres default on the same
  host. A Postgres plugin without a URL fails before it connects to anything.
\<close>

theorem sqlite_pool_bounds:
  "unat (sqlite_pool_size_for n) = max 2 (min 8 (unat n))
   \<and> (n \<le> m \<longrightarrow> sqlite_pool_size_for n \<le> sqlite_pool_size_for m)
   \<and> sq_max_connections (sqlite_config_default a c) \<le> sx_max_connections (sqlx_config_default a c)
   \<and> (sx_url cfg = [] \<longrightarrow> sqlx_build Q cfg ctx w = (Inl sqlx_url_required, ctx, w))"
proof -
  have "max 2 (min 8 k) \<le> max 4 (min 32 (4 * k))" for k :: nat by (simp add: max_def min_def)
  then have "sq_max_connections (sqlite_config_default a c) \<le> sx_max_connections (sqlx_config_default a c)"
    by (simp add: sqlite_config_default_def sqlx_config_default_def default_sqlite_connections_def
        db_pool_size_def case_prod_beta word_le_nat_alt unat_sqlite_pool_size_for unat_db_pool_size_for
        del: max.bounded_iff)
  moreover have "sx_url cfg = [] \<longrightarrow> sqlx_build Q cfg ctx w = (Inl sqlx_url_required, ctx, w)"
    by (simp add: sqlx_build_def)
  ultimately show ?thesis
    using sqlite_pool.size_mono [of n m] unat_sqlite_pool_size_for [of n] by simp
qed

theorem sqlite_pool_bounds_witness:
  "unat (sqlite_pool_size_for 64) = 8 \<and> sqlite_pool_size_for 1 \<le> sqlite_pool_size_for 4"
proof
  have "unat (sqlite_pool_size_for 64) = max 2 (min 8 (unat (64 :: usize)))"
    by (rule sqlite_pool_bounds [THEN conjunct1])
  then show "unat (sqlite_pool_size_for 64) = 8" by simp
  have "(1 :: usize) \<le> 4 \<longrightarrow> sqlite_pool_size_for 1 \<le> sqlite_pool_size_for 4"
    by (rule sqlite_pool_bounds [THEN conjunct2, THEN conjunct1])
  then show "sqlite_pool_size_for 1 \<le> sqlite_pool_size_for 4" by simp
qed

end
