(* ===== verification/Pgmq.thy ===== *)
theory Pgmq
  imports Core_App
begin

text \<open>
  \<open>muxa-pgmq/src/lib.rs\<close>: the plugin that installs pgmq and creates the declared queues, for its two
  drivers.

  pgmq and the drivers are parameters: installing the embedded SQL, getting a connection, creating a
  queue. The pool comes from the state at the type-checked index (\<open>Core_State\<close>); \<open>pool_of\<close> unpacks
  the entry there. A build on a state without the capability does not compile: it is \<open>None\<close>.
\<close>

record pgmq_config =
  pq_queues :: "string list"

definition pgmq_config_default :: pgmq_config where
  "pgmq_config_default = \<lparr>pq_queues = []\<rparr>"

record pgmq_plugin =
  pp_queues :: "string list"

definition pgmq_plugin_new :: pgmq_plugin where
  "pgmq_plugin_new = \<lparr>pp_queues = []\<rparr>"

definition add_queues :: "string list \<Rightarrow> pgmq_plugin \<Rightarrow> pgmq_plugin" where
  "add_queues qs self = self\<lparr>pp_queues := pp_queues self @ qs\<rparr>"

text \<open>\<open>sort_unstable\<close> then \<open>dedup\<close>, which drops repeated neighbours.\<close>

definition merge_queues :: "string list \<Rightarrow> string list \<Rightarrow> string list" where
  "merge_queues from_plugin from_config = remdups_adj (sort (from_plugin @ from_config))"

definition box_pgmq_err :: "string \<Rightarrow> error" where
  "box_pgmq_err err = error_other (''pgmq: '' @ err)"

record ('v, 'pool, 'conn, 'w) pgmq_api =
  pool_of :: "'v \<Rightarrow> 'pool"
  install_on_pool :: "'pool \<Rightarrow> 'w \<Rightarrow> (string + unit) \<times> 'w"
  install_on_conn :: "'conn \<Rightarrow> 'w \<Rightarrow> (string + unit) \<times> 'w"
  get_conn :: "'pool \<Rightarrow> 'w \<Rightarrow> (string + 'conn) \<times> 'w"
  create_queue :: "'conn \<Rightarrow> string \<Rightarrow> 'w \<Rightarrow> (string + unit) \<times> 'w"

fun create_queues :: "('v, 'pool, 'conn, 'w) pgmq_api \<Rightarrow> 'conn \<Rightarrow> string list \<Rightarrow> 'w \<Rightarrow> unit result \<times> 'w" where
  "create_queues P conn [] w = (Inr (), w)"
| "create_queues P conn (queue # queues) w =
     (case create_queue P conn queue w of
        (Inl err, w) \<Rightarrow> (Inl (box_pgmq_err err), w)
      | (Inr _, w) \<Rightarrow> create_queues P conn queues w)"

text \<open>sqlx: install on the pool, then get the connection.\<close>

definition pgmq_sqlx_build ::
    "('v, 'pool, 'conn, 'w) pgmq_api \<Rightarrow> idx \<Rightarrow> pgmq_plugin \<Rightarrow> pgmq_config \<Rightarrow> 'v hlist
      \<Rightarrow> ('fig, 'r, 'tok, 'w, 'h, 'l) build_ctx \<Rightarrow> 'w
      \<Rightarrow> (unit result \<times> ('fig, 'r, 'tok, 'w, 'h, 'l) build_ctx \<times> 'w) option" where
  "pgmq_sqlx_build P i self cfg state ctx w =
     (case pg_executor i state of
        None \<Rightarrow> None
      | Some entry \<Rightarrow> Some
          (let pool = pool_of P entry;
               queues = merge_queues (pp_queues self) (pq_queues cfg)
           in case install_on_pool P pool w of
                (Inl err, w) \<Rightarrow> (Inl (box_pgmq_err err), ctx, w)
              | (Inr _, w) \<Rightarrow>
                  (case get_conn P pool w of
                     (Inl err, w) \<Rightarrow> (Inl (error_other (''sqlx acquire: '' @ err)), ctx, w)
                   | (Inr conn, w) \<Rightarrow>
                       (let (r, w) = create_queues P conn queues w in (r, ctx, w)))))"

text \<open>diesel-async: get the connection, then install on it.\<close>

definition pgmq_diesel_build ::
    "('v, 'pool, 'conn, 'w) pgmq_api \<Rightarrow> idx \<Rightarrow> pgmq_plugin \<Rightarrow> pgmq_config \<Rightarrow> 'v hlist
      \<Rightarrow> ('fig, 'r, 'tok, 'w, 'h, 'l) build_ctx \<Rightarrow> 'w
      \<Rightarrow> (unit result \<times> ('fig, 'r, 'tok, 'w, 'h, 'l) build_ctx \<times> 'w) option" where
  "pgmq_diesel_build P i self cfg state ctx w =
     (case pg_executor i state of
        None \<Rightarrow> None
      | Some entry \<Rightarrow> Some
          (let pool = pool_of P entry;
               queues = merge_queues (pp_queues self) (pq_queues cfg)
           in case get_conn P pool w of
                (Inl err, w) \<Rightarrow> (Inl (error_other (''diesel get: '' @ err)), ctx, w)
              | (Inr conn, w) \<Rightarrow>
                  (case install_on_conn P conn w of
                     (Inl err, w) \<Rightarrow> (Inl (box_pgmq_err err), ctx, w)
                   | (Inr _, w) \<Rightarrow>
                       (let (r, w) = create_queues P conn queues w in (r, ctx, w)))))"

section \<open>Lemmas\<close>

lemma set_merge_queues [simp]: "set (merge_queues a b) = set a \<union> set b"
  by (simp add: merge_queues_def)

lemma strict_sorted_remdups_adj: "sorted xs \<Longrightarrow> sorted_wrt (<) (remdups_adj (xs :: 'a::linorder list))"
  by (induction xs rule: remdups_adj.induct) (auto simp: less_le)

lemma sorted_merge_queues: "sorted_wrt (<) (merge_queues a b)"
  by (simp add: merge_queues_def strict_sorted_remdups_adj)

lemma merge_queues_unique:
  "sorted_wrt (<) qs \<Longrightarrow> set qs = set a \<union> set b \<Longrightarrow> qs = merge_queues a b"
  using sorted_merge_queues [of a b]
  by (simp add: strict_sorted_iff sorted_distinct_set_unique)

text \<open>Queues created one after the other, all of them.\<close>

inductive created :: "('v, 'pool, 'conn, 'w) pgmq_api \<Rightarrow> 'conn \<Rightarrow> string list \<Rightarrow> 'w \<Rightarrow> 'w \<Rightarrow> bool" for P conn where
  created_nil: "created P conn [] w w"
| created_cons: "create_queue P conn q w = (Inr (), w1) \<Longrightarrow> created P conn qs w1 w' \<Longrightarrow>
    created P conn (q # qs) w w'"

inductive_simps created_Nil [simp]: "created P conn [] w w'"
inductive_simps created_Cons [simp]: "created P conn (q # qs) w w'"

lemma create_queues_iff:
  "create_queues P conn qs w = (r, w') \<longleftrightarrow>
     (r = Inr () \<and> created P conn qs w w')
     \<or> (\<exists>pre q post w1 err. qs = pre @ q # post \<and> created P conn pre w w1
          \<and> create_queue P conn q w1 = (Inl err, w') \<and> r = Inl (box_pgmq_err err))"
proof (induction qs arbitrary: w)
  case Nil
  then show ?case by auto
next
  case (Cons q qs)
  obtain res w1 where c: "create_queue P conn q w = (res, w1)" by (metis surj_pair)
  show ?case
  proof (cases res)
    case (Inl err)
    have "pre = []" if "q # qs = pre @ q' # post" "created P conn pre w w2" for pre q' post w2
      using that c Inl by (cases pre) auto
    with c Inl show ?thesis by fastforce
  next
    case (Inr u)
    have split: "(\<exists>pre q' post w2 err. q # qs = pre @ q' # post \<and> created P conn pre w w2
          \<and> create_queue P conn q' w2 = (Inl err, w') \<and> r = Inl (box_pgmq_err err))
        \<longleftrightarrow> (\<exists>pre q' post w2 err. qs = pre @ q' # post \<and> created P conn pre w1 w2
          \<and> create_queue P conn q' w2 = (Inl err, w') \<and> r = Inl (box_pgmq_err err))" (is "?L \<longleftrightarrow> ?R")
    proof
      assume ?L
      then obtain pre q' post w2 err where L: "q # qs = pre @ q' # post" "created P conn pre w w2"
        "create_queue P conn q' w2 = (Inl err, w')" "r = Inl (box_pgmq_err err)" by blast
      with c Inr obtain pre' where "pre = q # pre'" by (cases pre) auto
      with L c Inr show ?R by auto
    next
      assume ?R
      then obtain pre q' post w2 err where R: "qs = pre @ q' # post" "created P conn pre w1 w2"
        "create_queue P conn q' w2 = (Inl err, w')" "r = Inl (box_pgmq_err err)" by blast
      with c Inr have "q # qs = (q # pre) @ q' # post" "created P conn (q # pre) w w2" by auto
      with R show ?L by blast
    qed
    from c Inr Cons.IH [of w1] show ?thesis by (simp only: split) simp
  qed
qed

section \<open>Properties\<close>

text \<open>
  The queues to create are the declared ones, from the code and from the configuration, each
  once and in order of name: the result is the only strictly increasing list with these elements, so
  it depends neither on the order nor on the place they were declared in, nor on repetitions.
\<close>

theorem merge_queues_canonical:
  "(qs = merge_queues from_plugin from_config)
     = (sorted_wrt (<) qs \<and> set qs = set from_plugin \<union> set from_config)
   \<and> merge_queues from_config from_plugin = merge_queues from_plugin from_config
   \<and> merge_queues (merge_queues from_plugin from_config) [] = merge_queues from_plugin from_config
   \<and> length (merge_queues from_plugin from_config) = card (set from_plugin \<union> set from_config)"
proof (intro conjI)
  show "(qs = merge_queues from_plugin from_config)
     = (sorted_wrt (<) qs \<and> set qs = set from_plugin \<union> set from_config)"
    using merge_queues_unique sorted_merge_queues set_merge_queues by blast
  show "merge_queues from_config from_plugin = merge_queues from_plugin from_config"
    by (rule merge_queues_unique) (simp_all add: sorted_merge_queues Un_commute)
  show "merge_queues (merge_queues from_plugin from_config) [] = merge_queues from_plugin from_config"
    by (rule merge_queues_unique [symmetric]) (simp_all add: sorted_merge_queues)
  show "length (merge_queues from_plugin from_config) = card (set from_plugin \<union> set from_config)"
    using sorted_merge_queues [of from_plugin from_config] distinct_card [of "merge_queues from_plugin from_config"]
    by (simp add: strict_sorted_iff)
qed

text \<open>
  Over a pool of the backend's type the plugin builds to success exactly when pgmq is installed,
  then a connection is got, then every merged queue is created on it, one after the other; the first
  queue that fails stops it, with the queues before it created and none after it tried. It adds nothing to
  the context.
\<close>

theorem pgmq_build_order:
  assumes "has_pg_executor_for backend i (shape ty state)"
  shows "\<exists>entry r w'. pg_executor i state = Some entry \<and> ty entry = pool_type backend
    \<and> pgmq_sqlx_build P i self cfg state ctx w = Some (r, ctx, w')
    \<and> (r = Inr () \<longleftrightarrow> (\<exists>w1 conn w2 w3. install_on_pool P (pool_of P entry) w = (Inr (), w1)
          \<and> get_conn P (pool_of P entry) w1 = (Inr conn, w2)
          \<and> created P conn (merge_queues (pp_queues self) (pq_queues cfg)) w2 w3 \<and> w3 = w'))
    \<and> (\<forall>w1 conn w2 pre q post w3 err. install_on_pool P (pool_of P entry) w = (Inr (), w1)
          \<and> get_conn P (pool_of P entry) w1 = (Inr conn, w2)
          \<and> merge_queues (pp_queues self) (pq_queues cfg) = pre @ q # post
          \<and> created P conn pre w2 w3 \<and> create_queue P conn q w3 = (Inl err, w4) \<longrightarrow>
          r = Inl (box_pgmq_err err) \<and> w' = w4)"
proof -
  from assms obtain entry where entry: "pg_executor i state = Some entry" "ty entry = pool_type backend"
    using select_of_impl [of "pool_type backend" i ty state]
    by (auto simp: has_pg_executor_for_def pg_executor_def)
  let ?pool = "pool_of P entry" and ?qs = "merge_queues (pp_queues self) (pq_queues cfg)"
  obtain ri w1 where inst: "install_on_pool P ?pool w = (ri, w1)" by (metis surj_pair)
  obtain rc w2 where conn: "get_conn P ?pool w1 = (rc, w2)" by (metis surj_pair)
  show ?thesis
  proof (cases ri)
    case (Inl e)
    with inst entry show ?thesis by (auto simp: pgmq_sqlx_build_def)
  next
    case ri: (Inr u)
    show ?thesis
    proof (cases rc)
      case (Inl e)
      with inst conn entry ri show ?thesis by (auto simp: pgmq_sqlx_build_def)
    next
      case (Inr c)
      obtain r w3 where q: "create_queues P c ?qs w2 = (r, w3)" by (metis surj_pair)
      with inst conn entry ri Inr have build: "pgmq_sqlx_build P i self cfg state ctx w = Some (r, ctx, w3)"
        by (simp add: pgmq_sqlx_build_def Let_def)
      have ok: "r = Inr () \<longleftrightarrow> created P c ?qs w2 w3"
        using q create_queues_iff [of P c ?qs w2 r w3] create_queues_iff [of P c ?qs w2 "Inr ()" w3] by auto
      have fail: "r = Inl (box_pgmq_err err) \<and> w3 = w4"
        if "?qs = pre @ x # post" "created P c pre w2 w5" "create_queue P c x w5 = (Inl err, w4)"
        for pre x post w5 err
        using q create_queues_iff [of P c ?qs w2 "Inl (box_pgmq_err err)" w4] that by fastforce
      have steps: "install_on_pool P ?pool w = (Inr (), w1')
          \<and> get_conn P ?pool w1' = (Inr c', w2') \<longleftrightarrow> w1' = w1 \<and> c' = c \<and> w2' = w2" for w1' c' w2'
        using inst conn ri Inr by auto
      have all: "\<forall>w1 conn w2 pre q post w3' err. install_on_pool P ?pool w = (Inr (), w1)
          \<and> get_conn P ?pool w1 = (Inr conn, w2) \<and> ?qs = pre @ q # post
          \<and> created P conn pre w2 w3' \<and> create_queue P conn q w3' = (Inl err, w4) \<longrightarrow>
          r = Inl (box_pgmq_err err) \<and> w3 = w4"
      proof (intro allI impI, elim conjE)
        fix v1 c' v2 pre x post v3 err
        assume "install_on_pool P ?pool w = (Inr (), v1)" "get_conn P ?pool v1 = (Inr c', v2)"
          and rest: "?qs = pre @ x # post" "created P c' pre v2 v3" "create_queue P c' x v3 = (Inl err, w4)"
        then have "c' = c" "v2 = w2" using steps by blast+
        with rest show "r = Inl (box_pgmq_err err) \<and> w3 = w4" using fail by blast
      qed
      have iff: "r = Inr () \<longleftrightarrow> (\<exists>w1 conn w2 w3'. install_on_pool P ?pool w = (Inr (), w1)
          \<and> get_conn P ?pool w1 = (Inr conn, w2) \<and> created P conn ?qs w2 w3' \<and> w3' = w3)"
        using ok inst conn ri Inr by auto
      show ?thesis
        by (intro exI [of _ entry] exI [of _ r] exI [of _ w3] conjI entry build iff all)
    qed
  qed
qed

definition demo_pgmq :: "(unit, unit, unit, string list) pgmq_api" where
  "demo_pgmq = \<lparr>pool_of = (\<lambda>v. v), install_on_pool = (\<lambda>_ w. (Inr (), w @ [''install''])),
     install_on_conn = (\<lambda>_ w. (Inr (), w)), get_conn = (\<lambda>_ w. (Inr (), w)),
     create_queue = (\<lambda>_ q w. (Inr (), w @ [q]))\<rparr>"

theorem pgmq_build_order_witness:
  "\<forall>ctx :: (unit, unit, unit, string list, unit, unit) build_ctx.
    pgmq_sqlx_build demo_pgmq Here \<lparr>pp_queues = [''jobs'']\<rparr> \<lparr>pq_queues = [''jobs'']\<rparr> (HCons () HNil) ctx []
      = Some (Inr (), ctx, [''install'', ''jobs''])"
proof
  fix ctx :: "(unit, unit, unit, string list, unit, unit) build_ctx"
  have "has_pg_executor_for \<lparr>pool_type = ()\<rparr> Here (shape (\<lambda>_. ()) (HCons () HNil))"
    by (simp add: has_pg_executor_for_def)
  from pgmq_build_order [OF this, of demo_pgmq "\<lparr>pp_queues = [''jobs'']\<rparr>" "\<lparr>pq_queues = [''jobs'']\<rparr>" ctx "[]"]
  obtain r w' where b: "pgmq_sqlx_build demo_pgmq Here \<lparr>pp_queues = [''jobs'']\<rparr> \<lparr>pq_queues = [''jobs'']\<rparr> (HCons () HNil) ctx []
      = Some (r, ctx, w')"
    and ok: "r = Inr () \<longleftrightarrow> (\<exists>w1 conn w2 w3. install_on_pool demo_pgmq () [] = (Inr (), w1)
          \<and> get_conn demo_pgmq () w1 = (Inr conn, w2)
          \<and> created demo_pgmq conn (merge_queues [''jobs''] [''jobs'']) w2 w3 \<and> w3 = w')"
    by (auto simp: demo_pgmq_def pgmq_config.simps)
  have m: "merge_queues [''jobs''] [''jobs''] = [''jobs'']" by (simp add: merge_queues_def)
  have "r = Inr () \<and> w' = [''install'', ''jobs'']"
    using b m by (auto simp: pgmq_sqlx_build_def demo_pgmq_def pg_executor_def Let_def)
  with b show "pgmq_sqlx_build demo_pgmq Here \<lparr>pp_queues = [''jobs'']\<rparr> \<lparr>pq_queues = [''jobs'']\<rparr> (HCons () HNil) ctx []
      = Some (Inr (), ctx, [''install'', ''jobs''])" by simp
qed

end
