(* ===== verification/Plugins.thy ===== *)
theory Plugins
  imports Auth_Plugin Web_Server Web_Spa Otel Sentry Diesel Sqlx Pgmq
begin

text \<open>
  The plugins of the program as the chain sees them: each \<open>impl Plugin\<close> is a \<open>plugin\<close> record made of
  the type's name, its section of the configuration with its environment variables, and its \<open>build\<close>.

  A chain of plugins whose configurations have different types is a list of steps
  \<open>with_plugin p\<close>. \<open>F\<close> is figment, \<open>extr\<close> its extraction at the plugin's config type, \<open>env\<close> the
  environment, and \<open>emb\<close> embeds the plugin's output into the values of the state.
\<close>

section \<open>The implementations of the trait\<close>

text \<open>An \<open>impl Plugin\<close> that keeps the default \<open>read_config\<close>.\<close>

definition trait_plugin ::
    "('fig, 'val, 'prov) figment_api \<Rightarrow> (string \<Rightarrow> string option) \<Rightarrow> ('fig \<Rightarrow> string \<Rightarrow> string + 'cfg)
      \<Rightarrow> string \<Rightarrow> string \<Rightarrow> env_fallback list \<Rightarrow> 'cfg
      \<Rightarrow> ('cfg \<Rightarrow> 'v hlist \<Rightarrow> ('fig, 'r, 'tok, 'w, 'h, 'l) build_ctx \<Rightarrow> 'w
            \<Rightarrow> 'v result \<times> ('fig, 'r, 'tok, 'w, 'h, 'l) build_ctx \<times> 'w)
      \<Rightarrow> ('cfg, 'v, 'fig, 'r, 'tok, 'w, 'h, 'l) plugin" where
  "trait_plugin F env extr type_name config_prefix env_fallbacks dflt build =
     \<lparr>pl_type_name = type_name,
      pl_read_config = default_read_config F extr dflt env config_prefix env_fallbacks,
      pl_build = build\<rparr>"

text \<open>The output of a build, as a value of the state.\<close>

definition out_as :: "('o \<Rightarrow> 'v) \<Rightarrow> 'o result \<times> 'c \<times> 'w \<Rightarrow> 'v result \<times> 'c \<times> 'w" where
  "out_as emb built = (case built of (r, ctx, w) \<Rightarrow> (map_sum id emb r, ctx, w))"

definition otel_plugin ::
    "('fig, 'val, 'prov) figment_api \<Rightarrow> (string \<Rightarrow> string option) \<Rightarrow> ('fig \<Rightarrow> string \<Rightarrow> string + otel_config)
      \<Rightarrow> (telemetry_handles \<Rightarrow> 'v) \<Rightarrow> otel_features \<Rightarrow> ('e, 'p, 'l, 'r, 'tok, 'jh, 'w) otel_api
      \<Rightarrow> ('tok, 'w \<Rightarrow> 'w, 'w, 'h) tokio_api \<Rightarrow> (otel_config, 'v, 'fig, 'r, 'tok, 'w, 'h, 'l) plugin" where
  "otel_plugin F env extr emb feat X T =
     trait_plugin F env extr ''muxa_otel::OtelPlugin'' ''otel'' OTEL_ENV_FALLBACKS otel_config_default
       (\<lambda>cfg _ ctx w. out_as emb (otel_build feat X T cfg ctx w))"

definition sentry_plugin ::
    "('fig, 'val, 'prov) figment_api \<Rightarrow> (string \<Rightarrow> string option) \<Rightarrow> ('fig \<Rightarrow> string \<Rightarrow> string + sentry_config)
      \<Rightarrow> ('guard \<Rightarrow> 'v) \<Rightarrow> bool \<Rightarrow> ('dsn, 'guard, 'r, 'w, 'l) sentry_api
      \<Rightarrow> (sentry_config, 'v, 'fig, 'r, 'tok, 'w, 'h, 'l) plugin" where
  "sentry_plugin F env extr emb tracing_bridge S =
     trait_plugin F env extr ''muxa_sentry::SentryPlugin'' ''sentry'' SENTRY_ENV_FALLBACKS
       sentry_config_default (\<lambda>cfg _ ctx w. out_as emb (sentry_build tracing_bridge S cfg ctx w))"

text \<open>\<open>DieselPlugin\<close> holds the migration runner; \<open>available\<close> and \<open>cell\<close> are the host's CPU count.\<close>

record 'm diesel_plugin =
  dp_migrations :: "'m migrations_runner option"

definition diesel_plugin_new :: "'m diesel_plugin" where
  "diesel_plugin_new = \<lparr>dp_migrations = None\<rparr>"

definition with_migrations :: "'m migrations_runner \<Rightarrow> 'm diesel_plugin \<Rightarrow> 'm diesel_plugin" where
  "with_migrations runner self = self\<lparr>dp_migrations := Some runner\<rparr>"

definition diesel_plugin_of ::
    "('fig, 'val, 'prov) figment_api \<Rightarrow> (string \<Rightarrow> string option) \<Rightarrow> ('fig \<Rightarrow> string \<Rightarrow> string + diesel_config)
      \<Rightarrow> ('pool \<Rightarrow> 'v) \<Rightarrow> bool \<Rightarrow> ('m, 'conn, 'pool, 'w) diesel_api \<Rightarrow> 'e + usize \<Rightarrow> usize option
      \<Rightarrow> 'm diesel_plugin \<Rightarrow> (diesel_config, 'v, 'fig, 'r, 'tok, 'w, 'h, 'l) plugin" where
  "diesel_plugin_of F env extr emb sentry D available cell self =
     trait_plugin F env extr ''muxa_diesel::pg::DieselPlugin'' ''diesel'' DIESEL_ENV_FALLBACKS
       (diesel_config_default available cell)
       (\<lambda>cfg _ ctx w. out_as emb (diesel_build sentry D (dp_migrations self) cfg ctx w))"

definition sqlx_plugin ::
    "('fig, 'val, 'prov) figment_api \<Rightarrow> (string \<Rightarrow> string option) \<Rightarrow> ('fig \<Rightarrow> string \<Rightarrow> string + sqlx_config)
      \<Rightarrow> ('pg \<Rightarrow> 'v) \<Rightarrow> ('opts, 'pg, 'lite, 'w) sqlx_api \<Rightarrow> 'e + usize \<Rightarrow> usize option
      \<Rightarrow> (sqlx_config, 'v, 'fig, 'r, 'tok, 'w, 'h, 'l) plugin" where
  "sqlx_plugin F env extr emb Q available cell =
     trait_plugin F env extr ''muxa_sqlx::pg::SqlxPlugin'' ''sqlx'' SQLX_ENV_FALLBACKS
       (sqlx_config_default available cell) (\<lambda>cfg _ ctx w. out_as emb (sqlx_build Q cfg ctx w))"

definition sqlite_plugin ::
    "('fig, 'val, 'prov) figment_api \<Rightarrow> (string \<Rightarrow> string option) \<Rightarrow> ('fig \<Rightarrow> string \<Rightarrow> string + sqlite_config)
      \<Rightarrow> ('lite \<Rightarrow> 'v) \<Rightarrow> ('opts, 'pg, 'lite, 'w) sqlx_api \<Rightarrow> 'e + usize \<Rightarrow> usize option
      \<Rightarrow> (sqlite_config, 'v, 'fig, 'r, 'tok, 'w, 'h, 'l) plugin" where
  "sqlite_plugin F env extr emb Q available cell =
     trait_plugin F env extr ''muxa_sqlx::sqlite::SqlitePlugin'' ''sqlite'' []
       (sqlite_config_default available cell) (\<lambda>cfg _ ctx w. out_as emb (sqlite_build Q cfg ctx w))"

text \<open>
  The pgmq plugin implements the trait only for states in which its backend's pool can be selected, at
  position \<open>i\<close>: without the pool there is no plugin. The position is part of its type's name.
\<close>

fun idx_type_name :: "idx \<Rightarrow> string" where
  "idx_type_name Here = ''muxa_core::state::Here''"
| "idx_type_name (There i) = ''muxa_core::state::There<'' @ idx_type_name i @ ''>''"

definition pgmq_type_name :: "string \<Rightarrow> idx \<Rightarrow> string" where
  "pgmq_type_name backend i = ''muxa_pgmq::PgmqPlugin<'' @ backend @ '', '' @ idx_type_name i @ ''>''"

definition pgmq_sqlx_plugin ::
    "('fig, 'val, 'prov) figment_api \<Rightarrow> (string \<Rightarrow> string option) \<Rightarrow> ('fig \<Rightarrow> string \<Rightarrow> string + pgmq_config)
      \<Rightarrow> (unit \<Rightarrow> 'v) \<Rightarrow> ('v, 'pool, 'conn, 'w) pgmq_api \<Rightarrow> idx \<Rightarrow> pgmq_plugin \<Rightarrow> 'v hlist
      \<Rightarrow> (pgmq_config, 'v, 'fig, 'r, 'tok, 'w, 'h, 'l) plugin option" where
  "pgmq_sqlx_plugin F env extr emb P i self state =
     (if pg_executor i state = None then None
      else Some (trait_plugin F env extr (pgmq_type_name ''muxa_sqlx::pg::SqlxBackend'' i) ''pgmq'' []
        pgmq_config_default
        (\<lambda>cfg _ ctx w. out_as emb (the (pgmq_sqlx_build P i self cfg state ctx w)))))"

definition pgmq_diesel_plugin ::
    "('fig, 'val, 'prov) figment_api \<Rightarrow> (string \<Rightarrow> string option) \<Rightarrow> ('fig \<Rightarrow> string \<Rightarrow> string + pgmq_config)
      \<Rightarrow> (unit \<Rightarrow> 'v) \<Rightarrow> ('v, 'pool, 'conn, 'w) pgmq_api \<Rightarrow> idx \<Rightarrow> pgmq_plugin \<Rightarrow> 'v hlist
      \<Rightarrow> (pgmq_config, 'v, 'fig, 'r, 'tok, 'w, 'h, 'l) plugin option" where
  "pgmq_diesel_plugin F env extr emb P i self state =
     (if pg_executor i state = None then None
      else Some (trait_plugin F env extr (pgmq_type_name ''muxa_diesel::pg::DieselBackend'' i) ''pgmq'' []
        pgmq_config_default
        (\<lambda>cfg _ ctx w. out_as emb (the (pgmq_diesel_build P i self cfg state ctx w)))))"

definition openapi_plugin ::
    "('fig, 'val, 'prov) figment_api \<Rightarrow> (string \<Rightarrow> string option) \<Rightarrow> ('fig \<Rightarrow> string \<Rightarrow> string + openapi_config)
      \<Rightarrow> (unit \<Rightarrow> 'v) \<Rightarrow> 'r axum_api \<Rightarrow> (string \<Rightarrow> docs_response \<Rightarrow> 'r \<Rightarrow> 'r) \<Rightarrow> ('api \<Rightarrow> string + string) \<Rightarrow> 'api
      \<Rightarrow> (openapi_config, 'v, 'fig, 'r, 'tok, 'w, 'h, 'l) plugin" where
  "openapi_plugin F env extr emb A add_route to_json api =
     trait_plugin F env extr ''muxa_openapi::OpenApiPlugin'' ''openapi'' [] openapi_config_default
       (\<lambda>cfg _ ctx w. out_as emb (openapi_build A add_route to_json api cfg ctx w))"

definition spa_plugin ::
    "('fig, 'val, 'prov) figment_api \<Rightarrow> (string \<Rightarrow> string option) \<Rightarrow> ('fig \<Rightarrow> string \<Rightarrow> string + spa_config)
      \<Rightarrow> (unit \<Rightarrow> 'v) \<Rightarrow> ('body, 'w) memory_serve \<Rightarrow> (('body, 'w) service \<Rightarrow> 'r) \<Rightarrow> asset list
      \<Rightarrow> (spa_config, 'v, 'fig, 'r, 'tok, 'w, 'h, 'l) plugin" where
  "spa_plugin F env extr emb M mk assets =
     trait_plugin F env extr ''muxa_web::spa::SpaPlugin'' ''spa'' [] spa_config_default
       (\<lambda>cfg _ ctx w. out_as emb (spa_build M mk assets cfg ctx w))"

text \<open>The web plugins are generic in the routes callback, whose type is part of their type's name.\<close>

definition web_plugin ::
    "('fig, 'val, 'prov) figment_api \<Rightarrow> (string \<Rightarrow> string option) \<Rightarrow> ('fig \<Rightarrow> string \<Rightarrow> string + web_config)
      \<Rightarrow> (unit \<Rightarrow> 'v) \<Rightarrow> server_env \<Rightarrow> ('a, 's, 'ln, 'c, 'r, 'tok, 'w) net_api \<Rightarrow> string \<Rightarrow> ('v hlist \<Rightarrow> 'r)
      \<Rightarrow> (web_config, 'v, 'fig, 'r, 'tok, 'w, 'h, 'l) plugin" where
  "web_plugin F env extr emb E N routes_type routes =
     trait_plugin F env extr (''muxa_web::WebPlugin<'' @ routes_type @ ''>'') ''web'' WEB_ENV_FALLBACKS
       web_config_default (\<lambda>cfg state ctx w. out_as emb (web_build E N routes cfg state ctx w))"

definition api_plugin ::
    "('fig, 'val, 'prov) figment_api \<Rightarrow> (string \<Rightarrow> string option) \<Rightarrow> ('fig \<Rightarrow> string \<Rightarrow> string + web_config)
      \<Rightarrow> ('fig \<Rightarrow> string \<Rightarrow> string + openapi_config) \<Rightarrow> (unit \<Rightarrow> 'v) \<Rightarrow> server_env
      \<Rightarrow> ('a, 's, 'ln, 'c, 'r, 'tok, 'w) net_api \<Rightarrow> 'r axum_api \<Rightarrow> (string \<Rightarrow> docs_response \<Rightarrow> 'r \<Rightarrow> 'r)
      \<Rightarrow> ('api \<Rightarrow> string + string) \<Rightarrow> ('ar \<Rightarrow> 'api \<Rightarrow> 'r \<times> 'api) \<Rightarrow> string \<Rightarrow> ('v hlist \<Rightarrow> 'ar) \<Rightarrow> 'api
      \<Rightarrow> (api_config, 'v, 'fig, 'r, 'tok, 'w, 'h, 'l) plugin" where
  "api_plugin F env extr_web extr_openapi emb E N A add_route to_json finish_api routes_type routes api =
     \<lparr>pl_type_name = ''muxa_web::ApiPlugin<'' @ routes_type @ ''>'',
      pl_read_config = api_read_config F extr_web extr_openapi env,
      pl_build = (\<lambda>cfg state ctx w.
        out_as emb (api_build E N A add_route to_json finish_api routes api cfg state ctx w))\<rparr>"

definition auth_plugin ::
    "('fig, 'val, 'prov) figment_api \<Rightarrow> (string \<Rightarrow> string option) \<Rightarrow> ('fig \<Rightarrow> string \<Rightarrow> string + auth_config)
      \<Rightarrow> (auth_handle \<Rightarrow> 'v) \<Rightarrow> ('p, 'u, 'w, 'r, 'b, 'store, 'uu, 'o, 'tok, 'fut, 'h, 'v) auth_env
      \<Rightarrow> (auth_config, 'v, 'fig, 'r, 'tok, 'w, 'h, 'l) plugin" where
  "auth_plugin F env extr emb E =
     trait_plugin F env extr auth_type_name ''auth'' [] auth_config_default
       (\<lambda>cfg state ctx w. out_as emb (auth_build E cfg state ctx w))"

section \<open>Chains\<close>

type_synonym ('v, 'fig, 'r, 'tok, 'w, 'h, 'l) chain_step =
  "('v, 'fig, 'r, 'tok, 'w, 'h, 'l) app_builder \<Rightarrow> 'w
    \<Rightarrow> ('v, 'fig, 'r, 'tok, 'w, 'h, 'l) app_builder result \<times> 'w"

fun chain ::
    "('v, 'fig, 'r, 'tok, 'w, 'h, 'l) chain_step list \<Rightarrow> ('v, 'fig, 'r, 'tok, 'w, 'h, 'l) chain_step" where
  "chain [] b w = (Inr b, w)"
| "chain (s # ss) b w =
     (case s b w of
        (Inl e, w) \<Rightarrow> (Inl e, w)
      | (Inr b, w) \<Rightarrow> chain ss b w)"

section \<open>Lemmas\<close>

lemma trait_plugin_build [simp]: "pl_build (trait_plugin F env extr n p fbs dflt build) = build"
  by (simp add: trait_plugin_def)

lemma trait_plugin_type_name [simp]: "pl_type_name (trait_plugin F env extr n p fbs dflt build) = n"
  by (simp add: trait_plugin_def)

lemma trait_plugin_read [simp]:
  "pl_read_config (trait_plugin F env extr n p fbs dflt build) fig = get_or_env F extr dflt env fig p fbs"
  by (simp add: trait_plugin_def default_read_config_def)

lemma out_as_parts [simp]:
  "fst (out_as emb built) = map_sum id emb (fst built)" "snd (out_as emb built) = snd built"
  by (simp_all add: out_as_def case_prod_beta)

lemma out_as_Pair [simp]: "out_as emb (r, ctx, w) = (map_sum id emb r, ctx, w)"
  by (simp add: out_as_def)

text \<open>A section that no layer of the configuration and no variable mentions gives the default.\<close>

lemma get_or_env_default:
  assumes "find_value F (with_fallbacks F env fig p fbs) p = None"
  shows "get_or_env F extr dflt env fig p fbs = Inr dflt"
proof (cases "p = []")
  case True
  then show ?thesis by (simp add: get_or_env_def)
next
  case False
  with assms show ?thesis by (simp add: get_or_env_eq extract_section_def)
qed

lemma chain_append:
  "chain (xs @ ys) b w = (case chain xs b w of (Inl e, w) \<Rightarrow> (Inl e, w) | (Inr b, w) \<Rightarrow> chain ys b w)"
  by (induction xs arbitrary: b w) (auto split: sum.splits prod.splits)

text \<open>A chain whose plugins share a type of configurations is the chain of \<open>Core_App\<close>.\<close>

lemma chain_with_plugins: "chain (map with_plugin ps) b w = with_plugins ps b w"
  by (induction ps arbitrary: b w) (auto split: sum.splits prod.splits)

lemma fresh_builder [simp]:
  "ab_state (with_figment dbg env_key tok already cell fig) = HNil"
  "bc_figment (ab_ctx (with_figment dbg env_key tok already cell fig)) = fig"
  "bc_serve_fn (ab_ctx (with_figment dbg env_key tok already cell fig)) = None"
  "bc_router (ab_ctx (with_figment dbg env_key tok already cell fig)) = router_registry_default"
  "bc_tasks (ab_ctx (with_figment dbg env_key tok already cell fig)) = []"
  "bc_shutdown (ab_ctx (with_figment dbg env_key tok already cell fig)) = tok"
  by (simp_all add: with_figment_def build_ctx_new_def Let_def case_prod_beta)

text \<open>One plugin of a chain: read the section, build, push the output.\<close>

lemma with_plugin_ok:
  assumes "pl_read_config p (bc_figment (ab_ctx b)) = Inr cfg"
    and "pl_build p cfg (ab_state b) (ab_ctx b) w = (Inr out, ctx, w')"
  shows "with_plugin p b w = (Inr \<lparr>ab_state = HCons out (ab_state b), ab_ctx = ctx\<rparr>, w')"
  using assms by (simp add: with_plugin_def)

lemma with_plugin_context:
  assumes "with_plugin p b w = (Inr b', w')"
  shows "\<exists>cfg out. pl_build p cfg (ab_state b) (ab_ctx b) w = (Inr out, ab_ctx b', w')
    \<and> ab_state b' = HCons out (ab_state b)"
  using with_plugin_cases [OF assms] by auto

section \<open>Who may register the serve function\<close>

text \<open>
  A plugin that only adds to the context and never touches the serve function; and one that registers it,
  so its build cannot succeed when there is one already.
\<close>

definition quiet_plugin :: "('cfg, 'v, 'fig, 'r, 'tok, 'w, 'h, 'l) plugin \<Rightarrow> bool" where
  "quiet_plugin p \<longleftrightarrow> extending_plugin p \<and>
     (\<forall>cfg s ctx w. bc_serve_fn (fst (snd (pl_build p cfg s ctx w))) = bc_serve_fn ctx)"

definition serving_plugin :: "('cfg, 'v, 'fig, 'r, 'tok, 'w, 'h, 'l) plugin \<Rightarrow> bool" where
  "serving_plugin p \<longleftrightarrow> extending_plugin p \<and>
     (\<forall>cfg s ctx w. \<not> is_err (fst (pl_build p cfg s ctx w)) \<longrightarrow>
        bc_serve_fn ctx = None \<and> bc_serve_fn (fst (snd (pl_build p cfg s ctx w))) \<noteq> None)"

text \<open>Chain steps marked with what their plugin does: \<open>True\<close> for one that serves.\<close>

inductive plugin_step :: "bool \<Rightarrow> ('v, 'fig, 'r, 'tok, 'w, 'h, 'l) chain_step \<Rightarrow> bool" where
  quiet_stepI: "(\<And>b w b' w'. s b w = (Inr b', w') \<Longrightarrow>
      ctx_extends (ab_ctx b) (ab_ctx b') \<and> bc_serve_fn (ab_ctx b') = bc_serve_fn (ab_ctx b)
      \<and> (\<exists>out. ab_state b' = HCons out (ab_state b))) \<Longrightarrow> plugin_step False s"
| serving_stepI: "(\<And>b w b' w'. s b w = (Inr b', w') \<Longrightarrow>
      ctx_extends (ab_ctx b) (ab_ctx b') \<and> bc_serve_fn (ab_ctx b) = None \<and> bc_serve_fn (ab_ctx b') \<noteq> None
      \<and> (\<exists>out. ab_state b' = HCons out (ab_state b))) \<Longrightarrow> plugin_step True s"

lemma plugin_stepD:
  assumes "plugin_step k s" and "s b w = (Inr b', w')"
  shows "ctx_extends (ab_ctx b) (ab_ctx b') \<and> (\<exists>out. ab_state b' = HCons out (ab_state b))
    \<and> (if k then bc_serve_fn (ab_ctx b) = None \<and> bc_serve_fn (ab_ctx b') \<noteq> None
       else bc_serve_fn (ab_ctx b') = bc_serve_fn (ab_ctx b))"
  using assms(1)
proof cases
  case quiet_stepI
  from quiet_stepI(2) [OF assms(2)] quiet_stepI(1) show ?thesis by simp
next
  case serving_stepI
  from serving_stepI(2) [OF assms(2)] serving_stepI(1) show ?thesis by simp
qed

lemma quiet_plugin_step: "quiet_plugin p \<Longrightarrow> plugin_step False (with_plugin p)"
proof (rule quiet_stepI)
  fix b w b' w'
  assume q: "quiet_plugin p" and "with_plugin p b w = (Inr b', w')"
  from with_plugin_context [OF this(2)] obtain cfg out
    where "pl_build p cfg (ab_state b) (ab_ctx b) w = (Inr out, ab_ctx b', w')"
      "ab_state b' = HCons out (ab_state b)" by blast
  then show "ctx_extends (ab_ctx b) (ab_ctx b') \<and> bc_serve_fn (ab_ctx b') = bc_serve_fn (ab_ctx b)
      \<and> (\<exists>out. ab_state b' = HCons out (ab_state b))"
    using q unfolding quiet_plugin_def extending_plugin_def by (metis fst_conv snd_conv)
qed

lemma serving_plugin_step: "serving_plugin p \<Longrightarrow> plugin_step True (with_plugin p)"
proof (rule serving_stepI)
  fix b w b' w'
  assume q: "serving_plugin p" and "with_plugin p b w = (Inr b', w')"
  from with_plugin_context [OF this(2)] obtain cfg out
    where "pl_build p cfg (ab_state b) (ab_ctx b) w = (Inr out, ab_ctx b', w')"
      "ab_state b' = HCons out (ab_state b)" by blast
  then show "ctx_extends (ab_ctx b) (ab_ctx b') \<and> bc_serve_fn (ab_ctx b) = None
      \<and> bc_serve_fn (ab_ctx b') \<noteq> None \<and> (\<exists>out. ab_state b' = HCons out (ab_state b))"
    using q unfolding serving_plugin_def extending_plugin_def by (metis fst_conv snd_conv is_err_simps(2))
qed

text \<open>
  The two kinds of build, over \<open>ctx_extender\<close>: \<open>x\<close> stands for everything but the context.
\<close>

locale quiet_build = ctx_extender build
  for build :: "'x \<Rightarrow> ('fig, 'r, 'tok, 'w, 'h, 'l) build_ctx
      \<Rightarrow> 'o result \<times> ('fig, 'r, 'tok, 'w, 'h, 'l) build_ctx \<times> 'w" +
  assumes serve_untouched: "bc_serve_fn (fst (snd (build x ctx))) = bc_serve_fn ctx"
begin

lemma quiet_pluginI:
  assumes "\<And>cfg s ctx w. pl_build p cfg s ctx w = out_as emb (build (arg cfg s w) ctx)"
  shows "quiet_plugin p"
  using build_extends serve_untouched by (simp add: quiet_plugin_def extending_plugin_def assms)

end

locale serving_build = ctx_extender build
  for build :: "'x \<Rightarrow> ('fig, 'r, 'tok, 'w, 'h, 'l) build_ctx
      \<Rightarrow> 'o result \<times> ('fig, 'r, 'tok, 'w, 'h, 'l) build_ctx \<times> 'w" +
  assumes serves: "fst (build x ctx) = Inr out \<Longrightarrow>
      bc_serve_fn ctx = None \<and> bc_serve_fn (fst (snd (build x ctx))) \<noteq> None"
begin

lemma serving_pluginI:
  assumes "\<And>cfg s ctx w. pl_build p cfg s ctx w = out_as emb (build (arg cfg s w) ctx)"
  shows "serving_plugin p"
  unfolding serving_plugin_def extending_plugin_def
proof (intro conjI allI impI)
  fix cfg s ctx w
  show "ctx_extends ctx (fst (snd (pl_build p cfg s ctx w)))"
    using build_extends by (simp add: assms)
  assume "\<not> is_err (fst (pl_build p cfg s ctx w))"
  then obtain out where "fst (build (arg cfg s w) ctx) = Inr out"
    by (cases "fst (build (arg cfg s w) ctx)") (simp_all add: assms)
  then show "bc_serve_fn ctx = None" "bc_serve_fn (fst (snd (pl_build p cfg s ctx w))) \<noteq> None"
    using serves by (simp_all add: assms)
qed

end

lemma otel_install_serve_fn:
  assumes "otel_install F X T cfg endpoint ctx w = (r, ctx', w')"
  shows "bc_serve_fn ctx' = bc_serve_fn ctx"
proof -
  have "bc_serve_fn d = bc_serve_fn c" if "telemetry_only c d" for c d
    using that by (auto simp: telemetry_only_def)
  with otel_install_cases [OF assms] show ?thesis by fastforce
qed

lemma otel_build_serve_fn:
  "bc_serve_fn (fst (snd (otel_build F X T cfg ctx w))) = bc_serve_fn ctx"
  by (auto simp: otel_build_def Let_def dest: otel_install_serve_fn
      split: sum.splits option.splits prod.splits)

interpretation otel_quiet: quiet_build "\<lambda>(F, X, T, cfg, w) ctx. otel_build F X T cfg ctx w"
  by unfold_locales (auto simp: otel_build_serve_fn)

interpretation sentry_quiet: quiet_build "\<lambda>(tb, S, cfg, w) ctx. sentry_build tb S cfg ctx w"
  by unfold_locales (auto simp: sentry_build_def Let_def case_prod_beta split: sum.splits)

interpretation diesel_quiet: quiet_build
  "\<lambda>(sentry, D, migrations, cfg, w) ctx. diesel_build sentry D migrations cfg ctx w"
  by unfold_locales (auto simp: diesel_build_def split: sum.splits option.splits prod.splits)

interpretation sqlx_quiet: quiet_build "\<lambda>(Q, cfg, w) ctx. sqlx_build Q cfg ctx w"
  by unfold_locales (simp add: sqlx_build_def case_prod_beta)

interpretation sqlite_quiet: quiet_build "\<lambda>(Q, cfg, w) ctx. sqlite_build Q cfg ctx w"
  by unfold_locales (auto simp: sqlite_build_def case_prod_beta split: sum.splits)

interpretation openapi_quiet: quiet_build
  "\<lambda>(A, add_route, to_json, api, cfg, w) ctx. openapi_build A add_route to_json api cfg ctx w"
  by unfold_locales (auto simp: openapi_build_def split: sum.splits)

interpretation spa_quiet: quiet_build "\<lambda>(M, mk, assets, cfg, w) ctx. spa_build M mk assets cfg ctx w"
  by unfold_locales (auto simp: spa_build_def Let_def set_fallback_def split: if_splits)

interpretation auth_quiet: quiet_build "\<lambda>(E, cfg, st, w) ctx. auth_build E cfg st ctx w"
  by unfold_locales (auto simp: auth_build_def Let_def split: sum.splits option.splits)

interpretation web_serving: serving_build
  "\<lambda>(E, N, routes, cfg, state, w) ctx. web_build E N routes cfg state ctx w"
  by unfold_locales
    (auto simp: web_build_def schedule_serve_def set_serve_fn_def Let_def split: if_splits)

interpretation api_serving: serving_build
  "\<lambda>(E, N, A, add_route, to_json, finish_api, routes, api, cfg, state, w) ctx.
     api_build E N A add_route to_json finish_api routes api cfg state ctx w"
  by unfold_locales
    (auto simp: api_build_def schedule_serve_def set_serve_fn_def Let_def
      split: if_splits sum.splits prod.splits)

lemma plugins_quiet:
  "quiet_plugin (otel_plugin F env extr1 emb1 feat X T)"
  "quiet_plugin (sentry_plugin F env extr2 emb2 tb S)"
  "quiet_plugin (diesel_plugin_of F env extr3 emb3 sentry D available cell self)"
  "quiet_plugin (sqlx_plugin F env extr4 emb4 Q available cell)"
  "quiet_plugin (sqlite_plugin F env extr5 emb5 Q available cell)"
  "quiet_plugin (openapi_plugin F env extr6 emb6 A add_route to_json api)"
  "quiet_plugin (spa_plugin F env extr7 emb7 M mk assets)"
  "quiet_plugin (auth_plugin F env extr8 emb8 E)"
proof -
  show "quiet_plugin (otel_plugin F env extr1 emb1 feat X T)"
    by (rule otel_quiet.quiet_pluginI [where arg = "\<lambda>cfg s w. (feat, X, T, cfg, w)"]) (simp add: otel_plugin_def)
  show "quiet_plugin (sentry_plugin F env extr2 emb2 tb S)"
    by (rule sentry_quiet.quiet_pluginI [where arg = "\<lambda>cfg s w. (tb, S, cfg, w)"]) (simp add: sentry_plugin_def)
  show "quiet_plugin (diesel_plugin_of F env extr3 emb3 sentry D available cell self)"
    by (rule diesel_quiet.quiet_pluginI [where arg = "\<lambda>cfg s w. (sentry, D, dp_migrations self, cfg, w)"])
      (simp add: diesel_plugin_of_def)
  show "quiet_plugin (sqlx_plugin F env extr4 emb4 Q available cell)"
    by (rule sqlx_quiet.quiet_pluginI [where arg = "\<lambda>cfg s w. (Q, cfg, w)"]) (simp add: sqlx_plugin_def)
  show "quiet_plugin (sqlite_plugin F env extr5 emb5 Q available cell)"
    by (rule sqlite_quiet.quiet_pluginI [where arg = "\<lambda>cfg s w. (Q, cfg, w)"]) (simp add: sqlite_plugin_def)
  show "quiet_plugin (openapi_plugin F env extr6 emb6 A add_route to_json api)"
    by (rule openapi_quiet.quiet_pluginI [where arg = "\<lambda>cfg s w. (A, add_route, to_json, api, cfg, w)"])
      (simp add: openapi_plugin_def)
  show "quiet_plugin (spa_plugin F env extr7 emb7 M mk assets)"
    by (rule spa_quiet.quiet_pluginI [where arg = "\<lambda>cfg s w. (M, mk, assets, cfg, w)"]) (simp add: spa_plugin_def)
  show "quiet_plugin (auth_plugin F env extr8 emb8 E)"
    by (rule auth_quiet.quiet_pluginI [where arg = "\<lambda>cfg s w. (E, cfg, s, w)"]) (simp add: auth_plugin_def)
qed

lemma pgmq_the_ctx:
  "pg_executor i state = Some v \<Longrightarrow> fst (snd (the (pgmq_sqlx_build P i self cfg state ctx w))) = ctx"
  "pg_executor i state = Some v \<Longrightarrow> fst (snd (the (pgmq_diesel_build P i self cfg state ctx w))) = ctx"
  by (auto simp: pgmq_sqlx_build_def pgmq_diesel_build_def Let_def split: sum.splits prod.splits)

lemma pgmq_quiet:
  "pgmq_sqlx_plugin F env extr emb P i self state = Some p \<Longrightarrow> quiet_plugin p"
  "pgmq_diesel_plugin F env extr emb P i self state = Some p \<Longrightarrow> quiet_plugin p"
  by (auto simp: pgmq_sqlx_plugin_def pgmq_diesel_plugin_def quiet_plugin_def extending_plugin_def
      pgmq_the_ctx split: if_splits)

lemma plugins_serving:
  "serving_plugin (web_plugin F env extr emb V N name routes)"
  "serving_plugin (api_plugin F env extr extr' emb V N A add_route to_json finish_api name ar api)"
proof -
  show "serving_plugin (web_plugin F env extr emb V N name routes)"
    by (rule web_serving.serving_pluginI [where arg = "\<lambda>cfg s w. (V, N, routes, cfg, s, w)"])
      (simp add: web_plugin_def)
  show "serving_plugin (api_plugin F env extr extr' emb V N A add_route to_json finish_api name ar api)"
    by (rule api_serving.serving_pluginI
        [where arg = "\<lambda>cfg s w. (V, N, A, add_route, to_json, finish_api, ar, api, cfg, s, w)"])
      (simp add: api_plugin_def)
qed

lemma chain_steps:
  assumes "list_all (\<lambda>(k, s). plugin_step k s) steps"
    and "chain (map snd steps) b w = (Inr b', w')"
  shows "ctx_extends (ab_ctx b) (ab_ctx b')
    \<and> length (filter fst steps) \<le> (if bc_serve_fn (ab_ctx b) = None then 1 else 0)
    \<and> (bc_serve_fn (ab_ctx b') = None \<longleftrightarrow> bc_serve_fn (ab_ctx b) = None \<and> filter fst steps = [])
    \<and> (\<exists>outs. length outs = length steps
         \<and> hl_entries (ab_state b') = rev outs @ hl_entries (ab_state b))"
  using assms
proof (induction steps arbitrary: b w)
  case Nil
  then show ?case by simp
next
  case (Cons ks steps)
  obtain k s where ks: "ks = (k, s)" by (cases ks)
  from Cons.prems ks obtain b1 w1 where one: "s b w = (Inr b1, w1)"
    and rest: "chain (map snd steps) b1 w1 = (Inr b', w')"
    by (auto split: sum.splits prod.splits)
  from Cons.prems ks have step: "plugin_step k s" by simp
  from plugin_stepD [OF step one] obtain out where out: "ab_state b1 = HCons out (ab_state b)"
    and ext: "ctx_extends (ab_ctx b) (ab_ctx b1)"
    and serve: "if k then bc_serve_fn (ab_ctx b) = None \<and> bc_serve_fn (ab_ctx b1) \<noteq> None
       else bc_serve_fn (ab_ctx b1) = bc_serve_fn (ab_ctx b)" by blast
  from Cons.IH [OF _ rest] Cons.prems obtain outs where ih: "ctx_extends (ab_ctx b1) (ab_ctx b')"
      "length (filter fst steps) \<le> (if bc_serve_fn (ab_ctx b1) = None then 1 else 0)"
      "bc_serve_fn (ab_ctx b') = None \<longleftrightarrow> bc_serve_fn (ab_ctx b1) = None \<and> filter fst steps = []"
      "length outs = length steps" "hl_entries (ab_state b') = rev outs @ hl_entries (ab_state b1)"
    by auto
  have "\<exists>outs. length outs = length (ks # steps) \<and> hl_entries (ab_state b') = rev outs @ hl_entries (ab_state b)"
    using ih(4,5) out by (intro exI [of _ "out # outs"]) simp
  moreover have "length (filter fst (ks # steps)) \<le> (if bc_serve_fn (ab_ctx b) = None then 1 else 0)"
    and "bc_serve_fn (ab_ctx b') = None \<longleftrightarrow> bc_serve_fn (ab_ctx b) = None \<and> filter fst (ks # steps) = []"
    using ih(2,3) serve ks by (cases k; simp)+
  ultimately show ?case using ctx_extends_trans [OF ext ih(1)] by blast
qed

section \<open>Properties\<close>

text \<open>
  C12: an application can run exactly when one of its plugins serves. Every plugin of the program but the
  two web plugins leaves the serve function alone, and those two register it. So a chain of plugins, in
  whatever order and of whatever length, that builds on a fresh context has at most one web plugin,
  registers a serve function if and only if it has one, and without one the run is the documented error
  and touches nothing. The chain only adds to the context, and the state holds one output per plugin, the
  last one first.
\<close>

theorem one_serving_plugin:
  assumes "list_all (\<lambda>(k, s). plugin_step k s) steps"
    and "chain (map snd steps) b w = (Inr b', w')" and "bc_serve_fn (ab_ctx b) = None"
  shows "length (filter fst steps) \<le> 1
    \<and> (bc_serve_fn (ab_ctx b') \<noteq> None \<longleftrightarrow> (\<exists>s. (True, s) \<in> set steps))
    \<and> ((\<forall>s. (True, s) \<notin> set steps) \<longrightarrow> run R A b' w0 = (Inl (error_other no_serve_message), w0))
    \<and> ctx_extends (ab_ctx b) (ab_ctx b')
    \<and> (\<exists>outs. length outs = length steps \<and> hl_entries (ab_state b') = rev outs @ hl_entries (ab_state b))
    \<and> plugin_step False (with_plugin (otel_plugin F env extr1 emb1 feat X T))
    \<and> plugin_step False (with_plugin (sentry_plugin F env extr2 emb2 tb S))
    \<and> plugin_step False (with_plugin (diesel_plugin_of F env extr3 emb3 sentry D available cell self))
    \<and> plugin_step False (with_plugin (sqlx_plugin F env extr4 emb4 Q available cell))
    \<and> plugin_step False (with_plugin (sqlite_plugin F env extr5 emb5 Q available cell))
    \<and> plugin_step False (with_plugin (openapi_plugin F env extr6 emb6 A add_route to_json api))
    \<and> plugin_step False (with_plugin (spa_plugin F env extr7 emb7 M mk assets))
    \<and> plugin_step False (with_plugin (auth_plugin F env extr8 emb8 E))
    \<and> plugin_step True (with_plugin (web_plugin F env extr9 emb9 V N name routes))
    \<and> plugin_step True (with_plugin
        (api_plugin F env extr9 extr6 emb9 V N A add_route to_json finish_api name ar api))
    \<and> (pgmq_sqlx_plugin F env extr10 emb10 P i pg state = Some p
        \<or> pgmq_diesel_plugin F env extr10 emb10 P i pg state = Some p \<longrightarrow> plugin_step False (with_plugin p))"
proof -
  have none: "filter fst steps = [] \<longleftrightarrow> (\<forall>s. (True, s) \<notin> set steps)"
    by (force simp: filter_empty_conv)
  note built = chain_steps [OF assms(1,2), unfolded assms(3), simplified, folded none]
  have "run R A b' w0 = (Inl (error_other no_serve_message), w0)" if "filter fst steps = []"
    using built that by (simp add: run_def)
  with built none show ?thesis
    by (intro conjI impI quiet_plugin_step serving_plugin_step plugins_quiet plugins_serving)
      (auto intro: quiet_plugin_step pgmq_quiet)
qed

text \<open>An empty configuration: every section is absent and every variable unset.\<close>

definition blank_builder :: "(unit, demo_fig, nat, unit, unit, unit, unit) app_builder" where
  "blank_builder = with_figment True (\<lambda>_. None) () False None (\<lambda>_. None)"

lemma demo_section_absent [simp]:
  "find_value demo_figment (with_fallbacks demo_figment (\<lambda>_. None) (\<lambda>_. None) p fbs) p = None"
proof -
  have "List.map_filter (fallback_read (\<lambda>_. None) p) fbs = []"
    by (induction fbs) (simp_all add: map_filter_simps fallback_read_def)
  then show ?thesis by (simp add: with_fallbacks_def demo_figment_def)
qed

lemma blank_parts [simp]:
  "bc_figment (ab_ctx blank_builder) = (\<lambda>_. None)" "bc_serve_fn (ab_ctx blank_builder) = None"
  "ab_state blank_builder = HNil"
  by (simp_all add: blank_builder_def)

definition blank_spa :: "(spa_config, unit, demo_fig, nat, unit, unit, unit, unit) plugin" where
  "blank_spa = spa_plugin demo_figment (\<lambda>_. None) (\<lambda>_ _. Inl ''unread'') id
     \<lparr>ms_files = (\<lambda>_ _ _ _ w. (None, w)), ms_empty = ()\<rparr> (\<lambda>_. 0) []"

definition blank_web ::
    "server_env \<Rightarrow> (unit, unit, unit, unit, nat, unit, unit) net_api
      \<Rightarrow> (web_config, unit, demo_fig, nat, unit, unit, unit, unit) plugin" where
  "blank_web V N = web_plugin demo_figment (\<lambda>_. None) (\<lambda>_ _. Inl ''unread'') id V N ''app::routes'' (\<lambda>_. 7)"

lemma blank_chain:
  "\<exists>b'. chain (map snd [(False, with_plugin blank_spa), (True, with_plugin (blank_web V N))]) blank_builder ()
     = (Inr b', ())"
proof -
  have "with_plugin blank_spa blank_builder ()
      = (Inr \<lparr>ab_state = HCons () HNil, ab_ctx = ab_ctx blank_builder\<rparr>, ())"
    by (subst with_plugin_ok [where cfg = spa_config_default])
      (simp_all add: blank_spa_def spa_plugin_def get_or_env_default spa_build_def)
  moreover obtain ctx where "web_build V N (\<lambda>_. 7) web_config_default (HCons () HNil) (ab_ctx blank_builder) ()
      = (Inr (), ctx, ())"
    by (simp add: web_build_ok Let_def)
  then have "with_plugin (blank_web V N) \<lparr>ab_state = HCons () HNil, ab_ctx = ab_ctx blank_builder\<rparr> ()
      = (Inr \<lparr>ab_state = HCons () (HCons () HNil), ab_ctx = ctx\<rparr>, ())"
    by - (subst with_plugin_ok [where cfg = web_config_default],
      simp_all add: blank_web_def web_plugin_def get_or_env_default)
  ultimately show ?thesis by simp
qed

theorem one_serving_plugin_witness:
  "\<forall>V N. \<exists>b'. chain [with_plugin blank_spa, with_plugin (blank_web V N)] blank_builder () = (Inr b', ())
     \<and> bc_serve_fn (ab_ctx b') \<noteq> None \<and> hl_entries (ab_state b') = [(), ()]"
proof (intro allI)
  fix V and N :: "(unit, unit, unit, unit, nat, unit, unit) net_api"
  let ?steps = "[(False, with_plugin blank_spa), (True, with_plugin (blank_web V N))]"
  obtain b' where built: "chain (map snd ?steps) blank_builder () = (Inr b', ())" using blank_chain by blast
  have steps: "list_all (\<lambda>(k, s). plugin_step k s) ?steps"
    by (simp add: quiet_plugin_step serving_plugin_step plugins_quiet plugins_serving blank_spa_def blank_web_def)
  note p = one_serving_plugin [OF steps built blank_parts(2), THEN conjunct2]
  from p [THEN conjunct1] have "bc_serve_fn (ab_ctx b') \<noteq> None" by auto
  moreover from p [THEN conjunct2, THEN conjunct2, THEN conjunct2, THEN conjunct1] obtain outs :: "unit list"
    where "length outs = Suc (Suc 0)" "hl_entries (ab_state b') = rev outs" by auto
  then have "hl_entries (ab_state b') = [(), ()]"
    by (auto simp: length_Suc_conv)
  ultimately show "\<exists>b'. chain [with_plugin blank_spa, with_plugin (blank_web V N)] blank_builder () = (Inr b', ())
     \<and> bc_serve_fn (ab_ctx b') \<noteq> None \<and> hl_entries (ab_state b') = [(), ()]"
    using built by auto
qed

end
