(* ===== verification/Observability.thy ===== *)
theory Observability
  imports Plugins
begin

text \<open>
  The telemetry of a whole application: what a chain of plugins makes of the process's slot of layers. Each
  plugin that exports hides the crates of its own export path from all plugin layers; here, over chains of any
  plugins in any order. Otherwise the export of one span would produce spans of its own, to be exported again.
\<close>

section \<open>Plugins and the slot\<close>

text \<open>A plugin touches the slot only by adding layers and excluding targets.\<close>

definition telemetry_plugin :: "('cfg, 'v, 'fig, 'r, 'tok, 'w, 'h, 'l) plugin \<Rightarrow> bool" where
  "telemetry_plugin p \<longleftrightarrow> extending_plugin p \<and>
     (\<forall>cfg s ctx w. \<exists>ops. bc_telemetry (fst (snd (pl_build p cfg s ctx w))) = tel_run ops (bc_telemetry ctx))"

text \<open>
  A step of a chain that does so, with \<open>X\<close> the targets that it excludes whenever \<open>P\<close> holds of the app's
  configuration.
\<close>

definition excluding_step ::
    "('fig \<Rightarrow> bool) \<Rightarrow> string set
      \<Rightarrow> ('v, 'fig, 'r, 'tok, 'w, 'h, 'l) chain_step \<Rightarrow> bool" where
  "excluding_step P X s \<longleftrightarrow>
     (\<forall>b w b' w'. s b w = (Inr b', w') \<longrightarrow> ctx_extends (ab_ctx b) (ab_ctx b')
        \<and> (\<exists>ops. bc_telemetry (ab_ctx b') = tel_run ops (bc_telemetry (ab_ctx b))
             \<and> (P (bc_figment (ab_ctx b)) \<longrightarrow> X \<subseteq> excluded_by ops)))"

abbreviation telemetry_step :: "('v, 'fig, 'r, 'tok, 'w, 'h, 'l) chain_step \<Rightarrow> bool" where
  "telemetry_step \<equiv> excluding_step (\<lambda>_. True) {}"

lemma tel_run_none: "\<exists>ops. t = tel_run ops t"
  by (rule exI [of _ "[]"]) (simp add: tel_run_def)

lemma excluding_step_weaken: "excluding_step P X s \<Longrightarrow> telemetry_step s"
  unfolding excluding_step_def by blast

lemma telemetry_plugin_step: "telemetry_plugin p \<Longrightarrow> telemetry_step (with_plugin p)"
  unfolding excluding_step_def
proof (intro allI impI)
  fix b w b' w'
  assume p: "telemetry_plugin p" and "with_plugin p b w = (Inr b', w')"
  from with_plugin_context [OF this(2)] obtain cfg out
    where "pl_build p cfg (ab_state b) (ab_ctx b) w = (Inr out, ab_ctx b', w')" by blast
  with p show "ctx_extends (ab_ctx b) (ab_ctx b')
      \<and> (\<exists>ops. bc_telemetry (ab_ctx b') = tel_run ops (bc_telemetry (ab_ctx b)) \<and> (True \<longrightarrow> {} \<subseteq> excluded_by ops))"
    unfolding telemetry_plugin_def extending_plugin_def by (metis empty_subsetI fst_conv snd_conv)
qed

locale telemetry_build = ctx_extender build
  for build :: "'x \<Rightarrow> ('fig, 'r, 'tok, 'w, 'h, 'l) build_ctx
      \<Rightarrow> 'o result \<times> ('fig, 'r, 'tok, 'w, 'h, 'l) build_ctx \<times> 'w" +
  assumes telemetry_run: "\<exists>ops. bc_telemetry (fst (snd (build x ctx))) = tel_run ops (bc_telemetry ctx)"
begin

lemma telemetry_pluginI:
  assumes "\<And>cfg s ctx w. pl_build p cfg s ctx w = out_as emb (build (arg cfg s w) ctx)"
  shows "telemetry_plugin p"
  using build_extends telemetry_run by (simp add: telemetry_plugin_def extending_plugin_def assms)

lemma hidden_kept:
  assumes "bc_telemetry ctx = Some s" and "healthy s" and "krate \<in> set (sl_excluded s)"
  shows "\<exists>s'. bc_telemetry (fst (snd (build x ctx))) = Some s' \<and> healthy s' \<and> krate \<in> set (sl_excluded s')"
proof -
  from telemetry_run obtain ops where ops: "bc_telemetry (fst (snd (build x ctx))) = tel_run ops (Some s)"
    using assms(1) by metis
  have "\<exists>s'. tel_run os (Some s) = Some s' \<and> healthy s' \<and> krate \<in> set (sl_excluded s')" for os
    using assms(2,3)
  proof (induction os arbitrary: s)
    case Nil
    then show ?case by (simp add: tel_run_def)
  next
    case (Cons o1 os)
    obtain s1 where s1: "tel_step (Some s) o1 = Some s1" using tel_step_Some by blast
    have "krate \<in> set (sl_excluded s1)"
      using Cons.prems(2) tel_step_excluded(1) [OF Cons.prems(1) s1, of "[]"] by auto
    with Cons.IH [OF tel_step_healthy [OF Cons.prems(1) s1]] s1 show ?case by (simp add: tel_run_def)
  qed
  with ops show ?thesis by simp
qed

end

section \<open>Every build is one\<close>

lemma otel_build_telemetry:
  "\<exists>ops. bc_telemetry (fst (snd (otel_build F X T cfg ctx w))) = tel_run ops (bc_telemetry ctx)
     \<and> (export_compiled F \<and> ot_endpoint cfg \<noteq> None \<longrightarrow> set otel_excluded \<subseteq> excluded_by ops)"
proof -
  let ?ctx1 = "if of_http_layer F then ctx\<lparr>bc_router := layer (trace_http_layer X) (bc_router ctx)\<rparr> else ctx"
  have same: "bc_telemetry ?ctx1 = bc_telemetry ctx" by simp
  show ?thesis
  proof (cases "if export_compiled F then ot_endpoint cfg else None")
    case None
    then have "fst (snd (otel_build F X T cfg ctx w)) = ?ctx1" by (simp add: otel_build_def Let_def)
    with None same show ?thesis
      by (intro exI [of _ "[]"]) (auto simp: tel_run_def split: if_splits)
  next
    case (Some endpoint)
    obtain r c w1 where i: "otel_install F X T cfg endpoint ?ctx1 w = (r, c, w1)" by (metis surj_pair)
    then have "fst (snd (otel_build F X T cfg ctx w)) = c"
      using Some unfolding otel_build_def Let_def by (simp split: sum.splits)
    moreover obtain ops where "bc_telemetry c = tel_run ops (exclude_targets otel_excluded (bc_telemetry ?ctx1))"
      using otel_install_cases [OF i] by (fastforce simp: telemetry_only_def)
    ultimately have "bc_telemetry (fst (snd (otel_build F X T cfg ctx w)))
        = tel_run (Exclude otel_excluded # ops) (bc_telemetry ctx)"
      unfolding same by (simp add: tel_run_def)
    then show ?thesis by (intro exI conjI) (assumption, simp)
  qed
qed

lemma sentry_build_telemetry:
  "\<exists>ops. bc_telemetry (fst (snd (sentry_build tb S cfg ctx w))) = tel_run ops (bc_telemetry ctx)
     \<and> (tb \<and> \<not> is_err (fst (sentry_build tb S cfg ctx w)) \<longrightarrow> set sentry_excluded \<subseteq> excluded_by ops)"
proof (cases "tb \<and> \<not> is_err (fst (sentry_build tb S cfg ctx w))")
  case True
  then show ?thesis
    by (intro exI [of _ "[Exclude sentry_excluded, AddLayer sentry_layer_type (tracing_layer S)]"])
      (auto simp: sentry_build_def Let_def tel_run_def split: sum.splits prod.splits)
next
  case False
  then have "bc_telemetry (fst (snd (sentry_build tb S cfg ctx w))) = bc_telemetry ctx"
    by (auto simp: sentry_build_def Let_def split: sum.splits prod.splits)
  then have "bc_telemetry (fst (snd (sentry_build tb S cfg ctx w))) = tel_run [] (bc_telemetry ctx)"
    by (simp add: tel_run_def)
  moreover have "tb \<and> \<not> is_err (fst (sentry_build tb S cfg ctx w)) \<longrightarrow> set sentry_excluded \<subseteq> excluded_by []"
    using False by (rule impI [OF notE])
  ultimately show ?thesis by blast
qed

lemma build_telemetry_runs:
  "\<exists>ops. bc_telemetry (fst (snd (otel_build F X T cfg ctx w))) = tel_run ops (bc_telemetry ctx)"
  "\<exists>ops. bc_telemetry (fst (snd (sentry_build tb S scfg ctx w))) = tel_run ops (bc_telemetry ctx)"
  using otel_build_telemetry [of F X T cfg ctx w] sentry_build_telemetry [of tb S scfg ctx w] by blast+

interpretation otel_tel: telemetry_build "\<lambda>(F, X, T, cfg, w) ctx. otel_build F X T cfg ctx w"
  by unfold_locales (auto simp: build_telemetry_runs)

interpretation sentry_tel: telemetry_build "\<lambda>(tb, S, cfg, w) ctx. sentry_build tb S cfg ctx w"
  by unfold_locales (auto simp: build_telemetry_runs)

interpretation diesel_tel: telemetry_build
  "\<lambda>(sentry, D, migrations, cfg, w) ctx. diesel_build sentry D migrations cfg ctx w"
  by unfold_locales (auto simp: diesel_build_def tel_run_none split: sum.splits option.splits prod.splits)

interpretation sqlx_tel: telemetry_build "\<lambda>(Q, cfg, w) ctx. sqlx_build Q cfg ctx w"
  by unfold_locales (simp add: sqlx_build_def case_prod_beta tel_run_none)

interpretation sqlite_tel: telemetry_build "\<lambda>(Q, cfg, w) ctx. sqlite_build Q cfg ctx w"
  by unfold_locales (auto simp: sqlite_build_def case_prod_beta tel_run_none split: sum.splits)

interpretation openapi_tel: telemetry_build
  "\<lambda>(A, add_route, to_json, api, cfg, w) ctx. openapi_build A add_route to_json api cfg ctx w"
  by unfold_locales (auto simp: openapi_build_def tel_run_none split: sum.splits)

interpretation spa_tel: telemetry_build "\<lambda>(M, mk, assets, cfg, w) ctx. spa_build M mk assets cfg ctx w"
  by unfold_locales (auto simp: spa_build_def Let_def tel_run_none split: if_splits prod.splits)

interpretation auth_tel: telemetry_build "\<lambda>(E, cfg, st, w) ctx. auth_build E cfg st ctx w"
  by unfold_locales (auto simp: auth_build_def Let_def tel_run_none split: sum.splits option.splits)

interpretation web_tel: telemetry_build
  "\<lambda>(E, N, routes, cfg, state, w) ctx. web_build E N routes cfg state ctx w"
  by unfold_locales
    (auto simp: web_build_def schedule_serve_def set_serve_fn_def Let_def tel_run_none split: if_splits)

interpretation api_tel: telemetry_build
  "\<lambda>(E, N, A, add_route, to_json, finish_api, routes, api, cfg, state, w) ctx.
     api_build E N A add_route to_json finish_api routes api cfg state ctx w"
  by unfold_locales
    (auto simp: api_build_def schedule_serve_def set_serve_fn_def Let_def tel_run_none
      split: if_splits sum.splits prod.splits)

lemma plugins_telemetry:
  "telemetry_plugin (otel_plugin F env extr1 emb1 feat X T)"
  "telemetry_plugin (sentry_plugin F env extr2 emb2 tb S)"
  "telemetry_plugin (diesel_plugin_of F env extr3 emb3 sentry D available cell self)"
  "telemetry_plugin (sqlx_plugin F env extr4 emb4 Q available cell)"
  "telemetry_plugin (sqlite_plugin F env extr5 emb5 Q available cell)"
  "telemetry_plugin (openapi_plugin F env extr6 emb6 A add_route to_json api)"
  "telemetry_plugin (spa_plugin F env extr7 emb7 M mk assets)"
  "telemetry_plugin (auth_plugin F env extr8 emb8 E)"
  "telemetry_plugin (web_plugin F env extr9 emb9 V N name routes)"
  "telemetry_plugin (api_plugin F env extr9 extr6 emb9 V N A add_route to_json finish_api name ar api)"
proof -
  show "telemetry_plugin (otel_plugin F env extr1 emb1 feat X T)"
    by (rule otel_tel.telemetry_pluginI [where arg = "\<lambda>cfg s w. (feat, X, T, cfg, w)"]) (simp add: otel_plugin_def)
  show "telemetry_plugin (sentry_plugin F env extr2 emb2 tb S)"
    by (rule sentry_tel.telemetry_pluginI [where arg = "\<lambda>cfg s w. (tb, S, cfg, w)"]) (simp add: sentry_plugin_def)
  show "telemetry_plugin (diesel_plugin_of F env extr3 emb3 sentry D available cell self)"
    by (rule diesel_tel.telemetry_pluginI [where arg = "\<lambda>cfg s w. (sentry, D, dp_migrations self, cfg, w)"])
      (simp add: diesel_plugin_of_def)
  show "telemetry_plugin (sqlx_plugin F env extr4 emb4 Q available cell)"
    by (rule sqlx_tel.telemetry_pluginI [where arg = "\<lambda>cfg s w. (Q, cfg, w)"]) (simp add: sqlx_plugin_def)
  show "telemetry_plugin (sqlite_plugin F env extr5 emb5 Q available cell)"
    by (rule sqlite_tel.telemetry_pluginI [where arg = "\<lambda>cfg s w. (Q, cfg, w)"]) (simp add: sqlite_plugin_def)
  show "telemetry_plugin (openapi_plugin F env extr6 emb6 A add_route to_json api)"
    by (rule openapi_tel.telemetry_pluginI [where arg = "\<lambda>cfg s w. (A, add_route, to_json, api, cfg, w)"])
      (simp add: openapi_plugin_def)
  show "telemetry_plugin (spa_plugin F env extr7 emb7 M mk assets)"
    by (rule spa_tel.telemetry_pluginI [where arg = "\<lambda>cfg s w. (M, mk, assets, cfg, w)"]) (simp add: spa_plugin_def)
  show "telemetry_plugin (auth_plugin F env extr8 emb8 E)"
    by (rule auth_tel.telemetry_pluginI [where arg = "\<lambda>cfg s w. (E, cfg, s, w)"]) (simp add: auth_plugin_def)
  show "telemetry_plugin (web_plugin F env extr9 emb9 V N name routes)"
    by (rule web_tel.telemetry_pluginI [where arg = "\<lambda>cfg s w. (V, N, routes, cfg, s, w)"])
      (simp add: web_plugin_def)
  show "telemetry_plugin (api_plugin F env extr9 extr6 emb9 V N A add_route to_json finish_api name ar api)"
    by (rule api_tel.telemetry_pluginI
        [where arg = "\<lambda>cfg s w. (V, N, A, add_route, to_json, finish_api, ar, api, cfg, s, w)"])
      (simp add: api_plugin_def)
qed

lemma pgmq_telemetry:
  "pgmq_sqlx_plugin F env extr emb P i self state = Some p \<Longrightarrow> telemetry_plugin p"
  "pgmq_diesel_plugin F env extr emb P i self state = Some p \<Longrightarrow> telemetry_plugin p"
  by (auto simp: pgmq_sqlx_plugin_def pgmq_diesel_plugin_def telemetry_plugin_def extending_plugin_def
      pgmq_the_ctx tel_run_none split: if_splits)

text \<open>When the OpenTelemetry plugin exports, by the app's configuration and the features compiled in.\<close>

definition otel_exports ::
    "('fig, 'val, 'prov) figment_api \<Rightarrow> (string \<Rightarrow> string option) \<Rightarrow> ('fig \<Rightarrow> string \<Rightarrow> string + otel_config)
      \<Rightarrow> otel_features \<Rightarrow> 'fig \<Rightarrow> bool" where
  "otel_exports F env extr feat fig \<longleftrightarrow> export_compiled feat
     \<and> (\<exists>cfg. get_or_env F extr otel_config_default env fig ''otel'' OTEL_ENV_FALLBACKS = Inr cfg
          \<and> ot_endpoint cfg \<noteq> None)"

lemma otel_excludes:
  "excluding_step (otel_exports F env extr feat) (set otel_excluded) (with_plugin (otel_plugin F env extr emb feat X T))"
  unfolding excluding_step_def
proof (intro allI impI)
  fix b w b' w'
  let ?p = "otel_plugin F env extr emb feat X T"
  assume step: "with_plugin ?p b w = (Inr b', w')"
  from with_plugin_cases [OF step] obtain cfg out
    where read: "pl_read_config ?p (bc_figment (ab_ctx b)) = Inr cfg"
    and build: "pl_build ?p cfg (ab_state b) (ab_ctx b) w = (Inr out, ab_ctx b', w')" by auto
  then have ctx: "ab_ctx b' = fst (snd (otel_build feat X T cfg (ab_ctx b) w))"
    by (simp add: otel_plugin_def out_as_def split: prod.splits)
  have "ctx_extends (ab_ctx b) (ab_ctx b')" by (simp add: ctx otel_build_extends)
  moreover have "otel_exports F env extr feat (bc_figment (ab_ctx b)) \<Longrightarrow>
      export_compiled feat \<and> ot_endpoint cfg \<noteq> None"
    using read by (auto simp: otel_exports_def otel_plugin_def)
  ultimately show "ctx_extends (ab_ctx b) (ab_ctx b')
      \<and> (\<exists>ops. bc_telemetry (ab_ctx b') = tel_run ops (bc_telemetry (ab_ctx b))
           \<and> (otel_exports F env extr feat (bc_figment (ab_ctx b)) \<longrightarrow> set otel_excluded \<subseteq> excluded_by ops))"
    using otel_build_telemetry [of feat X T cfg "ab_ctx b" w] unfolding ctx by blast
qed

lemma map_sum_ok: "map_sum id f r = Inr out \<Longrightarrow> \<not> is_err r"
  by (cases r) simp_all

lemma sentry_excludes:
  "excluding_step (\<lambda>_. tb) (set sentry_excluded) (with_plugin (sentry_plugin F env extr emb tb S))"
  unfolding excluding_step_def
proof (intro allI impI)
  fix b w b' w'
  let ?p = "sentry_plugin F env extr emb tb S"
  assume step: "with_plugin ?p b w = (Inr b', w')"
  from with_plugin_cases [OF step] obtain cfg out
    where build: "pl_build ?p cfg (ab_state b) (ab_ctx b) w = (Inr out, ab_ctx b', w')" by auto
  then have ctx: "ab_ctx b' = fst (snd (sentry_build tb S cfg (ab_ctx b) w))"
    and ok: "\<not> is_err (fst (sentry_build tb S cfg (ab_ctx b) w))"
    by (auto simp: sentry_plugin_def out_as_def dest: map_sum_ok split: prod.splits)
  have "ctx_extends (ab_ctx b) (ab_ctx b')"
    using telemetry_plugin_step [OF plugins_telemetry(2) [of F env extr emb tb S]] step
    unfolding excluding_step_def by metis
  with ok show "ctx_extends (ab_ctx b) (ab_ctx b')
      \<and> (\<exists>ops. bc_telemetry (ab_ctx b') = tel_run ops (bc_telemetry (ab_ctx b))
           \<and> (tb \<longrightarrow> set sentry_excluded \<subseteq> excluded_by ops))"
    using sentry_build_telemetry [of tb S cfg "ab_ctx b" w] unfolding ctx by blast
qed

section \<open>Chains\<close>

lemma chain_excludes:
  assumes "list_all (\<lambda>(P, X, s). excluding_step P X s) steps"
    and "chain (map (\<lambda>(P, X, s). s) steps) b w = (Inr b', w')"
  shows "ctx_extends (ab_ctx b) (ab_ctx b')
    \<and> (\<exists>ops. bc_telemetry (ab_ctx b') = tel_run ops (bc_telemetry (ab_ctx b))
        \<and> (\<forall>(P, X, s) \<in> set steps. P (bc_figment (ab_ctx b)) \<longrightarrow> X \<subseteq> excluded_by ops))"
  using assms
proof (induction steps arbitrary: b w)
  case Nil
  then show ?case by (simp add: tel_run_none)
next
  case (Cons step steps)
  obtain P X s where step: "step = (P, X, s)" by (cases step)
  from Cons.prems(2) step obtain b1 w1 where one: "s b w = (Inr b1, w1)"
    and rest: "chain (map (\<lambda>(P, X, s). s) steps) b1 w1 = (Inr b', w')"
    by (auto split: sum.splits prod.splits)
  from Cons.prems(1) step one obtain ops where ext: "ctx_extends (ab_ctx b) (ab_ctx b1)"
    and ops: "bc_telemetry (ab_ctx b1) = tel_run ops (bc_telemetry (ab_ctx b))"
      "P (bc_figment (ab_ctx b)) \<longrightarrow> X \<subseteq> excluded_by ops"
    unfolding excluding_step_def by simp blast
  then have fig: "bc_figment (ab_ctx b1) = bc_figment (ab_ctx b)" by (simp add: ctx_extends_def)
  from Cons.IH [OF _ rest] Cons.prems(1) obtain os where ext': "ctx_extends (ab_ctx b1) (ab_ctx b')"
    and os: "bc_telemetry (ab_ctx b') = tel_run os (bc_telemetry (ab_ctx b1))"
      "\<forall>(P, X, s) \<in> set steps. P (bc_figment (ab_ctx b)) \<longrightarrow> X \<subseteq> excluded_by os"
    unfolding fig by auto
  have "bc_telemetry (ab_ctx b') = tel_run (ops @ os) (bc_telemetry (ab_ctx b))"
    by (simp add: os(1) ops(1) tel_run_append)
  moreover have "\<forall>(P, X, s) \<in> set (step # steps). P (bc_figment (ab_ctx b)) \<longrightarrow> X \<subseteq> excluded_by (ops @ os)"
    using ops(2) os(2) step by fastforce
  ultimately show ?case using ctx_extends_trans [OF ext ext'] by blast
qed

section \<open>Properties\<close>

text \<open>
  C14: exporting telemetry never feeds on itself. In a chain of any plugins, in any order, when the OpenTelemetry
  plugin exports or the Sentry plugin has its tracing layer, no plugin layer sees what the crates of their
  export paths log, wherever these plugins stand in the chain and whatever the others add. Two plugins never
  stack a layer of one type, and no plugin of the program touches the slot in any other way.
\<close>

theorem exporters_unobserved:
  assumes "list_all (\<lambda>(P, Y, s). excluding_step P Y s) steps"
    and "chain (map (\<lambda>(P, Y, s). s) steps) b w = (Inr b', w')"
    and "bc_telemetry (ab_ctx b) = Some sl" and "healthy sl" and "slot_inv sl"
  shows "(\<exists>sl'. bc_telemetry (ab_ctx b') = Some sl' \<and> healthy sl' \<and> slot_inv sl'
        \<and> (\<forall>P Y s krate m level. (P, Y, s) \<in> set steps \<and> P (bc_figment (ab_ctx b)) \<and> krate \<in> Y \<longrightarrow>
             \<not> plugin_filter level sl' krate \<and> \<not> plugin_filter level sl' (krate @ ''::'' @ m)))
    \<and> excluding_step (otel_exports F env extr1 feat) (set otel_excluded)
        (with_plugin (otel_plugin F env extr1 emb1 feat X T))
    \<and> excluding_step (\<lambda>_. tb) (set sentry_excluded) (with_plugin (sentry_plugin F env extr2 emb2 tb S))
    \<and> telemetry_step (with_plugin (diesel_plugin_of F env extr3 emb3 sentry D available cell self))
    \<and> telemetry_step (with_plugin (sqlx_plugin F env extr4 emb4 Q available cell))
    \<and> telemetry_step (with_plugin (sqlite_plugin F env extr5 emb5 Q available cell))
    \<and> telemetry_step (with_plugin (openapi_plugin F env extr6 emb6 A add_route to_json api))
    \<and> telemetry_step (with_plugin (spa_plugin F env extr7 emb7 M mk assets))
    \<and> telemetry_step (with_plugin (auth_plugin F env extr8 emb8 E))
    \<and> telemetry_step (with_plugin (web_plugin F env extr9 emb9 V N name routes))
    \<and> telemetry_step (with_plugin
        (api_plugin F env extr9 extr6 emb9 V N A add_route to_json finish_api name ar api))
    \<and> (pgmq_sqlx_plugin F env extr10 emb10 G i pg state = Some p
        \<or> pgmq_diesel_plugin F env extr10 emb10 G i pg state = Some p \<longrightarrow> telemetry_step (with_plugin p))"
proof -
  from chain_excludes [OF assms(1,2)] obtain ops
    where ops: "bc_telemetry (ab_ctx b') = tel_run ops (Some sl)"
      "\<forall>(P, Y, s) \<in> set steps. P (bc_figment (ab_ctx b)) \<longrightarrow> Y \<subseteq> excluded_by ops"
    unfolding assms(3) by blast
  from tel_run_map [OF assms(5,4), of ops] ops(1) obtain sl' where sl': "tel_run ops (Some sl) = Some sl'"
    and inv: "slot_inv sl'" "healthy sl'" by blast
  have hidden: "\<not> plugin_filter level sl' krate \<and> \<not> plugin_filter level sl' (krate @ ''::'' @ m)"
    if "(P, Y, s) \<in> set steps \<and> P (bc_figment (ab_ctx b)) \<and> krate \<in> Y" for P Y s krate m level
  proof -
    have "krate \<in> excluded_by ops" using ops(2) that by blast
    note hides = tel_run_hides [OF assms(4) sl' this]
    show ?thesis
      using hides [OF crate_prefix.covers_self [of krate, simplified]]
        hides [OF crate_prefix.covers_below [of krate m, simplified]] by simp
  qed
  have "\<exists>sl'. bc_telemetry (ab_ctx b') = Some sl' \<and> healthy sl' \<and> slot_inv sl'
        \<and> (\<forall>P Y s krate m level. (P, Y, s) \<in> set steps \<and> P (bc_figment (ab_ctx b)) \<and> krate \<in> Y \<longrightarrow>
             \<not> plugin_filter level sl' krate \<and> \<not> plugin_filter level sl' (krate @ ''::'' @ m))"
    using ops(1) sl' inv hidden by (intro exI [of _ sl'] conjI allI impI) simp_all
  then show ?thesis
    by (intro conjI impI otel_excludes sentry_excludes telemetry_plugin_step plugins_telemetry)
      (auto intro: telemetry_plugin_step pgmq_telemetry)
qed

text \<open>Sentry's tracing layer and then another plugin, on an empty configuration.\<close>

definition blank_sentry_api :: "(string, unit, nat, unit, unit) sentry_api" where
  "blank_sentry_api = \<lparr>parse_dsn = Inr, sentry_init = (\<lambda>_ w. ((), w)), http_layer = (\<lambda>_ r. r),
     new_hub_layer = (\<lambda>r. r), tracing_layer = ()\<rparr>"

definition blank_sentry :: "(sentry_config, unit, demo_fig, nat, unit, unit, unit, unit) plugin" where
  "blank_sentry = sentry_plugin demo_figment (\<lambda>_. None) (\<lambda>_ _. Inl ''unread'') id True blank_sentry_api"

lemma blank_sentry_chain:
  "\<exists>b' w'. chain [with_plugin blank_sentry, with_plugin blank_spa] blank_builder () = (Inr b', w')"
proof -
  obtain ctx where built: "sentry_build True blank_sentry_api sentry_config_default (ab_ctx blank_builder) ()
      = (Inr (), ctx, ())" and fig: "bc_figment ctx = (\<lambda>_. None)"
    by (simp add: sentry_build_def resolve_dsn_def sentry_config_default_def blank_sentry_api_def Let_def)
  have one: "with_plugin blank_sentry blank_builder () = (Inr \<lparr>ab_state = HCons () HNil, ab_ctx = ctx\<rparr>, ())"
    by (subst with_plugin_ok [where cfg = sentry_config_default and out = "()" and ctx = ctx and w' = "()"])
      (simp_all add: blank_sentry_def sentry_plugin_def get_or_env_default built)
  have two: "with_plugin blank_spa \<lparr>ab_state = HCons () HNil, ab_ctx = ctx\<rparr> ()
      = (Inr \<lparr>ab_state = HCons () (HCons () HNil), ab_ctx = ctx\<rparr>, ())"
    by (subst with_plugin_ok [where cfg = spa_config_default and out = "()" and ctx = ctx and w' = "()"])
      (simp_all add: blank_spa_def spa_plugin_def get_or_env_default spa_build_def fig)
  show ?thesis using one two by simp
qed

lemma blank_telemetry:
  "\<exists>sl. bc_telemetry (ab_ctx blank_builder) = Some sl \<and> healthy sl \<and> slot_inv sl"
proof -
  obtain sl :: "(string, unit) slot" and cell where new: "telemetry_install False None = (Some sl, cell)" using fresh_slot_exists by blast
  then have "bc_telemetry (ab_ctx blank_builder) = Some sl"
    by (simp add: blank_builder_def with_figment_def build_ctx_new_def Let_def)
  with fresh_slot [OF new] show ?thesis by blast
qed

theorem exporters_unobserved_witness:
  "\<exists>b' w' sl'. chain [with_plugin blank_sentry, with_plugin blank_spa] blank_builder () = (Inr b', w')
     \<and> bc_telemetry (ab_ctx b') = Some sl' \<and> \<not> plugin_filter (\<lambda>_. True) sl' ''hyper::client''"
proof -
  let ?steps = "[((\<lambda>_. True), set sentry_excluded, with_plugin blank_sentry),
    ((\<lambda>_. True), {}, with_plugin blank_spa)]"
  obtain b' w' where run: "chain [with_plugin blank_sentry, with_plugin blank_spa] blank_builder () = (Inr b', w')"
    using blank_sentry_chain by blast
  then have run': "chain (map (\<lambda>(P, Y, s). s) ?steps) blank_builder () = (Inr b', w')" by simp
  have steps: "list_all (\<lambda>(P, Y, s). excluding_step P Y s) ?steps"
    by (simp add: blank_sentry_def blank_spa_def sentry_excludes telemetry_plugin_step plugins_telemetry)
  obtain sl where sl: "bc_telemetry (ab_ctx blank_builder) = Some sl" "healthy sl" "slot_inv sl"
    using blank_telemetry by blast
  obtain sl' where sl': "bc_telemetry (ab_ctx b') = Some sl'"
    and hidden: "\<And>P Y s krate m level. (P, Y, s) \<in> set ?steps \<Longrightarrow> P (bc_figment (ab_ctx blank_builder)) \<Longrightarrow>
      krate \<in> Y \<Longrightarrow> \<not> plugin_filter level sl' (krate @ ''::'' @ m)"
    using exporters_unobserved [OF steps run' sl, THEN conjunct1] by blast
  have "\<not> plugin_filter (\<lambda>_. True) sl' (''hyper'' @ ''::'' @ ''client'')"
    by (rule hidden [of "\<lambda>_. True" "set sentry_excluded" "with_plugin blank_sentry"])
      (simp_all add: sentry_excluded_def)
  with run sl' show ?thesis by auto
qed

end
