(* ===== verification/Examples.thy ===== *)
theory Examples
  imports Plugins
begin

text \<open>
  The example applications of \<open>muxa/examples\<close>: what their \<open>main\<close> functions share, and \<open>web_only.rs\<close> and
  \<open>hello.rs\<close>. \<open>spa.rs\<close> is in \<open>Example_Spa\<close>, \<open>diesel_widgets/main.rs\<close> in \<open>Example_Widgets\<close>. Each \<open>main\<close> is
  the chain it builds, over the plugins of the other theories; the theorems follow a request from the
  composed router to its response.

  axum's routing is \<open>routing_api\<close>; what the examples rely on of it is \<open>routing_laws\<close>.
\<close>

section \<open>Routing\<close>

text \<open>A request with its body; the routers and services see the same request.\<close>

record http_request = spa_request +
  hr_body :: string

type_synonym response = "string spa_response"

type_synonym 'w handler = "http_request \<Rightarrow> 'w \<Rightarrow> response \<times> 'w"

text \<open>
  \<open>route r path methods\<close> is \<open>r.route(path, ..)\<close> with a method router, \<open>from_service\<close> the router of a
  plain service (an SPA's fallback).
\<close>

record ('r, 'w) routing_api = "'r axum_api" +
  route :: "'r \<Rightarrow> string \<Rightarrow> (http_method \<times> 'w handler) list \<Rightarrow> 'r"
  from_service :: "(string, 'w) service \<Rightarrow> 'r"

text \<open>The response a \<open>&'static str\<close> or a \<open>String\<close> stands for.\<close>

definition text_response :: "nat \<Rightarrow> string \<Rightarrow> response" where
  "text_response status body =
     \<lparr>rp_status = status, rp_headers = [''content-type'' \<mapsto> ''text/plain; charset=utf-8''], rp_body = body\<rparr>"

definition static_text :: "string \<Rightarrow> 'w handler" where
  "static_text body request w = (text_response 200 body, w)"

section \<open>The program's surroundings\<close>

text \<open>
  Everything a \<open>main\<close> finds: the build (debug or not, the features), the process' environment and its
  telemetry subscriber, the libraries, and the extraction of the sections that all examples read.
\<close>

record ('fig, 'val, 'prov, 'r, 'tok, 'w, 'h, 'l, 'jh, 'e, 'p, 'a, 's, 'ln, 'c) main_env =
  mv_debug :: bool
  mv_env_key :: "'fig \<Rightarrow> string option"
  mv_token :: 'tok
  mv_already :: bool
  mv_cell :: "(string, 'l) slot option option"
  mv_figment :: "('fig, 'val, 'prov) figment_api"
  mv_var_os :: "string \<Rightarrow> string option"
  mv_env :: "string \<Rightarrow> string option"
  mv_manifest_dir :: string
  mv_runtime :: "('tok, 'w \<Rightarrow> 'w, 'w, 'h) runtime_api"
  mv_axum :: "('r, 'w) routing_api"
  mv_features :: otel_features
  mv_otel :: "('e, 'p, 'l, 'r, 'tok, 'jh, 'w) otel_api"
  mv_server :: server_env
  mv_net :: "('a, 's, 'ln, 'c, 'r, 'tok, 'w) net_api"
  mv_otel_section :: "'fig \<Rightarrow> string \<Rightarrow> string + otel_config"
  mv_web_section :: "'fig \<Rightarrow> string \<Rightarrow> string + web_config"

text \<open>The outputs of the examples' plugins.\<close>

datatype ('pool, 'lite) resource =
    Nothing unit
  | Telemetry telemetry_handles
  | PgPool 'pool
  | LitePool 'lite

text \<open>The Rust type of a resource.\<close>

datatype resource_type = UnitType | HandlesType | DieselPoolType | SqlitePoolType

fun resource_type_of :: "('pool, 'lite) resource \<Rightarrow> resource_type" where
  "resource_type_of (Nothing _) = UnitType"
| "resource_type_of (Telemetry _) = HandlesType"
| "resource_type_of (PgPool _) = DieselPoolType"
| "resource_type_of (LitePool _) = SqlitePoolType"

definition add_otel ::
    "('fig, 'val, 'prov, 'r, 'tok, 'w, 'h, 'l, 'jh, 'e, 'p, 'a, 's, 'ln, 'c) main_env
      \<Rightarrow> (('pool, 'lite) resource, 'fig, 'r, 'tok, 'w, 'h, 'l) chain_step" where
  "add_otel P = with_plugin (otel_plugin (mv_figment P) (mv_env P) (mv_otel_section P) Telemetry
     (mv_features P) (mv_otel P) (tokio_api.truncate (mv_runtime P)))"

definition add_web ::
    "('fig, 'val, 'prov, 'r, 'tok, 'w, 'h, 'l, 'jh, 'e, 'p, 'a, 's, 'ln, 'c) main_env
      \<Rightarrow> string \<Rightarrow> (('pool, 'lite) resource hlist \<Rightarrow> 'r)
      \<Rightarrow> (('pool, 'lite) resource, 'fig, 'r, 'tok, 'w, 'h, 'l) chain_step" where
  "add_web P routes_type routes = with_plugin (web_plugin (mv_figment P) (mv_env P) (mv_web_section P) Nothing
     (mv_server P) (mv_net P) routes_type routes)"

definition app_named ::
    "('fig, 'val, 'prov, 'r, 'tok, 'w, 'h, 'l, 'jh, 'e, 'p, 'a, 's, 'ln, 'c) main_env \<Rightarrow> string
      \<Rightarrow> ('v, 'fig, 'r, 'tok, 'w, 'h, 'l) app_builder" where
  "app_named P name = named (mv_debug P) (mv_env_key P) (mv_token P) (mv_already P) (mv_cell P)
     (mv_figment P) (mv_var_os P) name"

definition app_from_file ::
    "('fig, 'val, 'prov, 'r, 'tok, 'w, 'h, 'l, 'jh, 'e, 'p, 'a, 's, 'ln, 'c) main_env \<Rightarrow> string \<Rightarrow> string
      \<Rightarrow> ('v, 'fig, 'r, 'tok, 'w, 'h, 'l) app_builder" where
  "app_from_file P path name = with_figment (mv_debug P) (mv_env_key P) (mv_token P) (mv_already P) (mv_cell P)
     (load_figment_from (mv_figment P) (mv_manifest_dir P @ path) name)"

text \<open>\<open>app.with_plugin(..).await?...run().await\<close>\<close>

definition run_chain ::
    "('fig, 'val, 'prov, 'r, 'tok, 'w, 'h, 'l, 'jh, 'e, 'p, 'a, 's, 'ln, 'c) main_env
      \<Rightarrow> ('v, 'fig, 'r, 'tok, 'w, 'h, 'l) chain_step list \<Rightarrow> ('v, 'fig, 'r, 'tok, 'w, 'h, 'l) app_builder
      \<Rightarrow> 'w \<Rightarrow> unit result \<times> 'w" where
  "run_chain P steps b w =
     (case chain steps b w of
        (Inl e, w) \<Rightarrow> (Inl e, w)
      | (Inr b, w) \<Rightarrow> run (mv_runtime P) (axum_api.truncate (mv_axum P)) b w)"

section \<open>web_only.rs and hello.rs\<close>

definition web_only_routes :: "('r, 'w) routing_api \<Rightarrow> 'v hlist \<Rightarrow> 'r" where
  "web_only_routes A state =
     route A (route A (router_new A) ''/'' [(GET, static_text ''hello from muxa-web'')])
       ''/health'' [(GET, static_text ''ok'')]"

definition web_only_main ::
    "('fig, 'val, 'prov, 'r, 'tok, 'w, 'h, 'l, 'jh, 'e, 'p, 'a, 's, 'ln, 'c) main_env \<Rightarrow> 'w
      \<Rightarrow> unit result \<times> 'w" where
  "web_only_main P =
     run_chain P
       [add_otel P, add_web P ''web_only::routes'' (web_only_routes (mv_axum P))]
       (app_named P ''web-only'' :: ((unit, unit) resource, 'fig, 'r, 'tok, 'w, 'h, 'l) app_builder)"

definition hello_routes :: "('r, 'w) routing_api \<Rightarrow> 'v hlist \<Rightarrow> 'r" where
  "hello_routes A state =
     route A (route A (router_new A) ''/'' [(GET, static_text ''hello, muxa (sqlite)'')])
       ''/health'' [(GET, static_text ''ok'')]"

text \<open>\<open>Q\<close> is sqlx, \<open>available\<close> and \<open>cell\<close> the host's CPU count.\<close>

definition hello_main ::
    "('fig, 'val, 'prov, 'r, 'tok, 'w, 'h, 'l, 'jh, 'e, 'p, 'a, 's, 'ln, 'c) main_env
      \<Rightarrow> ('fig \<Rightarrow> string \<Rightarrow> string + sqlite_config) \<Rightarrow> ('opts, 'pg, 'lite, 'w) sqlx_api
      \<Rightarrow> 'err + usize \<Rightarrow> usize option \<Rightarrow> 'w \<Rightarrow> unit result \<times> 'w" where
  "hello_main P sqlite_section Q available cell =
     run_chain P
       [add_otel P,
        with_plugin (sqlite_plugin (mv_figment P) (mv_env P) sqlite_section LitePool Q available cell),
        add_web P ''hello::routes'' (hello_routes (mv_axum P))]
       (app_from_file P ''/examples/config.toml'' ''hello''
          :: ((unit, 'lite) resource, 'fig, 'r, 'tok, 'w, 'h, 'l) app_builder)"

section \<open>What the examples rely on\<close>

text \<open>
  axum's routing, as documented. \<open>answer r q w\<close> is what a router makes of a request: \<open>None\<close> when no
  route of it matches the path, and then the fallback of the whole application runs. A route for a
  literal path answers exactly that path, with the handler of the method, or 405 if it has none (a
  \<open>HEAD\<close> may go to the handler of \<open>GET\<close> and is left open); two routers that do not both match can be merged; a
  nested router sees the path without the prefix; a fallback service answers what is left.
\<close>

definition routing_laws ::
    "('r, 'w) routing_api \<Rightarrow> ('r \<Rightarrow> http_request \<Rightarrow> 'w \<Rightarrow> (response \<times> 'w) option) \<Rightarrow> bool" where
  "routing_laws A answer \<longleftrightarrow>
     (\<forall>q w. answer (router_new A) q w = None)
     \<and> (\<forall>r path methods q w. CHR ''{'' \<notin> set path \<longrightarrow> sr_path q \<noteq> path \<longrightarrow>
          answer (route A r path methods) q w = answer r q w)
     \<and> (\<forall>r path methods q w h. CHR ''{'' \<notin> set path \<longrightarrow> sr_path q = path \<longrightarrow> answer r q w = None \<longrightarrow>
          map_of methods (sr_method q) = Some h \<longrightarrow> answer (route A r path methods) q w = Some (h q w))
     \<and> (\<forall>r path methods q w. CHR ''{'' \<notin> set path \<longrightarrow> sr_path q = path \<longrightarrow> answer r q w = None \<longrightarrow>
          sr_method q \<noteq> HEAD \<longrightarrow> map_of methods (sr_method q) = None \<longrightarrow>
          (\<exists>resp. rp_status resp = 405 \<and> answer (route A r path methods) q w = Some (resp, w)))
     \<and> (\<forall>r s q w. answer r q w = None \<or> answer s q w = None \<longrightarrow>
          answer (router_merge A r s) q w = (case answer r q w of Some x \<Rightarrow> Some x | None \<Rightarrow> answer s q w))
     \<and> (\<forall>r prefix s q w. CHR ''{'' \<notin> set prefix \<longrightarrow> \<not> under (sr_path q) prefix \<longrightarrow>
          answer (router_nest A r prefix s) q w = answer r q w)
     \<and> (\<forall>r prefix s q rest w. CHR ''{'' \<notin> set prefix \<longrightarrow> sr_path q = prefix @ ''/'' @ rest \<longrightarrow> answer r q w = None \<longrightarrow>
          answer (router_nest A r prefix s) q w = answer s (q\<lparr>sr_path := ''/'' @ rest\<rparr>) w)
     \<and> (\<forall>r prefix s q w. CHR ''{'' \<notin> set prefix \<longrightarrow> sr_path q = prefix \<longrightarrow> answer r q w = None \<longrightarrow>
          answer (router_nest A r prefix s) q w = answer s (q\<lparr>sr_path := ''/''\<rparr>) w)
     \<and> (\<forall>r fb q w. answer (router_fallback_service A r fb) q w =
          (case answer r q w of Some x \<Rightarrow> Some x | None \<Rightarrow> answer fb q w))
     \<and> (\<forall>s q w. answer (from_service A s) q w = Some (s (spa_request.truncate q) w))"

text \<open>
  axum's documentation of \<open>get\<close>: a route without a handler for HEAD runs the one for GET and takes the
  body out of its response.
\<close>

definition head_law ::
    "('r, 'w) routing_api \<Rightarrow> ('r \<Rightarrow> http_request \<Rightarrow> 'w \<Rightarrow> (response \<times> 'w) option) \<Rightarrow> bool" where
  "head_law A answer \<longleftrightarrow>
     (\<forall>r path methods q w h. CHR ''{'' \<notin> set path \<longrightarrow> sr_path q = path \<longrightarrow> answer r q w = None \<longrightarrow>
        sr_method q = HEAD \<longrightarrow> map_of methods HEAD = None \<longrightarrow> map_of methods GET = Some h \<longrightarrow>
        (\<exists>resp. rp_status resp = rp_status (fst (h q w)) \<and> rp_body resp = []
           \<and> answer (route A r path methods) q w = Some (resp, snd (h q w))))"

text \<open>A layer that only observes (request spans): it answers as the router it wraps.\<close>

definition transparent :: "('r \<Rightarrow> 'q \<Rightarrow> 'w \<Rightarrow> 'x) \<Rightarrow> ('r \<Rightarrow> 'r) \<Rightarrow> bool" where
  "transparent answer f \<longleftrightarrow> (\<forall>r. answer (f r) = answer r)"

text \<open>The response of the application: without a match and without a fallback, an empty 404.\<close>

definition respond :: "('r \<Rightarrow> http_request \<Rightarrow> 'w \<Rightarrow> (response \<times> 'w) option) \<Rightarrow> 'r \<Rightarrow> 'w handler" where
  "respond answer r q w = (case answer r q w of Some x \<Rightarrow> x | None \<Rightarrow> (not_found [], w))"

section \<open>Lemmas\<close>

lemma routing_lawsD:
  assumes "routing_laws A answer"
  shows "answer (router_new A) q w = None"
    and "CHR ''{'' \<notin> set path \<Longrightarrow> sr_path q \<noteq> path \<Longrightarrow> answer (route A r path methods) q w = answer r q w"
    and "CHR ''{'' \<notin> set path \<Longrightarrow> sr_path q = path \<Longrightarrow> answer r q w = None \<Longrightarrow>
      map_of methods (sr_method q) = Some h \<Longrightarrow> answer (route A r path methods) q w = Some (h q w)"
    and "CHR ''{'' \<notin> set path \<Longrightarrow> sr_path q = path \<Longrightarrow> answer r q w = None \<Longrightarrow> sr_method q \<noteq> HEAD \<Longrightarrow>
      map_of methods (sr_method q) = None \<Longrightarrow>
      \<exists>resp. rp_status resp = 405 \<and> answer (route A r path methods) q w = Some (resp, w)"
    and "answer r q w = None \<Longrightarrow> answer (router_merge A r s) q w = answer s q w"
    and "CHR ''{'' \<notin> set prefix \<Longrightarrow> \<not> under (sr_path q) prefix \<Longrightarrow>
      answer (router_nest A r prefix s) q w = answer r q w"
    and "CHR ''{'' \<notin> set prefix \<Longrightarrow> sr_path q = prefix @ ''/'' @ rest \<Longrightarrow> answer r q w = None \<Longrightarrow>
      answer (router_nest A r prefix s) q w = answer s (q\<lparr>sr_path := ''/'' @ rest\<rparr>) w"
    and "CHR ''{'' \<notin> set prefix \<Longrightarrow> sr_path q = prefix \<Longrightarrow> answer r q w = None \<Longrightarrow>
      answer (router_nest A r prefix s) q w = answer s (q\<lparr>sr_path := ''/''\<rparr>) w"
    and "answer (router_fallback_service A r fb) q w =
      (case answer r q w of Some x \<Rightarrow> Some x | None \<Rightarrow> answer fb q w)"
    and "answer (from_service A svc) q w = Some (svc (spa_request.truncate q) w)"
  using assms unfolding routing_laws_def by simp_all

text \<open>The OpenTelemetry plugin leaves the routes and the fallback alone and adds at most its layer.\<close>

lemma otel_install_router:
  assumes "otel_install F X T cfg endpoint ctx w = (r, ctx', w')"
  shows "bc_router ctx' = bc_router ctx"
proof -
  have "bc_router d = bc_router c" if "telemetry_only c d" for c d
    using that by (auto simp: telemetry_only_def)
  with otel_install_cases [OF assms] show ?thesis by fastforce
qed

lemma otel_build_router:
  assumes "otel_build F X T cfg ctx w = (r, ctx', w')"
  shows "bc_router ctx' = (if of_http_layer F then layer (trace_http_layer X) (bc_router ctx) else bc_router ctx)"
  using assms
  by (auto simp: otel_build_def Let_def dest!: otel_install_router
      split: sum.splits option.splits prod.splits if_splits)

text \<open>
  The router that is served for one router mounted at the root, a fallback or none, and transparent
  layers: the mounted router's answer, else the fallback's.
\<close>

lemma transparent_layers:
  "list_all (transparent answer) fs \<Longrightarrow> answer (foldl (\<lambda>out f. f out) r fs) = answer r"
  by (induction fs arbitrary: r) (simp_all add: transparent_def)

lemma composed_answer:
  assumes laws: "routing_laws A answer" and layers: "list_all (transparent answer) (rr_layer_fns reg)"
    and "rr_routes reg = [\<lparr>me_prefix = ''/'', me_router = r, me_mount = Auto\<rparr>]"
  shows "answer (compose (axum_api.truncate A) reg) q w =
    (case answer r q w of
       Some x \<Rightarrow> Some x
     | None \<Rightarrow> (case rr_fallback reg of Some fb \<Rightarrow> answer fb q w | None \<Rightarrow> None))"
  using assms(3) routing_lawsD(5) [OF laws routing_lawsD(1) [OF laws]]
  by (simp add: compose_def Let_def transparent_layers [OF layers] compose_entry_def axum_api.truncate_def
      routing_lawsD(9) [OF laws] split: option.split)

text \<open>Two routes for literal paths.\<close>

lemma two_routes_answer:
  assumes laws: "routing_laws A answer" and "CHR ''{'' \<notin> set p" "CHR ''{'' \<notin> set q" "p \<noteq> q"
    and "sr_method req = GET"
  shows "answer (route A (route A (router_new A) p [(GET, f)]) q [(GET, g)]) req w =
    (if sr_path req = p then Some (f req w) else if sr_path req = q then Some (g req w) else None)"
proof -
  note new = routing_lawsD(1) [OF laws] and other = routing_lawsD(2) [OF laws]
    and hit = routing_lawsD(3) [OF laws]
  have inner: "answer (route A (router_new A) p [(GET, f)]) req w = (if sr_path req = p then Some (f req w) else None)"
    using hit [OF assms(2) _ new, of req "[(GET, f)]" f w] other [OF assms(2), of req "router_new A" "[(GET, f)]" w]
      new assms(5) by simp
  show ?thesis
  proof (cases "sr_path req = q")
    case True
    with inner assms(4) have "answer (route A (router_new A) p [(GET, f)]) req w = None" by simp
    from hit [OF assms(3) True this, of "[(GET, g)]" g] True assms(4,5) show ?thesis by simp
  next
    case False
    with other [OF assms(3) this] inner show ?thesis by simp
  qed
qed

text \<open>Reading a section of the app's configuration, as the examples' plugins do.\<close>

definition otel_read where
  "otel_read P fig = get_or_env (mv_figment P) (mv_otel_section P) otel_config_default (mv_env P) fig ''otel''
     OTEL_ENV_FALLBACKS"

definition web_read where
  "web_read P fig = get_or_env (mv_figment P) (mv_web_section P) web_config_default (mv_env P) fig ''web''
     WEB_ENV_FALLBACKS"

lemma add_otel_ok:
  assumes "otel_read P (bc_figment (ab_ctx b)) = Inr cfg"
    and "otel_build (mv_features P) (mv_otel P) (tokio_api.truncate (mv_runtime P)) cfg (ab_ctx b) w
      = (Inr handles, ctx, w')"
  shows "add_otel P b w = (Inr \<lparr>ab_state = HCons (Telemetry handles) (ab_state b), ab_ctx = ctx\<rparr>, w')"
  using assms unfolding add_otel_def
  by (subst with_plugin_ok [where cfg = cfg and out = "Telemetry handles" and ctx = ctx and w' = w'])
    (simp_all add: otel_plugin_def otel_read_def)

text \<open>The web plugin, last: what it leaves, and the serve function.\<close>

definition with_web where
  "with_web P cfg routes b =
     (let reg = mount_auto ''/'' (routes (ab_state b)) (bc_router (ab_ctx b))
      in \<lparr>ab_state = HCons (Nothing ()) (ab_state b),
          ab_ctx = (ab_ctx b)\<lparr>bc_router := reg,
            bc_serve_fn := Some (\<lambda>router. serve_loop (mv_server P) (mv_net P) router cfg
              (if wc_banner cfg then Some (banner_routes reg) else None) (bc_shutdown (ab_ctx b)))\<rparr>\<rparr>)"

lemma add_web_ok:
  assumes "web_read P (bc_figment (ab_ctx b)) = Inr cfg" and "bc_serve_fn (ab_ctx b) = None"
  shows "add_web P routes_type routes b w = (Inr (with_web P cfg routes b), w)"
proof -
  let ?ctx = "ab_ctx (with_web P cfg routes b)"
  have "web_build (mv_server P) (mv_net P) routes cfg (ab_state b) (ab_ctx b) w = (Inr (), ?ctx, w)"
    using assms(2) by (simp add: web_build_ok Let_def with_web_def)
  with assms(1) show ?thesis
    unfolding add_web_def
    by (subst with_plugin_ok [where cfg = cfg and out = "Nothing ()" and ctx = ?ctx and w' = w])
      (simp_all add: web_plugin_def web_read_def with_web_def Let_def)
qed

lemma with_web_parts [simp]:
  "bc_router (ab_ctx (with_web P cfg routes b)) = mount_auto ''/'' (routes (ab_state b)) (bc_router (ab_ctx b))"
  "bc_shutdown (ab_ctx (with_web P cfg routes b)) = bc_shutdown (ab_ctx b)"
  "bc_tasks (ab_ctx (with_web P cfg routes b)) = bc_tasks (ab_ctx b)"
  by (simp_all add: with_web_def Let_def)

text \<open>A run of what the web plugin left is its serve loop on the composed router.\<close>

lemma with_web_run:
  "fst (run R A (with_web P cfg routes b) w) =
     fst (serve_loop (mv_server P) (mv_net P) (compose A (bc_router (ab_ctx (with_web P cfg routes b)))) cfg
       (if wc_banner cfg then Some (banner_routes (bc_router (ab_ctx (with_web P cfg routes b)))) else None)
       (bc_shutdown (ab_ctx b))
       (snd (spawn_all (tokio_api.truncate R) (bc_shutdown (ab_ctx b)) (bc_tasks (ab_ctx b)) w)))"
  by (simp add: run_def with_web_def Let_def case_prod_beta)

lemma app_named_parts [simp]:
  "ab_state (app_named P name) = HNil" "bc_serve_fn (ab_ctx (app_named P name)) = None"
  "bc_router (ab_ctx (app_named P name)) = router_registry_default"
  "bc_figment (ab_ctx (app_named P name)) = load_figment (mv_figment P) (mv_var_os P) name"
  by (simp_all add: app_named_def named_def)

lemma app_from_file_parts [simp]:
  "ab_state (app_from_file P path name) = HNil" "bc_serve_fn (ab_ctx (app_from_file P path name)) = None"
  "bc_router (ab_ctx (app_from_file P path name)) = router_registry_default"
  "bc_figment (ab_ctx (app_from_file P path name))
     = load_figment_from (mv_figment P) (mv_manifest_dir P @ path) name"
  by (simp_all add: app_from_file_def)

text \<open>What the OpenTelemetry plugin, the first of every example, leaves of the fresh context.\<close>

lemma after_otel:
  assumes "otel_build F X T cfg ctx w = (Inr handles, ctx', w')"
  shows "bc_figment ctx' = bc_figment ctx" "bc_serve_fn ctx' = bc_serve_fn ctx" "bc_shutdown ctx' = bc_shutdown ctx"
    "bc_router ctx' = (if of_http_layer F then layer (trace_http_layer X) (bc_router ctx) else bc_router ctx)"
proof -
  have "ctx_extends ctx ctx'" using otel_build_extends [of ctx F X T cfg w] assms by simp
  then show "bc_figment ctx' = bc_figment ctx" "bc_shutdown ctx' = bc_shutdown ctx"
    by (simp_all add: ctx_extends_def)
  show "bc_serve_fn ctx' = bc_serve_fn ctx" using otel_build_serve_fn [of F X T cfg ctx w] assms by simp
  show "bc_router ctx' = (if of_http_layer F then layer (trace_http_layer X) (bc_router ctx) else bc_router ctx)"
    by (rule otel_build_router [OF assms])
qed

lemma otel_layers_transparent:
  assumes "of_http_layer F \<Longrightarrow> transparent answer (trace_http_layer X)"
  shows "list_all (transparent answer)
    (rr_layer_fns (if of_http_layer F then layer (trace_http_layer X) router_registry_default
                   else router_registry_default))"
  using assms by (simp add: layer_def router_registry_default_def)

text \<open>What is served after the OpenTelemetry plugin and the web plugin, with plugins in between that add no routes.\<close>

lemma web_served:
  assumes laws: "routing_laws A answer"
    and trace: "of_http_layer F \<Longrightarrow> transparent answer (trace_http_layer X)"
    and router: "bc_router (ab_ctx b) = (if of_http_layer F then layer (trace_http_layer X) router_registry_default
      else router_registry_default)"
  shows "respond answer (compose (axum_api.truncate A) (bc_router (ab_ctx (with_web P cfg routes b)))) q u
    = (case answer (routes (ab_state b)) q u of Some x \<Rightarrow> x | None \<Rightarrow> (not_found [], u))"
proof -
  let ?reg = "bc_router (ab_ctx (with_web P cfg routes b))"
  have "list_all (transparent answer) (rr_layer_fns ?reg)"
    using otel_layers_transparent [of F answer X, OF trace] by (simp add: router mount_auto_def)
  moreover have "rr_routes ?reg = [\<lparr>me_prefix = ''/'', me_router = routes (ab_state b), me_mount = Auto\<rparr>]"
    and none: "rr_fallback ?reg = None"
    by (simp_all add: router mount_auto_def layer_def router_registry_default_def)
  ultimately have "answer (compose (axum_api.truncate A) ?reg) q u
      = (case answer (routes (ab_state b)) q u of Some x \<Rightarrow> Some x | None \<Rightarrow> None)"
    by (subst composed_answer [OF laws]) (simp_all only: none option.case)
  then show ?thesis unfolding respond_def by (simp split: option.splits)
qed

text \<open>\<open>web_only.rs\<close> and \<open>hello.rs\<close>: their two routes, and nothing else.\<close>

lemma web_only_serves:
  fixes b0 :: "((unit, unit) resource, 'fig, 'r, 'tok, 'w, 'h, 'l) app_builder"
  assumes "routing_laws (mv_axum P) answer"
    and "of_http_layer (mv_features P) \<Longrightarrow> transparent answer (trace_http_layer (mv_otel P))"
    and "b0 = app_named P ''web-only''" and "fig = bc_figment (ab_ctx b0)"
    and "otel_read P fig = Inr ocfg" and "web_read P fig = Inr wcfg"
    and "otel_build (mv_features P) (mv_otel P) (tokio_api.truncate (mv_runtime P)) ocfg (ab_ctx b0) w
      = (Inr handles, ctx1, w1)"
  shows "\<exists>b :: ((unit, unit) resource, 'fig, 'r, 'tok, 'w, 'h, 'l) app_builder.
      web_only_main P w = run (mv_runtime P) (axum_api.truncate (mv_axum P)) b w1
    \<and> (\<forall>q u. sr_method q = GET \<longrightarrow>
         respond answer (compose (axum_api.truncate (mv_axum P)) (bc_router (ab_ctx b))) q u =
           (if sr_path q = ''/'' then text_response 200 ''hello from muxa-web''
            else if sr_path q = ''/health'' then text_response 200 ''ok'' else not_found [], u))"
proof -
  note after = after_otel [OF assms(7)]
  let ?b1 = "\<lparr>ab_state = HCons (Telemetry handles) HNil, ab_ctx = ctx1\<rparr>
      :: ((unit, unit) resource, 'fig, 'r, 'tok, 'w, 'h, 'l) app_builder"
  let ?b2 = "with_web P wcfg (web_only_routes (mv_axum P)) ?b1"
  have "add_otel P b0 w = (Inr ?b1, w1)"
    using add_otel_ok [of P b0, OF _ assms(7)] assms(3-5) by simp
  moreover have "add_web P ''web_only::routes'' (web_only_routes (mv_axum P)) ?b1 w1 = (Inr ?b2, w1)"
    using after(1,2) assms(3,4,6) by (intro add_web_ok) simp_all
  ultimately have main: "web_only_main P w = run (mv_runtime P) (axum_api.truncate (mv_axum P)) ?b2 w1"
    by (simp add: web_only_main_def run_chain_def assms(3))
  have "bc_router (ab_ctx ?b1) = (if of_http_layer (mv_features P) then layer (trace_http_layer (mv_otel P))
      router_registry_default else router_registry_default)"
    using after(4) assms(3) by simp
  note served = web_served [OF assms(1,2) this, of P wcfg "web_only_routes (mv_axum P)"]
  have "answer (web_only_routes (mv_axum P) st) q u =
      (if sr_path q = ''/'' then Some (text_response 200 ''hello from muxa-web'', u)
       else if sr_path q = ''/health'' then Some (text_response 200 ''ok'', u) else None)"
    if "sr_method q = GET" for st :: "(unit, unit) resource hlist" and q u
    using two_routes_answer [OF assms(1), of "''/''" "''/health''" q] that
    by (simp add: web_only_routes_def static_text_def)
  with served show ?thesis by (intro exI [of _ ?b2] conjI main allI impI) simp
qed

lemma hello_serves:
  fixes b0 :: "((unit, 'lite) resource, 'fig, 'r, 'tok, 'w, 'h, 'l) app_builder"
  assumes "routing_laws (mv_axum P) answer"
    and "of_http_layer (mv_features P) \<Longrightarrow> transparent answer (trace_http_layer (mv_otel P))"
    and "b0 = app_from_file P ''/examples/config.toml'' ''hello''" and "fig = bc_figment (ab_ctx b0)"
    and "otel_read P fig = Inr ocfg" and "web_read P fig = Inr wcfg"
    and "get_or_env (mv_figment P) sect (sqlite_config_default available cell) (mv_env P) fig ''sqlite'' [] = Inr scfg"
    and "otel_build (mv_features P) (mv_otel P) (tokio_api.truncate (mv_runtime P)) ocfg (ab_ctx b0) w
      = (Inr handles, ctx1, w1)"
    and "sqlite_build Q scfg ctx1 w1 = (Inr pool, ctx1, w2)"
  shows "\<exists>b :: ((unit, 'lite) resource, 'fig, 'r, 'tok, 'w, 'h, 'l) app_builder.
      hello_main P sect Q available cell w = run (mv_runtime P) (axum_api.truncate (mv_axum P)) b w2
    \<and> hl_entries (ab_state b) = [Nothing (), LitePool pool, Telemetry handles]
    \<and> (\<forall>q u. sr_method q = GET \<longrightarrow>
         respond answer (compose (axum_api.truncate (mv_axum P)) (bc_router (ab_ctx b))) q u =
           (if sr_path q = ''/'' then text_response 200 ''hello, muxa (sqlite)''
            else if sr_path q = ''/health'' then text_response 200 ''ok'' else not_found [], u))"
proof -
  note after = after_otel [OF assms(8)]
  let ?b1 = "\<lparr>ab_state = HCons (Telemetry handles) HNil, ab_ctx = ctx1\<rparr>
      :: ((unit, 'lite) resource, 'fig, 'r, 'tok, 'w, 'h, 'l) app_builder"
  let ?b2 = "\<lparr>ab_state = HCons (LitePool pool) (ab_state ?b1), ab_ctx = ctx1\<rparr>"
  let ?b3 = "with_web P wcfg (hello_routes (mv_axum P)) ?b2"
  have "add_otel P b0 w = (Inr ?b1, w1)"
    using add_otel_ok [of P b0, OF _ assms(8)] assms(3-5) by simp
  moreover have "with_plugin (sqlite_plugin (mv_figment P) (mv_env P) sect LitePool Q available cell) ?b1 w1
      = (Inr ?b2, w2)"
    using after(1) assms(4,7,9) by (subst with_plugin_ok [where cfg = scfg]) (simp_all add: sqlite_plugin_def)
  moreover have "add_web P ''hello::routes'' (hello_routes (mv_axum P)) ?b2 w2 = (Inr ?b3, w2)"
    using after(1,2) assms(3,4,6) by (intro add_web_ok) simp_all
  ultimately have main: "hello_main P sect Q available cell w = run (mv_runtime P) (axum_api.truncate (mv_axum P)) ?b3 w2"
    by (simp add: hello_main_def run_chain_def assms(3))
  have outs: "hl_entries (ab_state ?b3) = [Nothing (), LitePool pool, Telemetry handles]"
    by (simp add: with_web_def Let_def)
  have "bc_router (ab_ctx ?b2) = (if of_http_layer (mv_features P) then layer (trace_http_layer (mv_otel P))
      router_registry_default else router_registry_default)"
    using after(4) assms(3) by simp
  note served = web_served [OF assms(1,2) this, of P wcfg "hello_routes (mv_axum P)"]
  have "answer (hello_routes (mv_axum P) st) q u =
      (if sr_path q = ''/'' then Some (text_response 200 ''hello, muxa (sqlite)'', u)
       else if sr_path q = ''/health'' then Some (text_response 200 ''ok'', u) else None)"
    if "sr_method q = GET" for st :: "(unit, 'lite) resource hlist" and q u
    using two_routes_answer [OF assms(1), of "''/''" "''/health''" q] that
    by (simp add: hello_routes_def static_text_def)
  with served show ?thesis by (intro exI [of _ ?b3] conjI main outs allI impI) simp
qed

section \<open>Instances for the witnesses\<close>

text \<open>Instances of the libraries for the witnesses: routers as functions, files looked up in a list.\<close>

type_synonym 'w reference_router = "http_request \<Rightarrow> 'w \<Rightarrow> (response \<times> 'w) option"

definition or_else :: "'w reference_router \<Rightarrow> 'w reference_router \<Rightarrow> 'w reference_router" where
  "or_else r s q w = (case r q w of Some x \<Rightarrow> Some x | None \<Rightarrow> s q w)"

definition reference_axum :: "('w reference_router, 'w) routing_api" where
  "reference_axum =
     \<lparr>router_new = (\<lambda>q w. None), router_merge = or_else,
      router_nest = (\<lambda>r prefix s. or_else r (\<lambda>q w.
        if sr_path q = prefix then s (q\<lparr>sr_path := ''/''\<rparr>) w
        else (case strip_prefix (prefix @ ''/'') (sr_path q) of
                Some rest \<Rightarrow> s (q\<lparr>sr_path := ''/'' @ rest\<rparr>) w
              | None \<Rightarrow> None))),
      router_fallback_service = or_else,
      route = (\<lambda>r path methods. or_else r (\<lambda>q w.
        if sr_path q = path
        then (case map_of methods (sr_method q) of
                Some h \<Rightarrow> Some (h q w)
              | None \<Rightarrow>
                  (case if sr_method q = HEAD then map_of methods GET else None of
                     Some h \<Rightarrow> (let (resp, w) = h q w in Some (resp\<lparr>rp_body := []\<rparr>, w))
                   | None \<Rightarrow> Some (\<lparr>rp_status = 405, rp_headers = Map.empty, rp_body = []\<rparr>, w)))
        else None)),
      from_service = (\<lambda>s q w. Some (s (spa_request.truncate q) w))\<rparr>"

lemma under_prefix_self: "under prefix prefix" "under (prefix @ ''/'' @ rest) prefix"
proof -
  have "\<exists>n. prefix = trim_end_matches CHR ''/'' prefix @ replicate n CHR ''/''"
  proof -
    have "rev prefix = takeWhile (\<lambda>c. c = CHR ''/'') (rev prefix) @ dropWhile (\<lambda>c. c = CHR ''/'') (rev prefix)"
      by simp
    moreover have "takeWhile (\<lambda>c. c = CHR ''/'') xs = replicate (length (takeWhile (\<lambda>c. c = CHR ''/'') xs)) CHR ''/''" for xs
      by (induction xs) auto
    ultimately show ?thesis
      unfolding trim_end_matches_def by (metis rev_append rev_replicate rev_rev_ident)
  qed
  then obtain n where n: "prefix = trim_end_matches CHR ''/'' prefix @ replicate n CHR ''/''" ..
  then show "under prefix prefix"
    by (cases n) (auto simp: under_iff str_iff)
  obtain r where "replicate n CHR ''/'' @ ''/'' @ rest = ''/'' @ r" by (cases n) auto
  with n have "prefix @ ''/'' @ rest = trim_end_matches CHR ''/'' prefix @ ''/'' @ r"
    by (metis append.assoc)
  then show "under (prefix @ ''/'' @ rest) prefix"
    unfolding under_iff starts_with_iff by blast
qed

lemma reference_routing_laws: "routing_laws reference_axum (\<lambda>r. r)"
  unfolding routing_laws_def
  by (intro conjI allI impI)
    (auto simp: reference_axum_def or_else_def under_prefix_self under_prefix_self(2) [simplified] str_iff
      split: option.splits)

lemma reference_head_law: "head_law reference_axum (\<lambda>r. r)"
  unfolding head_law_def by (auto simp: reference_axum_def or_else_def case_prod_beta)

text \<open>A process with nothing configured and nothing exported.\<close>

definition quiet_features :: otel_features where
  "quiet_features =
     \<lparr>of_http_layer = True, of_otlp_tonic = False, of_otlp_http = False, of_tracing_bridge = False,
      of_metrics = False, of_logs = False\<rparr>"

definition quiet_otel :: "(unit, unit, unit, 'r, unit, unit, nat) otel_api" where
  "quiet_otel =
     \<lparr>build_exporter = (\<lambda>_ w. (Inr (), w)), batch_tracer = (\<lambda>_ _. ()), periodic_meter = (\<lambda>_ _ _. ()),
      batch_logger = (\<lambda>_ _. ()), tracer_layer = (\<lambda>_ _. ()), logger_layer = (\<lambda>_. ()),
      set_tracer_provider = (\<lambda>_ w. w), set_meter_provider = (\<lambda>_ w. w), trace_http_layer = (\<lambda>r. r),
      provider_shutdown = (\<lambda>_ w. (Inr (), w)), spawn_blocking = (\<lambda>f w. ((), f w)), await_blocking = (\<lambda>_ w. w),
      token_cancelled = (\<lambda>_ w. w)\<rparr>"

definition quiet_runtime :: "(unit, nat \<Rightarrow> nat, nat, unit) runtime_api" where
  "quiet_runtime =
     \<lparr>tokio_spawn = (\<lambda>_ w. ((), w)), child_token = (\<lambda>t w. (t, w)), cancel = (\<lambda>_ w. w),
      clock = (\<lambda>w. w), timeout_at = (\<lambda>_ _ w. (Returned, w))\<rparr>"

definition quiet_net :: "(unit, unit, unit, unit, 'r, unit, nat) net_api" where
  "quiet_net =
     \<lparr>lookup_host = (\<lambda>_ w. (Inr [()], w)), is_ipv4 = (\<lambda>_. True), new_v4 = (\<lambda>w. (Inr (), w)),
      new_v6 = (\<lambda>w. (Inr (), w)), set_reuseaddr = (\<lambda>_ _ w. (Inr (), w)), sock_bind = (\<lambda>_ _ w. (Inr (), w)),
      sock_listen = (\<lambda>_ _ w. (Inr (), w)), local_addr = (\<lambda>_. Inr ()), addr_display = (\<lambda>_. ''0.0.0.0:3000''),
      eprint = (\<lambda>_ w. w), set_nodelay = (\<lambda>_ _ w. (Inr (), w)), axum_serve = (\<lambda>_ _ _ _ w. (Inr (), w)),
      ctrl_c = (\<lambda>w. (Inr (), w)), spawn_detached = (\<lambda>_ w. w), cancel_token = (\<lambda>_ w. w)\<rparr>"

definition quiet_env ::
    "(demo_fig, demo_val, (string \<times> demo_val) list, nat reference_router, unit, nat, unit, unit, unit, unit,
      unit, unit, unit, unit, unit) main_env" where
  "quiet_env =
     \<lparr>mv_debug = True, mv_env_key = (\<lambda>_. None), mv_token = (), mv_already = False, mv_cell = None,
      mv_figment = demo_figment, mv_var_os = (\<lambda>_. None), mv_env = (\<lambda>_. None), mv_manifest_dir = ''/app'',
      mv_runtime = quiet_runtime, mv_axum = reference_axum, mv_features = quiet_features, mv_otel = quiet_otel,
      mv_server = \<lparr>se_unix = True, se_linux = True, se_graceful = False, se_somaxconn = None\<rparr>,
      mv_net = quiet_net, mv_otel_section = (\<lambda>_ _. Inl ''unread''), mv_web_section = (\<lambda>_ _. Inl ''unread'')\<rparr>"

lemma quiet_parts:
  "mv_axum quiet_env = reference_axum" "mv_features quiet_env = quiet_features" "mv_otel quiet_env = quiet_otel"
  "mv_runtime quiet_env = quiet_runtime" "mv_figment quiet_env = demo_figment" "mv_env quiet_env = (\<lambda>_. None)"
  "mv_var_os quiet_env = (\<lambda>_. None)"
  by (simp_all add: quiet_env_def)

lemma demo_figment_empty: "load_figment demo_figment var_os name = (\<lambda>_. None)"
    "load_figment_from demo_figment path name = (\<lambda>_. None)"
  by (simp_all add: load_figment_def load_figment_from_def demo_figment_def split: option.splits)

lemma quiet_reads:
  "otel_read quiet_env (\<lambda>_. None) = Inr otel_config_default" "web_read quiet_env (\<lambda>_. None) = Inr web_config_default"
  by (simp_all add: otel_read_def web_read_def quiet_parts get_or_env_default)

lemma quiet_otel_build:
  "otel_build quiet_features quiet_otel T cfg ctx w
    = (Inr \<lparr>th_service_name = ot_service_name cfg, th_endpoint = None\<rparr>,
       ctx\<lparr>bc_router := layer (\<lambda>r. r) (bc_router ctx)\<rparr>, w)"
  by (simp add: otel_build_def quiet_features_def quiet_otel_def export_compiled_def)

definition get_request :: "string \<Rightarrow> http_request" where
  "get_request path = \<lparr>sr_method = GET, sr_path = path, sr_headers = Map.empty, hr_body = []\<rparr>"

end
