(* ===== verification/Example_Spa.thy ===== *)
theory Example_Spa
  imports Examples
begin

text \<open>
  \<open>muxa/examples/spa.rs\<close>: a single-page app served next to an API, from its \<open>main\<close> to the responses. What
  it relies on of memory-serve is \<open>memory_serve_laws\<close>.
\<close>

definition dist_file :: "string \<Rightarrow> string \<Rightarrow> string \<Rightarrow> asset" where
  "dist_file url content_type bytes =
     \<lparr>as_route = url, as_path = [], as_etag = ''example'', as_content_type = content_type,
      as_bytes = Some bytes, as_is_compressed = False, as_should_compress = False\<rparr>"

text \<open>\<open>include_bytes\<close> is the macro of that name: the content of a file of the source tree.\<close>

definition DIST :: "(string \<Rightarrow> string) \<Rightarrow> asset list" where
  "DIST include_bytes =
     [dist_file ''/index.html'' ''text/html'' (include_bytes ''spa/dist/index.html''),
      dist_file ''/assets/app-abc123.js'' ''text/javascript'' (include_bytes ''spa/dist/assets/app-abc123.js'')]"

definition spa_routes :: "('r, 'w) routing_api \<Rightarrow> 'v hlist \<Rightarrow> 'r" where
  "spa_routes A state =
     route A
       (router_nest A (router_new A) ''/api''
          (route A (router_new A) ''/hello'' [(GET, static_text ''hello'')]))
       ''/health'' [(GET, static_text ''ok'')]"

definition spa_chain ::
    "('fig, 'val, 'prov, 'r, 'tok, 'w, 'h, 'l, 'jh, 'e, 'p, 'a, 's, 'ln, 'c) main_env
      \<Rightarrow> ('fig \<Rightarrow> string \<Rightarrow> string + spa_config) \<Rightarrow> (string, 'w) memory_serve \<Rightarrow> (string \<Rightarrow> string)
      \<Rightarrow> ((unit, unit) resource, 'fig, 'r, 'tok, 'w, 'h, 'l) chain_step list" where
  "spa_chain P spa_section M include_bytes =
     [add_otel P,
      with_plugin (spa_plugin (mv_figment P) (mv_env P) spa_section Nothing M (from_service (mv_axum P))
        (DIST include_bytes)),
      add_web P ''spa::routes'' (spa_routes (mv_axum P))]"

definition spa_main ::
    "('fig, 'val, 'prov, 'r, 'tok, 'w, 'h, 'l, 'jh, 'e, 'p, 'a, 's, 'ln, 'c) main_env
      \<Rightarrow> ('fig \<Rightarrow> string \<Rightarrow> string + spa_config) \<Rightarrow> (string, 'w) memory_serve \<Rightarrow> (string \<Rightarrow> string)
      \<Rightarrow> 'w \<Rightarrow> unit result \<times> 'w" where
  "spa_main P spa_section M include_bytes =
     run_chain P (spa_chain P spa_section M include_bytes) (app_named P ''spa'')"

section \<open>Lemmas\<close>

text \<open>
  memory-serve, as documented, for embedded files that are not compressed: a \<open>GET\<close> of a file's route
  without a conditional header gets its bytes, content type and the cache policy of its type; the root
  gets the index file; every other path is not its own.
\<close>

definition memory_serve_laws :: "(string, 'w) memory_serve \<Rightarrow> bool" where
  "memory_serve_laws M \<longleftrightarrow> ms_empty M = [] \<and>
     (\<forall>assets html_cc cc q w. sr_method q = GET \<longrightarrow> sr_headers q ''if-none-match'' = None \<longrightarrow>
        distinct (map as_route assets) \<longrightarrow>
        list_all (\<lambda>a. as_bytes a \<noteq> None \<and> \<not> as_is_compressed a \<and> \<not> as_should_compress a) assets \<longrightarrow>
        (\<forall>a bytes. a \<in> set assets \<longrightarrow> as_route a = sr_path q \<longrightarrow> as_bytes a = Some bytes \<longrightarrow> sr_path q \<noteq> ''/'' \<longrightarrow>
          (\<exists>hdrs. ms_files M assets html_cc cc q w = (Some \<lparr>rp_status = 200, rp_headers = hdrs, rp_body = bytes\<rparr>, w)
             \<and> hdrs ''content-type'' = Some (as_content_type a)
             \<and> (as_content_type a = ''text/html'' \<longrightarrow> html_cc = CacheNoCache \<longrightarrow>
                  hdrs ''cache-control'' = Some ''no-cache'')))
        \<and> (sr_path q = ''/'' \<longrightarrow>
             ms_files M assets html_cc cc q w = ms_files M assets html_cc cc (q\<lparr>sr_path := INDEX\<rparr>) w)
        \<and> (sr_path q \<noteq> ''/'' \<longrightarrow> sr_path q \<notin> as_route ` set assets \<longrightarrow>
             ms_files M assets html_cc cc q w = (None, w)))"

lemma spa_routes_answer:
  assumes laws: "routing_laws A answer" and get: "sr_method q = GET"
  shows "answer (spa_routes A st) q w =
    (if sr_path q = ''/api/hello'' then Some (text_response 200 ''hello'', w)
     else if sr_path q = ''/health'' then Some (text_response 200 ''ok'', w) else None)"
proof -
  note new = routing_lawsD(1) [OF laws] and other = routing_lawsD(2) [OF laws]
    and hit = routing_lawsD(3) [OF laws]
  let ?hello = "[(GET, static_text ''hello'')]" and ?ok = "[(GET, static_text ''ok'')]"
  let ?inner = "route A (router_new A) ''/hello'' ?hello"
  let ?nested = "router_nest A (router_new A) ''/api'' ?inner"
  have inner: "answer ?inner r w = (if sr_path r = ''/hello'' then Some (text_response 200 ''hello'', w) else None)"
    if "sr_method r = GET" for r
    using hit [OF _ _ new, of "''/hello''" r ?hello "static_text ''hello''" w]
      other [of "''/hello''" r "router_new A" ?hello w] new that by (simp add: static_text_def)
  have plain: "trim_end_matches CHR ''/'' ''/api'' = ''/api''" by code_simp
  have nested: "answer ?nested q w = (if sr_path q = ''/api/hello'' then Some (text_response 200 ''hello'', w) else None)"
  proof (cases "under (sr_path q) ''/api''")
    case False
    then have "sr_path q \<noteq> ''/api/hello''"
      using path_prefix.covers_below [of "''/api''" "''hello''"] plain by auto
    with False routing_lawsD(6) [OF laws _ False, of "router_new A" ?inner w] new show ?thesis by simp
  next
    case True
    then consider "sr_path q = ''/api''" | rest where "sr_path q = ''/api'' @ ''/'' @ rest"
      by (auto simp: under_iff plain str_iff)
    then show ?thesis
    proof cases
      case 1
      with routing_lawsD(8) [OF laws _ 1 new, of ?inner w] inner [of "q\<lparr>sr_path := ''/''\<rparr>"] get
      show ?thesis by simp
    next
      case 2
      with routing_lawsD(7) [OF laws _ 2 new, of ?inner w] inner [of "q\<lparr>sr_path := ''/'' @ rest\<rparr>"] get
      show ?thesis by simp
    qed
  qed
  show ?thesis
  proof (cases "sr_path q = ''/health''")
    case True
    with nested have "answer ?nested q w = None" by simp
    from hit [OF _ True this, of ?ok "static_text ''ok''"] True get show ?thesis
      by (simp add: spa_routes_def static_text_def)
  next
    case False
    with other [OF _ False, of ?nested ?ok w] nested show ?thesis by (simp add: spa_routes_def)
  qed
qed

text \<open>The fallback of the example: the service for a \<open>GET\<close> without a conditional header.\<close>

definition fetched :: "response \<times> 'w \<Rightarrow> 'w \<Rightarrow> string \<Rightarrow> string \<Rightarrow> string \<Rightarrow> bool" where
  "fetched answer w body content_type cache \<longleftrightarrow>
     snd answer = w \<and> rp_status (fst answer) = 200 \<and> rp_body (fst answer) = body
     \<and> rp_headers (fst answer) ''content-type'' = Some content_type
     \<and> rp_headers (fst answer) ''cache-control'' = Some cache"

lemma DIST_laws:
  assumes "memory_serve_laws M" and "sr_method q = GET" and "sr_headers q ''if-none-match'' = None"
  shows "sr_path q \<noteq> ''/'' \<Longrightarrow> sr_path q \<noteq> ''/index.html'' \<Longrightarrow> sr_path q \<noteq> ''/assets/app-abc123.js'' \<Longrightarrow>
      ms_files M (DIST inc) CacheNoCache cc q w = (None, w)"
    and "sr_path q = ''/assets/app-abc123.js'' \<Longrightarrow>
      \<exists>hdrs. ms_files M (DIST inc) CacheNoCache cc q w
          = (Some \<lparr>rp_status = 200, rp_headers = hdrs, rp_body = inc ''spa/dist/assets/app-abc123.js''\<rparr>, w)
        \<and> hdrs ''content-type'' = Some ''text/javascript''"
    and "sr_path q \<in> {''/'', ''/index.html''} \<Longrightarrow>
      \<exists>hdrs. ms_files M (DIST inc) CacheNoCache cc q w
          = (Some \<lparr>rp_status = 200, rp_headers = hdrs, rp_body = inc ''spa/dist/index.html''\<rparr>, w)
        \<and> hdrs ''content-type'' = Some ''text/html'' \<and> hdrs ''cache-control'' = Some ''no-cache''"
proof -
  have dist: "distinct (map as_route (DIST inc))"
    "list_all (\<lambda>a. as_bytes a \<noteq> None \<and> \<not> as_is_compressed a \<and> \<not> as_should_compress a) (DIST inc)"
    "as_route ` set (DIST inc) = {''/index.html'', ''/assets/app-abc123.js''}"
    by (simp_all add: DIST_def dist_file_def)
  have mem: "dist_file ''/assets/app-abc123.js'' ''text/javascript'' (inc ''spa/dist/assets/app-abc123.js'') \<in> set (DIST inc)"
    "dist_file ''/index.html'' ''text/html'' (inc ''spa/dist/index.html'') \<in> set (DIST inc)"
    by (simp_all add: DIST_def)
  note laws = assms(1) [unfolded memory_serve_laws_def, THEN conjunct2, rule_format, OF _ _ dist(1,2)]
  note q = laws [OF assms(2,3)]
  show "sr_path q \<noteq> ''/'' \<Longrightarrow> sr_path q \<noteq> ''/index.html'' \<Longrightarrow> sr_path q \<noteq> ''/assets/app-abc123.js'' \<Longrightarrow>
      ms_files M (DIST inc) CacheNoCache cc q w = (None, w)"
    using q [THEN conjunct2, THEN conjunct2] dist(3) by simp
  show "\<exists>hdrs. ms_files M (DIST inc) CacheNoCache cc q w
          = (Some \<lparr>rp_status = 200, rp_headers = hdrs, rp_body = inc ''spa/dist/assets/app-abc123.js''\<rparr>, w)
        \<and> hdrs ''content-type'' = Some ''text/javascript''" if "sr_path q = ''/assets/app-abc123.js''"
    using q [THEN conjunct1, rule_format, OF mem(1), of _ CacheNoCache cc w] that by (auto simp: dist_file_def)
  have index: "\<exists>hdrs. ms_files M (DIST inc) CacheNoCache cc r w
          = (Some \<lparr>rp_status = 200, rp_headers = hdrs, rp_body = inc ''spa/dist/index.html''\<rparr>, w)
        \<and> hdrs ''content-type'' = Some ''text/html'' \<and> hdrs ''cache-control'' = Some ''no-cache''"
    if "sr_method r = GET" "sr_headers r ''if-none-match'' = None" "sr_path r = ''/index.html''" for r
    using laws [OF that(1,2), THEN conjunct1, rule_format, OF mem(2), of _ CacheNoCache cc w] that(3)
    by (auto simp: dist_file_def)
  show "\<exists>hdrs. ms_files M (DIST inc) CacheNoCache cc q w
          = (Some \<lparr>rp_status = 200, rp_headers = hdrs, rp_body = inc ''spa/dist/index.html''\<rparr>, w)
        \<and> hdrs ''content-type'' = Some ''text/html'' \<and> hdrs ''cache-control'' = Some ''no-cache''"
    if "sr_path q \<in> {''/'', ''/index.html''}"
    using that index [of q] index [of "q\<lparr>sr_path := INDEX\<rparr>"] assms(2,3)
      q [THEN conjunct2, THEN conjunct1, of CacheNoCache cc w]
    by (auto simp: INDEX_def)
qed

text \<open>The paths the example's server keeps for itself: no page of the app is served under them.\<close>

definition reserved :: "string \<Rightarrow> bool" where
  "reserved path \<longleftrightarrow>
     list_ex (under path) [''/api'', ''/health'', ''/openapi.json'', ''/docs'', ''/assets'']"

lemma files_not_reserved: "\<not> reserved ''/''" "\<not> reserved ''/index.html''" "reserved ''/assets/app-abc123.js''"
  by code_simp+

lemma asset_cached: "under ''/assets/app-abc123.js'' ''/assets''" "\<not> under ''/'' ''/assets''"
  by code_simp+

lemma spa_router_DIST:
  "spa_router M (DIST inc) cfg q w = cache_headers (\<lambda>request w.
     (case ms_files M (DIST inc) CacheNoCache CacheMedium request w of
        (Some response, w) \<Rightarrow> (response, w)
      | (None, w) \<Rightarrow> client_route (ms_empty M) (files_service M (DIST inc) True) cfg request w)) cfg True q w"
proof -
  have "list_all (\<lambda>asset. as_bytes asset \<noteq> None) (DIST inc)" by (simp add: DIST_def dist_file_def)
  then show ?thesis by (simp only: spa_router_def Let_def if_True)
qed

lemma spa_service:
  assumes laws: "memory_serve_laws M" and get: "sr_method q = GET" "sr_headers q ''if-none-match'' = None"
  shows "sr_path q = ''/assets/app-abc123.js'' \<Longrightarrow>
      fetched (spa_router M (DIST inc) spa_config_default q w) w (inc ''spa/dist/assets/app-abc123.js'')
        ''text/javascript'' ''max-age=31536000, immutable''"
    and "\<not> reserved (sr_path q) \<Longrightarrow>
      fetched (spa_router M (DIST inc) spa_config_default q w) w (inc ''spa/dist/index.html'')
        ''text/html'' ''no-cache''"
    and "reserved (sr_path q) \<Longrightarrow> sr_path q \<noteq> ''/assets/app-abc123.js'' \<Longrightarrow>
      spa_router M (DIST inc) spa_config_default q w = (not_found [], w)"
proof -
  note dist = DIST_laws [OF laws get]
  have empty: "ms_empty M = []" using laws by (simp add: memory_serve_laws_def)
  have hashed: "''/assets/app-abc123.js'' \<notin> set (sp_no_cache spa_config_default)"
    by (simp add: spa_config_default_def)
  have excl: "list_ex (\<lambda>p. under path p) (sp_exclude_prefixes spa_config_default @ [sp_assets_prefix spa_config_default])
      \<longleftrightarrow> reserved path" for path
    by (auto simp: reserved_def spa_config_default_def)
  have prefix: "sp_assets_prefix spa_config_default = ''/assets''" by (simp add: spa_config_default_def)
  show "fetched (spa_router M (DIST inc) spa_config_default q w) w (inc ''spa/dist/assets/app-abc123.js'')
        ''text/javascript'' ''max-age=31536000, immutable''" if path: "sr_path q = ''/assets/app-abc123.js''"
    using dist(2) [OF path, of inc CacheMedium w] hashed asset_cached(1)
    by (auto simp: spa_router_DIST Let_def cache_headers_def is_success_def prefix path
        IMMUTABLE_def fetched_def)
  have asset_reserved: "reserved path" if "under path ''/assets''" for path
    using that by (simp add: reserved_def)
  show "fetched (spa_router M (DIST inc) spa_config_default q w) w (inc ''spa/dist/index.html'')
        ''text/html'' ''no-cache''" if open_path: "\<not> reserved (sr_path q)"
  proof (cases "sr_path q \<in> {''/'', ''/index.html''}")
    case True
    with dist(3) [OF True, of inc CacheMedium w] asset_reserved open_path show ?thesis
      by (auto simp: spa_router_DIST Let_def cache_headers_def is_success_def prefix fetched_def
          NO_CACHE_def)
  next
    case False
    with open_path files_not_reserved(3) have "ms_files M (DIST inc) CacheNoCache CacheMedium q w = (None, w)"
      by (intro dist(1)) auto
    moreover obtain hdrs where "ms_files M (DIST inc) CacheNoCache CacheMedium (q\<lparr>sr_path := INDEX\<rparr>) w
        = (Some \<lparr>rp_status = 200, rp_headers = hdrs, rp_body = inc ''spa/dist/index.html''\<rparr>, w)"
      "hdrs ''content-type'' = Some ''text/html''" "hdrs ''cache-control'' = Some ''no-cache''"
      using DIST_laws(3) [OF laws, of "q\<lparr>sr_path := INDEX\<rparr>" inc CacheMedium w] get by (auto simp: INDEX_def)
    ultimately show ?thesis
      using open_path asset_reserved get(1) excl [of "sr_path q"]
      by (auto simp: spa_router_DIST Let_def cache_headers_def is_success_def prefix fetched_def
          client_route_def files_service_def NO_CACHE_def)
  qed
  show "spa_router M (DIST inc) spa_config_default q w = (not_found [], w)"
    if "reserved (sr_path q)" "sr_path q \<noteq> ''/assets/app-abc123.js''"
  proof -
    have "sr_path q \<noteq> ''/''" "sr_path q \<noteq> ''/index.html''" using that files_not_reserved by auto
    with dist(1) [OF this that(2), of inc CacheMedium w] that excl [of "sr_path q"] show ?thesis
      by (auto simp: spa_router_DIST Let_def cache_headers_def is_success_def client_route_def
          not_found_def empty)
  qed
qed

lemma spa_registered:
  assumes "get_or_env (mv_figment P) spa_section spa_config_default (mv_env P) (bc_figment (ab_ctx b)) ''spa'' []
      = Inr spa_config_default"
    and "rr_fallback (bc_router (ab_ctx b)) = None"
  shows "with_plugin (spa_plugin (mv_figment P) (mv_env P) spa_section Nothing M mk (DIST inc)) b w
    = (Inr \<lparr>ab_state = HCons (Nothing ()) (ab_state b),
            ab_ctx = (ab_ctx b)\<lparr>bc_router := (bc_router (ab_ctx b))
              \<lparr>rr_fallback := Some (mk (spa_router M (DIST inc) spa_config_default))\<rparr>\<rparr>\<rparr>, w)"
proof -
  have "spa_build M mk (DIST inc) spa_config_default (ab_ctx b) w
      = (Inr (), (ab_ctx b)\<lparr>bc_router := (bc_router (ab_ctx b))
              \<lparr>rr_fallback := Some (mk (spa_router M (DIST inc) spa_config_default))\<rparr>\<rparr>, w)"
    using assms(2) by (simp add: spa_build_def set_fallback_def DIST_def dist_file_def INDEX_def spa_config_default_def)
  with assms(1) show ?thesis
    by (subst with_plugin_ok [where cfg = spa_config_default and out = "Nothing ()" and w' = w])
      (simp_all add: spa_plugin_def)
qed

lemma spa_served:
  assumes laws: "routing_laws A answer"
    and layers: "list_all (transparent answer) (rr_layer_fns reg)"
    and reg: "rr_routes reg = []" "rr_fallback reg = Some (from_service A (spa_router M (DIST inc) spa_config_default))"
    and get: "sr_method q = GET"
  shows "respond answer (compose (axum_api.truncate A) (mount_auto ''/'' (spa_routes A st) reg)) q w =
    (if sr_path q = ''/api/hello'' then (text_response 200 ''hello'', w)
     else if sr_path q = ''/health'' then (text_response 200 ''ok'', w)
     else spa_router M (DIST inc) spa_config_default (spa_request.truncate q) w)"
proof -
  have "rr_routes (mount_auto ''/'' (spa_routes A st) reg)
      = [\<lparr>me_prefix = ''/'', me_router = spa_routes A st, me_mount = Auto\<rparr>]"
    using reg by (simp add: mount_auto_def)
  from composed_answer [OF laws _ this, of q w] layers reg(2) show ?thesis
    by (simp add: mount_auto_def respond_def spa_routes_answer [OF laws get] routing_lawsD(10) [OF laws])
qed

section \<open>Properties\<close>

text \<open>
  C15: the single-page example, from its \<open>main\<close> to the response. With its default configuration the chain
  builds, its run is the serve loop, and a plain \<open>GET\<close> of the router it serves is answered as the example's
  header says: \<open>/api/hello\<close> and \<open>/health\<close> by the API; the fingerprinted file with its bytes, for a year; every
  path outside the server's prefixes with the page and \<open>no-cache\<close> (client-side routes such as \<open>/games/1\<close>, but
  also \<open>/apiary\<close>); and an unknown path under \<open>/api\<close>, \<open>/health\<close>, \<open>/docs\<close>, \<open>/openapi.json\<close> or the assets with
  an empty 404, never the page.
\<close>

theorem spa_example_serves:
  assumes "routing_laws (mv_axum P) answer" and "memory_serve_laws M"
    and "of_http_layer (mv_features P) \<Longrightarrow> transparent answer (trace_http_layer (mv_otel P))"
    and "b0 = app_named P ''spa''" and "fig = bc_figment (ab_ctx b0)"
    and "otel_read P fig = Inr ocfg" and "web_read P fig = Inr wcfg"
    and "get_or_env (mv_figment P) spa_section spa_config_default (mv_env P) fig ''spa'' [] = Inr spa_config_default"
    and "otel_build (mv_features P) (mv_otel P) (tokio_api.truncate (mv_runtime P)) ocfg (ab_ctx b0) w
      = (Inr handles, ctx1, w1)"
    and "sr_method q = GET" and "sr_headers q ''if-none-match'' = None"
  shows "\<exists>b. chain (spa_chain P spa_section M inc) b0 w = (Inr b, w1)
    \<and> spa_main P spa_section M inc w = run (mv_runtime P) (axum_api.truncate (mv_axum P)) b w1
    \<and> bc_serve_fn (ab_ctx b) = Some (\<lambda>router. serve_loop (mv_server P) (mv_net P) router wcfg
        (if wc_banner wcfg then Some (banner_routes (bc_router (ab_ctx b))) else None) (mv_token P))
    \<and> (let resp = respond answer (compose (axum_api.truncate (mv_axum P)) (bc_router (ab_ctx b))) q u
       in (sr_path q = ''/api/hello'' \<longrightarrow> resp = (text_response 200 ''hello'', u))
        \<and> (sr_path q = ''/health'' \<longrightarrow> resp = (text_response 200 ''ok'', u))
        \<and> (sr_path q = ''/assets/app-abc123.js'' \<longrightarrow>
             fetched resp u (inc ''spa/dist/assets/app-abc123.js'') ''text/javascript'' ''max-age=31536000, immutable'')
        \<and> (\<not> reserved (sr_path q) \<longrightarrow> fetched resp u (inc ''spa/dist/index.html'') ''text/html'' ''no-cache'')
        \<and> (reserved (sr_path q) \<and> sr_path q \<notin> {''/api/hello'', ''/health'', ''/assets/app-abc123.js''} \<longrightarrow>
             resp = (\<lparr>rp_status = 404, rp_headers = Map.empty, rp_body = []\<rparr>, u)))"
proof -
  note after = after_otel [OF assms(9)]
  let ?b1 = "\<lparr>ab_state = HCons (Telemetry handles) HNil, ab_ctx = ctx1\<rparr> :: ((unit, unit) resource, _, _, _, _, _, _) app_builder"
  let ?spa = "from_service (mv_axum P) (spa_router M (DIST inc) spa_config_default)"
  let ?b2 = "\<lparr>ab_state = HCons (Nothing ()) (ab_state ?b1),
       ab_ctx = ctx1\<lparr>bc_router := (bc_router ctx1)\<lparr>rr_fallback := Some ?spa\<rparr>\<rparr>\<rparr>"
  let ?b3 = "with_web P wcfg (spa_routes (mv_axum P)) ?b2"
  have fig: "bc_figment ctx1 = fig" using after(1) assms(5) by simp
  have router: "rr_routes (bc_router ctx1) = []" "rr_fallback (bc_router ctx1) = None"
    "list_all (transparent answer) (rr_layer_fns (bc_router ctx1))"
    using after(4) otel_layers_transparent [of "mv_features P" answer "mv_otel P", OF assms(3)] assms(4)
    by (auto simp: layer_def router_registry_default_def)
  have "add_otel P b0 w = (Inr ?b1, w1)"
    using add_otel_ok [of P b0, OF _ assms(9)] assms(4-6) by simp
  moreover have "with_plugin (spa_plugin (mv_figment P) (mv_env P) spa_section Nothing M
      (from_service (mv_axum P)) (DIST inc)) ?b1 w1 = (Inr ?b2, w1)"
    using spa_registered [of P spa_section ?b1 M "from_service (mv_axum P)" inc w1] assms(8) fig router(2) by simp
  moreover have "add_web P ''spa::routes'' (spa_routes (mv_axum P)) ?b2 w1 = (Inr ?b3, w1)"
    using fig assms(4,7) after(2) by (intro add_web_ok) simp_all
  ultimately have chain: "chain (spa_chain P spa_section M inc) b0 w = (Inr ?b3, w1)"
    by (simp add: spa_chain_def)
  have serve: "bc_serve_fn (ab_ctx ?b3) = Some (\<lambda>router. serve_loop (mv_server P) (mv_net P) router wcfg
        (if wc_banner wcfg then Some (banner_routes (bc_router (ab_ctx ?b3))) else None) (mv_token P))"
    using after(3) assms(4) by (simp add: with_web_def Let_def app_named_def named_def)
  let ?q = "spa_request.truncate q"
  have q: "sr_method ?q = GET" "sr_headers ?q ''if-none-match'' = None" "sr_path ?q = sr_path q"
    using assms(10,11) by (simp_all add: spa_request.truncate_def)
  have resp: "respond answer (compose (axum_api.truncate (mv_axum P)) (bc_router (ab_ctx ?b3))) q u =
    (if sr_path q = ''/api/hello'' then (text_response 200 ''hello'', u)
     else if sr_path q = ''/health'' then (text_response 200 ''ok'', u)
     else spa_router M (DIST inc) spa_config_default ?q u)"
    using spa_served [OF assms(1), of "(bc_router ctx1)\<lparr>rr_fallback := Some ?spa\<rparr>" M inc q "ab_state ?b2" u]
      router assms(10) by simp
  have special: "reserved ''/api/hello''" "reserved ''/health''" "reserved ''/assets/app-abc123.js''"
    by code_simp+
  note spa = spa_service [OF assms(2) q(1,2), unfolded q(3)]
  show ?thesis
  proof (intro exI [of _ ?b3] conjI chain serve)
    show "spa_main P spa_section M inc w = run (mv_runtime P) (axum_api.truncate (mv_axum P)) ?b3 w1"
      using chain by (simp add: spa_main_def run_chain_def assms(4))
  qed (use resp spa special in \<open>auto simp: Let_def not_found_def\<close>)
qed

definition cache_text :: "cache_control \<Rightarrow> string" where
  "cache_text cc = (case cc of CacheNoCache \<Rightarrow> ''no-cache'' | CacheMedium \<Rightarrow> ''max-age=604800'')"

definition reference_files :: "(string, 'w) memory_serve" where
  "reference_files =
     \<lparr>ms_files = (\<lambda>assets html_cc cc q w.
        (case find (\<lambda>a. as_route a = (if sr_path q = ''/'' then INDEX else sr_path q)) assets of
           Some a \<Rightarrow>
             (map_option (\<lambda>bytes. \<lparr>rp_status = 200,
                rp_headers = [''content-type'' \<mapsto> as_content_type a,
                  ''cache-control'' \<mapsto> cache_text (if as_content_type a = ''text/html'' then html_cc else cc)],
                rp_body = bytes\<rparr>) (as_bytes a), w)
         | None \<Rightarrow> (None, w))),
      ms_empty = []\<rparr>"

lemma find_route: "distinct (map as_route assets) \<Longrightarrow> a \<in> set assets \<Longrightarrow>
    find (\<lambda>b. as_route b = as_route a) assets = Some a"
  by (induction assets) force+

lemma reference_files_laws: "memory_serve_laws reference_files"
  unfolding memory_serve_laws_def
proof (intro conjI allI impI)
  show "ms_empty reference_files = []" by (simp add: reference_files_def)
next
  fix assets :: "asset list" and html_cc cc and q :: spa_request and w :: 'a and a bytes
  assume "distinct (map as_route assets)" "a \<in> set assets" "as_route a = sr_path q" "as_bytes a = Some bytes"
    "sr_path q \<noteq> ''/''"
  with find_route [of assets a] show "\<exists>hdrs. ms_files reference_files assets html_cc cc q w
      = (Some \<lparr>rp_status = 200, rp_headers = hdrs, rp_body = bytes\<rparr>, w)
      \<and> hdrs ''content-type'' = Some (as_content_type a)
      \<and> (as_content_type a = ''text/html'' \<longrightarrow> html_cc = CacheNoCache \<longrightarrow> hdrs ''cache-control'' = Some ''no-cache'')"
    by (simp add: reference_files_def cache_text_def)
next
  fix assets :: "asset list" and html_cc cc and q :: spa_request and w :: 'a
  assume "sr_path q = ''/''"
  then show "ms_files reference_files assets html_cc cc q w
      = ms_files reference_files assets html_cc cc (q\<lparr>sr_path := INDEX\<rparr>) w"
    by (simp add: reference_files_def INDEX_def)
next
  fix assets :: "asset list" and html_cc cc and q :: spa_request and w :: 'a
  assume "sr_path q \<noteq> ''/''" "sr_path q \<notin> as_route ` set assets"
  then have "find (\<lambda>a. as_route a = sr_path q) assets = None" unfolding find_None_iff by (metis image_eqI)
  with \<open>sr_path q \<noteq> ''/''\<close> show "ms_files reference_files assets html_cc cc q w = (None, w)"
    by (simp add: reference_files_def)
qed

theorem spa_example_serves_witness:
  "\<exists>b. chain (spa_chain quiet_env (\<lambda>_ _. Inl ''unread'') reference_files (\<lambda>f. f)) (app_named quiet_env ''spa'') 0
       = (Inr b, 0)
     \<and> fetched (respond (\<lambda>r. r) (compose (axum_api.truncate reference_axum) (bc_router (ab_ctx b))) (get_request ''/games/1'') 5)
         5 ''spa/dist/index.html'' ''text/html'' ''no-cache''"
proof -
  let ?b0 = "app_named quiet_env ''spa'' :: ((unit, unit) resource, _, _, _, _, _, _) app_builder"
  have fig: "bc_figment (ab_ctx ?b0) = (\<lambda>_. None)" by (simp add: quiet_parts demo_figment_empty)
  have free: "\<not> reserved (sr_path (get_request ''/games/1''))"
    unfolding get_request_def http_request.simps spa_request.simps by code_simp
  have "sr_method (get_request ''/games/1'') = GET" "sr_headers (get_request ''/games/1'') ''if-none-match'' = None"
    by (simp_all add: get_request_def)
  note served = spa_example_serves [of quiet_env "\<lambda>r. r", unfolded quiet_parts, OF reference_routing_laws
      reference_files_laws _ refl fig [symmetric] quiet_reads _ quiet_otel_build this]
  have "transparent (\<lambda>r. r) (trace_http_layer quiet_otel)" by (simp add: transparent_def quiet_otel_def)
  note served [OF this, of "\<lambda>_ _. Inl ''unread''" "\<lambda>f. f" 0 5, OF get_or_env_default [OF demo_section_absent]]
  then show ?thesis using free unfolding Let_def by blast
qed

end
