(* ===== verification/Example_Widgets.thy ===== *)
theory Example_Widgets
  imports Examples "HOL-Library.Multiset"
begin

text \<open>
  \<open>muxa/examples/diesel_widgets/main.rs\<close>: a JSON API over a database. The handlers, the queries they build,
  and the application, whose Diesel plugin applies the embedded migrations before anything is served.
  What the handlers rely on of Postgres is \<open>widget_table_laws\<close>.
\<close>

section \<open>Model\<close>

text \<open>
  The queries the handlers build, as data; a row is the list of its columns. \<open>OrderAsc column\<close> is
  \<open>.order(column.asc())\<close>.
\<close>

type_synonym i32 = "32 word"

datatype sql_value = SqlText string | SqlInt i32

datatype ordering = Unordered | OrderAsc string

datatype sql_query =
    SelectRows string "string list" ordering
  | InsertReturning string "(string \<times> sql_value) list" "string list"

record widget =
  wg_id :: i32
  wg_name :: string
  wg_quantity :: i32

record new_widget =
  nw_name :: string
  nw_quantity :: i32

text \<open>\<open>Selectable\<close> and \<open>Queryable\<close>: the columns of the fields, and a row read by position.\<close>

definition widget_columns :: "string list" where
  "widget_columns = [''id'', ''name'', ''quantity'']"

definition widget_from_row :: "sql_value list \<Rightarrow> string + widget" where
  "widget_from_row row =
     (case row of
        [SqlInt i, SqlText n, SqlInt q] \<Rightarrow> Inr \<lparr>wg_id = i, wg_name = n, wg_quantity = q\<rparr>
      | _ \<Rightarrow> Inl ''unexpected row'')"

text \<open>\<open>Insertable\<close>: one column per field.\<close>

definition new_widget_values :: "new_widget \<Rightarrow> (string \<times> sql_value) list" where
  "new_widget_values new = [(''name'', SqlText (nw_name new)), (''quantity'', SqlInt (nw_quantity new))]"

text \<open>
  The pool, diesel's execution of a query, the request counter, and serde: \<open>json_new\<close> is the extractor
  \<open>Json<NewWidget>\<close> with the rejection it answers.
\<close>

record ('pool, 'conn, 'w) widgets_api =
  wa_get :: "'pool \<Rightarrow> 'w \<Rightarrow> (string + 'conn) \<times> 'w"
  wa_execute :: "'conn \<Rightarrow> sql_query \<Rightarrow> 'w \<Rightarrow> (string + sql_value list list) \<times> 'w"
  wa_count :: "string \<Rightarrow> 'w \<Rightarrow> 'w"
  json_new :: "http_request \<Rightarrow> response + new_widget"
  render_widget :: "widget \<Rightarrow> string"
  render_widgets :: "widget list \<Rightarrow> string"

text \<open>\<open>collect\<close> of results: the first error wins.\<close>

fun collect_rows :: "(sql_value list \<Rightarrow> string + 'a) \<Rightarrow> sql_value list list \<Rightarrow> string + 'a list" where
  "collect_rows f [] = Inr []"
| "collect_rows f (row # rows) =
     (case f row of
        Inl e \<Rightarrow> Inl e
      | Inr x \<Rightarrow> (case collect_rows f rows of Inl e \<Rightarrow> Inl e | Inr xs \<Rightarrow> Inr (x # xs)))"

text \<open>\<open>load\<close> reads every row; \<open>get_result\<close> the first, and none is diesel's \<open>NotFound\<close>.\<close>

definition load_rows ::
    "('pool, 'conn, 'w) widgets_api \<Rightarrow> 'conn \<Rightarrow> sql_query \<Rightarrow> 'w \<Rightarrow> (string + widget list) \<times> 'w" where
  "load_rows W conn query w =
     (case wa_execute W conn query w of
        (Inl e, w) \<Rightarrow> (Inl e, w)
      | (Inr rows, w) \<Rightarrow> (collect_rows widget_from_row rows, w))"

definition get_result ::
    "('pool, 'conn, 'w) widgets_api \<Rightarrow> 'conn \<Rightarrow> sql_query \<Rightarrow> 'w \<Rightarrow> (string + widget) \<times> 'w" where
  "get_result W conn query w =
     (case load_rows W conn query w of
        (Inl e, w) \<Rightarrow> (Inl e, w)
      | (Inr [], w) \<Rightarrow> (Inl ''Record not found'', w)
      | (Inr (x # xs), w) \<Rightarrow> (Inr x, w))"

text \<open>An error of any kind becomes a 500 with its message.\<close>

definition internal :: "string \<Rightarrow> nat \<times> string" where
  "internal err = (500, err)"

definition list_widgets ::
    "('pool, 'conn, 'w) widgets_api \<Rightarrow> 'pool \<Rightarrow> 'w \<Rightarrow> ((nat \<times> string) + widget list) \<times> 'w" where
  "list_widgets W pool w =
     (let w = wa_count W ''list'' w
      in io_then (\<lambda>w. apfst (map_err internal) (wa_get W pool w)) (\<lambda>conn.
         io_then (\<lambda>w. apfst (map_err internal)
             (load_rows W conn (SelectRows ''widgets'' widget_columns (OrderAsc ''id'')) w)) (\<lambda>rows w.
         (Inr rows, w))) w)"

definition create_widget ::
    "('pool, 'conn, 'w) widgets_api \<Rightarrow> 'pool \<Rightarrow> new_widget \<Rightarrow> 'w
      \<Rightarrow> ((nat \<times> string) + (nat \<times> widget)) \<times> 'w" where
  "create_widget W pool new w =
     (let w = wa_count W ''create'' w
      in io_then (\<lambda>w. apfst (map_err internal) (wa_get W pool w)) (\<lambda>conn.
         io_then (\<lambda>w. apfst (map_err internal)
             (get_result W conn (InsertReturning ''widgets'' (new_widget_values new) widget_columns) w))
           (\<lambda>row w. (Inr (201, row), w))) w)"

text \<open>\<open>IntoResponse\<close> of the handlers' results.\<close>

definition json_response :: "nat \<Rightarrow> string \<Rightarrow> response" where
  "json_response status body =
     \<lparr>rp_status = status, rp_headers = [''content-type'' \<mapsto> ''application/json''], rp_body = body\<rparr>"

definition list_handler :: "('pool, 'conn, 'w) widgets_api \<Rightarrow> 'pool \<Rightarrow> 'w handler" where
  "list_handler W pool request w =
     (case list_widgets W pool w of
        (Inl (status, msg), w) \<Rightarrow> (text_response status msg, w)
      | (Inr rows, w) \<Rightarrow> (json_response 200 (render_widgets W rows), w))"

definition create_handler :: "('pool, 'conn, 'w) widgets_api \<Rightarrow> 'pool \<Rightarrow> 'w handler" where
  "create_handler W pool request w =
     (case json_new W request of
        Inl rejection \<Rightarrow> (rejection, w)
      | Inr new \<Rightarrow>
          (case create_widget W pool new w of
             (Inl (status, msg), w) \<Rightarrow> (text_response status msg, w)
           | (Inr (status, row), w) \<Rightarrow> (json_response status (render_widget W row), w)))"

text \<open>
  The routes take the pool out of the state: \<open>i\<close> is the position the compiler infers for
  \<open>HasPgExecutorFor<DieselBackend>\<close>. A state without the pool does not compile; its router is empty here.
\<close>

definition widgets_routes ::
    "('r, 'w) routing_api \<Rightarrow> ('pool, 'conn, 'w) widgets_api \<Rightarrow> idx \<Rightarrow> ('pool, 'lite) resource hlist \<Rightarrow> 'r" where
  "widgets_routes A W i state =
     (case pg_executor i state of
        Some (PgPool pool) \<Rightarrow>
          route A
            (route A (router_new A) ''/widgets''
              [(GET, list_handler W pool), (OtherMethod ''POST'', create_handler W pool)])
            ''/health'' [(GET, static_text ''ok'')]
      | _ \<Rightarrow> router_new A)"

definition widgets_chain ::
    "('fig, 'val, 'prov, 'r, 'tok, 'w, 'h, 'l, 'jh, 'e, 'p, 'a, 's, 'ln, 'c) main_env
      \<Rightarrow> ('fig \<Rightarrow> string \<Rightarrow> string + diesel_config) \<Rightarrow> bool \<Rightarrow> ('m, 'conn, 'pool, 'w) diesel_api
      \<Rightarrow> 'err + usize \<Rightarrow> usize option \<Rightarrow> 'm list \<Rightarrow> ('pool, 'dbconn, 'w) widgets_api
      \<Rightarrow> (('pool, unit) resource, 'fig, 'r, 'tok, 'w, 'h, 'l) chain_step list" where
  "widgets_chain P diesel_section sentry D available cell MIGRATIONS W =
     [add_otel P,
      with_plugin (diesel_plugin_of (mv_figment P) (mv_env P) diesel_section PgPool sentry D available cell
        (with_migrations (migrations_runner_new MIGRATIONS) diesel_plugin_new)),
      add_web P ''diesel_widgets::routes'' (widgets_routes (mv_axum P) W Here)]"

definition widgets_main ::
    "('fig, 'val, 'prov, 'r, 'tok, 'w, 'h, 'l, 'jh, 'e, 'p, 'a, 's, 'ln, 'c) main_env
      \<Rightarrow> ('fig \<Rightarrow> string \<Rightarrow> string + diesel_config) \<Rightarrow> bool \<Rightarrow> ('m, 'conn, 'pool, 'w) diesel_api
      \<Rightarrow> 'err + usize \<Rightarrow> usize option \<Rightarrow> 'm list \<Rightarrow> ('pool, 'dbconn, 'w) widgets_api
      \<Rightarrow> 'w \<Rightarrow> unit result \<times> 'w" where
  "widgets_main P diesel_section sentry D available cell MIGRATIONS W =
     run_chain P (widgets_chain P diesel_section sentry D available cell MIGRATIONS W)
       (app_from_file P ''/examples/diesel_widgets/config.toml'' ''diesel-widgets'')"

section \<open>The widgets API\<close>

text \<open>
  The table, as Postgres documents what the handlers use: \<open>rows w\<close> are its rows, oldest first. A select
  gives the columns it asks for, in their order, sorted when it asks for it; an insert appends a row
  whose \<open>SERIAL\<close> id is larger than those before it and returns the columns it asks for; a failed
  statement changes nothing, and neither do the pool and the request counter.
\<close>

fun widget_column :: "widget \<Rightarrow> string \<Rightarrow> sql_value" where
  "widget_column x c =
     (if c = ''id'' then SqlInt (wg_id x)
      else if c = ''name'' then SqlText (wg_name x) else SqlInt (wg_quantity x))"

definition select_law :: "('pool, 'conn, 'w) widgets_api \<Rightarrow> ('w \<Rightarrow> widget list) \<Rightarrow> bool" where
  "select_law W rows \<longleftrightarrow>
     (\<forall>conn cols ord w res w'. set cols \<subseteq> {''id'', ''name'', ''quantity''} \<longrightarrow>
        wa_execute W conn (SelectRows ''widgets'' cols ord) w = (Inr res, w') \<longrightarrow>
        (\<exists>xs. mset xs = mset (rows w) \<and> res = map (\<lambda>x. map (widget_column x) cols) xs
           \<and> (ord = OrderAsc ''id'' \<longrightarrow> sorted (map (\<lambda>x. sint (wg_id x)) xs))))"

definition insert_law :: "('pool, 'conn, 'w) widgets_api \<Rightarrow> ('w \<Rightarrow> widget list) \<Rightarrow> bool" where
  "insert_law W rows \<longleftrightarrow>
     (\<forall>conn vals cols w res w' n k. set cols \<subseteq> {''id'', ''name'', ''quantity''} \<longrightarrow>
        map_of vals ''name'' = Some (SqlText n) \<longrightarrow>
        k = (case map_of vals ''quantity'' of None \<Rightarrow> 0 | Some (SqlInt q) \<Rightarrow> q | Some (SqlText _) \<Rightarrow> 0) \<longrightarrow>
        wa_execute W conn (InsertReturning ''widgets'' vals cols) w = (Inr res, w') \<longrightarrow>
        (\<exists>x. wg_name x = n \<and> wg_quantity x = k \<and> (\<forall>y \<in> set (rows w). sint (wg_id y) < sint (wg_id x))
           \<and> rows w' = rows w @ [x] \<and> res = [map (widget_column x) cols]))"

definition widget_table_laws :: "('pool, 'conn, 'w) widgets_api \<Rightarrow> ('w \<Rightarrow> widget list) \<Rightarrow> bool" where
  "widget_table_laws W rows \<longleftrightarrow> select_law W rows \<and> insert_law W rows
     \<and> (\<forall>op w. rows (wa_count W op w) = rows w)
     \<and> (\<forall>pool w. rows (snd (wa_get W pool w)) = rows w)
     \<and> (\<forall>conn cols ord w. rows (snd (wa_execute W conn (SelectRows ''widgets'' cols ord) w)) = rows w)
     \<and> (\<forall>conn vals cols w e w'. wa_execute W conn (InsertReturning ''widgets'' vals cols) w = (Inl e, w') \<longrightarrow>
          rows w' = rows w)"

lemma widget_row: "widget_from_row (map (widget_column x) widget_columns) = Inr x"
  by (simp add: widget_from_row_def widget_columns_def)

lemma widget_rows: "collect_rows widget_from_row (map (\<lambda>x. map (widget_column x) widget_columns) xs) = Inr xs"
  by (induction xs) (simp_all add: widget_row del: widget_column.simps)

lemma widget_column_names: "set widget_columns \<subseteq> {''id'', ''name'', ''quantity''}"
  by (simp add: widget_columns_def)

lemma widget_table_lawsD:
  assumes "widget_table_laws W rows"
  shows "rows (wa_count W op w) = rows w" and "rows (snd (wa_get W pool w)) = rows w"
    and "rows (snd (wa_execute W conn (SelectRows ''widgets'' cols ord) w)) = rows w"
    and "wa_execute W conn (SelectRows ''widgets'' widget_columns (OrderAsc ''id'')) w = (Inr res, w') \<Longrightarrow>
      \<exists>xs. mset xs = mset (rows w) \<and> sorted (map (\<lambda>x. sint (wg_id x)) xs)
         \<and> collect_rows widget_from_row res = Inr xs"
    and "wa_execute W conn (InsertReturning ''widgets'' vals cols) w = (Inl e, w') \<Longrightarrow> rows w' = rows w"
    and "wa_execute W conn (InsertReturning ''widgets'' (new_widget_values new) widget_columns) w = (Inr res, w') \<Longrightarrow>
      \<exists>x. wg_name x = nw_name new \<and> wg_quantity x = nw_quantity new
         \<and> (\<forall>y \<in> set (rows w). sint (wg_id y) < sint (wg_id x)) \<and> rows w' = rows w @ [x]
         \<and> collect_rows widget_from_row res = Inr [x]"
proof -
  note l = assms [unfolded widget_table_laws_def]
  show "rows (wa_count W op w) = rows w" "rows (snd (wa_get W pool w)) = rows w"
    "rows (snd (wa_execute W conn (SelectRows ''widgets'' cols ord) w)) = rows w"
    using l by simp_all
  show "wa_execute W conn (InsertReturning ''widgets'' vals cols) w = (Inl e, w') \<Longrightarrow> rows w' = rows w"
    using l by blast
  from l have select: "select_law W rows" and insert: "insert_law W rows" by simp_all
  show "\<exists>xs. mset xs = mset (rows w) \<and> sorted (map (\<lambda>x. sint (wg_id x)) xs)
         \<and> collect_rows widget_from_row res = Inr xs"
    if "wa_execute W conn (SelectRows ''widgets'' widget_columns (OrderAsc ''id'')) w = (Inr res, w')"
    using select [unfolded select_law_def, rule_format, OF widget_column_names that] widget_rows by blast
  have name: "map_of (new_widget_values new) ''name'' = Some (SqlText (nw_name new))"
    and quantity: "nw_quantity new = (case map_of (new_widget_values new) ''quantity'' of
        None \<Rightarrow> 0 | Some (SqlInt q) \<Rightarrow> q | Some (SqlText _) \<Rightarrow> 0)"
    by (simp_all add: new_widget_values_def)
  show "\<exists>x. wg_name x = nw_name new \<and> wg_quantity x = nw_quantity new
         \<and> (\<forall>y \<in> set (rows w). sint (wg_id y) < sint (wg_id x)) \<and> rows w' = rows w @ [x]
         \<and> collect_rows widget_from_row res = Inr [x]"
    if "wa_execute W conn (InsertReturning ''widgets'' (new_widget_values new) widget_columns) w = (Inr res, w')"
    using insert [unfolded insert_law_def, rule_format, OF widget_column_names name quantity that]
      widget_rows [of "[_]", simplified] by (auto simp del: widget_column.simps)
qed

text \<open>What each handler answers and does to the table.\<close>

lemma list_widgets_spec:
  assumes laws: "widget_table_laws W rows" and run: "list_widgets W pool w = (r, w')"
  shows "rows w' = rows w \<and> (case r of
      Inl (status, _) \<Rightarrow> status = 500
    | Inr xs \<Rightarrow> mset xs = mset (rows w) \<and> sorted (map (\<lambda>x. sint (wg_id x)) xs))"
proof -
  note kept = widget_table_lawsD(1-3) [OF laws]
  let ?query = "SelectRows ''widgets'' widget_columns (OrderAsc ''id'')"
  obtain g w1 where get: "wa_get W pool (wa_count W ''list'' w) = (g, w1)" by (metis surj_pair)
  have w1: "rows w1 = rows w" using kept(2) [of pool "wa_count W ''list'' w"] kept(1) get by simp
  show ?thesis
  proof (cases g)
    case (Inl e)
    with run get w1 show ?thesis
      by (auto simp: list_widgets_def io_then_def internal_def apfst_def map_prod_def)
  next
    case (Inr conn)
    obtain x w2 where exec: "wa_execute W conn ?query w1 = (x, w2)" by (metis surj_pair)
    have w2: "rows w2 = rows w" using kept(3) [of conn widget_columns "OrderAsc ''id''" w1] exec w1 by simp
    show ?thesis
    proof (cases x)
      case (Inl e)
      with run get Inr exec w2 show ?thesis
        by (auto simp: list_widgets_def io_then_def internal_def load_rows_def apfst_def map_prod_def)
    next
      case res: (Inr res)
      from widget_table_lawsD(4) [OF laws, of conn w1 res w2] exec res obtain xs
        where xs: "mset xs = mset (rows w1)" "sorted (map (\<lambda>x. sint (wg_id x)) xs)"
          "collect_rows widget_from_row res = Inr xs" by blast
      with run get Inr exec res w1 w2 show ?thesis
        by (auto simp: list_widgets_def io_then_def internal_def load_rows_def apfst_def map_prod_def)
    qed
  qed
qed

lemma create_widget_spec:
  assumes laws: "widget_table_laws W rows" and run: "create_widget W pool new w = (r, w')"
  shows "case r of
      Inl (status, _) \<Rightarrow> status = 500 \<and> rows w' = rows w
    | Inr (status, x) \<Rightarrow> status = 201 \<and> wg_name x = nw_name new \<and> wg_quantity x = nw_quantity new
        \<and> rows w' = rows w @ [x] \<and> (\<forall>y \<in> set (rows w). sint (wg_id y) < sint (wg_id x))"
proof -
  note kept = widget_table_lawsD(1-3) [OF laws]
  let ?query = "InsertReturning ''widgets'' (new_widget_values new) widget_columns"
  obtain g w1 where get: "wa_get W pool (wa_count W ''create'' w) = (g, w1)" by (metis surj_pair)
  have w1: "rows w1 = rows w" using kept(2) [of pool "wa_count W ''create'' w"] kept(1) get by simp
  show ?thesis
  proof (cases g)
    case (Inl e)
    with run get w1 show ?thesis
      by (auto simp: create_widget_def io_then_def internal_def apfst_def map_prod_def)
  next
    case (Inr conn)
    obtain x w2 where exec: "wa_execute W conn ?query w1 = (x, w2)" by (metis surj_pair)
    show ?thesis
    proof (cases x)
      case (Inl e)
      with run get Inr exec widget_table_lawsD(5) [OF laws exec [unfolded Inl]] w1 show ?thesis
        by (auto simp: create_widget_def io_then_def internal_def get_result_def load_rows_def apfst_def map_prod_def)
    next
      case res: (Inr res)
      from widget_table_lawsD(6) [OF laws exec [unfolded res]] obtain y
        where "wg_name y = nw_name new" "wg_quantity y = nw_quantity new"
          "\<forall>z \<in> set (rows w1). sint (wg_id z) < sint (wg_id y)" "rows w2 = rows w1 @ [y]"
          "collect_rows widget_from_row res = Inr [y]" by blast
      with run get Inr exec res w1 show ?thesis
        by (auto simp: create_widget_def io_then_def internal_def get_result_def load_rows_def apfst_def map_prod_def)
    qed
  qed
qed

text \<open>A handler's query fails with \<open>msg\<close>: the pool gives no connection, or the database refuses it.\<close>

definition query_fails ::
    "('pool, 'conn, 'w) widgets_api \<Rightarrow> 'pool \<Rightarrow> string \<Rightarrow> sql_query \<Rightarrow> 'w \<Rightarrow> string \<Rightarrow> bool" where
  "query_fails W pool op query w msg \<longleftrightarrow>
     (\<exists>u. wa_get W pool (wa_count W op w) = (Inl msg, u))
     \<or> (\<exists>conn u v. wa_get W pool (wa_count W op w) = (Inr conn, u) \<and> wa_execute W conn query u = (Inl msg, v))"

lemma list_widgets_fails:
  assumes laws: "widget_table_laws W rows"
  shows "fst (list_widgets W pool w) = Inl r \<longleftrightarrow>
    (\<exists>msg. r = (500, msg)
       \<and> query_fails W pool ''list'' (SelectRows ''widgets'' widget_columns (OrderAsc ''id'')) w msg)"
proof -
  obtain g w1 where get: "wa_get W pool (wa_count W ''list'' w) = (g, w1)" by (metis surj_pair)
  show ?thesis
  proof (cases g)
    case (Inl e)
    with get show ?thesis by (auto simp: list_widgets_def io_then_def internal_def query_fails_def)
  next
    case (Inr conn)
    obtain x w2 where exec: "wa_execute W conn (SelectRows ''widgets'' widget_columns (OrderAsc ''id'')) w1 = (x, w2)"
      by (metis surj_pair)
    show ?thesis
    proof (cases x)
      case Inl
      with get Inr exec show ?thesis
        by (auto simp: list_widgets_def io_then_def internal_def load_rows_def query_fails_def)
    next
      case res: (Inr res)
      with widget_table_lawsD(4) [OF laws exec [unfolded res]] get Inr exec show ?thesis
        by (auto simp: list_widgets_def io_then_def internal_def load_rows_def query_fails_def)
    qed
  qed
qed

lemma create_widget_fails:
  assumes laws: "widget_table_laws W rows"
  shows "fst (create_widget W pool new w) = Inl r \<longleftrightarrow>
    (\<exists>msg. r = (500, msg)
       \<and> query_fails W pool ''create'' (InsertReturning ''widgets'' (new_widget_values new) widget_columns) w msg)"
proof -
  obtain g w1 where get: "wa_get W pool (wa_count W ''create'' w) = (g, w1)" by (metis surj_pair)
  show ?thesis
  proof (cases g)
    case (Inl e)
    with get show ?thesis by (auto simp: create_widget_def io_then_def internal_def query_fails_def)
  next
    case (Inr conn)
    obtain x w2 where exec: "wa_execute W conn (InsertReturning ''widgets'' (new_widget_values new) widget_columns) w1 = (x, w2)"
      by (metis surj_pair)
    show ?thesis
    proof (cases x)
      case Inl
      with get Inr exec show ?thesis
        by (auto simp: create_widget_def io_then_def internal_def get_result_def load_rows_def query_fails_def)
    next
      case res: (Inr res)
      with widget_table_lawsD(6) [OF laws exec [unfolded res]] get Inr exec show ?thesis
        by (auto simp: create_widget_def io_then_def internal_def get_result_def load_rows_def query_fails_def)
    qed
  qed
qed

text \<open>In a list sorted by its keys, an element whose key is above all others stands last.\<close>

lemma sorted_last_max:
  fixes key :: "'a \<Rightarrow> 'k :: linorder"
  assumes "mset xs = mset (ys @ [x])" and "sorted (map key xs)" and "\<forall>y \<in> set ys. key y < key x"
  shows "xs \<noteq> [] \<and> last xs = x \<and> mset (butlast xs) = mset ys"
proof -
  from assms(1) have sets: "set xs = insert x (set ys)" by (metis list.set(2) mset_append mset_eq_setD
        set_append append.simps(1) Un_insert_right sup_bot.right_neutral list.set(1))
  then have ne: "xs \<noteq> []" by auto
  then have xs: "xs = butlast xs @ [last xs]" by simp
  have "key x \<le> key (last xs)"
  proof -
    have "sorted (map key (butlast xs) @ [key (last xs)])"
      using assms(2) xs by (metis list.simps(8,9) map_append)
    then have "\<forall>y \<in> set (butlast xs). key y \<le> key (last xs)" by (simp add: sorted_append)
    moreover have "x \<in> set (butlast xs) \<or> x = last xs" using sets xs
      by (metis insertI1 set_append UnE empty_iff insert_iff list.set)
    ultimately show ?thesis by auto
  qed
  moreover have "last xs = x \<or> last xs \<in> set ys" using sets ne by (metis insert_iff last_in_set)
  ultimately have last: "last xs = x" using assms(3) by (auto simp: leD)
  have "mset xs = add_mset (last xs) (mset (butlast xs))" using xs by (metis mset_append mset.simps add_mset_add_single)
  with assms(1) last ne show ?thesis by simp
qed

text \<open>
  C26: the widgets API. Creating a widget inserts exactly one row with the body's name and quantity and
  answers 201 with that row; the list answers all rows, oldest first; each fails exactly when the pool or
  the database does, with 500 and that failure's message, and leaves the table as it was. So as long as nobody else writes, a
  list after a successful creation ends with the created widget, after the rows that were there before.
\<close>

theorem widgets_roundtrip:
  assumes "widget_table_laws W rows"
    and "create_widget W pool new w = (made, w1)"
    and "rows w2 = rows w1" and "list_widgets W pool w2 = (listed, w3)"
  shows "(case made of
      Inl (status, _) \<Rightarrow> status = 500 \<and> rows w1 = rows w
    | Inr (status, x) \<Rightarrow> status = 201 \<and> wg_name x = nw_name new \<and> wg_quantity x = nw_quantity new
        \<and> rows w1 = rows w @ [x])
    \<and> rows w3 = rows w1
    \<and> (case listed of
         Inl (status, _) \<Rightarrow> status = 500
       | Inr xs \<Rightarrow> mset xs = mset (rows w1) \<and> sorted (map (\<lambda>x. sint (wg_id x)) xs))
    \<and> (\<forall>status x xs. made = Inr (status, x) \<longrightarrow> listed = Inr xs \<longrightarrow>
         xs \<noteq> [] \<and> last xs = x \<and> mset (butlast xs) = mset (rows w))
    \<and> (\<forall>r. made = Inl r \<longleftrightarrow> (\<exists>msg. r = (500, msg) \<and> query_fails W pool ''create''
          (InsertReturning ''widgets'' (new_widget_values new) widget_columns) w msg))
    \<and> (\<forall>r. listed = Inl r \<longleftrightarrow> (\<exists>msg. r = (500, msg) \<and> query_fails W pool ''list''
          (SelectRows ''widgets'' widget_columns (OrderAsc ''id'')) w2 msg))"
proof -
  note c = create_widget_spec [OF assms(1,2)] and l = list_widgets_spec [OF assms(1,4), unfolded assms(3)]
  note made = create_widget_fails [OF assms(1), of pool new w, unfolded assms(2) fst_conv]
    and listed = list_widgets_fails [OF assms(1), of pool w2, unfolded assms(4) fst_conv]
  have "xs \<noteq> [] \<and> last xs = x \<and> mset (butlast xs) = mset (rows w)"
    if "made = Inr (status, x)" "listed = Inr xs" for status x xs
    using c l that by (intro sorted_last_max [where key = "\<lambda>x. sint (wg_id x)"]) simp_all
  moreover have "case made of
      Inl (status, _) \<Rightarrow> status = 500 \<and> rows w1 = rows w
    | Inr (status, x) \<Rightarrow> status = 201 \<and> wg_name x = nw_name new \<and> wg_quantity x = nw_quantity new
        \<and> rows w1 = rows w @ [x]"
    using c by (auto split: sum.splits)
  ultimately show ?thesis using l by (intro conjI allI made listed) blast+
qed

text \<open>A table in memory: the next id is one above the largest, and the insert fails when there is none.\<close>

definition next_id :: "widget list \<Rightarrow> i32" where
  "next_id xs = fold (\<lambda>x i. if sint i \<le> sint (wg_id x) then wg_id x + 1 else i) xs 1"

definition memory_table :: "(unit, unit, widget list) widgets_api" where
  "memory_table =
     \<lparr>wa_get = (\<lambda>_ w. (Inr (), w)),
      wa_execute = (\<lambda>_ query w.
        case query of
          SelectRows table cols ord \<Rightarrow>
            (Inr (map (\<lambda>x. map (widget_column x) cols)
               (if ord = Unordered then w else sort_key (\<lambda>x. sint (wg_id x)) w)), w)
        | InsertReturning table vals cols \<Rightarrow>
            (case map_of vals ''name'' of
               Some (SqlText n) \<Rightarrow>
                 (let k = (case map_of vals ''quantity'' of None \<Rightarrow> 0 | Some (SqlInt q) \<Rightarrow> q | Some (SqlText _) \<Rightarrow> 0);
                      x = \<lparr>wg_id = next_id w, wg_name = n, wg_quantity = k\<rparr>
                  in if \<forall>y \<in> set w. sint (wg_id y) < sint (wg_id x)
                     then (Inr [map (widget_column x) cols], w @ [x]) else (Inl ''integer out of range'', w))
             | _ \<Rightarrow> (Inl ''null value in column name'', w))),
      wa_count = (\<lambda>_ w. w), json_new = (\<lambda>q. Inr \<lparr>nw_name = hr_body q, nw_quantity = 0\<rparr>),
      render_widget = wg_name, render_widgets = (\<lambda>xs. concat (map wg_name xs))\<rparr>"

lemma memory_table_laws: "widget_table_laws memory_table (\<lambda>w. w)"
proof -
  have "select_law memory_table (\<lambda>w. w)"
    unfolding select_law_def
  proof (intro allI impI)
    fix conn cols ord and w :: "widget list" and res w'
    assume "wa_execute memory_table conn (SelectRows ''widgets'' cols ord) w = (Inr res, w')"
    then show "\<exists>xs. mset xs = mset w \<and> res = map (\<lambda>x. map (widget_column x) cols) xs
           \<and> (ord = OrderAsc ''id'' \<longrightarrow> sorted (map (\<lambda>x. sint (wg_id x)) xs))"
      by (intro exI [of _ "if ord = Unordered then w else sort_key (\<lambda>x. sint (wg_id x)) w"])
        (auto simp: memory_table_def)
  qed
  moreover have "insert_law memory_table (\<lambda>w. w)"
    unfolding insert_law_def
    by (auto simp: memory_table_def Let_def split: if_splits)
  ultimately show ?thesis
    unfolding widget_table_laws_def
    by (auto simp: memory_table_def Let_def split: option.splits sql_value.splits if_splits)
qed

definition sprocket :: widget where
  "sprocket = \<lparr>wg_id = 1, wg_name = ''sprocket'', wg_quantity = 5\<rparr>"

theorem widgets_roundtrip_witness:
  "\<exists>x xs w1. create_widget memory_table () \<lparr>nw_name = ''gear'', nw_quantity = 7\<rparr> [sprocket] = (Inr (201, x), w1)
     \<and> fst (list_widgets memory_table () w1) = Inr xs \<and> last xs = x \<and> mset (butlast xs) = {#sprocket#}
     \<and> wg_quantity x = 7"
proof -
  let ?new = "\<lparr>nw_name = ''gear'', nw_quantity = 7\<rparr>"
  let ?x = "\<lparr>wg_id = 2, wg_name = ''gear'', wg_quantity = 7\<rparr>"
  have "\<not> sint (1 :: i32) < sint (1 :: i32)" "sint (1 :: i32) < sint (2 :: i32)" by code_simp+
  then have create: "create_widget memory_table () ?new [sprocket] = (Inr (201, ?x), [sprocket, ?x])"
    by (simp add: create_widget_def memory_table_def io_then_def get_result_def load_rows_def new_widget_values_def
        next_id_def sprocket_def widget_columns_def widget_from_row_def Let_def)
  obtain xs where list: "list_widgets memory_table () [sprocket, ?x] = (Inr xs, [sprocket, ?x])"
    by (simp add: list_widgets_def memory_table_def io_then_def load_rows_def widget_rows Let_def
        del: widget_column.simps)
  note p = widgets_roundtrip [OF memory_table_laws create refl list]
  have "last xs = ?x \<and> mset (butlast xs) = {#sprocket#}" using p by simp
  with create list show ?thesis by (intro exI [of _ ?x] exI [of _ xs] exI [of _ "[sprocket, ?x]"]) simp
qed

section \<open>The widgets application, end to end\<close>

lemma widgets_routes_answer:
  assumes laws: "routing_laws A answer" and heads: "head_law A answer"
    and pool: "pg_executor i st = Some (PgPool pool)"
  shows "sr_path q = ''/widgets'' \<Longrightarrow> sr_method q = GET \<Longrightarrow>
      answer (widgets_routes A W i st) q w = Some (list_handler W pool q w)"
    and "sr_path q = ''/widgets'' \<Longrightarrow> sr_method q = OtherMethod ''POST'' \<Longrightarrow>
      answer (widgets_routes A W i st) q w = Some (create_handler W pool q w)"
    and "sr_path q = ''/widgets'' \<Longrightarrow> sr_method q = HEAD \<Longrightarrow>
      \<exists>resp. rp_status resp = rp_status (fst (list_handler W pool q w)) \<and> rp_body resp = []
        \<and> answer (widgets_routes A W i st) q w = Some (resp, snd (list_handler W pool q w))"
    and "sr_path q = ''/widgets'' \<Longrightarrow> sr_method q \<notin> {GET, HEAD, OtherMethod ''POST''} \<Longrightarrow>
      \<exists>resp. rp_status resp = 405 \<and> answer (widgets_routes A W i st) q w = Some (resp, w)"
    and "sr_path q = ''/health'' \<Longrightarrow> sr_method q = GET \<Longrightarrow>
      answer (widgets_routes A W i st) q w = Some (text_response 200 ''ok'', w)"
    and "sr_path q = ''/health'' \<Longrightarrow> sr_method q = HEAD \<Longrightarrow>
      \<exists>resp. rp_status resp = 200 \<and> rp_body resp = [] \<and> answer (widgets_routes A W i st) q w = Some (resp, w)"
    and "sr_path q = ''/health'' \<Longrightarrow> sr_method q \<notin> {GET, HEAD} \<Longrightarrow>
      \<exists>resp. rp_status resp = 405 \<and> answer (widgets_routes A W i st) q w = Some (resp, w)"
    and "sr_path q \<notin> {''/widgets'', ''/health''} \<Longrightarrow> answer (widgets_routes A W i st) q w = None"
proof -
  let ?ms = "[(GET, list_handler W pool), (OtherMethod ''POST'', create_handler W pool)]"
  let ?hs = "[(GET, static_text ''ok'')]"
  let ?inner = "route A (router_new A) ''/widgets'' ?ms"
  have routes: "widgets_routes A W i st = route A ?inner ''/health'' ?hs"
    by (simp add: widgets_routes_def pool)
  note new = routing_lawsD(1) [OF laws] and other = routing_lawsD(2) [OF laws]
    and hit = routing_lawsD(3) [OF laws] and missed = routing_lawsD(4) [OF laws]
    and head = heads [unfolded head_law_def, rule_format]
  have outer: "answer (widgets_routes A W i st) q w = answer ?inner q w" if "sr_path q \<noteq> ''/health''"
    unfolding routes using that by (intro other) simp_all
  have inner: "answer ?inner q w = None" if "sr_path q \<noteq> ''/widgets''"
    using other [of "''/widgets''" q "router_new A" ?ms w] new that by simp
  show "answer (widgets_routes A W i st) q w = Some (list_handler W pool q w)"
    if "sr_path q = ''/widgets''" "sr_method q = GET"
    using outer hit [OF _ that(1) new, of ?ms] that by simp
  show "answer (widgets_routes A W i st) q w = Some (create_handler W pool q w)"
    if "sr_path q = ''/widgets''" "sr_method q = OtherMethod ''POST''"
    using outer hit [OF _ that(1) new, of ?ms] that by simp
  show "\<exists>resp. rp_status resp = rp_status (fst (list_handler W pool q w)) \<and> rp_body resp = []
      \<and> answer (widgets_routes A W i st) q w = Some (resp, snd (list_handler W pool q w))"
    if "sr_path q = ''/widgets''" "sr_method q = HEAD"
    using outer head [OF _ that(1) new that(2), of ?ms] that by simp
  show "\<exists>resp. rp_status resp = 405 \<and> answer (widgets_routes A W i st) q w = Some (resp, w)"
    if "sr_path q = ''/widgets''" "sr_method q \<notin> {GET, HEAD, OtherMethod ''POST''}"
    using outer missed [OF _ that(1) new, of ?ms] that by (auto split: if_splits)
  show "answer (widgets_routes A W i st) q w = Some (text_response 200 ''ok'', w)"
    if "sr_path q = ''/health''" "sr_method q = GET"
    using hit [OF _ that(1) inner, of ?hs] that by (simp add: routes static_text_def)
  show "\<exists>resp. rp_status resp = 200 \<and> rp_body resp = [] \<and> answer (widgets_routes A W i st) q w = Some (resp, w)"
    if "sr_path q = ''/health''" "sr_method q = HEAD"
    using head [OF _ that(1) inner that(2), of ?hs] that by (simp add: routes static_text_def text_response_def)
  show "\<exists>resp. rp_status resp = 405 \<and> answer (widgets_routes A W i st) q w = Some (resp, w)"
    if "sr_path q = ''/health''" "sr_method q \<notin> {GET, HEAD}"
    using missed [OF _ that(1) inner, of ?hs] that by (auto simp: routes split: if_splits)
  show "answer (widgets_routes A W i st) q w = None" if "sr_path q \<notin> {''/widgets'', ''/health''}"
    using outer inner that by simp
qed

lemma diesel_build_ctx: "diesel_build sentry D migrations cfg ctx w = (r, ctx', w') \<Longrightarrow> ctx' = ctx"
  by (auto simp: diesel_build_def split: if_splits sum.splits option.splits prod.splits)

lemma diesel_build_migrated:
  assumes "diesel_build sentry D (Some runner) cfg ctx w = (Inr pool, ctx', w')"
  shows "build_pool D cfg = Inr pool \<and> dc_url cfg \<noteq> []
    \<and> (\<exists>v n. migrations_run D runner (dc_url cfg) v = (Inr n, w'))"
  using assms by (auto simp: diesel_build_def split: if_splits sum.splits prod.splits)

text \<open>The router \<open>r\<close> answers as the widgets API over \<open>pool\<close>, whatever it is asked.\<close>

definition serves_widgets ::
    "('r \<Rightarrow> http_request \<Rightarrow> 'w \<Rightarrow> (response \<times> 'w) option) \<Rightarrow> ('pool, 'conn, 'w) widgets_api \<Rightarrow> 'pool \<Rightarrow> 'r
      \<Rightarrow> bool" where
  "serves_widgets answer W pool r \<longleftrightarrow>
     (\<forall>(q :: http_request) u. let (resp, u') = respond answer r q u; (listed, u1) = list_handler W pool q u in
        if sr_path q = ''/widgets'' then
          (if sr_method q = GET then resp = listed \<and> u' = u1
           else if sr_method q = HEAD then rp_status resp = rp_status listed \<and> rp_body resp = [] \<and> u' = u1
           else if sr_method q = OtherMethod ''POST'' then (resp, u') = create_handler W pool q u
           else rp_status resp = 405 \<and> u' = u)
        else if sr_path q = ''/health'' then
          (if sr_method q = GET then resp = text_response 200 ''ok'' \<and> u' = u
           else if sr_method q = HEAD then rp_status resp = 200 \<and> rp_body resp = [] \<and> u' = u
           else rp_status resp = 405 \<and> u' = u)
        else resp = not_found [] \<and> u' = u)"

lemma serves_widgetsI:
  assumes "routing_laws A answer" and "head_law A answer" and "pg_executor i st = Some (PgPool pool)"
    and resp: "\<And>q u. respond answer r q u
      = (case answer (widgets_routes A W i st) q u of Some x \<Rightarrow> x | None \<Rightarrow> (not_found [], u))"
  shows "serves_widgets answer W pool r"
  unfolding serves_widgets_def
proof (intro allI)
  fix q :: http_request and u
  note routes = widgets_routes_answer [OF assms(1-3), of q W u]
  consider "sr_path q = ''/widgets''" "sr_method q = GET" | "sr_path q = ''/widgets''" "sr_method q = HEAD"
    | "sr_path q = ''/widgets''" "sr_method q = OtherMethod ''POST''"
    | "sr_path q = ''/widgets''" "sr_method q \<notin> {GET, HEAD, OtherMethod ''POST''}"
    | "sr_path q = ''/health''" "sr_method q = GET" | "sr_path q = ''/health''" "sr_method q = HEAD"
    | "sr_path q = ''/health''" "sr_method q \<notin> {GET, HEAD}" | "sr_path q \<notin> {''/widgets'', ''/health''}"
    by blast
  then show "let (resp, u') = respond answer r q u; (listed, u1) = list_handler W pool q u in
        if sr_path q = ''/widgets'' then
          (if sr_method q = GET then resp = listed \<and> u' = u1
           else if sr_method q = HEAD then rp_status resp = rp_status listed \<and> rp_body resp = [] \<and> u' = u1
           else if sr_method q = OtherMethod ''POST'' then (resp, u') = create_handler W pool q u
           else rp_status resp = 405 \<and> u' = u)
        else if sr_path q = ''/health'' then
          (if sr_method q = GET then resp = text_response 200 ''ok'' \<and> u' = u
           else if sr_method q = HEAD then rp_status resp = 200 \<and> rp_body resp = [] \<and> u' = u
           else rp_status resp = 405 \<and> u' = u)
        else resp = not_found [] \<and> u' = u"
    by cases (use routes in \<open>auto simp: resp Let_def case_prod_beta\<close>)
qed

text \<open>
  C25: the widgets example, from its \<open>main\<close> to the handlers. When the Diesel plugin fails (no URL, a failed
  migration, a bad pool), \<open>main\<close> returns that error, tagged with the plugin's name, and serves nothing. Otherwise
  the pending migrations have been applied before anything is served, the only position at which the compiler
  finds the pool is the one the routes use, and the served router answers \<open>/widgets\<close> with the two handlers
  over that very pool and \<open>/health\<close> with 200 and \<open>ok\<close>, HEAD as GET without the body, other methods of
  these two paths with 405 and other paths with 404.
\<close>

theorem widgets_main_outcome:
  fixes b0 :: "(('pool, unit) resource, 'fig, 'r, 'tok, 'w, 'h, 'l) app_builder"
    and D :: "('m, 'conn, 'pool, 'w) diesel_api"
  assumes "routing_laws (mv_axum P) answer"
    and "of_http_layer (mv_features P) \<Longrightarrow> transparent answer (trace_http_layer (mv_otel P))"
    and "head_law (mv_axum P) answer"
    and "b0 = app_from_file P ''/examples/diesel_widgets/config.toml'' ''diesel-widgets''"
    and "fig = bc_figment (ab_ctx b0)" and "otel_read P fig = Inr ocfg" and "web_read P fig = Inr wcfg"
    and "get_or_env (mv_figment P) sect (diesel_config_default available cell) (mv_env P) fig ''diesel''
      DIESEL_ENV_FALLBACKS = Inr dcfg"
    and "otel_build (mv_features P) (mv_otel P) (tokio_api.truncate (mv_runtime P)) ocfg (ab_ctx b0) w
      = (Inr handles, ctx1, w1)"
    and "diesel_build sentry D (Some (migrations_runner_new ms)) dcfg ctx1 w1 = (built, ctx2, w2)"
  shows "(case built of
      Inl e \<Rightarrow> widgets_main P sect sentry D available cell ms W w
        = (Inl (tag_build_error ''muxa_diesel::pg::DieselPlugin'' e), w2)
    | Inr pool \<Rightarrow>
        dc_url dcfg \<noteq> [] \<and> build_pool D dcfg = Inr pool
        \<and> (\<exists>v n. migrations_run D (migrations_runner_new ms) (dc_url dcfg) v = (Inr n, w2))
        \<and> (\<exists>b :: (('pool, unit) resource, 'fig, 'r, 'tok, 'w, 'h, 'l) app_builder.
            widgets_main P sect sentry D available cell ms W w
              = run (mv_runtime P) (axum_api.truncate (mv_axum P)) b w2
           \<and> hl_entries (ab_state b) = [Nothing (), PgPool pool, Telemetry handles]
           \<and> (\<forall>i. selector_impl DieselPoolType i [DieselPoolType, HandlesType] \<longleftrightarrow> i = Here)
           \<and> serves_widgets answer W pool (compose (axum_api.truncate (mv_axum P)) (bc_router (ab_ctx b)))))"
proof -
  note after = after_otel [OF assms(9)]
  let ?self = "with_migrations (migrations_runner_new ms) diesel_plugin_new"
  let ?p = "diesel_plugin_of (mv_figment P) (mv_env P) sect
      (PgPool :: 'pool \<Rightarrow> ('pool, unit) resource) sentry D available cell ?self
      :: (diesel_config, ('pool, unit) resource, 'fig, 'r, 'tok, 'w, 'h, 'l) plugin"
  let ?b1 = "\<lparr>ab_state = HCons (Telemetry handles) HNil, ab_ctx = ctx1\<rparr>
      :: (('pool, unit) resource, 'fig, 'r, 'tok, 'w, 'h, 'l) app_builder"
  have ctx2: "ctx2 = ctx1" by (rule diesel_build_ctx [OF assms(10)])
  have fig: "bc_figment ctx1 = fig" using after(1) assms(5) by simp
  have one: "add_otel P b0 w = (Inr ?b1, w1)"
    using add_otel_ok [of P b0, OF _ assms(9)] assms(4-6) by simp
  have read: "pl_read_config ?p fig = Inr dcfg" using assms(8) by (simp add: diesel_plugin_of_def)
  have build: "pl_build ?p dcfg s ctx1 w1 = (map_sum id PgPool built, ctx1, w1')" if "w1' = w2" for s w1'
    using assms(10) that by (simp add: diesel_plugin_of_def with_migrations_def ctx2)
  have name: "pl_type_name ?p = ''muxa_diesel::pg::DieselPlugin''" by (simp add: diesel_plugin_of_def)
  show ?thesis
  proof (cases built)
    case (Inl e)
    with read build [OF refl] fig name
    have "with_plugin ?p ?b1 w1 = (Inl (tag_build_error ''muxa_diesel::pg::DieselPlugin'' e), w2)"
      by (simp add: with_plugin_def)
    with one Inl show ?thesis by (simp add: widgets_main_def run_chain_def widgets_chain_def assms(4))
  next
    case (Inr pool)
    let ?b2 = "\<lparr>ab_state = HCons (PgPool pool) (ab_state ?b1), ab_ctx = ctx1\<rparr>"
    let ?b3 = "with_web P wcfg (widgets_routes (mv_axum P) W Here) ?b2"
    have two: "with_plugin ?p ?b1 w1 = (Inr ?b2, w2)"
      using read build [OF refl] fig Inr by (simp add: with_plugin_def)
    have "add_web P ''diesel_widgets::routes'' (widgets_routes (mv_axum P) W Here) ?b2 w2 = (Inr ?b3, w2)"
      using fig assms(4,7) after(2) by (intro add_web_ok) simp_all
    with one two have main: "widgets_main P sect sentry D available cell ms W w
        = run (mv_runtime P) (axum_api.truncate (mv_axum P)) ?b3 w2"
      by (simp add: widgets_main_def run_chain_def widgets_chain_def assms(4))
    have "bc_router (ab_ctx ?b2) = (if of_http_layer (mv_features P) then layer (trace_http_layer (mv_otel P))
        router_registry_default else router_registry_default)"
      using after(4) assms(4) by simp
    note resp = web_served [OF assms(1,2) this, of P wcfg "widgets_routes (mv_axum P) W Here"]
    have "pg_executor Here (ab_state ?b2) = Some (PgPool pool)" by (simp add: pg_executor_def)
    from serves_widgetsI [OF assms(1,3) this resp]
    have served: "serves_widgets answer W pool (compose (axum_api.truncate (mv_axum P)) (bc_router (ab_ctx ?b3)))" .
    have position: "selector_impl DieselPoolType i [DieselPoolType, HandlesType] \<longleftrightarrow> i = Here" for i
      by (cases i) (auto elim: selector_impl.cases)
    have outs: "hl_entries (ab_state ?b3) = [Nothing (), PgPool pool, Telemetry handles]"
      by (simp add: with_web_def Let_def)
    have "\<exists>b :: (('pool, unit) resource, 'fig, 'r, 'tok, 'w, 'h, 'l) app_builder.
        widgets_main P sect sentry D available cell ms W w
          = run (mv_runtime P) (axum_api.truncate (mv_axum P)) b w2
        \<and> hl_entries (ab_state b) = [Nothing (), PgPool pool, Telemetry handles]
        \<and> (\<forall>i. selector_impl DieselPoolType i [DieselPoolType, HandlesType] \<longleftrightarrow> i = Here)
        \<and> serves_widgets answer W pool (compose (axum_api.truncate (mv_axum P)) (bc_router (ab_ctx b)))"
      by (intro exI [of _ ?b3] conjI allI main outs position served)
    with diesel_build_migrated [OF assms(10) [unfolded Inr]] show ?thesis
      unfolding Inr sum.case by (elim conjE) (intro conjI; assumption)
  qed
qed

text \<open>A database whose migrations run at once and whose pool is the URL.\<close>

definition quiet_diesel :: "(unit, unit, string, nat) diesel_api" where
  "quiet_diesel =
     \<lparr>establish = (\<lambda>_ w. (Inr (), w)), exec_statement = (\<lambda>_ _ w. (Inr 1, Suc w)),
      transaction = (\<lambda>_ f w. f w), join_blocking = (\<lambda>f w. apfst Inr (f w)),
      install_instrumentation = (\<lambda>w. (Inr (), w)), create_pool = (\<lambda>url _ _ _ _. Inr url)\<rparr>"

definition failing_diesel :: "(unit, unit, string, nat) diesel_api" where
  "failing_diesel = quiet_diesel\<lparr>exec_statement := (\<lambda>_ _ w. (Inl ''relation exists'', w))\<rparr>"

definition pinned :: diesel_config where
  "pinned = \<lparr>dc_url = ''postgres://db'', dc_max_connections = 5, dc_acquire_timeout_secs = 30\<rparr>"

definition no_widgets :: "(string, unit, nat) widgets_api" where
  "no_widgets =
     \<lparr>wa_get = (\<lambda>_ w. (Inl ''pool closed'', w)), wa_execute = (\<lambda>_ _ w. (Inr [], w)), wa_count = (\<lambda>_ w. w),
      json_new = (\<lambda>_. Inl (text_response 415 [])), render_widget = (\<lambda>_. []), render_widgets = (\<lambda>_. [])\<rparr>"

definition sectioned_env ::
    "(demo_fig, demo_val, (string \<times> demo_val) list, nat reference_router, unit, nat, unit, unit, unit, unit,
      unit, unit, unit, unit, unit) main_env" where
  "sectioned_env = quiet_env\<lparr>mv_figment := demo_figment\<lparr>find_value := (\<lambda>_ s. if s = ''diesel'' then Some (DText []) else None)\<rparr>\<rparr>"

lemma no_variables: "with_fallbacks F (\<lambda>_. None) fig p fbs = fig"
proof -
  have "List.map_filter (fallback_read (\<lambda>_. None) p) fbs = []"
    by (induction fbs) (simp_all add: map_filter_simps fallback_read_def)
  then show ?thesis by (simp add: with_fallbacks_def)
qed

lemma sectioned_parts:
  "mv_axum sectioned_env = reference_axum" "mv_features sectioned_env = quiet_features"
  "mv_otel sectioned_env = quiet_otel" "mv_runtime sectioned_env = quiet_runtime" "mv_env sectioned_env = (\<lambda>_. None)"
  "find_value (mv_figment sectioned_env) fig p = (if p = ''diesel'' then Some (DText []) else None)"
  by (simp_all add: sectioned_env_def quiet_env_def demo_figment_def)

lemma sectioned_reads:
  "otel_read sectioned_env fig = Inr otel_config_default" "web_read sectioned_env fig = Inr web_config_default"
  "get_or_env (mv_figment sectioned_env) (\<lambda>_ _. Inr pinned) dflt (\<lambda>_. None) fig ''diesel'' fbs = Inr pinned"
  by (simp_all add: otel_read_def web_read_def get_or_env_default get_or_env_eq extract_section_def
      no_variables sectioned_parts)

lemma quiet_diesel_build:
  "diesel_build False quiet_diesel (Some (migrations_runner_new [()])) pinned ctx w = (Inr ''postgres://db'', ctx, w + 3)"
  "diesel_build False failing_diesel (Some (migrations_runner_new [()])) pinned ctx w
    = (Inl (error_other ''relation exists''), ctx, w)"
  by (simp_all add: diesel_build_def pinned_def migrations_run_def quiet_diesel_def failing_diesel_def
      migration_script_def build_pool_def)

theorem widgets_main_outcome_witness:
  "(\<exists>b :: ((string, unit) resource, demo_fig, nat reference_router, unit, nat, unit, unit) app_builder.
      widgets_main sectioned_env (\<lambda>_ _. Inr pinned) False quiet_diesel (Inl ()) None [()] no_widgets 0
        = run quiet_runtime (axum_api.truncate reference_axum) b 3
      \<and> serves_widgets (\<lambda>r. r) no_widgets ''postgres://db''
          (compose (axum_api.truncate reference_axum) (bc_router (ab_ctx b))))
   \<and> widgets_main sectioned_env (\<lambda>_ _. Inr pinned) False failing_diesel (Inl ()) None [()] no_widgets 0
       = (Inl (PluginBuild ''muxa_diesel::pg::DieselPlugin'' (Boxed (error_other ''relation exists''))), 0)"
proof -
  have "transparent (\<lambda>r. r) (trace_http_layer quiet_otel)" by (simp add: transparent_def quiet_otel_def)
  note served = widgets_main_outcome [of sectioned_env "\<lambda>r. r", unfolded sectioned_parts, OF reference_routing_laws
      this reference_head_law refl refl sectioned_reads quiet_otel_build]
  note works = served [OF quiet_diesel_build(1)] and fails = served [OF quiet_diesel_build(2)]
  show ?thesis
  proof
    show "\<exists>b :: ((string, unit) resource, demo_fig, nat reference_router, unit, nat, unit, unit) app_builder.
      widgets_main sectioned_env (\<lambda>_ _. Inr pinned) False quiet_diesel (Inl ()) None [()] no_widgets 0
        = run quiet_runtime (axum_api.truncate reference_axum) b 3
      \<and> serves_widgets (\<lambda>r. r) no_widgets ''postgres://db''
          (compose (axum_api.truncate reference_axum) (bc_router (ab_ctx b)))"
      using works [where available = "Inl ()" and cell = None and W = no_widgets and w = 0, unfolded sum.case] by auto
    show "widgets_main sectioned_env (\<lambda>_ _. Inr pinned) False failing_diesel (Inl ()) None [()] no_widgets 0
       = (Inl (PluginBuild ''muxa_diesel::pg::DieselPlugin'' (Boxed (error_other ''relation exists''))), 0)"
      using fails [where available = "Inl ()" and cell = None and W = no_widgets and w = 0, unfolded sum.case] by (simp add: tag_build_error_def error_other_def)
  qed
qed

end
