(* ===== verification/Tests_Core.thy ===== *)
theory Tests_Core
  imports Core_App Core_Host
begin

text \<open>
  The inline tests of \<open>muxa-core\<close> that read no configuration and run no application (\<open>mode.rs\<close>,
  \<open>host.rs\<close>, \<open>state.rs\<close>, \<open>ctx.rs\<close>), each a definition that says what the test asserts, with the
  lemma that the model passes it.

  What a test builds from a library (a router, a figment, a runtime) is an argument, and the
  documented behaviour the test rests on is a hypothesis of its lemma.
\<close>

section \<open>\<open>mode.rs\<close>\<close>

definition parses_canonical_and_aliases_case_insensitively :: bool where
  "parses_canonical_and_aliases_case_insensitively =
     (list_all (\<lambda>raw. run_mode_from_str raw = Inr Development)
        [''development'', ''Dev'', '' DEBUG '']
      \<and> list_all (\<lambda>raw. run_mode_from_str raw = Inr Production)
        [''production'', ''Prod'', '' RELEASE '']
      \<and> is_err (run_mode_from_str ''staging''))"

lemma parses_canonical_and_aliases: parses_canonical_and_aliases_case_insensitively
  by code_simp

definition as_str_round_trips_through_from_str :: bool where
  "as_str_round_trips_through_from_str =
     list_all (\<lambda>mode. run_mode_from_str (as_str mode) = Inr mode) [Development, Production]"

lemma as_str_round_trips: as_str_round_trips_through_from_str
  by (simp add: as_str_round_trips_through_from_str_def)

section \<open>\<open>host.rs\<close>\<close>

text \<open>Both calls read the process-wide cell the first one fills.\<close>

definition cpus_is_at_least_one_and_stable ::
    "'e + usize \<Rightarrow> 'e + usize \<Rightarrow> usize option \<Rightarrow> bool" where
  "cpus_is_at_least_one_and_stable available1 available2 cell =
     (let (n, cell) = cpus available1 cell; (m, cell) = cpus available2 cell
      in 1 \<le> n \<and> n = m)"

lemma cpus_at_least_one:
  assumes "\<And>n. available = Inr n \<Longrightarrow> n \<noteq> 0" and "cell \<noteq> Some 0"
  shows "cpus_is_at_least_one_and_stable available available2 cell"
proof -
  have "1 \<le> n \<longleftrightarrow> n \<noteq> 0" for n :: usize
    by (simp add: word_le_nat_alt Suc_le_eq unat_gt_0)
  with assms show ?thesis
    by (auto simp: cpus_is_at_least_one_and_stable_def cpus_def Let_def split: option.splits sum.splits)
qed

definition db_pool_size_scales_with_cpus_within_bounds :: "'e + usize \<Rightarrow> usize option \<Rightarrow> bool" where
  "db_pool_size_scales_with_cpus_within_bounds available cell =
     (db_pool_size_for 0 = 4 \<and> db_pool_size_for 1 = 4 \<and> db_pool_size_for 2 = 8
      \<and> db_pool_size_for 4 = 16 \<and> db_pool_size_for 8 = 32 \<and> db_pool_size_for 64 = 32
      \<and> db_pool_size_for (- 1) = 32
      \<and> fst (db_pool_size available cell) = db_pool_size_for (fst (cpus available cell)))"

lemma db_pool_size_eq: "db_pool_size_for n = word_of_nat (max 4 (min 32 (4 * unat n)))"
  by (simp flip: unat_db_pool_size_for)

lemma db_pool_size_scales: "db_pool_size_scales_with_cpus_within_bounds available cell"
  by (simp add: db_pool_size_scales_with_cpus_within_bounds_def db_pool_size_eq db_pool_size_def
      unsigned_minus_1_eq_mask mask_eq_exp_minus_1 split: prod.splits)

section \<open>\<open>state.rs\<close>\<close>

text \<open>The values of the tests, and the Rust type of each.\<close>

datatype cell = CellU8 u8 | CellU16 u16 | CellU32 u32 | CellU64 u64 | CellStr string

datatype cell_type = TU8 | TU16 | TU32 | TU64 | TStr

fun cell_type_of :: "cell \<Rightarrow> cell_type" where
  "cell_type_of (CellU8 _) = TU8"
| "cell_type_of (CellU16 _) = TU16"
| "cell_type_of (CellU32 _) = TU32"
| "cell_type_of (CellU64 _) = TU64"
| "cell_type_of (CellStr _) = TStr"

text \<open>
  \<open>Selector::<T, _>::select(&state) == value\<close>: the position is inferred, so the implementation at
  it has to exist and to be the only one (the type occurs once, see \<open>selector_impl_unique\<close>).
\<close>

definition selects :: "idx \<Rightarrow> cell hlist \<Rightarrow> cell \<Rightarrow> bool" where
  "selects i state val \<longleftrightarrow>
     selector_impl (cell_type_of val) i (shape cell_type_of state)
     \<and> count_list (shape cell_type_of state) (cell_type_of val) = 1 \<and> select i state = Some val"

definition select_from_single :: bool where
  "select_from_single = (let state = push HNil (CellU32 42) in selects Here state (CellU32 42))"

definition select_from_two :: bool where
  "select_from_two =
     (let state = push (push HNil (CellU32 42)) (CellStr ''hi'')
      in selects (There Here) state (CellU32 42) \<and> selects Here state (CellStr ''hi''))"

definition select_deeper :: bool where
  "select_deeper =
     (let state = push (push (push (push HNil (CellU8 1)) (CellU16 2)) (CellU32 3)) (CellU64 4)
      in selects (There (There (There Here))) state (CellU8 1)
         \<and> selects (There (There Here)) state (CellU16 2)
         \<and> selects (There Here) state (CellU32 3) \<and> selects Here state (CellU64 4))"

lemma state_tests: "select_from_single" "select_from_two" "select_deeper"
  by (simp_all add: select_from_single_def select_from_two_def select_deeper_def selects_def shape_def)

section \<open>\<open>ctx.rs\<close>\<close>

text \<open>
  A layer that records its name when a request passes through it. A middleware gets the request
  and the rest of the stack, and works on what the requests have recorded so far.
\<close>

type_synonym ('req, 'resp) handler = "'req \<Rightarrow> string list \<Rightarrow> 'resp \<times> string list"

definition recording ::
    "((('req, 'resp) handler \<Rightarrow> ('req, 'resp) handler) \<Rightarrow> 'r \<Rightarrow> 'r) \<Rightarrow> string \<Rightarrow> 'r \<Rightarrow> 'r" where
  "recording route_layer name router =
     route_layer (\<lambda>nxt request seen. nxt request (seen @ [name])) router"

definition last_registered_layer_is_outermost ::
    "'r axum_api \<Rightarrow> ((('req, 'resp) handler \<Rightarrow> ('req, 'resp) handler) \<Rightarrow> 'r \<Rightarrow> 'r)
      \<Rightarrow> ('r \<Rightarrow> ('req, 'resp) handler) \<Rightarrow> 'r \<Rightarrow> 'req \<Rightarrow> bool" where
  "last_registered_layer_is_outermost A route_layer oneshot ok_route get_root =
     (let registry = mount_auto ''/'' ok_route router_registry_default;
          registry = layer (recording route_layer ''first'') registry;
          registry = layer (recording route_layer ''second'') registry;
          (response, seen) = oneshot (compose A registry) get_root []
      in seen = [''second'', ''first''])"

lemma last_layer_outermost:
  assumes layered: "\<And>m r. oneshot (route_layer m r) = m (oneshot r)"
    and silent: "\<And>seen. snd (oneshot (router_merge A (router_new A) ok_route) get_root seen) = seen"
  shows "last_registered_layer_is_outermost A route_layer oneshot ok_route get_root"
  by (simp add: last_registered_layer_is_outermost_def compose_def compose_entry_def layer_def
      mount_auto_def router_registry_default_def recording_def layered split_beta silent)

definition fallback_catches_what_no_mount_matched ::
    "'r axum_api \<Rightarrow> ('r \<Rightarrow> string \<Rightarrow> string) \<Rightarrow> 'r \<Rightarrow> 'r \<Rightarrow> bool" where
  "fallback_catches_what_no_mount_matched A body_of fallback_routes thing_routes =
     (case set_fallback fallback_routes router_registry_default of
        (Inl _, _) \<Rightarrow> False
      | (Inr _, registry) \<Rightarrow>
          (let registry = mount_auto ''/api'' thing_routes registry;
               router = compose A registry
           in has_fallback registry
              \<and> body_of router ''/api/thing'' = ''thing''
              \<and> body_of router ''/api/nope'' = ''fallback /api/nope''
              \<and> body_of router ''/games/1'' = ''fallback /games/1''))"

text \<open>
  axum's contract, over the routes of a router: \<open>matches r uri\<close> is the body a route of \<open>r\<close> gives.
  Nesting strips the prefix, and the fallback sees the full URI when no route matches.
\<close>

lemma fallback_catches:
  assumes nest: "\<And>out p r uri. matches (router_nest A out p r) uri
        = (case strip_prefix p uri of Some rest \<Rightarrow> matches r rest | None \<Rightarrow> matches out uri)"
    and none: "\<And>uri. matches (router_new A) uri = None"
    and fallback: "\<And>out fb uri. body_of (router_fallback_service A out fb) uri
        = (case matches out uri of Some body \<Rightarrow> body | None \<Rightarrow> body_of fb uri)"
    and thing: "\<And>uri. matches thing_routes uri = (if uri = ''/thing'' then Some ''thing'' else None)"
    and echo: "\<And>uri. body_of fallback_routes uri = ''fallback '' @ uri"
  shows "fallback_catches_what_no_mount_matched A body_of fallback_routes thing_routes"
  by (simp add: fallback_catches_what_no_mount_matched_def set_fallback_def mount_auto_def
      has_fallback_def router_registry_default_def compose_def compose_entry_def nest none fallback
      thing echo)

definition a_second_fallback_is_an_error :: "'r \<Rightarrow> 'r \<Rightarrow> bool" where
  "a_second_fallback_is_an_error r1 r2 =
     (let registry = router_registry_default;
          (first, registry1) = set_fallback r1 registry;
          (second, registry2) = set_fallback r2 registry1
      in \<not> has_fallback registry \<and> \<not> is_err first \<and> is_err second)"

lemma second_fallback_errs: "a_second_fallback_is_an_error r1 r2"
  by (simp add: a_second_fallback_is_an_error_def has_fallback_def set_fallback_def
      router_registry_default_def)

text \<open>
  \<open>until_cancelled\<close> and \<open>at_once\<close> are the two tasks' futures, \<open>wait\<close> is \<open>handle.await.unwrap()\<close>:
  whether the task has returned.
\<close>

definition scheduled_tasks_can_be_inspected_and_driven ::
    "('tok, 'fut, 'w, 'h) tokio_api \<Rightarrow> ('tok \<Rightarrow> 'fut) \<Rightarrow> ('tok \<Rightarrow> 'fut) \<Rightarrow> ('w \<Rightarrow> 'h \<Rightarrow> bool) \<Rightarrow> 'tok \<Rightarrow> 'w
      \<Rightarrow> bool" where
  "scheduled_tasks_can_be_inspected_and_driven T until_cancelled at_once wait new_token w =
     (let tasks = [];
          empty_first = task_is_empty tasks;
          tasks = spawn T ''first'' until_cancelled tasks;
          tasks = spawn T ''second'' at_once tasks;
          shutdown = new_token;
          (handles, w) = spawn_all T shutdown tasks w;
          w = cancel T shutdown w
      in empty_first \<and> task_len tasks = 2 \<and> task_names tasks = [''first'', ''second'']
         \<and> list_all (\<lambda>(_, handle). wait w handle) handles)"

text \<open>
  The runtime's contract: \<open>child_of tok tok'\<close> says that \<open>tok'\<close> is a child of \<open>tok\<close>, \<open>body_of\<close> gives
  the body a handle was spawned for, and cancelling a token lets what waits for its child return.
\<close>

lemma scheduled_tasks_driven:
  assumes child: "\<And>w tok. child_of tok (fst (child_token T tok w))"
    and spawned: "\<And>body w. spawned (snd (tokio_spawn T body w)) (fst (tokio_spawn T body w)) body"
    and keeps: "\<And>w h b tok body. spawned w h b \<Longrightarrow> spawned (snd (child_token T tok w)) h b"
      "\<And>w h b body. spawned w h b \<Longrightarrow> spawned (snd (tokio_spawn T body w)) h b"
    and returns: "\<And>w h b tok. spawned w h b \<Longrightarrow> child_of tok (tb_shutdown b) \<Longrightarrow>
        tb_func b \<in> {until_cancelled, at_once} \<Longrightarrow> wait (cancel T tok w) h"
  shows "scheduled_tasks_can_be_inspected_and_driven T until_cancelled at_once wait new_token w"
proof -
  obtain t1 w1 where c1: "child_token T new_token w = (t1, w1)" by (cases "child_token T new_token w")
  let ?b1 = "\<lparr>tb_name = ''first'', tb_func = until_cancelled, tb_shutdown = t1\<rparr>"
  obtain h1 w2 where s1: "tokio_spawn T ?b1 w1 = (h1, w2)" by (cases "tokio_spawn T ?b1 w1")
  obtain t2 w3 where c2: "child_token T new_token w2 = (t2, w3)" by (cases "child_token T new_token w2")
  let ?b2 = "\<lparr>tb_name = ''second'', tb_func = at_once, tb_shutdown = t2\<rparr>"
  obtain h2 w4 where s2: "tokio_spawn T ?b2 w3 = (h2, w4)" by (cases "tokio_spawn T ?b2 w3")
  have children: "child_of new_token t1" "child_of new_token t2"
    using child [of new_token w] child [of new_token w2] c1 c2 by simp_all
  have "spawned w2 h1 ?b1" using spawned [of ?b1 w1] s1 by simp
  then have "spawned w3 h1 ?b1" using keeps(1) [of w2 h1 ?b1 new_token] c2 by simp
  then have one: "spawned w4 h1 ?b1" using keeps(2) [of w3 h1 ?b1 ?b2] s2 by simp
  have two: "spawned w4 h2 ?b2" using spawned [of ?b2 w3] s2 by simp
  have "wait (cancel T new_token w4) h1" "wait (cancel T new_token w4) h2"
    using returns [OF one] returns [OF two] children by simp_all
  then show ?thesis
    by (simp add: scheduled_tasks_can_be_inspected_and_driven_def spawn_def task_is_empty_def
        task_len_def task_names_def c1 s1 c2 s2)
qed

definition take_manual_removes_only_matching_manual_mounts :: "'r \<Rightarrow> bool" where
  "take_manual_removes_only_matching_manual_mounts r =
     (let registry = mount_auto ''/api'' r router_registry_default;
          registry = mount_manual ''/admin'' r registry;
          registry = mount_manual ''/other'' r registry;
          registry = mount_manual ''/admin'' r registry;
          registry = mount_auto ''/admin'' r registry;
          (taken, registry) = take_manual ''/admin'' registry;
          (again, registry) = take_manual ''/admin'' registry
      in length taken = 2 \<and> again = []
         \<and> mounts registry = [(''/api'', Auto), (''/other'', Manual), (''/admin'', Auto)])"

lemma take_manual_removes: "take_manual_removes_only_matching_manual_mounts r"
  by (simp add: take_manual_removes_only_matching_manual_mounts_def take_manual_def mount_auto_def
      mount_manual_def router_registry_default_def mounts_def Let_def)

end
