(* ===== verification/Tests_App.thy ===== *)
theory Tests_App
  imports Plugins
begin

text \<open>
  The inline tests of \<open>muxa-core\<close> that read a configuration or build and run an application
  (\<open>config.rs\<close>, \<open>mode.rs\<close>, \<open>app.rs\<close>), the slot test of \<open>muxa-telemetry\<close> and the compile-time tests of
  \<open>muxa-sqlx\<close> and \<open>muxa-pgmq\<close>: each a definition of
  what the test asserts, with the lemma that the model passes it under figment's and tokio's
  documented behaviour. The environment and the files a test sets up are what figment reads, so
  they stand in the hypotheses about its providers.
\<close>

section \<open>figment's layers\<close>

text \<open>
  \<open>env_name\<close> is the variable under a prefix that a dotted key is read from, when the separator is
  two underscores.
\<close>

definition env_name :: "string \<Rightarrow> string \<Rightarrow> string" where
  "env_name prefix key =
     prefix @ concat (map (\<lambda>c. if c = CHR ''.'' then ''__'' else [to_ascii_uppercase c]) key)"

text \<open>
  figment's documentation: a merged provider's values win, a missing file gives none, and the
  environment provider reads the variables under its prefix, without the ignored keys.
\<close>

definition layer_laws ::
    "('fig, 'val, 'prov) figment_api \<Rightarrow> ('fig \<Rightarrow> string \<Rightarrow> 'val option) \<Rightarrow> ('prov \<Rightarrow> string \<Rightarrow> 'val option)
      \<Rightarrow> (string \<Rightarrow> string option) \<Rightarrow> (string \<Rightarrow> string \<Rightarrow> 'val option) \<Rightarrow> bool" where
  "layer_laws F at prov_at env file_at \<longleftrightarrow>
     (\<forall>key. at (figment_new F) key = None)
     \<and> (\<forall>f p key. at (figment_merge F f p) key
           = (case prov_at p key of Some v \<Rightarrow> Some v | None \<Rightarrow> at f key))
     \<and> (\<forall>path key. prov_at (toml_file F path) key = file_at path key)
     \<and> (\<forall>prefix ignored key. prov_at (env_prefixed F prefix ''__'' ignored) key
           = (if key \<in> set ignored then None
              else map_option (parse_value F) (env (env_name prefix key))))"

lemma load_figment_at:
  assumes "layer_laws F at prov_at env file_at"
  shows "at (load_figment F env app_name) key =
     (case if key = ''config'' then None else env (env_name (env_prefix app_name) key) of
        Some raw \<Rightarrow> Some (parse_value F raw)
      | None \<Rightarrow>
          file_at (case env (env_prefix app_name @ ''CONFIG'') of Some p \<Rightarrow> p | None \<Rightarrow> ''config.toml'') key)"
  using assms
  by (simp add: layer_laws_def load_figment_def load_figment_from_def DEFAULT_CONFIG_PATH_def
      split: option.splits)

section \<open>\<open>mode.rs\<close> and \<open>config.rs\<close>\<close>

text \<open>
  \<open>str_of\<close> is \<open>extract_inner::<String>\<close> on the value found. Both halves of the first test are its
  two settings of \<open>APP_ENV\<close>.
\<close>

definition run_mode_of ::
    "bool \<Rightarrow> ('fig \<Rightarrow> string \<Rightarrow> 'val option) \<Rightarrow> ('val \<Rightarrow> string option) \<Rightarrow> 'fig \<Rightarrow> run_mode" where
  "run_mode_of dbg at str_of fig = from_figment dbg (Option.bind (at fig ''env'') str_of)"

definition figment_env_key_overrides_build_profile ::
    "('fig, 'val, 'prov) figment_api \<Rightarrow> ('fig, 'val, 'prov) figment_api \<Rightarrow> bool
      \<Rightarrow> ('fig \<Rightarrow> string \<Rightarrow> 'val option) \<Rightarrow> ('val \<Rightarrow> string option) \<Rightarrow> bool" where
  "figment_env_key_overrides_build_profile F1 F2 dbg at str_of =
     (let fig = load_figment F1 [''APP_ENV'' \<mapsto> ''production''] ''app'';
          fig' = load_figment F2 [''APP_ENV'' \<mapsto> ''dev''] ''app''
      in run_mode_of dbg at str_of fig = Production \<and> run_mode_of dbg at str_of fig' = Development)"

definition figment_without_env_falls_back_to_build_profile ::
    "('fig, 'val, 'prov) figment_api \<Rightarrow> bool \<Rightarrow> ('fig \<Rightarrow> string \<Rightarrow> 'val option)
      \<Rightarrow> ('val \<Rightarrow> string option) \<Rightarrow> bool" where
  "figment_without_env_falls_back_to_build_profile F dbg at str_of =
     (let fig = load_figment F Map.empty ''app''
      in run_mode_of dbg at str_of fig = from_build_profile dbg)"

lemma app_env_names:
  "env_prefix ''app'' = ''APP_''" "env_name ''APP_'' ''env'' = ''APP_ENV''"
  "env_prefix ''katago-ws'' = ''KATAGO_WS_''" "env_name ''KATAGO_WS_'' ''env'' = ''KATAGO_WS_ENV''"
  "env_name ''KATAGO_WS_'' ''web.port'' = ''KATAGO_WS_WEB__PORT''"
  "env_name ''KATAGO_WS_'' ''web.host'' = ''KATAGO_WS_WEB__HOST''"
  "env_prefix ''my.app'' = ''MY_APP_''" "env_prefix ''MyApp2'' = ''MYAPP2_''"
  by code_simp+

lemma run_mode_words:
  "run_mode_from_str ''production'' = Inr Production" "run_mode_from_str ''dev'' = Inr Development"
  by code_simp+

lemma figment_env_key_overrides:
  assumes "layer_laws F1 at prov_at [''APP_ENV'' \<mapsto> ''production''] (\<lambda>_ _. None)"
    and "layer_laws F2 at prov_at [''APP_ENV'' \<mapsto> ''dev''] (\<lambda>_ _. None)"
    and "str_of (parse_value F1 ''production'') = Some ''production''"
    and "str_of (parse_value F2 ''dev'') = Some ''dev''"
  shows "figment_env_key_overrides_build_profile F1 F2 dbg at str_of"
  using assms(3,4)
  by (simp add: figment_env_key_overrides_build_profile_def run_mode_of_def from_figment_def
      load_figment_at [OF assms(1)] load_figment_at [OF assms(2)] app_env_names run_mode_words)

lemma figment_without_env_falls_back:
  assumes "layer_laws F at prov_at Map.empty (\<lambda>_ _. None)"
  shows "figment_without_env_falls_back_to_build_profile F dbg at str_of"
  by (simp add: figment_without_env_falls_back_to_build_profile_def run_mode_of_def
      from_figment_def load_figment_at [OF assms])

definition env_prefix_derives_from_the_name :: bool where
  "env_prefix_derives_from_the_name =
     (env_prefix ''katago-ws'' = ''KATAGO_WS_'' \<and> env_prefix ''my.app'' = ''MY_APP_''
      \<and> env_prefix ''MyApp2'' = ''MYAPP2_'')"

lemma env_prefix_derives: env_prefix_derives_from_the_name
  by (simp add: env_prefix_derives_from_the_name_def app_env_names)

definition APP :: string where
  "APP = ''katago-ws''"

text \<open>What the jail of the test sets; another app's prefix is not read.\<close>

definition jail_env :: "string \<Rightarrow> string option" where
  "jail_env = map_of [(''KATAGO_WS_WEB__PORT'', ''3000''), (''KATAGO_WS_ENV'', ''production''),
     (''MUXA_WEB__HOST'', ''muxa''), (''OTHER_WEB__HOST'', ''other'')]"

lemma jail_env_simps:
  "jail_env ''KATAGO_WS_WEB__PORT'' = Some ''3000''" "jail_env ''KATAGO_WS_ENV'' = Some ''production''"
  "jail_env ''KATAGO_WS_WEB__HOST'' = None" "jail_env ''KATAGO_WS_CONFIG'' = None"
  by (simp_all add: jail_env_def)

definition env_overrides_the_file_under_the_app_prefix ::
    "('fig, 'val, 'prov) figment_api \<Rightarrow> bool \<Rightarrow> ('fig \<Rightarrow> string \<Rightarrow> 'val option)
      \<Rightarrow> ('val \<Rightarrow> u16 option) \<Rightarrow> ('val \<Rightarrow> string option) \<Rightarrow> bool" where
  "env_overrides_the_file_under_the_app_prefix F dbg at u16_of str_of =
     (let fig = load_figment F jail_env APP
      in Option.bind (at fig ''web.port'') u16_of = Some 3000
         \<and> Option.bind (at fig ''web.host'') str_of = Some ''file''
         \<and> run_mode_of dbg at str_of fig = Production)"

lemma env_overrides_the_file:
  assumes laws: "layer_laws F at prov_at jail_env file_at"
    and "file_at ''config.toml'' ''web.host'' = Some host" and "str_of host = Some ''file''"
    and "u16_of (parse_value F ''3000'') = Some 3000"
    and "str_of (parse_value F ''production'') = Some ''production''"
  shows "env_overrides_the_file_under_the_app_prefix F dbg at u16_of str_of"
  using assms(2-)
  by (simp add: env_overrides_the_file_under_the_app_prefix_def APP_def run_mode_of_def
      from_figment_def load_figment_at [OF laws] app_env_names run_mode_words jail_env_simps)

definition config_var_picks_the_file_and_stays_out_of_the_tree ::
    "('fig, 'val, 'prov) figment_api \<Rightarrow> ('fig, 'val, 'prov) figment_api
      \<Rightarrow> ('fig \<Rightarrow> string \<Rightarrow> 'val option) \<Rightarrow> ('val \<Rightarrow> u16 option) \<Rightarrow> bool" where
  "config_var_picks_the_file_and_stays_out_of_the_tree F1 F2 at u16_of =
     (let port = (\<lambda>F env. Option.bind (at (load_figment F env APP) ''web.port'') u16_of);
          env = [''KATAGO_WS_CONFIG'' \<mapsto> ''prod.toml'']
      in port F1 Map.empty = Some 1 \<and> port F2 env = Some 2
         \<and> at (load_figment F2 env APP) ''config'' = None)"

lemma config_var_picks_the_file:
  assumes laws: "layer_laws F1 at prov_at Map.empty file_at"
      "layer_laws F2 at prov_at [''KATAGO_WS_CONFIG'' \<mapsto> ''prod.toml''] file_at"
    and files: "file_at ''config.toml'' ''web.port'' = Some p1" "u16_of p1 = Some 1"
      "file_at ''prod.toml'' ''web.port'' = Some p2" "u16_of p2 = Some 2"
      "file_at ''prod.toml'' ''config'' = None"
  shows "config_var_picks_the_file_and_stays_out_of_the_tree F1 F2 at u16_of"
  using files
  by (simp add: config_var_picks_the_file_and_stays_out_of_the_tree_def APP_def
      load_figment_at [OF laws(1)] load_figment_at [OF laws(2)] app_env_names)

section \<open>Sections and their fallbacks\<close>

text \<open>\<open>Limits\<close>, whose \<open>max\<close> defaults to 0; \<open>extr\<close> is \<open>extract_inner::<Limits>\<close>.\<close>

record limits =
  lim_max :: u32

definition limits_default :: limits where
  "limits_default = \<lparr>lim_max = 0\<rparr>"

definition section_absent_or_unnamed_falls_back_to_default ::
    "('fig, 'val, 'prov) figment_api \<Rightarrow> ('fig \<Rightarrow> string \<Rightarrow> string + limits) \<Rightarrow> (string \<Rightarrow> string option)
      \<Rightarrow> 'fig \<Rightarrow> bool" where
  "section_absent_or_unnamed_falls_back_to_default F extr env fig =
     (sections_get F extr limits_default env fig ''limits'' = Inr limits_default
      \<and> sections_get F extr limits_default env fig [] = Inr limits_default)"

lemma section_absent_or_unnamed:
  "find_value F fig ''limits'' = None \<Longrightarrow>
     section_absent_or_unnamed_falls_back_to_default F extr env fig"
  by (simp add: section_absent_or_unnamed_falls_back_to_default_def sections_get_def get_or_env_def
      extract_section_def map_filter_simps)

definition section_present_is_read ::
    "('fig, 'val, 'prov) figment_api \<Rightarrow> ('fig \<Rightarrow> string \<Rightarrow> string + limits) \<Rightarrow> (string \<Rightarrow> string option)
      \<Rightarrow> 'fig \<Rightarrow> bool" where
  "section_present_is_read F extr env fig =
     (sections_get F extr limits_default env fig ''limits'' = Inr \<lparr>lim_max = 7\<rparr>)"

definition section_present_but_invalid_is_an_error ::
    "('fig, 'val, 'prov) figment_api \<Rightarrow> ('fig \<Rightarrow> string \<Rightarrow> string + limits) \<Rightarrow> (string \<Rightarrow> string option)
      \<Rightarrow> 'fig \<Rightarrow> bool" where
  "section_present_but_invalid_is_an_error F extr env fig =
     is_err (sections_get F extr limits_default env fig ''limits'')"

lemma section_present:
  assumes "find_value F fig ''limits'' \<noteq> None"
  shows "extr fig ''limits'' = Inr \<lparr>lim_max = 7\<rparr> \<Longrightarrow> section_present_is_read F extr env fig"
    and "is_err (extr fig ''limits'') \<Longrightarrow> section_present_but_invalid_is_an_error F extr env fig"
  using assms
  by (auto simp: section_present_is_read_def section_present_but_invalid_is_an_error_def
      sections_get_def get_or_env_def extract_section_def map_filter_simps is_err_def split: sum.splits)

text \<open>\<open>Db\<close>, with a default for either field.\<close>

record db =
  db_url :: string
  db_max :: u32

definition db_default :: db where
  "db_default = \<lparr>db_url = [], db_max = 0\<rparr>"

definition URL :: env_fallback where
  "URL = \<lparr>ef_var = ''DATABASE_URL'', ef_key = ''url''\<rparr>"

text \<open>
  serde's reading of section \<open>db\<close>: the section is there when it has a key, a missing field is its
  default, and a value of the wrong type is an error.
\<close>

definition reads_db ::
    "('fig, 'val, 'prov) figment_api \<Rightarrow> ('fig \<Rightarrow> string \<Rightarrow> string + db)
      \<Rightarrow> ('fig \<Rightarrow> string \<Rightarrow> string \<Rightarrow> 'val option) \<Rightarrow> ('val \<Rightarrow> string option) \<Rightarrow> ('val \<Rightarrow> u32 option) \<Rightarrow> bool" where
  "reads_db F extr value_at str_of u32_of \<longleftrightarrow>
     (\<forall>f. (find_value F f ''db'' = None \<longrightarrow> (\<forall>k. value_at f ''db'' k = None))
        \<and> (find_value F f ''db'' \<noteq> None \<longrightarrow> (\<forall>url max.
             (case value_at f ''db'' ''url'' of Some v \<Rightarrow> str_of v | None \<Rightarrow> Some []) = Some url
             \<longrightarrow> (case value_at f ''db'' ''max'' of Some v \<Rightarrow> u32_of v | None \<Rightarrow> Some 0) = Some max
             \<longrightarrow> extr f ''db'' = Inr \<lparr>db_url = url, db_max = max\<rparr>)))"

lemma reads_db_found:
  assumes "reads_db F extr value_at str_of u32_of" and "value_at f ''db'' k \<noteq> None"
  shows "\<exists>v. find_value F f ''db'' = Some v"
proof (cases "find_value F f ''db''")
  case None
  with assms(1) have "value_at f ''db'' k = None" by (simp add: reads_db_def)
  with assms(2) show ?thesis by simp
qed simp

text \<open>
  \<open>from_toml env toml\<close> is the configuration of the document \<open>toml\<close>, under the \<open>APP_\<close> variables
  of \<open>env\<close>.
\<close>

definition env_fallback_fills_only_what_the_config_leaves_unset ::
    "('fig, 'val, 'prov) figment_api \<Rightarrow> ('fig \<Rightarrow> string \<Rightarrow> string + db)
      \<Rightarrow> ((string \<Rightarrow> string option) \<Rightarrow> string \<Rightarrow> 'fig) \<Rightarrow> bool" where
  "env_fallback_fills_only_what_the_config_leaves_unset F extr from_toml =
     (let env = [''DATABASE_URL'' \<mapsto> ''postgres://standard''];
          db = (\<lambda>env toml. get_or_env F extr db_default env (from_toml env toml) ''db'' [URL]);
          url_file = ''[db]'' @ [CHR 0x0A] @ ''url = '' @ [CHR 34] @ ''file'' @ [CHR 34] @ [CHR 0x0A];
          env' = env(''APP_DB__URL'' \<mapsto> ''prefixed'')
      in map_option db_url (ok_of (db env [])) = Some ''postgres://standard''
         \<and> db env (''[db]'' @ [CHR 0x0A] @ ''max = 3'' @ [CHR 0x0A])
             = Inr \<lparr>db_url = ''postgres://standard'', db_max = 3\<rparr>
         \<and> map_option db_url (ok_of (db env url_file)) = Some ''file''
         \<and> map_option db_url (ok_of (db env' url_file)) = Some ''prefixed''
         \<and> sections_get F extr db_default env' (figment_new F) ''db'' = Inr db_default)"

lemma get_or_env_db:
  assumes join: "join_fills_only F value_at" and reads: "reads_db F extr value_at str_of u32_of"
    and url: "(case value_at (with_fallbacks F env fig ''db'' fbs) ''db'' ''url'' of
                 Some v \<Rightarrow> str_of v | None \<Rightarrow> Some []) = Some url"
    and mx: "(case value_at (with_fallbacks F env fig ''db'' fbs) ''db'' ''max'' of
                 Some v \<Rightarrow> u32_of v | None \<Rightarrow> Some 0) = Some mx"
  shows "get_or_env F extr db_default env fig ''db'' fbs = Inr \<lparr>db_url = url, db_max = mx\<rparr>"
proof (cases "find_value F (with_fallbacks F env fig ''db'' fbs) ''db''")
  case None
  with reads have "value_at (with_fallbacks F env fig ''db'' fbs) ''db'' k = None" for k
    by (auto simp: reads_db_def)
  with url mx None show ?thesis
    by (simp add: get_or_env_eq extract_section_def db_default_def)
next
  case (Some v)
  with reads url mx have "extr (with_fallbacks F env fig ''db'' fbs) ''db''
      = Inr \<lparr>db_url = url, db_max = mx\<rparr>"
    by (auto simp: reads_db_def)
  with Some show ?thesis by (simp add: get_or_env_eq extract_section_def)
qed

lemma env_fallback_fills_only:
  fixes F :: "('fig, 'val, 'prov) figment_api"
  assumes join: "join_fills_only F value_at" and reads: "reads_db F extr value_at str_of u32_of"
    and new: "\<And>k. value_at (figment_new F) ''db'' k = None"
    and none: "\<And>env k. env ''APP_DB__URL'' = None \<Longrightarrow> value_at (from_toml env []) ''db'' k = None"
    and max_toml: "\<And>env k. env ''APP_DB__URL'' = None \<Longrightarrow>
        value_at (from_toml env (''[db]'' @ [CHR 0x0A] @ ''max = 3'' @ [CHR 0x0A])) ''db'' k
          = (if k = ''max'' then Some three else None)"
    and url_toml: "\<And>env k.
        value_at (from_toml env (''[db]'' @ [CHR 0x0A] @ ''url = '' @ [CHR 34] @ ''file'' @ [CHR 34]
            @ [CHR 0x0A])) ''db'' k
          = (if k = ''url''
             then Some (case env ''APP_DB__URL'' of Some raw \<Rightarrow> parse_value F raw | None \<Rightarrow> file_val)
             else None)"
    and vals: "u32_of three = Some 3" "str_of file_val = Some ''file''"
      "str_of (parse_value F ''postgres://standard'') = Some ''postgres://standard''"
      "str_of (parse_value F ''prefixed'') = Some ''prefixed''"
  shows "env_fallback_fills_only_what_the_config_leaves_unset F extr from_toml"
proof -
  note read = with_fallbacks_value [OF join]
  note db = get_or_env_db [OF join reads, unfolded read]
  let ?env = "[''DATABASE_URL'' \<mapsto> ''postgres://standard'']"
  have "get_or_env F extr db_default ?env (from_toml ?env []) ''db'' [URL]
      = Inr \<lparr>db_url = ''postgres://standard'', db_max = 0\<rparr>"
    by (rule db) (simp_all add: none URL_def vals)
  moreover have "get_or_env F extr db_default ?env
      (from_toml ?env (''[db]'' @ [CHR 0x0A] @ ''max = 3'' @ [CHR 0x0A])) ''db'' [URL]
      = Inr \<lparr>db_url = ''postgres://standard'', db_max = 3\<rparr>"
    by (rule db; subst max_toml) (simp_all add: URL_def vals)
  moreover have "get_or_env F extr db_default env (from_toml env
      (''[db]'' @ [CHR 0x0A] @ ''url = '' @ [CHR 34] @ ''file'' @ [CHR 34] @ [CHR 0x0A])) ''db'' [URL]
      = Inr \<lparr>db_url = (case env ''APP_DB__URL'' of Some _ \<Rightarrow> ''prefixed'' | None \<Rightarrow> ''file''), db_max = 0\<rparr>"
    if "env ''APP_DB__URL'' \<in> {None, Some ''prefixed''}" for env
    by (rule db; subst url_toml) (use that in \<open>auto simp: URL_def vals\<close>)
  moreover have "get_or_env F extr db_default env (figment_new F) ''db'' []
      = Inr \<lparr>db_url = [], db_max = 0\<rparr>" for env
    by (rule db) (simp_all add: new)
  ultimately show ?thesis
    unfolding env_fallback_fills_only_what_the_config_leaves_unset_def Let_def
    by (simp add: sections_get_def db_default_def)
qed

definition port_fallback :: env_fallback where
  "port_fallback = \<lparr>ef_var = ''PORT'', ef_key = ''max''\<rparr>"

definition env_fallback_skips_empty_and_names_the_var_in_errors ::
    "('fig, 'val, 'prov) figment_api \<Rightarrow> ('fig \<Rightarrow> string \<Rightarrow> string + db) \<Rightarrow> bool" where
  "env_fallback_skips_empty_and_names_the_var_in_errors F extr =
     (let fig = figment_new F;
          get = (\<lambda>env. get_or_env F extr db_default env fig ''db'' [port_fallback])
      in get [''PORT'' \<mapsto> []] = Inr db_default
         \<and> map_option db_max (ok_of (get [''PORT'' \<mapsto> ''8080''])) = Some 8080
         \<and> (case get [''PORT'' \<mapsto> ''lots''] of
              Inl (Config err) \<Rightarrow> contains_sub ''`PORT` environment variable'' err
            | _ \<Rightarrow> False))"

text \<open>
  A value of the wrong type is reported with the name of the provider it came from: here for key
  \<open>max\<close> of section \<open>db\<close>, the only one that is not a string.
\<close>

definition errors_name_the_source ::
    "('fig, 'val, 'prov) figment_api \<Rightarrow> ('fig \<Rightarrow> string \<Rightarrow> string + db)
      \<Rightarrow> ('fig \<Rightarrow> string \<Rightarrow> string \<Rightarrow> 'val option) \<Rightarrow> ('val \<Rightarrow> u32 option) \<Rightarrow> bool" where
  "errors_name_the_source F extr value_at u32_of \<longleftrightarrow>
     (\<forall>f name v. value_at f ''db'' ''max'' = None \<longrightarrow> u32_of v = None \<longrightarrow>
        (\<exists>err. extr (figment_join F f (data_provider F name [(''db'', value_from_dict F [(''max'', v)])])) ''db''
             = Inl err \<and> contains_sub name err))"

lemma env_fallback_skips_empty:
  fixes F :: "('fig, 'val, 'prov) figment_api"
  assumes join: "join_fills_only F value_at" and reads: "reads_db F extr value_at str_of u32_of"
    and errs: "errors_name_the_source F extr value_at u32_of"
    and new: "\<And>k. value_at (figment_new F) ''db'' k = None"
    and vals: "u32_of (parse_value F ''8080'') = Some 8080" "u32_of (parse_value F ''lots'') = None"
  shows "env_fallback_skips_empty_and_names_the_var_in_errors F extr"
proof -
  note db = get_or_env_db [OF join reads, unfolded with_fallbacks_value [OF join]]
  have "get_or_env F extr db_default [''PORT'' \<mapsto> []] (figment_new F) ''db'' [port_fallback]
      = Inr \<lparr>db_url = [], db_max = 0\<rparr>"
    by (rule db) (simp_all add: new port_fallback_def)
  moreover have "get_or_env F extr db_default [''PORT'' \<mapsto> ''8080''] (figment_new F) ''db'' [port_fallback]
      = Inr \<lparr>db_url = [], db_max = 8080\<rparr>"
    by (rule db) (simp_all add: new port_fallback_def vals)
  moreover have "\<exists>err. get_or_env F extr db_default [''PORT'' \<mapsto> ''lots''] (figment_new F) ''db'' [port_fallback]
      = Inl (Config err) \<and> contains_sub ''`PORT` environment variable'' err"
  proof -
    let ?fig = "with_fallbacks F [''PORT'' \<mapsto> ''lots''] (figment_new F) ''db'' [port_fallback]"
    have fig: "?fig = figment_join F (figment_new F) (data_provider F ''`PORT` environment variable''
        [(''db'', value_from_dict F [(''max'', parse_value F ''lots'')])])"
      by (simp add: with_fallbacks_def map_filter_simps fallback_read_def port_fallback_def
          fallback_provider_def fallback_metadata_def fallback_data_def)
    obtain err where err: "extr ?fig ''db'' = Inl err" "contains_sub ''`PORT` environment variable'' err"
      using errs [unfolded errors_name_the_source_def, rule_format, OF new vals(2)]
      unfolding fig by blast
    have found: "value_at ?fig ''db'' ''max'' \<noteq> None"
      by (simp add: with_fallbacks_value [OF join] new port_fallback_def)
    obtain v where "find_value F ?fig ''db'' = Some v"
      by (rule exE [OF reads_db_found [OF reads, OF found]])
    with err(1) have "get_or_env F extr db_default [''PORT'' \<mapsto> ''lots''] (figment_new F) ''db''
        [port_fallback] = Inl (Config err)"
      by (simp add: get_or_env_eq extract_section_def error_from_figment_def)
    with err(2) show ?thesis by blast
  qed
  ultimately show ?thesis
    by (auto simp: env_fallback_skips_empty_and_names_the_var_in_errors_def db_default_def)
qed

section \<open>\<open>app.rs\<close>\<close>

text \<open>
  An application over a fresh figment, as the tests make it: \<open>new_app\<close> is
  \<open>AppBuilder::<HNil>::with_figment\<close> in a process where no subscriber is installed.
\<close>

definition new_app ::
    "('fig \<Rightarrow> string option) \<Rightarrow> 'tok \<Rightarrow> 'fig \<Rightarrow> ('v, 'fig, 'r, 'tok, 'w, 'h, 'l) app_builder" where
  "new_app env_key tok fig = with_figment True env_key tok False None fig"

lemma new_app_simps [simp]:
  "ab_state (new_app env_key tok fig) = HNil"
  "bc_figment (ab_ctx (new_app env_key tok fig)) = fig"
  "bc_shutdown (ab_ctx (new_app env_key tok fig)) = tok"
  "bc_tasks (ab_ctx (new_app env_key tok fig)) = []"
  "bc_serve_fn (ab_ctx (new_app env_key tok fig)) = None"
  "bc_router (ab_ctx (new_app env_key tok fig)) = router_registry_default"
  by (simp_all add: new_app_def with_figment_def build_ctx_new_def split: prod.splits)

definition empty_chain_builds ::
    "('v, 'fig, 'r, 'tok, 'w, 'h, 'l) app_builder itself \<Rightarrow> ('fig \<Rightarrow> string option) \<Rightarrow> 'tok \<Rightarrow> 'fig \<Rightarrow> bool" where
  "empty_chain_builds ty env_key tok fig =
     (ab_state (new_app env_key tok fig :: ('v, 'fig, 'r, 'tok, 'w, 'h, 'l) app_builder) = HNil)"

definition AnswerPlugin :: "(unit, int, 'fig, 'r, 'tok, 'w, 'h, 'l) plugin" where
  "AnswerPlugin = \<lparr>pl_type_name = ''muxa_core::app::tests::AnswerPlugin'',
     pl_read_config = (\<lambda>_. Inr ()), pl_build = (\<lambda>cfg state ctx w. (Inr 42, ctx, w))\<rparr>"

definition with_plugin_grows_state ::
    "(unit, int, 'fig, 'r, 'tok, 'w, 'h, 'l) plugin itself \<Rightarrow> ('fig \<Rightarrow> string option) \<Rightarrow> 'tok \<Rightarrow> 'fig \<Rightarrow> 'w
      \<Rightarrow> bool" where
  "with_plugin_grows_state ty env_key tok fig w =
     (case with_plugin (AnswerPlugin :: (unit, int, 'fig, 'r, 'tok, 'w, 'h, 'l) plugin)
             (new_app env_key tok fig) w of
        (Inl _, _) \<Rightarrow> False
      | (Inr app, _) \<Rightarrow> ab_state app = HCons 42 HNil)"

lemma chain_tests:
  "empty_chain_builds ty env_key tok fig" "with_plugin_grows_state ty2 env_key tok2 fig2 w"
  by (simp_all add: empty_chain_builds_def with_plugin_grows_state_def with_plugin_def AnswerPlugin_def)

definition run_without_a_serving_plugin_is_an_error ::
    "('v, 'fig, 'r, 'tok, 'w, 'h, 'l) app_builder itself \<Rightarrow> ('tok, 'fut, 'w, 'h) runtime_api
      \<Rightarrow> 'r axum_api \<Rightarrow> ('fig \<Rightarrow> string option) \<Rightarrow> 'tok \<Rightarrow> 'fig \<Rightarrow> 'w \<Rightarrow> bool" where
  "run_without_a_serving_plugin_is_an_error ty T A env_key tok fig w =
     (case run T A (new_app env_key tok fig :: ('v, 'fig, 'r, 'tok, 'w, 'h, 'l) app_builder) w of
        (Inl err, _) \<Rightarrow> contains_sub ''no serve function'' (error_display err)
      | (Inr _, _) \<Rightarrow> False)"

lemma run_without_serving: "run_without_a_serving_plugin_is_an_error ty T A env_key tok fig w"
proof -
  have "contains_sub ''no serve function'' no_serve_message" by code_simp
  then show ?thesis
    by (simp add: run_without_a_serving_plugin_is_an_error_def run_def error_other_def)
qed

text \<open>
  \<open>FlushPlugin\<close>: \<open>flush\<close> is its task's body, which waits for the token, yields and sets the flag.
\<close>

definition FlushPlugin ::
    "('tok, 'fut, 'w, 'h) tokio_api \<Rightarrow> ('tok \<Rightarrow> 'fut) \<Rightarrow> (unit, unit, 'fig, 'r, 'tok, 'w, 'h, 'l) plugin" where
  "FlushPlugin T flush = \<lparr>pl_type_name = ''muxa_core::app::tests::FlushPlugin'',
     pl_read_config = (\<lambda>_. Inr ()),
     pl_build = (\<lambda>cfg state ctx w.
       let ctx = ctx\<lparr>bc_tasks := spawn T ''flush'' flush (bc_tasks ctx)\<rparr>;
           (set, ctx) = set_serve_fn (\<lambda>router w. (Inr (), w)) ctx
       in (set, ctx, w))\<rparr>"

definition run_waits_for_tasks_after_serving_ends ::
    "(unit, unit, 'fig, 'r, 'tok, 'w, 'h, 'l) plugin itself \<Rightarrow> ('tok, 'fut, 'w, 'h) runtime_api \<Rightarrow> 'r axum_api
      \<Rightarrow> ('tok \<Rightarrow> 'fut) \<Rightarrow> ('w \<Rightarrow> bool) \<Rightarrow> ('fig \<Rightarrow> string option) \<Rightarrow> 'tok \<Rightarrow> 'fig \<Rightarrow> 'w \<Rightarrow> bool" where
  "run_waits_for_tasks_after_serving_ends ty T A flush flushed env_key tok fig w =
     (case with_plugin (FlushPlugin (tokio_api.truncate T) flush
               :: (unit, unit, 'fig, 'r, 'tok, 'w, 'h, 'l) plugin)
             (new_app env_key tok fig) w of
        (Inl _, _) \<Rightarrow> False
      | (Inr app, w) \<Rightarrow> (let (ran, w) = run T A app w in \<not> is_err ran \<and> flushed w))"

text \<open>
  What is asked of the runtime: awaiting the handle of a flush task whose token's parent has been
  cancelled, with a deadline ahead, lets it finish.
\<close>

lemma run_waits_for_tasks:
  assumes flush: "\<And>body w w1 w2 d. tb_func body = flush \<Longrightarrow>
      (tb_shutdown body, w1) = child_token T tok w \<Longrightarrow> (h, w2) = tokio_spawn T body w1 \<Longrightarrow>
      clock T (cancel T tok w2) < d \<Longrightarrow> flushed (snd (timeout_at T d h (cancel T tok w2)))"
    and handle: "\<And>body w. fst (tokio_spawn T body w) = h"
  shows "run_waits_for_tasks_after_serving_ends ty T A flush flushed env_key tok fig w"
proof -
  obtain t w1 where child: "child_token T tok w = (t, w1)" by (cases "child_token T tok w")
  let ?body = "\<lparr>tb_name = ''flush'', tb_func = flush, tb_shutdown = t\<rparr>"
  obtain w2 where spawned: "tokio_spawn T ?body w1 = (h, w2)"
    using handle [of ?body w1] by (cases "tokio_spawn T ?body w1") auto
  let ?d = "clock T (cancel T tok w2) + TASK_SHUTDOWN_GRACE"
  have "flushed (snd (timeout_at T ?d h (cancel T tok w2)))"
    by (rule flush [of ?body w1 w w2])
      (simp_all add: child spawned TASK_SHUTDOWN_GRACE_def)
  moreover obtain r w3 where "timeout_at T ?d h (cancel T tok w2) = (r, w3)"
    by (cases "timeout_at T ?d h (cancel T tok w2)")
  moreover obtain out where "join_tasks T [(''flush'', h)] (cancel T tok w2) = (out, w3)"
    using calculation by (cases r) (simp_all add: join_tasks_def Let_def)
  ultimately show ?thesis
    by (simp add: run_waits_for_tasks_after_serving_ends_def with_plugin_def FlushPlugin_def
        set_serve_fn_def run_def spawn_def child spawned tokio_api.truncate_def)
qed

text \<open>
  \<open>hangs\<close>, \<open>fails\<close> and \<open>returns\<close> are the handles of three tasks that run forever, have panicked
  and have returned.
\<close>

definition shutdown_reports_failed_and_abandoned_tasks ::
    "('tok, 'fut, 'w, 'h) runtime_api \<Rightarrow> 'h \<Rightarrow> 'h \<Rightarrow> 'h \<Rightarrow> 'w \<Rightarrow> bool" where
  "shutdown_reports_failed_and_abandoned_tasks T hangs fails returns w =
     (let (outcomes, w) = join_tasks T [(''hangs'', hangs), (''fails'', fails), (''returns'', returns)] w
      in to_failed outcomes = [''fails''] \<and> to_abandoned outcomes = [''hangs''])"

lemma shutdown_reports:
  assumes laws: "timer_laws T finished"
    and hangs: "\<And>w. finished hangs w = None"
    and fails: "finished fails w = Some (JoinFailed msg)"
    and returns: "finished returns w = Some Returned"
  shows "shutdown_reports_failed_and_abandoned_tasks T hangs fails returns w"
proof -
  let ?tasks = "[(''hangs'', hangs), (''fails'', fails), (''returns'', returns)]"
  let ?d = "clock T w + TASK_SHUTDOWN_GRACE"
  obtain rs w' where rs: "join_results T ?d ?tasks w = (rs, w')"
    by (cases "join_results T ?d ?tasks w")
  note all = join_results_laws [OF laws rs]
  note verdict = all [THEN conjunct2, THEN conjunct2, THEN conjunct2, THEN conjunct2, THEN spec, THEN mp]
  from all have len: "length rs = 3" by simp
  have "rs ! 0 = Elapsed" using verdict [of 0] hangs by (simp split: if_splits)
  moreover have "rs ! 1 = JoinFailed msg" using verdict [of 1] fails by simp
  moreover have "rs ! 2 = Returned" using verdict [of 2] returns by simp
  moreover from len obtain a b c where "rs = [a, b, c]"
    by (auto simp: numeral_3_eq_3 length_Suc_conv)
  ultimately have "rs = [Elapsed, JoinFailed msg, Returned]" by simp
  then show ?thesis
    using join_loop_results [OF rs, of "\<lparr>to_failed = [], to_abandoned = []\<rparr>"]
    by (simp add: shutdown_reports_failed_and_abandoned_tasks_def join_tasks_def names_where_def
        is_failed_def)
qed

text \<open>
  \<open>UsesCfg\<close> of the three configuration tests: a plugin with the default \<open>read_config\<close> whose output
  is its configuration's \<open>n\<close>.
\<close>

record my_cfg =
  cfg_n :: u32

definition my_cfg_default :: my_cfg where
  "my_cfg_default = \<lparr>cfg_n = 0\<rparr>"

definition UsesCfg ::
    "('fig, 'val, 'prov) figment_api \<Rightarrow> (string \<Rightarrow> string option) \<Rightarrow> ('fig \<Rightarrow> string \<Rightarrow> string + my_cfg)
      \<Rightarrow> string \<Rightarrow> env_fallback list \<Rightarrow> (my_cfg, u32, 'fig, 'r, 'tok, 'w, 'h, 'l) plugin" where
  "UsesCfg F env extr config_prefix env_fallbacks =
     trait_plugin F env extr ''muxa_core::app::tests::UsesCfg'' config_prefix env_fallbacks
       my_cfg_default (\<lambda>cfg state ctx w. (Inr (cfg_n cfg), ctx, w))"

text \<open>What the tests assert: the chain of this plugin alone builds, with \<open>n\<close> at the head.\<close>

definition head_after ::
    "(my_cfg, u32, 'fig, 'r, 'tok, 'w, 'h, 'l) plugin \<Rightarrow> ('fig \<Rightarrow> string option) \<Rightarrow> 'tok \<Rightarrow> 'fig \<Rightarrow> 'w
      \<Rightarrow> u32 option" where
  "head_after p env_key tok fig w =
     (case with_plugin p (new_app env_key tok fig) w of
        (Inl _, _) \<Rightarrow> None
      | (Inr app, _) \<Rightarrow> Some (hl_head (ab_state app)))"

definition config_falls_back_to_default_when_prefix_absent ::
    "(my_cfg, u32, 'fig, 'r, 'tok, 'w, 'h, 'l) plugin itself \<Rightarrow> ('fig, 'val, 'prov) figment_api
      \<Rightarrow> (string \<Rightarrow> string option) \<Rightarrow> ('fig \<Rightarrow> string \<Rightarrow> string + my_cfg)
      \<Rightarrow> ('fig \<Rightarrow> string option) \<Rightarrow> 'tok \<Rightarrow> 'w \<Rightarrow> bool" where
  "config_falls_back_to_default_when_prefix_absent ty F env extr env_key tok w =
     (head_after (UsesCfg F env extr ''absent_section'' []
          :: (my_cfg, u32, 'fig, 'r, 'tok, 'w, 'h, 'l) plugin) env_key tok (figment_new F) w = Some 0)"

definition config_extracted_when_prefix_present ::
    "(my_cfg, u32, 'fig, 'r, 'tok, 'w, 'h, 'l) plugin itself \<Rightarrow> ('fig, 'val, 'prov) figment_api
      \<Rightarrow> (string \<Rightarrow> string option) \<Rightarrow> ('fig \<Rightarrow> string \<Rightarrow> string + my_cfg)
      \<Rightarrow> ('fig \<Rightarrow> string option) \<Rightarrow> 'tok \<Rightarrow> 'prov \<Rightarrow> 'w \<Rightarrow> bool" where
  "config_extracted_when_prefix_present ty F env extr env_key tok toml_cfg_n_7 w =
     (head_after (UsesCfg F env extr ''cfg'' []
          :: (my_cfg, u32, 'fig, 'r, 'tok, 'w, 'h, 'l) plugin) env_key tok
        (figment_merge F (figment_new F) toml_cfg_n_7) w = Some 7)"

definition standard_n :: env_fallback where
  "standard_n = \<lparr>ef_var = ''STANDARD_N'', ef_key = ''n''\<rparr>"

definition default_read_config_applies_env_fallbacks ::
    "(my_cfg, u32, 'fig, 'r, 'tok, 'w, 'h, 'l) plugin itself \<Rightarrow> ('fig, 'val, 'prov) figment_api
      \<Rightarrow> ('fig \<Rightarrow> string \<Rightarrow> string + my_cfg) \<Rightarrow> ('fig \<Rightarrow> string option) \<Rightarrow> 'tok \<Rightarrow> 'w \<Rightarrow> bool" where
  "default_read_config_applies_env_fallbacks ty F extr env_key tok w =
     (head_after (UsesCfg F [''STANDARD_N'' \<mapsto> ''5''] extr ''cfg'' [standard_n]
          :: (my_cfg, u32, 'fig, 'r, 'tok, 'w, 'h, 'l) plugin) env_key tok (figment_new F) w = Some 5)"

lemma head_after_UsesCfg:
  "head_after (UsesCfg F env extr prefix fbs) env_key tok fig w
     = map_option cfg_n (ok_of (get_or_env F extr my_cfg_default env fig prefix fbs))"
  by (cases "get_or_env F extr my_cfg_default env fig prefix fbs")
    (simp_all add: head_after_def UsesCfg_def trait_plugin_def with_plugin_def default_read_config_def)

lemma uses_cfg_tests:
  shows "find_value F (figment_new F) ''absent_section'' = None \<Longrightarrow>
      config_falls_back_to_default_when_prefix_absent ty F env extr env_key tok w"
    and "find_value F (figment_merge F (figment_new F) toml) ''cfg'' \<noteq> None \<Longrightarrow>
      extr (figment_merge F (figment_new F) toml) ''cfg'' = Inr \<lparr>cfg_n = 7\<rparr> \<Longrightarrow>
      config_extracted_when_prefix_present ty F env extr env_key tok toml w"
  by (auto simp: config_falls_back_to_default_when_prefix_absent_def
      config_extracted_when_prefix_present_def head_after_UsesCfg get_or_env_def map_filter_simps
      extract_section_def my_cfg_default_def)

lemma default_read_config_applies:
  assumes join: "join_fills_only F value_at"
    and new: "value_at (figment_new F) ''cfg'' ''n'' = None"
    and reads: "\<And>f v n. value_at f ''cfg'' ''n'' = Some v \<Longrightarrow> u32_of v = Some n \<Longrightarrow>
        find_value F f ''cfg'' \<noteq> None \<and> extr f ''cfg'' = Inr \<lparr>cfg_n = n\<rparr>"
    and five: "u32_of (parse_value F ''5'') = Some 5"
  shows "default_read_config_applies_env_fallbacks ty F extr env_key tok w"
proof -
  let ?fig = "with_fallbacks F [''STANDARD_N'' \<mapsto> ''5''] (figment_new F) ''cfg'' [standard_n]"
  have "value_at ?fig ''cfg'' ''n'' = Some (parse_value F ''5'')"
    by (simp add: with_fallbacks_value [OF join] new standard_n_def)
  from reads [OF this, OF five] show ?thesis
    by (auto simp: default_read_config_applies_env_fallbacks_def head_after_UsesCfg get_or_env_eq
        extract_section_def)
qed

section \<open>\<open>muxa-telemetry/tests/slot.rs\<close>\<close>

text \<open>
  A \<open>Counting\<close> layer is the counter it adds to; all are of one type. An event reaches the slot's
  layers when the filter lets its target through.
\<close>

definition emit ::
    "(string \<Rightarrow> bool) \<Rightarrow> (string, nat) slot option \<Rightarrow> string \<Rightarrow> (nat \<Rightarrow> nat) \<Rightarrow> nat \<Rightarrow> nat" where
  "emit level_enabled reg target seen =
     (case reg of
        None \<Rightarrow> seen
      | Some s \<Rightarrow> if plugin_filter level_enabled s target
          then foldl (\<lambda>seen counter. seen(counter := Suc (seen counter))) seen (sl_layers s) else seen)"

text \<open>Both registries point to the slot in the process-wide cell.\<close>

definition plugin_layers_share_one_slot :: "(string \<Rightarrow> bool) \<Rightarrow> bool" where
  "plugin_layers_share_one_slot level =
     (let (slot, cell) = telemetry_install False None;
          first_installed = is_installed slot;
          seen = (\<lambda>_. 0);
          slot = add_layer ''Counting'' 0 slot;
          seen1 = emit level slot ''slot'' seen;
          (slot, cell) = telemetry_install False (Some slot);
          second_installed = is_installed slot;
          slot = add_layer ''Counting'' 1 slot;
          seen2 = emit level slot ''slot'' seen1;
          slot = exclude_targets [''noisy''] slot;
          seen3 = emit level slot ''quiet'' (emit level slot ''noisy_util''
            (emit level slot ''noisy::transport'' (emit level slot ''noisy'' seen2)));
          detached = (telemetry_external :: (string, nat) slot option);
          detached_after = add_layer ''Counting'' 2 detached;
          seen4 = emit level slot ''slot'' seen3
      in first_installed \<and> seen1 0 = 1 \<and> second_installed
         \<and> seen2 0 = 1 \<and> seen2 1 = 1 \<and> seen3 1 = 3
         \<and> \<not> is_installed detached \<and> \<not> is_installed detached_after \<and> seen4 1 = 4)"

lemma layers_share_one_slot: "plugin_layers_share_one_slot (\<lambda>_. True)"
  by code_simp

section \<open>The capability tests\<close>

text \<open>
  \<open>muxa-sqlx/tests/capability.rs\<close> and \<open>muxa-pgmq/tests/compose.rs\<close>: what the compiler has to
  accept, over the types of the resources in the state.
\<close>

datatype resource_type = SqlxPool | DieselPool | OtherResource

definition SqlxBackend :: "resource_type pg_backend" where
  "SqlxBackend = \<lparr>pool_type = SqlxPool\<rparr>"

definition DieselBackend :: "resource_type pg_backend" where
  "DieselBackend = \<lparr>pool_type = DieselPool\<rparr>"

definition pool_at_head_via_default_idx :: bool where
  "pool_at_head_via_default_idx = has_pg_executor_for SqlxBackend Here [SqlxPool]"

definition pool_deeper_via_inferred_idx :: bool where
  "pool_deeper_via_inferred_idx = has_pg_executor_for SqlxBackend (There Here) [OtherResource, SqlxPool]"

text \<open>\<open>PgmqPlugin<B, Idx>: Plugin<S>\<close> holds when \<open>S: HasPgExecutorFor<B, Idx>\<close> does.\<close>

definition pgmq_against_sqlx_at_head :: bool where
  "pgmq_against_sqlx_at_head = has_pg_executor_for SqlxBackend Here [SqlxPool]"

definition pgmq_against_sqlx_deeper :: bool where
  "pgmq_against_sqlx_deeper = has_pg_executor_for SqlxBackend (There Here) [OtherResource, SqlxPool]"

definition pgmq_against_diesel_at_head :: bool where
  "pgmq_against_diesel_at_head = has_pg_executor_for DieselBackend Here [DieselPool]"

lemma capability_tests:
  pool_at_head_via_default_idx pool_deeper_via_inferred_idx pgmq_against_sqlx_at_head
  pgmq_against_sqlx_deeper pgmq_against_diesel_at_head
  by (simp_all add: pool_at_head_via_default_idx_def pool_deeper_via_inferred_idx_def
      pgmq_against_sqlx_at_head_def pgmq_against_sqlx_deeper_def pgmq_against_diesel_at_head_def
      has_pg_executor_for_def SqlxBackend_def DieselBackend_def)

end
