(* ===== verification/Tests_Auth.thy ===== *)
theory Tests_Auth
  imports Auth_Redirect Auth_Csrf Auth_Config Auth_Password
begin

text \<open>
  The inline tests of \<open>muxa-auth/src\<close> (\<open>redirect.rs\<close>, \<open>csrf.rs\<close>, \<open>config.rs\<close>, \<open>password.rs\<close>):
  each a definition of what the test asserts, with the lemma that the model passes it. The text
  \<open>form_urlencoded\<close> gives, the \<open>url\<close> crate's reading of the tests' URLs and the password libraries
  are arguments, with what the test relies on as a hypothesis.
\<close>

section \<open>\<open>redirect.rs\<close>\<close>

definition keeps_on_site_paths :: bool where
  "keeps_on_site_paths =
     (safe_next (Some ''/games?page=2'') ''/'' = ''/games?page=2''
      \<and> safe_next (Some ''/'') ''/x'' = ''/'')"

definition refuses_open_redirects :: bool where
  "refuses_open_redirects =
     (list_all (\<lambda>bad. safe_next (Some bad) ''/home'' = ''/home'')
        [''https://evil.example'', ''//evil.example'', ''/'' @ [CHR 0x5C] @ ''evil.example'', ''evil'',
         ''/x?u=https://evil'', ''/a'' @ [CHR 0x0A] @ ''b'', []]
      \<and> safe_next None ''/home'' = ''/home'')"

lemma safe_next_tests: keeps_on_site_paths refuses_open_redirects
  by code_simp+

definition appends_query_parameters :: "((string \<times> string) list \<Rightarrow> string) \<Rightarrow> bool" where
  "appends_query_parameters encode =
     (with_query encode ''/settings'' [(''ogs'', ''verified'')] = ''/settings?ogs=verified''
      \<and> with_query encode ''/?next=/a'' [(''e'', ''x y'')] = ''/?next=/a&e=x+y''
      \<and> with_query encode ''/p#top'' [(''a'', ''1'')] = ''/p?a=1#top''
      \<and> with_query encode ''/p'' [] = ''/p'')"

lemma appends_query:
  assumes "encode [(''ogs'', ''verified'')] = ''ogs=verified''" "encode [(''e'', ''x y'')] = ''e=x+y''"
    "encode [(''a'', ''1'')] = ''a=1''"
  shows "appends_query_parameters encode"
  using assms by (simp add: appends_query_parameters_def with_query_def split_once_def)

section \<open>\<open>csrf.rs\<close>\<close>

text \<open>\<open>headers\<close>: static text values, inserted in order.\<close>

definition headers :: "(string \<times> string) list \<Rightarrow> header_map" where
  "headers pairs = \<lparr>header_value = foldl (\<lambda>m (name, val). m(name \<mapsto> val)) Map.empty pairs, to_str = Some\<rparr>"

definition trusted :: "('u, 'o) url_api \<Rightarrow> trusted_origins" where
  "trusted U = trusted_origins_new U [''https://app.example'', ''http://127.0.0.1:5173/'']"

definition POST :: http_method where
  "POST = OtherMethod ''POST''"

definition safe_methods_always_pass :: "('u, 'o) url_api \<Rightarrow> bool" where
  "safe_methods_always_pass U =
     (let cross = headers [(''sec-fetch-site'', ''cross-site''), (''origin'', ''https://evil.example'')]
      in allowed U GET cross (trusted U))"

lemma safe_methods: "safe_methods_always_pass U"
  by (simp add: safe_methods_always_pass_def allowed_def)

definition fetch_metadata_decides_when_present :: "('u, 'o) url_api \<Rightarrow> bool" where
  "fetch_metadata_decides_when_present U =
     (allowed U POST (headers [(''sec-fetch-site'', ''same-origin'')]) (trusted U)
      \<and> allowed U POST (headers [(''sec-fetch-site'', ''none'')]) (trusted U)
      \<and> \<not> allowed U POST
            (headers [(''sec-fetch-site'', ''cross-site''), (''origin'', ''https://evil.example'')]) (trusted U)
      \<and> \<not> allowed U POST (headers [(''sec-fetch-site'', ''same-site'')]) (trusted U)
      \<and> allowed U POST
            (headers [(''sec-fetch-site'', ''cross-site''), (''origin'', ''http://127.0.0.1:5173'')]) (trusted U))"

definition origin_against_host_without_fetch_metadata :: "('u, 'o) url_api \<Rightarrow> bool" where
  "origin_against_host_without_fetch_metadata U =
     (allowed U POST (headers []) (trusted U)
      \<and> allowed U POST
            (headers [(''origin'', ''http://localhost:3000''), (''host'', ''localhost:3000'')]) (trusted U)
      \<and> \<not> allowed U POST
            (headers [(''origin'', ''https://evil.example''), (''host'', ''localhost:3000'')]) (trusted U)
      \<and> \<not> allowed U POST (headers [(''origin'', ''null''), (''host'', ''x'')]) (trusted U)
      \<and> allowed U POST (headers [(''origin'', ''https://app.example'')]) (trusted U))"

text \<open>
  The crate's reading of the URLs of the tests: each of the listed URLs parses to a tuple origin
  with the serialization, the host and the port (\<open>None\<close> for the scheme's own) of the table, and
  \<open>null\<close>, a relative reference, does not parse.
\<close>

definition test_urls :: "(string \<times> string \<times> string \<times> u16 option) list" where
  "test_urls =
     [(''https://app.example'', ''https://app.example'', ''app.example'', None),
      (''http://127.0.0.1:5173/'', ''http://127.0.0.1:5173'', ''127.0.0.1'', Some 5173),
      (''http://127.0.0.1:5173'', ''http://127.0.0.1:5173'', ''127.0.0.1'', Some 5173),
      (''https://evil.example'', ''https://evil.example'', ''evil.example'', None),
      (''http://localhost:3000'', ''http://localhost:3000'', ''localhost'', Some 3000)]"

definition reads_test_urls :: "('u, 'o) url_api \<Rightarrow> bool" where
  "reads_test_urls U \<longleftrightarrow>
     url_parse U ''null'' = None
     \<and> list_all (\<lambda>(text, serialized, host, port).
          case url_parse U text of
            None \<Rightarrow> False
          | Some url \<Rightarrow>
              origin_is_tuple U (url_origin U url) \<and> ascii_serialization U (url_origin U url) = serialized
              \<and> host_str U url = Some host \<and> url_port U url = port) test_urls"

lemma reads_test_urlsD:
  assumes "reads_test_urls U"
  shows "normalize U ''null'' = None" "url_parse U ''null'' = None"
    and "(text, serialized, host, port) \<in> set test_urls \<Longrightarrow> normalize U text = Some serialized"
    and "(text, serialized, host, port) \<in> set test_urls \<Longrightarrow>
      \<exists>url. url_parse U text = Some url \<and> host_str U url = Some host \<and> url_port U url = port"
  using assms
  by (auto simp: reads_test_urls_def normalize_def list_all_iff Let_def split: option.splits)

lemma normalized_test_urls:
  assumes "reads_test_urls U"
  shows "normalize U ''https://app.example'' = Some ''https://app.example''"
    "normalize U ''http://127.0.0.1:5173/'' = Some ''http://127.0.0.1:5173''"
    "normalize U ''http://127.0.0.1:5173'' = Some ''http://127.0.0.1:5173''"
    "normalize U ''https://evil.example'' = Some ''https://evil.example''"
    "normalize U ''http://localhost:3000'' = Some ''http://localhost:3000''"
  by (rule reads_test_urlsD(3) [OF assms]; simp add: test_urls_def)+

lemma trusted_test_urls:
  "reads_test_urls U \<Longrightarrow> trusted U = {''https://app.example'', ''http://127.0.0.1:5173''}"
  by (simp add: trusted_def trusted_origins_new_def map_filter_simps normalized_test_urls)

lemma csrf_tests:
  assumes "reads_test_urls U"
  shows "fetch_metadata_decides_when_present U" "origin_against_host_without_fetch_metadata U"
proof -
  note norm = normalized_test_urls [OF assms] trusted_test_urls [OF assms] reads_test_urlsD(1,2) [OF assms]
  show "fetch_metadata_decides_when_present U"
    by (simp add: fetch_metadata_decides_when_present_def allowed_def POST_def headers_def header_str_def
        trusted_contains_def norm)
  obtain evil where evil: "url_parse U ''https://evil.example'' = Some evil"
      "host_str U evil = Some ''evil.example''" "url_port U evil = None"
    using reads_test_urlsD(4) [OF assms, of "''https://evil.example''" "''https://evil.example''"
        "''evil.example''" None] by (auto simp: test_urls_def)
  obtain local where local: "url_parse U ''http://localhost:3000'' = Some local"
      "host_str U local = Some ''localhost''" "url_port U local = Some 3000"
    using reads_test_urlsD(4) [OF assms, of "''http://localhost:3000''" "''http://localhost:3000''"
        "''localhost''" "Some 3000"] by (auto simp: test_urls_def)
  have port: "dec_string 3000 = ''3000''" by code_simp
  have "\<not> eq_ignore_ascii_case ''evil.example'' ''localhost:3000''" by code_simp
  with port show "origin_against_host_without_fetch_metadata U"
    by (simp add: origin_against_host_without_fetch_metadata_def allowed_def POST_def headers_def
        header_str_def trusted_contains_def norm origin_host_def evil local)
qed

section \<open>\<open>config.rs\<close>\<close>

text \<open>The document of the test, as the tables serde reads; \<open>#[serde(default)]\<close> fills in the rest.\<close>

definition toml_from_test :: auth_config where
  "toml_from_test =
     (let ogs = OAuth2 (oauth2_provider_config_of (empty_oauth2_table
            \<lparr>ot_client_id := Some ''abc'', ot_auth_url := Some ''https://ogs/authorize'',
             ot_token_url := Some ''https://ogs/token'', ot_userinfo_url := Some ''https://ogs/me'',
             ot_token_auth := Some Post\<rparr>));
          google = Oidc (oidc_provider_config_of (empty_oidc_table
            \<lparr>dt_issuer := Some ''https://accounts.google.com'', dt_client_id := Some ''def''\<rparr>))
      in auth_config_default\<lparr>ac_base_url := ''https://example.com'',
           ac_providers := bt_insert ''google'' google (bt_insert ''ogs'' ogs [])\<rparr>)"

definition providers_deserialize_by_kind :: bool where
  "providers_deserialize_by_kind =
     (let cfg = toml_from_test
      in (case bt_get ''ogs'' (ac_providers cfg) of
            Some (OAuth2 ogs) \<Rightarrow> oa_pkce ogs \<and> oa_token_auth ogs = Post \<and> oa_subject_field ogs = ''id''
          | _ \<Rightarrow> False)
         \<and> (case bt_get ''google'' (ac_providers cfg) of
              Some (Oidc google) \<Rightarrow> oi_scopes google = [''email'', ''profile'']
            | _ \<Rightarrow> False)
         \<and> ac_mount cfg = ''/auth'')"

lemma providers_by_kind: providers_deserialize_by_kind
  by (simp add: providers_deserialize_by_kind_def toml_from_test_def oauth2_provider_config_of_def
      oidc_provider_config_of_def empty_oauth2_table_def empty_oidc_table_def yes_def
      default_subject_field_def default_oidc_scopes_def auth_config_default_def bt_get_def Let_def)

section \<open>\<open>password.rs\<close>\<close>

definition argon2_round_trip :: "'w password_api \<Rightarrow> string option \<Rightarrow> 'w \<Rightarrow> bool" where
  "argon2_round_trip A cell w =
     (case password_hash A ''correct horse'' w of
        (Inl _, w) \<Rightarrow> False
      | (Inr stored, w) \<Rightarrow>
          (let (right, cell, w) = password_verify A ''correct horse'' (Some stored) cell w;
               (wrong, cell, w) = password_verify A ''wrong'' (Some stored) cell w
           in starts_with ''$argon2'' stored \<and> right = Inr Valid \<and> wrong = Inr Invalid))"

text \<open>\<open>stored\<close> is \<open>bcrypt::hash("hunter22", 4)\<close>.\<close>

definition bcrypt_is_accepted_and_flagged_for_rehash ::
    "'w password_api \<Rightarrow> string \<Rightarrow> string option \<Rightarrow> 'w \<Rightarrow> bool" where
  "bcrypt_is_accepted_and_flagged_for_rehash A stored cell w =
     (let (right, cell, w) = password_verify A ''hunter22'' (Some stored) cell w;
          (wrong, cell, w) = password_verify A ''hunter23'' (Some stored) cell w
      in right = Inr NeedsRehash \<and> wrong = Inr Invalid)"

definition missing_hash_is_invalid :: "'w password_api \<Rightarrow> string option \<Rightarrow> 'w \<Rightarrow> bool" where
  "missing_hash_is_invalid A cell w =
     (let (none, cell, w) = password_verify A ''x'' None cell w;
          (empty, cell, w) = password_verify A ''x'' (Some []) cell w
      in none = Inr Invalid \<and> empty = Inr Invalid)"

text \<open>A check through the blocking pool, when the pool runs the task.\<close>

lemma password_verify_runs:
  assumes "\<And>w. blocking_fails A w = None"
  shows "fst (password_verify A p stored cell w) = Inr (fst (verify_blocking A p stored cell w))"
  using assms by (simp add: password_verify_def split_beta)

lemma password_tests:
  assumes "password_laws A k" and runs: "\<And>w. blocking_fails A w = None"
    and "is_bcrypt stored" "\<And>w. fst (bcrypt_verify A ''hunter22'' stored w) = Inr True"
      "\<And>w. fst (bcrypt_verify A ''hunter23'' stored w) = Inr False"
  shows "argon2_round_trip A cell w" "bcrypt_is_accepted_and_flagged_for_rehash A stored cell w"
    "missing_hash_is_invalid A cell w"
proof -
  obtain h u where h: "generate_hash A ''correct horse'' w = (h, u)"
    by (cases "generate_hash A ''correct horse'' w")
  show "argon2_round_trip A cell w"
    by (simp add: argon2_round_trip_def password_hash_def runs h split_beta
        password_verify_runs [OF runs] verify_own [OF assms(1) h])
  show "bcrypt_is_accepted_and_flagged_for_rehash A stored cell w"
    by (simp add: bcrypt_is_accepted_and_flagged_for_rehash_def split_beta
        password_verify_runs [OF runs] verify_bcrypt [OF assms(3)] assms(4,5))
  show "missing_hash_is_invalid A cell w"
    by (simp add: missing_hash_is_invalid_def split_beta password_verify_runs [OF runs] verify_missing)
qed

end
