(* ===== verification/Tests_Data.thy ===== *)
theory Tests_Data
  imports Diesel_Sentry Diesel Sqlx Otel Plugins
begin

text \<open>
  The inline tests of \<open>diesel-sentry\<close>, \<open>muxa-diesel\<close>, \<open>muxa-sqlx\<close>, \<open>muxa-sentry\<close> and \<open>muxa-otel\<close>:
  each a definition of what the test asserts, with the lemma that the model passes it.
\<close>

section \<open>\<open>diesel-sentry/src/lib.rs\<close>\<close>

text \<open>
  \<open>LikeDebugQuery\<close> writes its SQL, the marker and its bind list, and stops at the first write that is
  refused. \<open>binds\<close> stands for the \<open>Debug\<close> of \<open>UnformattableBinds\<close>, which panics: a test that holds for
  every \<open>binds\<close> never formats them.
\<close>

definition LikeDebugQuery :: "display \<Rightarrow> string \<Rightarrow> display" where
  "LikeDebugQuery binds text =
     FmtWrite text (\<lambda>ok. if \<not> ok then FmtDone False else
       FmtWrite '' -- binds: '' (\<lambda>ok. if \<not> ok then FmtDone False else binds))"

definition FailingQuery :: display where
  "FailingQuery = FmtDone False"

text \<open>A \<open>&str\<close> as a query.\<close>

definition plain_sql :: "string \<Rightarrow> display" where
  "plain_sql text = FmtWrite text (\<lambda>ok. FmtDone ok)"

definition Split :: "display \<Rightarrow> display" where
  "Split binds =
     FmtWrite ''SELECT 1 -- bi'' (\<lambda>ok. if \<not> ok then FmtDone False else
       FmtWrite ''nds: '' (\<lambda>ok. if \<not> ok then FmtDone False else binds))"

definition alice :: string where
  "alice = [CHR 34] @ ''alice@example.com'' @ [CHR 34]"

definition IgnoresWriteErrors :: display where
  "IgnoresWriteErrors =
     FmtWrite ''SELECT 1 -- binds: '' (\<lambda>_. FmtWrite (''['' @ alice @ '']'') (\<lambda>_. FmtDone True))"

definition string_new :: str_buf where
  "string_new = \<lparr>sb_text = [], sb_cap = 0\<rparr>"

definition select_widget :: string where
  "select_widget = ''SELECT '' @ [CHR 34] @ ''id'' @ [CHR 34] @ '' FROM '' @ [CHR 34] @ ''widgets'' @ [CHR 34]
     @ '' WHERE '' @ [CHR 34] @ ''id'' @ [CHR 34] @ '' = $1''"

definition sql_stops_before_the_binds :: "display \<Rightarrow> bool" where
  "sql_stops_before_the_binds binds =
     (sb_text (write_sql (LikeDebugQuery binds select_widget) string_new) = select_widget)"

definition marker_split_across_writes_is_found :: "display \<Rightarrow> bool" where
  "marker_split_across_writes_is_found binds =
     (sb_text (write_sql (Split binds) string_new) = ''SELECT 1'')"

definition raw_sql_without_binds_is_kept_whole_and_buffer_is_reused :: "nat \<Rightarrow> bool" where
  "raw_sql_without_binds_is_kept_whole_and_buffer_is_reused cap =
     (let buf = \<lparr>sb_text = ''stale contents from the previous query'', sb_cap = cap\<rparr>
      in sb_text (write_sql (plain_sql ''BEGIN  '') buf) = ''BEGIN'')"

definition failing_render_yields_empty_sql_instead_of_panicking :: bool where
  "failing_render_yields_empty_sql_instead_of_panicking =
     (sb_text (write_sql FailingQuery string_new) = [])"

definition nothing_is_written_after_the_cut :: bool where
  "nothing_is_written_after_the_cut = (sb_text (write_sql IgnoresWriteErrors string_new) = ''SELECT 1'')"

text \<open>\<open>debug\<close> is \<open>diesel::debug_query\<close> of the test's query.\<close>

definition real_diesel_debug_query_loses_its_binds :: "display \<Rightarrow> bool" where
  "real_diesel_debug_query_loses_its_binds debug =
     (contains_sub ''alice@example.com'' (text_of debug)
      \<and> sb_text (write_sql debug string_new) = ''SELECT id FROM users WHERE email = $1'')"

lemma write_sql_cut:
  assumes "text_of d = text @ BINDS_MARKER @ rest" and "before BINDS_MARKER (text @ BINDS_MARKER) = text"
  shows "sb_text (write_sql d b) = str_trim_end text"
proof -
  have "occurs_at BINDS_MARKER (text @ BINDS_MARKER) (length text)" by (simp add: occurs_at_def)
  from before_append_occ [OF this BINDS_MARKER_nonempty, of rest] assms
  show ?thesis by (simp add: write_sql_text sql_of_def)
qed

lemma sql_cuts:
  "before BINDS_MARKER (select_widget @ BINDS_MARKER) = select_widget"
  "before BINDS_MARKER (''SELECT 1'' @ BINDS_MARKER) = ''SELECT 1''"
  "before BINDS_MARKER (''SELECT id FROM users WHERE email = $1'' @ BINDS_MARKER)
     = ''SELECT id FROM users WHERE email = $1''"
  by code_simp+

lemma sql_trims:
  "str_trim_end select_widget = select_widget" "str_trim_end ''SELECT 1'' = ''SELECT 1''"
  "str_trim_end ''SELECT id FROM users WHERE email = $1'' = ''SELECT id FROM users WHERE email = $1''"
  by code_simp+

lemma LikeDebugQuery_text: "text_of (LikeDebugQuery binds text) = text @ BINDS_MARKER @ '' '' @ text_of binds"
  by (simp add: LikeDebugQuery_def BINDS_MARKER_def)

lemma write_sql_tests:
  "sql_stops_before_the_binds binds" "marker_split_across_writes_is_found binds"
  "raw_sql_without_binds_is_kept_whole_and_buffer_is_reused cap"
  failing_render_yields_empty_sql_instead_of_panicking nothing_is_written_after_the_cut
proof -
  show "sql_stops_before_the_binds binds"
    using write_sql_cut [OF LikeDebugQuery_text sql_cuts(1)] sql_trims(1)
    by (simp add: sql_stops_before_the_binds_def)
  have split: "text_of (Split binds) = ''SELECT 1'' @ BINDS_MARKER @ '' '' @ text_of binds"
    and ignores: "text_of IgnoresWriteErrors = ''SELECT 1'' @ BINDS_MARKER @ '' ['' @ alice @ '']''"
    by (simp_all add: Split_def IgnoresWriteErrors_def BINDS_MARKER_def)
  show "marker_split_across_writes_is_found binds"
    using write_sql_cut [OF split sql_cuts(2)] sql_trims(2)
    by (simp add: marker_split_across_writes_is_found_def)
  show nothing_is_written_after_the_cut
    using write_sql_cut [OF ignores sql_cuts(2)] sql_trims(2)
    by (simp add: nothing_is_written_after_the_cut_def)
  have "str_trim_end (before BINDS_MARKER ''BEGIN  '') = ''BEGIN''" by code_simp
  then show "raw_sql_without_binds_is_kept_whole_and_buffer_is_reused cap"
    by (simp add: raw_sql_without_binds_is_kept_whole_and_buffer_is_reused_def write_sql_text sql_of_def
        plain_sql_def)
  have "str_trim_end [] = []" by code_simp
  then show failing_render_yields_empty_sql_instead_of_panicking
    by (simp add: failing_render_yields_empty_sql_instead_of_panicking_def write_sql_text sql_of_def
        FailingQuery_def)
qed

text \<open>The format of diesel's \<open>Display\<close>, which the test pins down.\<close>

lemma real_diesel_debug_query:
  assumes "text_of debug = ''SELECT id FROM users WHERE email = $1'' @ '' -- binds: '' @ ''['' @ alice @ '']''"
  shows "real_diesel_debug_query_loses_its_binds debug"
proof -
  have cut: "text_of debug = ''SELECT id FROM users WHERE email = $1'' @ BINDS_MARKER @ '' ['' @ alice @ '']''"
    using assms by (simp add: BINDS_MARKER_def)
  have "contains_sub ''alice@example.com''
      (''SELECT id FROM users WHERE email = $1 -- binds: ['' @ [CHR 34] @ ''alice@example.com'' @ [CHR 34] @ '']'')"
    unfolding contains_sub_iff
    by (rule exI [of _ "''SELECT id FROM users WHERE email = $1 -- binds: ['' @ [CHR 34]"]) simp
  with assms write_sql_cut [OF cut sql_cuts(3)] sql_trims(3) show ?thesis
    by (simp add: real_diesel_debug_query_loses_its_binds_def alice_def)
qed

definition db_system_comes_from_the_url_scheme_only :: bool where
  "db_system_comes_from_the_url_scheme_only =
     (db_system ''postgres://user:secret@db/app'' = ''postgresql''
      \<and> db_system ''PostgreSQL://db/app'' = ''postgresql''
      \<and> db_system ''mysql://db/app'' = ''mysql''
      \<and> db_system ''file:app.db'' = ''sqlite''
      \<and> db_system ''app.db'' = OTHER_SQL)"

text \<open>Whether the word is borrowed is not a difference of the model's strings.\<close>

definition operation_is_upper_cased_and_borrowed_when_already_upper :: bool where
  "operation_is_upper_cased_and_borrowed_when_already_upper =
     (operation ''SELECT 1'' = ''SELECT'' \<and> operation ''insert into t values (1)'' = ''INSERT''
      \<and> operation [] = [])"

lemma db_system_tests:
  db_system_comes_from_the_url_scheme_only operation_is_upper_cased_and_borrowed_when_already_upper
  by code_simp+

text \<open>The instrumentation's tests; inside \<open>with_spans\<close> every span is enabled.\<close>

definition set_time_zone :: string where
  "set_time_zone = ''SET TIME ZONE '' @ [CHR 39] @ ''UTC'' @ [CHR 39]"

definition set_encoding :: string where
  "set_encoding = ''SET CLIENT_ENCODING TO '' @ [CHR 39] @ ''UTF8'' @ [CHR 39]"

definition pipelined_finishes_close_their_own_spans :: "(string \<Rightarrow> u64) \<Rightarrow> display \<Rightarrow> bool" where
  "pipelined_finishes_close_their_own_spans hash binds =
     (let instr = instr_default;
          instr = fst (start_query hash True (LikeDebugQuery binds set_time_zone) instr);
          instr = fst (start_query hash True (LikeDebugQuery binds set_encoding) instr);
          started = length (queries instr);
          instr = fst (finish_query hash (plain_sql set_encoding) None instr);
          remaining = map fst (queries instr);
          instr = fst (finish_query hash (plain_sql set_time_zone) None instr)
      in started = 2 \<and> remaining = [hash set_time_zone] \<and> queries instr = [])"

lemma set_queries:
  "sql_of (LikeDebugQuery binds set_time_zone) = set_time_zone"
  "sql_of (LikeDebugQuery binds set_encoding) = set_encoding"
  "sql_of (plain_sql set_encoding) = set_encoding"
proof -
  have cut: "before BINDS_MARKER (set_time_zone @ BINDS_MARKER) = set_time_zone"
    "before BINDS_MARKER (set_encoding @ BINDS_MARKER) = set_encoding"
    by code_simp+
  have trim: "str_trim_end set_time_zone = set_time_zone" "str_trim_end set_encoding = set_encoding"
    "str_trim_end (before BINDS_MARKER set_encoding) = set_encoding"
    by code_simp+
  show "sql_of (LikeDebugQuery binds set_time_zone) = set_time_zone"
    using write_sql_cut [OF LikeDebugQuery_text cut(1)] trim(1) by (simp only: write_sql_text)
  show "sql_of (LikeDebugQuery binds set_encoding) = set_encoding"
    using write_sql_cut [OF LikeDebugQuery_text cut(2)] trim(2) by (simp only: write_sql_text)
  show "sql_of (plain_sql set_encoding) = set_encoding"
    using trim(3) by (simp only: sql_of_def plain_sql_def text_of.simps append_Nil2)
qed

text \<open>The hash tells the two queries apart, as the test presumes.\<close>

lemma pipelined_finishes:
  assumes "hash set_time_zone \<noteq> hash set_encoding"
  shows "pipelined_finishes_close_their_own_spans hash binds"
proof -
  obtain i1 c1 where s1: "start_query hash True (LikeDebugQuery binds set_time_zone) instr_default = (i1, c1)"
    by (metis surj_pair)
  from start_query_effect [OF s1] have q1: "map fst (queries i1) = [hash set_time_zone]"
    by (simp add: set_queries instr_default_def MAX_IN_FLIGHT_def)
  obtain i2 c2 where s2: "start_query hash True (LikeDebugQuery binds set_encoding) i1 = (i2, c2)"
    by (metis surj_pair)
  have "length (queries i1) = 1" using arg_cong [OF q1, of length] by simp
  with start_query_effect [OF s2] q1 have q2: "map fst (queries i2) = [hash set_time_zone, hash set_encoding]"
    by (simp add: set_queries MAX_IN_FLIGHT_def)
  then obtain x y where qs: "queries i2 = [(hash set_time_zone, x), (hash set_encoding, y)]"
    by (auto simp: map_eq_Cons_conv)
  have "queries (fst (finish_query hash (plain_sql set_encoding) None i2)) = [(hash set_time_zone, x)]"
    using assms by (simp add: finish_query_def qs write_sql_text set_queries remove_at_def)
  moreover have "queries (fst (finish_query hash d None i)) = []" if "queries i = [q]" for d i q
    using that by (simp add: finish_query_def)
  ultimately show ?thesis
    by (simp add: pipelined_finishes_close_their_own_spans_def s1 s2 qs)
qed

fun start_times :: "(string \<Rightarrow> u64) \<Rightarrow> bool \<Rightarrow> display \<Rightarrow> nat \<Rightarrow> instr \<Rightarrow> instr" where
  "start_times hash enabled query 0 instr = instr"
| "start_times hash enabled query (Suc n) instr =
     start_times hash enabled query n (fst (start_query hash enabled query instr))"

definition unfinished_queries_are_not_kept_forever :: "(string \<Rightarrow> u64) \<Rightarrow> display \<Rightarrow> bool" where
  "unfinished_queries_are_not_kept_forever hash binds =
     (let instr = start_times hash True (LikeDebugQuery binds ''SELECT 1'') (MAX_IN_FLIGHT + 5) instr_default
      in length (queries instr) = MAX_IN_FLIGHT)"

lemma start_times_length:
  "length (queries instr) \<le> MAX_IN_FLIGHT \<Longrightarrow>
     length (queries (start_times hash True d n instr)) = min MAX_IN_FLIGHT (length (queries instr) + n)"
proof (induction n arbitrary: instr)
  case 0
  then show ?case by simp
next
  case (Suc n)
  obtain i c where s: "start_query hash True d instr = (i, c)" by (metis surj_pair)
  from start_query_effect [OF s] have "length (queries i) = min MAX_IN_FLIGHT (Suc (length (queries instr)))"
    using Suc.prems by (auto simp: MAX_IN_FLIGHT_def)
  with s Suc.IH [of i] Suc.prems show ?case by simp
qed

definition disabled_spans_skip_rendering :: "(string \<Rightarrow> u64) \<Rightarrow> display \<Rightarrow> bool" where
  "disabled_spans_skip_rendering hash binds =
     (let instr = fst (start_query hash False (LikeDebugQuery binds ''SELECT 1'') instr_default)
      in queries instr = [] \<and> sb_text (sql instr) = [])"

text \<open>\<open>cap\<close> is the capacity \<open>String::reserve(4 * MAX_RETAINED_SQL)\<close> gives, at least what it was asked for.\<close>

definition large_buffers_are_shrunk_not_dropped :: "nat \<Rightarrow> bool" where
  "large_buffers_are_shrunk_not_dropped cap =
     (let instr = instr_default\<lparr>sql := \<lparr>sb_text = [], sb_cap = cap\<rparr>\<rparr>;
          instr = instr\<lparr>sql := push_str (sql instr) ''SELECT 1''\<rparr>;
          instr = release_large_buffer instr
      in sb_text (sql instr) = [] \<and> MAX_RETAINED_SQL \<le> sb_cap (sql instr)
         \<and> sb_cap (sql instr) < 4 * MAX_RETAINED_SQL)"

lemma instrumentation_tests:
  "unfinished_queries_are_not_kept_forever hash binds" "disabled_spans_skip_rendering hash binds"
  "4 * MAX_RETAINED_SQL \<le> cap \<Longrightarrow> large_buffers_are_shrunk_not_dropped cap"
  by (simp_all add: unfinished_queries_are_not_kept_forever_def start_times_length instr_default_def
      disabled_spans_skip_rendering_def start_query_disabled large_buffers_are_shrunk_not_dropped_def
      push_str_def release_large_buffer_def MAX_RETAINED_SQL_def)

section \<open>\<open>muxa-diesel\<close> and \<open>muxa-sqlx\<close>\<close>

definition defaults_follow_the_host :: "'e + usize \<Rightarrow> usize option \<Rightarrow> bool" where
  "defaults_follow_the_host available cell =
     (let cfg = diesel_config_default available cell
      in dc_max_connections cfg = fst (db_pool_size available cell) \<and> dc_acquire_timeout_secs cfg = 30)"

text \<open>
  \<open>max_size\<close>, \<open>wait\<close> and \<open>create\<close> are what deadpool reports of a pool: the \<open>status\<close> and the \<open>timeouts\<close>
  it was built with.
\<close>

definition pool_builds_with_acquire_timeout ::
    "('m, 'conn, 'pool, 'w) diesel_api \<Rightarrow> ('pool \<Rightarrow> nat) \<Rightarrow> ('pool \<Rightarrow> u64 option) \<Rightarrow> ('pool \<Rightarrow> u64 option)
      \<Rightarrow> 'e + usize \<Rightarrow> usize option \<Rightarrow> bool" where
  "pool_builds_with_acquire_timeout D max_size wait create available cell =
     (let cfg = (diesel_config_default available cell)
            \<lparr>dc_url := ''postgres://u:p@127.0.0.1:1/db'', dc_max_connections := 3\<rparr>;
          no_timeout = cfg\<lparr>dc_acquire_timeout_secs := 0\<rparr>
      in (case build_pool D cfg of
            Inl _ \<Rightarrow> False
          | Inr pool \<Rightarrow> max_size pool = 3 \<and> wait pool \<noteq> None \<and> create pool \<noteq> None)
         \<and> (case build_pool D no_timeout of Inl _ \<Rightarrow> False | Inr pool \<Rightarrow> wait pool = None))"

text \<open>deadpool builds a pool when a runtime is set, without a connection, and keeps its settings.\<close>

lemma diesel_tests:
  "defaults_follow_the_host available cell"
  "(\<And>url n w c. \<exists>pool. create_pool D url n w c True = Inr pool \<and> max_size pool = n \<and> wait pool = w
      \<and> create pool = c) \<Longrightarrow>
   pool_builds_with_acquire_timeout D max_size wait create available cell"
proof -
  show "defaults_follow_the_host available cell"
    by (simp add: defaults_follow_the_host_def diesel_config_default_def default_acquire_timeout_secs_def)
  assume built: "\<And>url n w c. \<exists>pool. create_pool D url n w c True = Inr pool \<and> max_size pool = n
      \<and> wait pool = w \<and> create pool = c"
  obtain p1 where "create_pool D ''postgres://u:p@127.0.0.1:1/db'' 3 (Some 30) (Some 30) True = Inr p1"
      "max_size p1 = 3" "wait p1 = Some 30" "create p1 = Some 30" using built by blast
  moreover obtain p2 where "create_pool D ''postgres://u:p@127.0.0.1:1/db'' 3 None None True = Inr p2"
      "wait p2 = None" using built by blast
  ultimately show "pool_builds_with_acquire_timeout D max_size wait create available cell"
    by (simp add: pool_builds_with_acquire_timeout_def build_pool_def diesel_config_default_def
        default_acquire_timeout_secs_def)
qed

definition pool_size_is_one_per_cpu_within_bounds :: "'e + usize \<Rightarrow> usize option \<Rightarrow> bool" where
  "pool_size_is_one_per_cpu_within_bounds available cell =
     (sqlite_pool_size_for 1 = 2 \<and> sqlite_pool_size_for 4 = 4 \<and> sqlite_pool_size_for 64 = 8
      \<and> sq_max_connections (sqlite_config_default available cell)
          = sqlite_pool_size_for (fst (cpus available cell)))"

lemma pool_size_is_one_per_cpu: "pool_size_is_one_per_cpu_within_bounds available cell"
  by (simp add: pool_size_is_one_per_cpu_within_bounds_def sqlite_pool_size_for_def clamp_word_def
      u32_saturating_from_def word_less_nat_alt sqlite_config_default_def default_sqlite_connections_def)

section \<open>\<open>muxa-otel\<close> and \<open>muxa-sentry\<close>\<close>

definition otel_config_defaults :: bool where
  "otel_config_defaults =
     (let config = otel_config_default
      in ot_service_name config = ''muxa-app'' \<and> ot_endpoint config = None
         \<and> ot_timeout_secs config = 10 \<and> ot_metric_interval_secs config = 60)"

lemma otel_defaults: otel_config_defaults
  by code_simp

definition F32_0_5 :: f32 where
  "F32_0_5 = 0x3F000000"

definition sample_rate_prefers_parent_then_override_then_default :: bool where
  "sample_rate_prefers_parent_then_override_then_default =
     (let rates = hm_insert ''GET /healthz'' F32_0 []
      in sample_rate_for rates F32_0_5 ''GET /healthz'' None = F32_0
         \<and> sample_rate_for rates F32_0_5 ''GET /jobs/{id}'' None = F32_0_5
         \<and> sample_rate_for rates F32_0_5 ''GET /healthz'' (Some True) = F32_1
         \<and> sample_rate_for rates F32_0_5 ''GET /jobs/{id}'' (Some False) = F32_0)"

text \<open>\<open>#[serde(default)]\<close> on the struct: the fields of the document over the hand-written \<open>Default\<close>.\<close>

definition empty_config_keeps_boolean_defaults_on :: bool where
  "empty_config_keeps_boolean_defaults_on =
     (let cfg = sentry_config_default
      in sc_http_transactions cfg \<and> sc_attach_stacktrace cfg \<and> sc_logs cfg
         \<and> \<not> sc_send_default_pii cfg \<and> sc_traces_sample_rate cfg = None
         \<and> sc_transaction_sample_rates cfg = [])"

definition explicit_false_overrides_default :: bool where
  "explicit_false_overrides_default =
     (let cfg = sentry_config_default\<lparr>sc_logs := False, sc_http_transactions := False\<rparr>
      in \<not> sc_logs cfg \<and> \<not> sc_http_transactions cfg \<and> sc_attach_stacktrace cfg)"

lemma sentry_config_tests:
  sample_rate_prefers_parent_then_override_then_default empty_config_keeps_boolean_defaults_on
  explicit_false_overrides_default
  by (simp_all add: sample_rate_prefers_parent_then_override_then_default_def sample_rate_for_def
      hm_insert_def hm_get_def hm_remove_def f32_from_bool_def empty_config_keeps_boolean_defaults_on_def
      explicit_false_overrides_default_def sentry_config_default_def)

text \<open>The text of an error and of its chain of sources, as the test joins it.\<close>

function source_chain :: "boxed_error option \<Rightarrow> string" where
  "source_chain None = []"
| "source_chain (Some (Foreign text)) = '': '' @ text"
| "source_chain (Some (Boxed err)) = '': '' @ error_display err @ source_chain (error_source err)"
  by pat_completeness auto
termination
proof (relation "measure (\<lambda>src. case src of None \<Rightarrow> 0 | Some b \<Rightarrow> Suc (size b))")
  fix err :: error
  show "(error_source err, Some (Boxed err)) \<in> measure (\<lambda>src. case src of None \<Rightarrow> 0 | Some b \<Rightarrow> Suc (size b))"
    by (cases err) auto
qed simp

definition whole_chain :: "error \<Rightarrow> string" where
  "whole_chain err = error_display err @ source_chain (error_source err)"

definition bad_dsn :: string where
  "bad_dsn = ''htps://secret-key@o1.ingest.sentry.io''"

text \<open>\<open>fig\<close> is the figment whose \<open>sentry\<close> section sets \<open>dsn\<close> to the text above.\<close>

definition invalid_dsn_fails_the_build ::
    "('fig, 'val, 'prov) figment_api \<Rightarrow> (string \<Rightarrow> string option) \<Rightarrow> ('fig \<Rightarrow> string \<Rightarrow> string + sentry_config)
      \<Rightarrow> ('guard \<Rightarrow> 'v) \<Rightarrow> bool \<Rightarrow> ('dsn, 'guard, 'r, 'w, 'l) sentry_api
      \<Rightarrow> ('v, 'fig, 'r, 'tok, 'w, 'h, 'l) app_builder \<Rightarrow> 'w \<Rightarrow> bool" where
  "invalid_dsn_fails_the_build F env extr emb tracing_bridge S app w =
     (case with_plugin (sentry_plugin F env extr emb tracing_bridge S) app w of
        (Inr _, _) \<Rightarrow> False
      | (Inl err, _) \<Rightarrow>
          (let chain = whole_chain err
           in contains_sub ''not a valid DSN'' chain \<and> \<not> contains_sub ''secret-key'' chain))"

text \<open>\<open>no valid scheme\<close> is the SDK's text for a scheme it does not know.\<close>

lemma invalid_dsn_fails:
  assumes cfg: "get_or_env F extr sentry_config_default env (bc_figment (ab_ctx app)) ''sentry'' SENTRY_ENV_FALLBACKS
      = Inr (sentry_config_default\<lparr>sc_dsn := Some bad_dsn\<rparr>)"
    and "parse_dsn S bad_dsn = Inl ''no valid scheme''"
  shows "invalid_dsn_fails_the_build F env extr emb tracing_bridge S app w"
proof -
  let ?err = "PluginBuild ''muxa_sentry::SentryPlugin'' (Boxed (invalid_dsn ''no valid scheme''))"
  have "bad_dsn \<noteq> []" by (simp add: bad_dsn_def)
  with assms have built: "fst (with_plugin (sentry_plugin F env extr emb tracing_bridge S) app w) = Inl ?err"
    by (simp add: with_plugin_def sentry_plugin_def trait_plugin_def default_read_config_def out_as_def
        sentry_build_def resolve_dsn_def tag_build_error_def invalid_dsn_def error_other_def)
  have "contains_sub ''not a valid DSN'' (whole_chain ?err)" "\<not> contains_sub ''secret-key'' (whole_chain ?err)"
    by code_simp+
  with built show ?thesis
    by (simp add: invalid_dsn_fails_the_build_def split_beta)
qed

end
