(* ===== verification/Tests_Web.thy ===== *)
theory Tests_Web
  imports Web_Server Web_Spa
begin

text \<open>
  The inline tests of \<open>muxa-openapi/src/lib.rs\<close> and of \<open>banner.rs\<close> and \<open>lib.rs\<close> of \<open>muxa-web/src\<close>:
  each a definition of what the test asserts, with the lemma that the model passes it. The tests that
  open a socket and speak HTTP over it test hyper and axum; here \<open>bind\<close> is tested on the network's
  documented answers.
\<close>

section \<open>\<open>muxa-openapi/src/lib.rs\<close>\<close>

text \<open>
  \<open>get_path\<close> is the test's request: the handler that answers a path, or none. \<open>title_in\<close> reads
  \<open>info.title\<close> of a JSON text.
\<close>

definition serves_the_spec_and_the_docs_page ::
    "'r axum_api \<Rightarrow> (string \<Rightarrow> docs_response \<Rightarrow> 'r \<Rightarrow> 'r) \<Rightarrow> ('api \<Rightarrow> string + string)
      \<Rightarrow> ('r \<Rightarrow> string \<Rightarrow> docs_response option) \<Rightarrow> (string \<Rightarrow> string option) \<Rightarrow> 'api \<Rightarrow> bool" where
  "serves_the_spec_and_the_docs_page A add_route to_json get_path title_in api =
     (let cfg = openapi_config_default
      in case docs_router A add_route to_json api cfg of
           Inl _ \<Rightarrow> False
         | Inr router \<Rightarrow>
             (case get_path router (oc_json_path cfg) of
                Some (WithContentType content_type body) \<Rightarrow>
                  content_type = ''application/json'' \<and> title_in body = Some ''widgets''
              | _ \<Rightarrow> False)
             \<and> list_all (\<lambda>_. case get_path router (oc_docs_path cfg) of
                  Some (Html body) \<Rightarrow>
                    starts_with ''<!doctype html>'' body
                    \<and> contains_sub (''data-url='' @ [CHR 34] @ ''/openapi.json'' @ [CHR 34]) body
                | _ \<Rightarrow> False) [0 :: nat, 1])"

definition config_values_are_escaped_in_the_docs_page :: bool where
  "config_values_are_escaped_in_the_docs_page =
     (let html = scalar_html (''/spec.json'' @ [CHR 34] @ '' onload='' @ [CHR 34] @ ''x'')
                   (''Widgets <beta> & '' @ [CHR 34] @ ''v2'' @ [CHR 34])
      in contains_sub ''<title>Widgets &lt;beta&gt; &amp; &quot;v2&quot;</title>'' html
         \<and> contains_sub (''data-url='' @ [CHR 34] @ ''/spec.json&quot; onload=&quot;x'' @ [CHR 34]) html
         \<and> escape_html ''/openapi.json'' = ''/openapi.json'')"

lemma config_values_are_escaped: config_values_are_escaped_in_the_docs_page
  by code_simp

lemma default_docs_page:
  "starts_with ''<!doctype html>'' (scalar_html ''/openapi.json'' ''muxa API'')"
  "contains_sub (''data-url='' @ [CHR 34] @ ''/openapi.json'' @ [CHR 34]) (scalar_html ''/openapi.json'' ''muxa API'')"
  by code_simp+

lemma serves_the_spec:
  assumes routes: "\<And>path h r q. get_path (add_route path h r) q = (if q = path then Some h else get_path r q)"
    and json: "to_json api = Inr json" "title_in json = Some ''widgets''"
  shows "serves_the_spec_and_the_docs_page A add_route to_json get_path title_in api"
  using default_docs_page json
  by (simp add: serves_the_spec_and_the_docs_page_def docs_router_def routes openapi_config_default_def
      default_json_path_def default_docs_path_def default_title_def del: starts_with_Cons)

section \<open>\<open>banner.rs\<close>\<close>

definition lines :: "string list \<Rightarrow> string" where
  "lines ls = concat (map (\<lambda>l. l @ newline) ls)"

definition routes_are_aligned_and_tagged :: "'r axum_api \<Rightarrow> bool" where
  "routes_are_aligned_and_tagged A =
     (let registry = mount_auto [] (router_new A) router_registry_default;
          registry = mount_manual ''/admin'' (router_new A) registry
      in banner_routes registry
           = lines [''  routes (mounted)'', ''    /       (auto)'', ''    /admin  (manual)''])"

definition the_fallback_is_listed_last :: "'r axum_api \<Rightarrow> bool" where
  "the_fallback_is_listed_last A =
     (case set_fallback (router_new A) router_registry_default of
        (Inl _, _) \<Rightarrow> False
      | (Inr _, registry) \<Rightarrow>
          banner_routes (mount_auto ''/api'' (router_new A) registry)
            = lines [''  routes (mounted)'', ''    /api  (auto)'', ''    /*    (fallback)''])"

definition no_routes_says_so :: "'r itself \<Rightarrow> bool" where
  "no_routes_says_so ty = contains_sub ''(none'' (banner_routes (router_registry_default :: 'r router_registry))"

lemma banner_tests:
  "routes_are_aligned_and_tagged A" "the_fallback_is_listed_last A" "no_routes_says_so ty"
proof -
  have rows: "banner_row (Suc (Suc (Suc (Suc (Suc (Suc 0)))))) (''/'', ''auto'') = ''    /       (auto)'' @ newline"
    "banner_row (Suc (Suc (Suc (Suc (Suc (Suc 0)))))) (''/admin'', ''manual'') = ''    /admin  (manual)'' @ newline"
    "banner_row (Suc (Suc (Suc (Suc 0)))) (''/api'', ''auto'') = ''    /api  (auto)'' @ newline"
    "banner_row (Suc (Suc (Suc (Suc 0)))) (''/*'', ''fallback'') = ''    /*    (fallback)'' @ newline"
    by code_simp+
  show "routes_are_aligned_and_tagged A"
    by (simp add: routes_are_aligned_and_tagged_def banner_routes_def banner_rows_def mounts_def
        mount_auto_def mount_manual_def router_registry_default_def has_fallback_def display_prefix_def
        rows lines_def Let_def)
  show "the_fallback_is_listed_last A"
    by (simp add: the_fallback_is_listed_last_def banner_routes_def banner_rows_def mounts_def
        mount_auto_def set_fallback_def router_registry_default_def has_fallback_def display_prefix_def
        FALLBACK_def rows lines_def Let_def)
  have "contains_sub ''(none'' (''  routes (mounted)'' @ newline @ no_routes_line)" by code_simp
  then show "no_routes_says_so ty"
    by (simp add: no_routes_says_so_def banner_routes_def banner_rows_def mounts_def
        router_registry_default_def has_fallback_def Let_def)
qed

section \<open>\<open>lib.rs\<close>\<close>

definition web_config_defaults :: bool where
  "web_config_defaults =
     (let config = web_config_default
      in wc_host config = ''0.0.0.0'' \<and> wc_port config = 3000 \<and> wc_backlog config = None
         \<and> wc_tcp_nodelay config)"

definition web_config_builder :: bool where
  "web_config_builder =
     (let config = web_config_default\<lparr>wc_host := ''127.0.0.1'', wc_port := 8080\<rparr>
      in wc_host config = ''127.0.0.1'' \<and> wc_port config = 8080)"

definition bind_host_strips_ipv6_brackets_only :: bool where
  "bind_host_strips_ipv6_brackets_only =
     (bind_host ''[::1]'' = ''::1'' \<and> bind_host ''[fe80::1%2]'' = ''fe80::1%2'' \<and> bind_host ''::1'' = ''::1''
      \<and> bind_host ''0.0.0.0'' = ''0.0.0.0'' \<and> bind_host ''localhost'' = ''localhost'')"

lemma web_config_tests: web_config_defaults web_config_builder bind_host_strips_ipv6_brackets_only
  by code_simp+

definition default_backlog_is_the_host_ceiling :: "bool \<Rightarrow> string option \<Rightarrow> bool" where
  "default_backlog_is_the_host_ceiling linux somaxconn =
     (let backlog = default_backlog linux somaxconn
      in 0 < backlog \<and> (linux \<longrightarrow> Some backlog = host_backlog_ceiling linux somaxconn))"

text \<open>On Linux the kernel's file holds a positive number, on a line of its own.\<close>

lemma default_backlog_is_ceiling:
  assumes "linux \<Longrightarrow> \<exists>text n. somaxconn = Some text \<and> parse_u32 (str_trim text) = Some n \<and> 0 < n"
  shows "default_backlog_is_the_host_ceiling linux somaxconn"
  using assms
  by (cases linux) (auto simp: default_backlog_is_the_host_ceiling_def default_backlog_def
      host_backlog_ceiling_def)

text \<open>
  \<open>bound\<close> is whether \<open>bind(host, 0, 128)\<close> gives a listener. The test lets \<open>[::1]\<close> fail where IPv6 is off.
\<close>

definition bound :: "bool \<Rightarrow> ('a, 's, 'ln, 'c, 'r, 'tok, 'w) net_api \<Rightarrow> string \<Rightarrow> 'w \<Rightarrow> bool" where
  "bound unix N host w = (\<not> is_err (fst (bind_listener unix N host 0 128 w)))"

definition binds_ip_literals_and_hostnames ::
    "bool \<Rightarrow> ('a, 's, 'ln, 'c, 'r, 'tok, 'w) net_api \<Rightarrow> 'w \<Rightarrow> bool" where
  "binds_ip_literals_and_hostnames unix N w =
     list_all (\<lambda>host. host = ''[::1]'' \<and> \<not> bound unix N host w \<or> bound unix N host w)
       [''127.0.0.1'', ''localhost'', ''[::1]'']"

definition unresolvable_host_is_an_error ::
    "bool \<Rightarrow> ('a, 's, 'ln, 'c, 'r, 'tok, 'w) net_api \<Rightarrow> 'w \<Rightarrow> bool" where
  "unresolvable_host_is_an_error unix N w = is_err (fst (bind_listener unix N ''no-such-host.invalid'' 0 128 w))"

text \<open>One address of a host that can be listened on is enough.\<close>

lemma bind_loop_finds:
  "\<exists>a \<in> set addrs. \<forall>w. \<not> is_err (fst (listen_on unix N a backlog w)) \<Longrightarrow>
     \<not> is_err (fst (bind_loop unix N host backlog addrs err w))"
proof (induction addrs arbitrary: err w)
  case Nil
  then show ?case by simp
next
  case (Cons a addrs)
  obtain r w' where one: "listen_on unix N a backlog w = (r, w')" by (metis surj_pair)
  show ?case
  proof (cases r)
    case (Inr l)
    with one show ?thesis by simp
  next
    case (Inl e)
    with one have "\<exists>w. is_err (fst (listen_on unix N a backlog w))" by (metis fst_conv is_err_simps(1))
    with Cons.prems have "\<exists>a \<in> set addrs. \<forall>w. \<not> is_err (fst (listen_on unix N a backlog w))" by auto
    with Cons.IH one Inl show ?thesis by simp
  qed
qed

lemma bind_tests:
  assumes resolves: "\<And>host w. host \<in> {''127.0.0.1'', ''localhost''} \<Longrightarrow>
      \<exists>addrs w'. lookup_host N (host, 0) w = (Inr addrs, w')
        \<and> (\<exists>a \<in> set addrs. \<forall>w. \<not> is_err (fst (listen_on unix N a 128 w)))"
    and unknown: "is_err (fst (lookup_host N (''no-such-host.invalid'', 0) w))"
  shows "binds_ip_literals_and_hostnames unix N w" "unresolvable_host_is_an_error unix N w"
proof -
  have plain: "bind_host ''127.0.0.1'' = ''127.0.0.1''" "bind_host ''localhost'' = ''localhost''"
    "bind_host ''no-such-host.invalid'' = ''no-such-host.invalid''"
    by code_simp+
  have "bound unix N host w" if host: "host \<in> {''127.0.0.1'', ''localhost''}" for host
  proof -
    obtain addrs w' where "lookup_host N (host, 0) w = (Inr addrs, w')"
        "\<exists>a \<in> set addrs. \<forall>w. \<not> is_err (fst (listen_on unix N a 128 w))"
      using resolves [OF host] by blast
    moreover have "bind_host host = host" using host plain by auto
    ultimately show ?thesis
      using bind_loop_finds [of addrs unix N 128] by (simp add: bound_def bind_listener_def io_then_def)
  qed
  then show "binds_ip_literals_and_hostnames unix N w"
    by (simp add: binds_ip_literals_and_hostnames_def)
  show "unresolvable_host_is_an_error unix N w"
    using unknown plain(3)
    by (auto simp: unresolvable_host_is_an_error_def bind_listener_def io_then_def is_err_def
        split: prod.splits sum.splits)
qed

section \<open>\<open>spa.rs\<close>: path prefixes\<close>

definition under_matches_whole_segments :: bool where
  "under_matches_whole_segments =
     (under ''/api'' ''/api'' \<and> under ''/api/x'' ''/api'' \<and> under ''/api/x'' ''/api/''
      \<and> \<not> under ''/apiary'' ''/api'' \<and> under ''/openapi.json'' ''/openapi.json'' \<and> \<not> under ''/'' ''/api'')"

lemma under_matches: under_matches_whole_segments
  by code_simp

end
