(* ===== verification/Tests_Spa.thy ===== *)
theory Tests_Spa
  imports Example_Spa Tests_App
begin

text \<open>
  The inline tests of \<open>muxa-web/src/spa.rs\<close>: the plugin next to an API, in either order, from the
  application the tests build to the responses of the router it composes. axum and memory-serve are
  as in the examples (\<open>routing_laws\<close>, \<open>memory_serve_laws\<close>), with what the tests use beyond them.
\<close>

section \<open>What the tests build\<close>

definition embedded :: "string \<Rightarrow> string \<Rightarrow> string \<Rightarrow> asset" where
  "embedded url content_type body =
     \<lparr>as_route = url, as_path = [], as_etag = ''0123456789abcdef'', as_content_type = content_type,
      as_bytes = Some body, as_is_compressed = False, as_should_compress = False\<rparr>"

definition page :: string where
  "page = ''<!doctype html><title>spa</title>''"

definition TEST_DIST :: "asset list" where
  "TEST_DIST =
     [embedded ''/index.html'' ''text/html'' page,
      embedded ''/assets/app-abc123.js'' ''text/javascript'' ''console.log(1)'',
      embedded ''/sw.js'' ''text/javascript'' ''self.skipWaiting()'',
      embedded ''/favicon.ico'' ''image/x-icon'' ''ico'']"

definition api_games :: "('r, 'w) routing_api \<Rightarrow> 'r" where
  "api_games A = route A (router_new A) ''/games/{id}'' [(GET, static_text ''game'')]"

definition api_health :: "('r, 'w) routing_api \<Rightarrow> 'r" where
  "api_health A = route A (router_new A) ''/health'' [(GET, static_text ''ok'')]"

definition mount_api ::
    "('r, 'w) routing_api \<Rightarrow> ('v, 'fig, 'r, 'tok, 'w, 'h, 'l) app_builder
      \<Rightarrow> ('v, 'fig, 'r, 'tok, 'w, 'h, 'l) app_builder" where
  "mount_api A b =
     b\<lparr>ab_ctx := (ab_ctx b)\<lparr>bc_router :=
        mount_auto ''/'' (api_health A) (mount_auto ''/api'' (api_games A) (bc_router (ab_ctx b)))\<rparr>\<rparr>"

text \<open>\<open>plugin\<close> is \<open>SpaPlugin::new(assets)\<close>; a failing build is the \<open>unwrap\<close> that panics.\<close>

definition app ::
    "('r, 'w) routing_api \<Rightarrow> (spa_config, unit, 'fig, 'r, 'tok, 'w, 'h, 'l) plugin
      \<Rightarrow> (unit, 'fig, 'r, 'tok, 'w, 'h, 'l) app_builder \<Rightarrow> bool \<Rightarrow> 'w \<Rightarrow> 'r option" where
  "app A plugin builder spa_first w =
     (let builder = (if spa_first then builder else mount_api A builder)
      in case with_plugin plugin builder w of
           (Inl _, _) \<Rightarrow> None
         | (Inr builder, _) \<Rightarrow>
             (let builder = (if spa_first then mount_api A builder else builder)
              in Some (compose (axum_api.truncate A) (bc_router (ab_ctx builder)))))"

text \<open>The surroundings of a test: the libraries and the plugin over an empty configuration.\<close>

record ('r, 'w, 'fig, 'val, 'prov, 'tok) spa_env =
  pe_axum :: "('r, 'w) routing_api"
  pe_answer :: "'r \<Rightarrow> http_request \<Rightarrow> 'w \<Rightarrow> (response \<times> 'w) option"
  pe_files :: "(string, 'w) memory_serve"
  pe_figment :: "('fig, 'val, 'prov) figment_api"
  pe_section :: "'fig \<Rightarrow> string \<Rightarrow> string + spa_config"
  pe_env_key :: "'fig \<Rightarrow> string option"
  pe_token :: 'tok

definition test_app ::
    "('h \<times> 'l) itself \<Rightarrow> ('r, 'w, 'fig, 'val, 'prov, 'tok) spa_env \<Rightarrow> asset list \<Rightarrow> bool \<Rightarrow> 'w \<Rightarrow> 'r option" where
  "test_app ty E assets spa_first w =
     app (pe_axum E)
       (spa_plugin (pe_figment E) Map.empty (pe_section E) id (pe_files E) (from_service (pe_axum E)) assets)
       (new_app (pe_env_key E) (pe_token E) (figment_new (pe_figment E))
          :: (unit, 'fig, 'r, 'tok, 'w, 'h, 'l) app_builder) spa_first w"

text \<open>The status, the cache policy and the body of a response.\<close>

definition observed :: "response \<Rightarrow> nat \<times> string \<times> string" where
  "observed resp =
     (rp_status resp, (case rp_headers resp ''cache-control'' of Some val \<Rightarrow> val | None \<Rightarrow> []), rp_body resp)"

definition get_path ::
    "('r, 'w, 'fig, 'val, 'prov, 'tok) spa_env \<Rightarrow> 'r option \<Rightarrow> http_method \<Rightarrow> string \<Rightarrow> 'w
      \<Rightarrow> (nat \<times> string \<times> string) option" where
  "get_path E router m path w =
     map_option (\<lambda>r. observed (fst (respond (pe_answer E) r
        \<lparr>sr_method = m, sr_path = path, sr_headers = Map.empty, hr_body = []\<rparr> w))) router"

section \<open>The tests\<close>

definition client_routes_get_index_uncached ::
    "('h \<times> 'l) itself \<Rightarrow> ('r, 'w, 'fig, 'val, 'prov, 'tok) spa_env \<Rightarrow> 'w \<Rightarrow> bool" where
  "client_routes_get_index_uncached ty E w =
     (let router = test_app ty E TEST_DIST True w
      in list_all (\<lambda>path. case get_path E router GET path w of
           Some (status, cache, body) \<Rightarrow>
             status = 200 \<and> cache = ''no-cache'' \<and> contains_sub ''<title>spa</title>'' body
         | None \<Rightarrow> False) [''/'', ''/games/1'', ''/index.html''])"

definition fingerprinted_assets_are_immutable ::
    "('h \<times> 'l) itself \<Rightarrow> ('r, 'w, 'fig, 'val, 'prov, 'tok) spa_env \<Rightarrow> 'w \<Rightarrow> bool" where
  "fingerprinted_assets_are_immutable ty E w =
     (get_path E (test_app ty E TEST_DIST True w) GET ''/assets/app-abc123.js'' w
        = Some (200, ''max-age=31536000, immutable'', ''console.log(1)''))"

definition service_worker_is_not_cached_and_other_files_are_briefly ::
    "('h \<times> 'l) itself \<Rightarrow> ('r, 'w, 'fig, 'val, 'prov, 'tok) spa_env \<Rightarrow> 'w \<Rightarrow> bool" where
  "service_worker_is_not_cached_and_other_files_are_briefly ty E w =
     (let router = test_app ty E TEST_DIST True w
      in (case get_path E router GET ''/sw.js'' w of
            Some (_, cache, _) \<Rightarrow> cache = ''no-cache'' | None \<Rightarrow> False)
         \<and> (case get_path E router GET ''/favicon.ico'' w of
              Some (_, cache, _) \<Rightarrow> starts_with ''max-age=604800'' cache | None \<Rightarrow> False))"

definition server_paths_and_missing_assets_are_plain_404s ::
    "('h \<times> 'l) itself \<Rightarrow> ('r, 'w, 'fig, 'val, 'prov, 'tok) spa_env \<Rightarrow> 'w \<Rightarrow> bool" where
  "server_paths_and_missing_assets_are_plain_404s ty E w =
     (let router = test_app ty E TEST_DIST True w
      in list_all (\<lambda>path. case get_path E router GET path w of
           Some (status, _, body) \<Rightarrow> status = 404 \<and> body = [] | None \<Rightarrow> False)
           [''/api/nope'', ''/api'', ''/docs/x'', ''/assets/gone-123.js'']
         \<and> map_option fst (get_path E router GET ''/apiary'' w) = Some 200
         \<and> map_option fst (get_path E router (OtherMethod ''POST'') ''/games/1'' w) = Some 404)"

definition api_routes_win_over_the_fallback ::
    "('h \<times> 'l) itself \<Rightarrow> ('r, 'w, 'fig, 'val, 'prov, 'tok) spa_env \<Rightarrow> 'w \<Rightarrow> bool" where
  "api_routes_win_over_the_fallback ty E w =
     (let router = test_app ty E TEST_DIST True w
      in (case get_path E router GET ''/api/games/1'' w of
            Some (status, _, body) \<Rightarrow> (status, body) = (200, ''game'') | None \<Rightarrow> False)
         \<and> (case get_path E router GET ''/health'' w of
              Some (status, _, body) \<Rightarrow> (status, body) = (200, ''ok'') | None \<Rightarrow> False))"

definition no_assets_leaves_the_plugin_inert ::
    "('h \<times> 'l) itself \<Rightarrow> ('r, 'w, 'fig, 'val, 'prov, 'tok) spa_env \<Rightarrow> 'w \<Rightarrow> bool" where
  "no_assets_leaves_the_plugin_inert ty E w =
     (map_option fst (get_path E (test_app ty E [] True w) GET ''/games/1'' w) = Some 404)"

definition plugin_order_does_not_matter ::
    "('h \<times> 'l) itself \<Rightarrow> ('r, 'w, 'fig, 'val, 'prov, 'tok) spa_env \<Rightarrow> 'w \<Rightarrow> bool" where
  "plugin_order_does_not_matter ty E w =
     (let router = test_app ty E TEST_DIST False w
      in map_option (snd \<circ> snd) (get_path E router GET ''/api/games/1'' w) = Some ''game''
         \<and> map_option fst (get_path E router GET ''/api/nope'' w) = Some 404
         \<and> (case get_path E router GET ''/games/1'' w of
              Some (_, cache, body) \<Rightarrow> cache = ''no-cache'' \<and> contains_sub ''<title>spa</title>'' body
            | None \<Rightarrow> False))"

section \<open>What they rely on\<close>

text \<open>
  axum's path parameters: \<open>/games/{id}\<close> answers a path of one more segment. memory-serve's routes are
  its files alone, for every method, and \<open>CacheControl::Medium\<close> is a week for what is not HTML.
\<close>

definition game_path :: "string \<Rightarrow> bool" where
  "game_path path \<longleftrightarrow> (case strip_prefix ''/games/'' path of
     Some i \<Rightarrow> i \<noteq> [] \<and> CHR ''/'' \<notin> set i | None \<Rightarrow> False)"

definition spa_env_laws :: "('r, 'w, 'fig, 'val, 'prov, 'tok) spa_env \<Rightarrow> bool" where
  "spa_env_laws E \<longleftrightarrow>
     routing_laws (pe_axum E) (pe_answer E) \<and> memory_serve_laws (pe_files E)
     \<and> find_value (pe_figment E) (figment_new (pe_figment E)) ''spa'' = None
     \<and> (\<forall>q w. pe_answer E (api_games (pe_axum E)) q w =
          (if game_path (sr_path q) then
             (if sr_method q = GET then Some (text_response 200 ''game'', w)
              else pe_answer E (api_games (pe_axum E)) q w)
           else None))
     \<and> (\<forall>assets html cc q w. sr_path q \<noteq> ''/'' \<longrightarrow> sr_path q \<notin> as_route ` set assets \<longrightarrow>
          ms_files (pe_files E) assets html cc q w = (None, w))
     \<and> (\<forall>assets html a q w resp w'. a \<in> set assets \<longrightarrow> as_route a = sr_path q \<longrightarrow>
          as_content_type a \<noteq> ''text/html'' \<longrightarrow>
          ms_files (pe_files E) assets html CacheMedium q w = (Some resp, w') \<longrightarrow>
          (\<exists>cache. rp_headers resp ''cache-control'' = Some cache \<and> starts_with ''max-age=604800'' cache))"

lemma spa_env_lawsD:
  assumes "spa_env_laws E"
  shows "routing_laws (pe_axum E) (pe_answer E)" "memory_serve_laws (pe_files E)"
    "find_value (pe_figment E) (figment_new (pe_figment E)) ''spa'' = None"
    "\<not> game_path (sr_path q) \<Longrightarrow> pe_answer E (api_games (pe_axum E)) q w = None"
    "game_path (sr_path q) \<Longrightarrow> sr_method q = GET \<Longrightarrow>
      pe_answer E (api_games (pe_axum E)) q w = Some (text_response 200 ''game'', w)"
    "sr_path p \<noteq> ''/'' \<Longrightarrow> sr_path p \<notin> as_route ` set assets \<Longrightarrow>
      ms_files (pe_files E) assets html cc p w = (None, w)"
    "a \<in> set assets \<Longrightarrow> as_route a = sr_path p \<Longrightarrow> as_content_type a \<noteq> ''text/html'' \<Longrightarrow>
      ms_files (pe_files E) assets html CacheMedium p w = (Some resp, w') \<Longrightarrow>
      \<exists>cache. rp_headers resp ''cache-control'' = Some cache \<and> starts_with ''max-age=604800'' cache"
proof -
  note laws = assms [unfolded spa_env_laws_def]
  show "routing_laws (pe_axum E) (pe_answer E)" "memory_serve_laws (pe_files E)"
    "find_value (pe_figment E) (figment_new (pe_figment E)) ''spa'' = None"
    using laws by blast+
  note games = laws [THEN conjunct2, THEN conjunct2, THEN conjunct2, THEN conjunct1, THEN spec, THEN spec]
  show "\<not> game_path (sr_path q) \<Longrightarrow> pe_answer E (api_games (pe_axum E)) q w = None"
    by (subst games) simp
  show "game_path (sr_path q) \<Longrightarrow> sr_method q = GET \<Longrightarrow>
      pe_answer E (api_games (pe_axum E)) q w = Some (text_response 200 ''game'', w)"
    by (subst games) simp
  note files = laws [THEN conjunct2, THEN conjunct2, THEN conjunct2, THEN conjunct2]
  show "sr_path p \<noteq> ''/'' \<Longrightarrow> sr_path p \<notin> as_route ` set assets \<Longrightarrow>
      ms_files (pe_files E) assets html cc p w = (None, w)"
    by (rule files [THEN conjunct1, rule_format])
  show "a \<in> set assets \<Longrightarrow> as_route a = sr_path p \<Longrightarrow> as_content_type a \<noteq> ''text/html'' \<Longrightarrow>
      ms_files (pe_files E) assets html CacheMedium p w = (Some resp, w') \<Longrightarrow>
      \<exists>cache. rp_headers resp ''cache-control'' = Some cache \<and> starts_with ''max-age=604800'' cache"
    by (rule files [THEN conjunct2, rule_format])
qed

section \<open>The router of the tests\<close>

text \<open>The registry both orders of registration come to.\<close>

definition api_registry :: "('r, 'w) routing_api \<Rightarrow> 'r option \<Rightarrow> 'r router_registry" where
  "api_registry A fb =
     \<lparr>rr_routes = [\<lparr>me_prefix = ''/api'', me_router = api_games A, me_mount = Auto\<rparr>,
                   \<lparr>me_prefix = ''/'', me_router = api_health A, me_mount = Auto\<rparr>],
      rr_fallback = fb, rr_layer_fns = []\<rparr>"

lemma test_app_router:
  fixes E :: "('r, 'w, 'fig, 'val, 'prov, 'tok) spa_env"
  assumes "spa_env_laws E"
  shows "test_app ty E TEST_DIST spa_first w = Some (compose (axum_api.truncate (pe_axum E))
        (api_registry (pe_axum E) (Some (from_service (pe_axum E)
           (spa_router (pe_files E) TEST_DIST spa_config_default)))))"
    and "test_app ty E [] spa_first w
      = Some (compose (axum_api.truncate (pe_axum E)) (api_registry (pe_axum E) None))"
proof -
  have cfg: "get_or_env (pe_figment E) (pe_section E) spa_config_default Map.empty
      (figment_new (pe_figment E)) ''spa'' [] = Inr spa_config_default"
    by (rule get_or_env_default) (simp add: with_fallbacks_def map_filter_simps spa_env_lawsD(3) [OF assms])
  have enabled: "sp_enabled spa_config_default" by (simp add: spa_config_default_def)
  have dist: "TEST_DIST \<noteq> []" "list_ex (\<lambda>asset. as_route asset = INDEX) TEST_DIST"
    by (simp_all add: TEST_DIST_def embedded_def INDEX_def)
  show "test_app ty E TEST_DIST spa_first w = Some (compose (axum_api.truncate (pe_axum E))
        (api_registry (pe_axum E) (Some (from_service (pe_axum E)
           (spa_router (pe_files E) TEST_DIST spa_config_default)))))"
    "test_app ty E [] spa_first w
      = Some (compose (axum_api.truncate (pe_axum E)) (api_registry (pe_axum E) None))"
    by (simp_all add: test_app_def app_def with_plugin_def spa_plugin_def trait_plugin_def
        default_read_config_def cfg out_as_def spa_build_def enabled dist set_fallback_def
        mount_api_def mount_auto_def router_registry_default_def api_registry_def)
qed

text \<open>The API's routes, before any fallback.\<close>

definition api_routes :: "('r, 'w) routing_api \<Rightarrow> 'r" where
  "api_routes A = router_merge A (router_nest A (router_new A) ''/api'' (api_games A)) (api_health A)"

lemma api_nested:
  assumes "spa_env_laws E"
  shows "sr_path q = ''/api/games/'' @ i \<Longrightarrow> game_path (''/games/'' @ i) \<Longrightarrow> sr_method q = GET \<Longrightarrow>
      pe_answer E (router_nest (pe_axum E) (router_new (pe_axum E)) ''/api'' (api_games (pe_axum E))) q w
        = Some (text_response 200 ''game'', w)"
    and "\<not> starts_with ''/api/games/'' (sr_path q) \<Longrightarrow>
      pe_answer E (router_nest (pe_axum E) (router_new (pe_axum E)) ''/api'' (api_games (pe_axum E))) q w = None"
proof -
  note laws = spa_env_lawsD(1) [OF assms]
  note new = routing_lawsD(1) [OF laws]
  let ?nested = "router_nest (pe_axum E) (router_new (pe_axum E)) ''/api'' (api_games (pe_axum E))"
  show "pe_answer E ?nested q w = Some (text_response 200 ''game'', w)"
    if "sr_path q = ''/api/games/'' @ i" "game_path (''/games/'' @ i)" "sr_method q = GET"
    using routing_lawsD(7) [OF laws _ _ new, of "''/api''" q "''games/'' @ i"] that
      spa_env_lawsD(5) [OF assms, of "q\<lparr>sr_path := ''/games/'' @ i\<rparr>"] by simp
  show "pe_answer E ?nested q w = None" if no: "\<not> starts_with ''/api/games/'' (sr_path q)"
  proof (cases "under (sr_path q) ''/api''")
    case False
    then show ?thesis using routing_lawsD(6) [OF laws _ False] new by simp
  next
    case True
    have plain: "trim_end_matches CHR ''/'' ''/api'' = ''/api''" by code_simp
    from True consider "sr_path q = ''/api''" | rest where "sr_path q = ''/api'' @ ''/'' @ rest"
      by (auto simp: under_iff plain str_iff)
    then show ?thesis
    proof cases
      case 1
      have "\<not> game_path ''/''" by code_simp
      with routing_lawsD(8) [OF laws _ 1 new] spa_env_lawsD(4) [OF assms, of "q\<lparr>sr_path := ''/''\<rparr>"]
      show ?thesis by simp
    next
      case (2 rest)
      have "\<not> game_path (''/'' @ rest)"
        using no 2 by (auto simp: game_path_def str_iff split: option.splits)
      with routing_lawsD(7) [OF laws _ 2 new] spa_env_lawsD(4) [OF assms, of "q\<lparr>sr_path := ''/'' @ rest\<rparr>"]
      show ?thesis by simp
    qed
  qed
qed

lemma api_routes_answer:
  assumes "spa_env_laws E"
  shows "sr_path q = ''/api/games/1'' \<Longrightarrow> sr_method q = GET \<Longrightarrow>
      pe_answer E (api_routes (pe_axum E)) q w = Some (text_response 200 ''game'', w)"
    and "sr_path q = ''/health'' \<Longrightarrow> sr_method q = GET \<Longrightarrow>
      pe_answer E (api_routes (pe_axum E)) q w = Some (text_response 200 ''ok'', w)"
    and "\<not> starts_with ''/api/games/'' (sr_path q) \<Longrightarrow> sr_path q \<noteq> ''/health'' \<Longrightarrow>
      pe_answer E (api_routes (pe_axum E)) q w = None"
proof -
  note laws = spa_env_lawsD(1) [OF assms]
  note new = routing_lawsD(1) [OF laws] and nested = api_nested [OF assms]
  have health: "sr_path q \<noteq> ''/health'' \<Longrightarrow> pe_answer E (api_health (pe_axum E)) q w = None"
    "sr_path q = ''/health'' \<Longrightarrow> sr_method q = GET \<Longrightarrow>
      pe_answer E (api_health (pe_axum E)) q w = Some (text_response 200 ''ok'', w)"
    using routing_lawsD(2) [OF laws, of "''/health''" q] routing_lawsD(3) [OF laws, of "''/health''" q, OF _ _ new]
      new by (simp_all add: api_health_def static_text_def)
  note merge = laws [unfolded routing_laws_def, THEN conjunct2, THEN conjunct2, THEN conjunct2,
      THEN conjunct2, THEN conjunct1, rule_format]
  have game: "game_path (''/games/'' @ ''1'')" by code_simp
  show "pe_answer E (api_routes (pe_axum E)) q w = Some (text_response 200 ''game'', w)"
    if "sr_path q = ''/api/games/1''" "sr_method q = GET"
    unfolding api_routes_def using that health(1) nested(1) [OF _ game, of q w] by (subst merge) simp_all
  show "pe_answer E (api_routes (pe_axum E)) q w = Some (text_response 200 ''ok'', w)"
    if "sr_path q = ''/health''" "sr_method q = GET"
    unfolding api_routes_def using that health(2) nested(2) [of q w] by (subst merge) simp_all
  show "pe_answer E (api_routes (pe_axum E)) q w = None"
    if "\<not> starts_with ''/api/games/'' (sr_path q)" "sr_path q \<noteq> ''/health''"
    unfolding api_routes_def using that health(1) nested(2) [of q w] by (subst merge) simp_all
qed

lemma composed_api:
  assumes "spa_env_laws E"
  shows "pe_answer E (compose (axum_api.truncate (pe_axum E)) (api_registry (pe_axum E) fb)) q w =
    (case pe_answer E (api_routes (pe_axum E)) q w of
       Some x \<Rightarrow> Some x
     | None \<Rightarrow> (case fb of Some r \<Rightarrow> pe_answer E r q w | None \<Rightarrow> None))"
  by (cases fb)
    (simp_all add: compose_def api_registry_def compose_entry_def axum_api.truncate_def api_routes_def
      routing_lawsD(9) [OF spa_env_lawsD(1) [OF assms]] split: option.splits)

section \<open>The responses of the plugin's fallback\<close>

lemma dist_facts:
  "distinct (map as_route TEST_DIST)"
  "list_all (\<lambda>a. as_bytes a \<noteq> None \<and> \<not> as_is_compressed a \<and> \<not> as_should_compress a) TEST_DIST"
  "list_all (\<lambda>a. as_bytes a \<noteq> None) TEST_DIST"
  "as_route ` set TEST_DIST = {''/index.html'', ''/assets/app-abc123.js'', ''/sw.js'', ''/favicon.ico''}"
  by (simp_all add: TEST_DIST_def embedded_def)

lemma default_config:
  "sp_no_cache spa_config_default = [''/sw.js'']" "sp_assets_prefix spa_config_default = ''/assets''"
  "list_ex (\<lambda>p. under path p) (sp_exclude_prefixes spa_config_default @ [sp_assets_prefix spa_config_default])
     \<longleftrightarrow> reserved path"
  by (auto simp: spa_config_default_def reserved_def)

lemma client_route_default:
  "client_route e files spa_config_default q w =
     (if reserved (sr_path q) \<or> sr_method q \<notin> {GET, HEAD} then (not_found e, w)
      else files (q\<lparr>sr_path := INDEX\<rparr>) w)"
  by (simp only: client_route_def Let_def default_config(3))

lemma dist_file_found:
  assumes "spa_env_laws E" and "sr_method q = GET" and "sr_headers q ''if-none-match'' = None"
    and "a \<in> set TEST_DIST" and "as_route a = sr_path q" and "sr_path q \<noteq> ''/''"
  shows "\<exists>hdrs. ms_files (pe_files E) TEST_DIST CacheNoCache CacheMedium q w
      = (Some \<lparr>rp_status = 200, rp_headers = hdrs, rp_body = the (as_bytes a)\<rparr>, w)
    \<and> (as_content_type a = ''text/html'' \<longrightarrow> hdrs ''cache-control'' = Some ''no-cache'')
    \<and> (as_content_type a \<noteq> ''text/html'' \<longrightarrow>
         (\<exists>cache. hdrs ''cache-control'' = Some cache \<and> starts_with ''max-age=604800'' cache))"
proof -
  from assms(4) dist_facts(3) obtain bytes where bytes: "as_bytes a = Some bytes"
    by (auto simp: list_all_iff)
  note laws = spa_env_lawsD(2) [OF assms(1), unfolded memory_serve_laws_def, THEN conjunct2, rule_format,
      OF assms(2,3) dist_facts(1,2), THEN conjunct1, rule_format, OF assms(4,5) bytes assms(6)]
  from laws [of CacheNoCache CacheMedium w] obtain hdrs where
    hit: "ms_files (pe_files E) TEST_DIST CacheNoCache CacheMedium q w
      = (Some \<lparr>rp_status = 200, rp_headers = hdrs, rp_body = bytes\<rparr>, w)"
    and html: "as_content_type a = ''text/html'' \<longrightarrow> hdrs ''cache-control'' = Some ''no-cache''"
    by blast
  from spa_env_lawsD(7) [OF assms(1) assms(4,5) _ hit] hit html bytes show ?thesis by simp
qed

lemma TEST_DIST_router:
  "spa_router M TEST_DIST cfg q w = cache_headers (\<lambda>request w.
     (case ms_files M TEST_DIST CacheNoCache CacheMedium request w of
        (Some response, w) \<Rightarrow> (response, w)
      | (None, w) \<Rightarrow> client_route (ms_empty M) (files_service M TEST_DIST True) cfg request w)) cfg True q w"
  by (simp only: spa_router_def Let_def dist_facts(3) if_True)

lemma served_file:
  assumes "spa_env_laws E" and "sr_method q = GET" and "sr_headers q ''if-none-match'' = None"
    and "a \<in> set TEST_DIST" and "as_route a = sr_path q" and "sr_path q \<noteq> ''/''"
  shows "\<exists>cache. observed (fst (spa_router (pe_files E) TEST_DIST spa_config_default q w))
      = (200, cache, the (as_bytes a))
    \<and> (if sr_path q = ''/sw.js'' then cache = ''no-cache''
       else if under (sr_path q) ''/assets'' then cache = ''max-age=31536000, immutable''
       else if as_content_type a = ''text/html'' then cache = ''no-cache''
       else starts_with ''max-age=604800'' cache)"
  using dist_file_found [OF assms, of w]
  by (auto simp: TEST_DIST_router cache_headers_def Let_def is_success_def default_config observed_def
      NO_CACHE_def IMMUTABLE_def)

lemma served_page:
  assumes "spa_env_laws E" and "sr_method q = GET" and "sr_headers q ''if-none-match'' = None"
    and "\<not> reserved (sr_path q)" and "sr_path q = ''/'' \<or> sr_path q \<notin> as_route ` set TEST_DIST"
  shows "observed (fst (spa_router (pe_files E) TEST_DIST spa_config_default q w)) = (200, ''no-cache'', page)"
proof -
  let ?q = "q\<lparr>sr_path := INDEX\<rparr>" and ?a = "embedded ''/index.html'' ''text/html'' page"
  have a: "?a \<in> set TEST_DIST" "as_route ?a = sr_path ?q" "as_bytes ?a = Some page"
      "as_content_type ?a = ''text/html''"
    by (simp_all add: TEST_DIST_def embedded_def INDEX_def)
  have index_path: "sr_path ?q \<noteq> ''/''" by (simp add: INDEX_def)
  obtain hdrs where hit: "ms_files (pe_files E) TEST_DIST CacheNoCache CacheMedium ?q w
      = (Some \<lparr>rp_status = 200, rp_headers = hdrs, rp_body = page\<rparr>, w)"
    and html: "hdrs ''cache-control'' = Some ''no-cache''"
    using dist_file_found [OF assms(1) _ _ a(1,2) index_path, of w] assms(2,3) a(3,4) by auto
  have not_assets: "\<not> under (sr_path q) ''/assets''" using assms(4) by (auto simp: reserved_def)
  show ?thesis
  proof (cases "sr_path q = ''/''")
    case True
    have "ms_files (pe_files E) TEST_DIST CacheNoCache CacheMedium q w
        = ms_files (pe_files E) TEST_DIST CacheNoCache CacheMedium ?q w"
      using spa_env_lawsD(2) [OF assms(1), unfolded memory_serve_laws_def, THEN conjunct2, rule_format,
          OF assms(2,3) dist_facts(1,2), THEN conjunct2, THEN conjunct1] True by blast
    with hit html not_assets True show ?thesis
      by (simp add: TEST_DIST_router cache_headers_def Let_def is_success_def default_config observed_def)
  next
    case False
    have "ms_files (pe_files E) TEST_DIST CacheNoCache CacheMedium q w = (None, w)"
      using spa_env_lawsD(6) [OF assms(1) False] assms(5) False by blast
    moreover have "sr_path q \<noteq> ''/sw.js''" using assms(5) False dist_facts(4) by auto
    ultimately show ?thesis
      using hit html not_assets assms(2,4)
      by (auto simp: TEST_DIST_router cache_headers_def Let_def is_success_def default_config observed_def
          client_route_default files_service_def)
  qed
qed

lemma served_404:
  assumes "spa_env_laws E" and "sr_path q \<noteq> ''/''" and "sr_path q \<notin> as_route ` set TEST_DIST"
    and "reserved (sr_path q) \<or> sr_method q \<notin> {GET, HEAD}"
  shows "observed (fst (spa_router (pe_files E) TEST_DIST spa_config_default q w)) = (404, [], [])"
proof -
  have "ms_files (pe_files E) TEST_DIST CacheNoCache CacheMedium q w = (None, w)"
    by (rule spa_env_lawsD(6) [OF assms(1-3)])
  moreover have "ms_empty (pe_files E) = []"
    using spa_env_lawsD(2) [OF assms(1)] by (simp add: memory_serve_laws_def)
  ultimately show ?thesis
    using assms(4)
    by (auto simp: TEST_DIST_router cache_headers_def Let_def is_success_def observed_def
        client_route_default not_found_def)
qed

section \<open>The tests pass\<close>

text \<open>A request of the tests, from the composed router.\<close>

lemma get_path_spa:
  assumes "spa_env_laws E" and "\<not> starts_with ''/api/games/'' path" and "path \<noteq> ''/health''"
  shows "get_path E (test_app ty E TEST_DIST spa_first w) m path u
    = Some (observed (fst (spa_router (pe_files E) TEST_DIST spa_config_default
        \<lparr>sr_method = m, sr_path = path, sr_headers = Map.empty\<rparr> u)))"
  using assms
  by (simp add: get_path_def test_app_router composed_api api_routes_answer(3) respond_def
      routing_lawsD(10) [OF spa_env_lawsD(1)] spa_request.truncate_def)

lemma get_path_api:
  assumes "spa_env_laws E"
  shows "get_path E (test_app ty E TEST_DIST spa_first w) GET ''/api/games/1'' u = Some (200, [], ''game'')"
    and "get_path E (test_app ty E TEST_DIST spa_first w) GET ''/health'' u = Some (200, [], ''ok'')"
  using assms
  by (simp_all add: get_path_def test_app_router composed_api api_routes_answer(1,2) respond_def
      observed_def text_response_def)

lemma get_path_file:
  assumes "spa_env_laws E" and "a \<in> set TEST_DIST" and "as_route a = path"
  shows "\<exists>cache. get_path E (test_app ty E TEST_DIST spa_first w) GET path u = Some (200, cache, the (as_bytes a))
    \<and> (if path = ''/sw.js'' then cache = ''no-cache''
       else if under path ''/assets'' then cache = ''max-age=31536000, immutable''
       else if as_content_type a = ''text/html'' then cache = ''no-cache''
       else starts_with ''max-age=604800'' cache)"
proof -
  have "path \<in> {''/index.html'', ''/assets/app-abc123.js'', ''/sw.js'', ''/favicon.ico''}"
    using assms(2,3) dist_facts(4) by blast
  then have path: "\<not> starts_with ''/api/games/'' path" "path \<noteq> ''/health''" "path \<noteq> ''/''"
    by auto
  let ?q = "\<lparr>sr_method = GET, sr_path = path, sr_headers = Map.empty\<rparr>"
  have "\<exists>cache. observed (fst (spa_router (pe_files E) TEST_DIST spa_config_default ?q u))
      = (200, cache, the (as_bytes a))
    \<and> (if sr_path ?q = ''/sw.js'' then cache = ''no-cache''
       else if under (sr_path ?q) ''/assets'' then cache = ''max-age=31536000, immutable''
       else if as_content_type a = ''text/html'' then cache = ''no-cache''
       else starts_with ''max-age=604800'' cache)"
    by (rule served_file [OF assms(1)]) (simp_all add: assms(2,3) path(3))
  then show ?thesis
    by (simp only: get_path_spa [OF assms(1) path(1,2)] option.inject spa_request.simps)
qed

lemma get_path_page:
  assumes "spa_env_laws E" and "\<not> reserved path" and "path = ''/'' \<or> path \<notin> as_route ` set TEST_DIST"
    and "\<not> starts_with ''/api/games/'' path" and "path \<noteq> ''/health''"
  shows "get_path E (test_app ty E TEST_DIST spa_first w) GET path u = Some (200, ''no-cache'', page)"
  using served_page [OF assms(1), of "\<lparr>sr_method = GET, sr_path = path, sr_headers = Map.empty\<rparr>" u] assms(2-)
  by (simp add: get_path_spa [OF assms(1)])

lemma get_path_404:
  assumes "spa_env_laws E" and "path \<noteq> ''/''" and "path \<notin> as_route ` set TEST_DIST"
    and "reserved path \<or> m \<notin> {GET, HEAD}" and "\<not> starts_with ''/api/games/'' path" and "path \<noteq> ''/health''"
  shows "get_path E (test_app ty E TEST_DIST spa_first w) m path u = Some (404, [], [])"
  using served_404 [OF assms(1), of "\<lparr>sr_method = m, sr_path = path, sr_headers = Map.empty\<rparr>" u] assms(2-)
  by (simp add: get_path_spa [OF assms(1)])

lemma test_paths:
  "\<not> reserved ''/''" "\<not> reserved ''/games/1''" "\<not> reserved ''/apiary''" "reserved ''/api/nope''"
  "reserved ''/api''" "reserved ''/docs/x''" "reserved ''/assets/gone-123.js''"
  "under ''/assets/app-abc123.js'' ''/assets''" "\<not> under ''/index.html'' ''/assets''"
  "\<not> under ''/favicon.ico'' ''/assets''" "contains_sub ''<title>spa</title>'' page"
  by code_simp+

lemma dist_members:
  "embedded ''/index.html'' ''text/html'' page \<in> set TEST_DIST"
  "embedded ''/assets/app-abc123.js'' ''text/javascript'' ''console.log(1)'' \<in> set TEST_DIST"
  "embedded ''/sw.js'' ''text/javascript'' ''self.skipWaiting()'' \<in> set TEST_DIST"
  "embedded ''/favicon.ico'' ''image/x-icon'' ''ico'' \<in> set TEST_DIST"
  by (simp_all add: TEST_DIST_def)

lemma spa_tests:
  assumes "spa_env_laws E"
  shows "client_routes_get_index_uncached ty E w" "fingerprinted_assets_are_immutable ty E w"
    "service_worker_is_not_cached_and_other_files_are_briefly ty E w"
    "server_paths_and_missing_assets_are_plain_404s ty E w" "api_routes_win_over_the_fallback ty E w"
    "plugin_order_does_not_matter ty E w"
proof -
  note page = get_path_page [OF assms] and missing = get_path_404 [OF assms]
  note index = get_path_file [OF assms dist_members(1) refl] and js = get_path_file [OF assms dist_members(2) refl]
    and worker = get_path_file [OF assms dist_members(3) refl] and icon = get_path_file [OF assms dist_members(4) refl]
  note file_parts = embedded_def asset.simps
  show "client_routes_get_index_uncached ty E w"
    using index [of ty True w w, unfolded file_parts]
    by (auto simp: client_routes_get_index_uncached_def page test_paths dist_facts(4))
  show "fingerprinted_assets_are_immutable ty E w"
    using js [of ty True w w, unfolded file_parts]
    by (auto simp: fingerprinted_assets_are_immutable_def test_paths)
  show "service_worker_is_not_cached_and_other_files_are_briefly ty E w"
    using worker [of ty True w w, unfolded file_parts] icon [of ty True w w, unfolded file_parts]
    by (auto simp: service_worker_is_not_cached_and_other_files_are_briefly_def test_paths)
  show "server_paths_and_missing_assets_are_plain_404s ty E w"
    by (simp add: server_paths_and_missing_assets_are_plain_404s_def missing page test_paths dist_facts(4))
  show "api_routes_win_over_the_fallback ty E w"
    by (simp add: api_routes_win_over_the_fallback_def get_path_api [OF assms])
  show "plugin_order_does_not_matter ty E w"
    by (simp add: plugin_order_does_not_matter_def get_path_api [OF assms] missing page test_paths dist_facts(4))
qed

lemma no_assets_inert:
  assumes "spa_env_laws E"
  shows "no_assets_leaves_the_plugin_inert ty E w"
  using assms
  by (simp add: no_assets_leaves_the_plugin_inert_def get_path_def test_app_router composed_api
      api_routes_answer(3) respond_def observed_def not_found_def)

end
