(* ===== verification/Tests_Store.thy ===== *)
theory Tests_Store
  imports Auth_Sessions Auth_Provider "HOL-Library.Finite_Map"
begin

text \<open>
  \<open>muxa-auth/tests/diesel_store.rs\<close>: the session store's tests, over any database that keeps the table
  as SQL says and is up for the minute that a test may take. Times count microseconds, which is what
  Postgres keeps.
\<close>

section \<open>The test database\<close>

definition MILLISECOND :: int where "MILLISECOND = 1000"
definition MINUTE :: int where "MINUTE = 60 * 1000 * MILLISECOND"
definition HOUR :: int where "HOUR = 60 * MINUTE"

lemmas durations = MILLISECOND_def MINUTE_def HOUR_def

text \<open>
  \<open>table_laws\<close>, no call fails, the clock stays within the minute from \<open>t0\<close> on, and drawing random
  ids comes to one that is free.
\<close>

definition test_db :: "('i, 'd, 'j, 'w) store_api \<Rightarrow> ('w \<Rightarrow> 'i \<rightharpoonup> 'j \<times> int) \<Rightarrow> int \<Rightarrow> bool" where
  "test_db A table t0 \<longleftrightarrow>
     table_laws A table
     \<and> (\<forall>w. fst (get_conn A w) = Inr ()) \<and> (\<forall>stmt w. \<not> is_err (fst (execute A stmt w)))
     \<and> (\<forall>i now w. \<not> is_err (fst (select_live A i now w))) \<and> (\<forall>d. \<not> is_err (to_value A d))
     \<and> (\<forall>w. t0 \<le> now_utc A w \<and> now_utc A w < t0 + MINUTE)
     \<and> (\<forall>j e i w. \<exists>n. table w (fst ((next_try A j e ^^ n) (i, w))) = None)"

lemma test_dbD:
  assumes "test_db A table t0"
  shows "table_laws A table" and "fst (get_conn A w) = Inr ()" and "\<not> is_err (fst (execute A stmt w))"
    and "\<not> is_err (fst (select_live A i now w))" and "\<not> is_err (to_value A d)"
    and "t0 \<le> now_utc A w" and "now_utc A w < t0 + MINUTE"
    and "\<exists>n. table w (fst ((next_try A j e ^^ n) (i, w))) = None"
  using assms unfolding test_db_def by blast+

lemma test_db_conn: "test_db A table t0 \<Longrightarrow> store_conn A w = (Inr (), snd (get_conn A w))"
  using test_dbD(2) [of A table t0 w] by (simp add: store_conn_def case_prod_beta)

lemma test_db_encodes:
  assumes "test_db A table t0"
  obtains j where "to_value A d = Inr j" "from_value A j = Inr d"
  using test_dbD(1) [OF assms] test_dbD(5) [OF assms, of d] that by (cases "to_value A d") (auto simp: table_laws_def)

section \<open>What each call does\<close>

text \<open>\<open>holds\<close>: the row of a session.\<close>

definition holds :: "('i, 'd, 'j, 'w) store_api \<Rightarrow> ('i \<rightharpoonup> 'j \<times> int) \<Rightarrow> ('i, 'd) session_record \<Rightarrow> bool" where
  "holds A t rec \<longleftrightarrow> (\<exists>j. t (sr_id rec) = Some (j, sr_expiry_date rec) \<and> from_value A j = Inr (sr_data rec))"

lemma create_loop_succeeds:
  fixes A :: "('a, 'b, 'c, 'd) store_api"
  assumes "\<And>stmt w. \<not> is_err (fst (execute A stmt w))" and "create_loop A val rec w = Some (r, rec', w')"
  shows "\<not> is_err r"
proof -
  define Q where "Q = (\<lambda>(A :: ('a, 'b, 'c, 'd) store_api) (val :: 'c) (rec :: ('a, 'b) session_record) (w :: 'd) y.
    (\<forall>stmt w. \<not> is_err (fst (execute A stmt w)))
      \<longrightarrow> \<not> is_err (fst (y :: (store_error + unit) \<times> ('a, 'b) session_record \<times> 'd)))"
  have "Q A val rec w (r, rec', w')"
  proof (rule create_loop.raw_induct [where P = Q, OF _ assms(2)])
    fix loop :: "('a, 'b, 'c, 'd) store_api \<Rightarrow> 'c \<Rightarrow> ('a, 'b) session_record \<Rightarrow> 'd
        \<Rightarrow> ((store_error + unit) \<times> ('a, 'b) session_record \<times> 'd) option"
      and A val rec w y
    assume ih: "\<And>A val rec w y. loop A val rec w = Some y \<Longrightarrow> Q A val rec w y"
      and eq: "(let (inserted, w) = execute A (InsertIgnore (sr_id rec) val (sr_expiry_date rec)) w
        in if is_err inserted then Some (map_err backend_error (map_sum id (\<lambda>_. ()) inserted), rec, w)
           else if inserted = Inr 1 then Some (Inr (), rec, w)
           else loop A val (rec\<lparr>sr_id := fst (new_id A w)\<rparr>) (snd (new_id A w))) = Some y"
    show "Q A val rec w y"
      unfolding Q_def
    proof
      assume up: "\<forall>stmt w. \<not> is_err (fst (execute A stmt w))"
      with eq ih show "\<not> is_err (fst y)"
        by (auto simp: case_prod_beta Q_def split: if_splits)
    qed
  qed
  with assms(1) show ?thesis by (simp add: Q_def)
qed

lemma create_works:
  assumes db: "test_db A table t0"
  obtains i w' where "store_create A rec w = Some (Inr (), rec\<lparr>sr_id := i\<rparr>, w')"
    and "table w i = None" and "holds A (table w') (rec\<lparr>sr_id := i\<rparr>)"
    and "\<And>k. k \<noteq> i \<Longrightarrow> table w' k = table w k"
proof -
  obtain j where j: "to_value A (sr_data rec) = Inr j" "from_value A j = Inr (sr_data rec)"
    by (rule test_db_encodes [OF db])
  let ?w = "snd (get_conn A w)"
  obtain n where "table ?w (fst ((next_try A j (sr_expiry_date rec) ^^ n) (sr_id rec, ?w))) = None"
    using test_dbD(8) [OF db] by blast
  from create_loop_returns [OF test_dbD(1) [OF db] this]
  obtain r rec' w' where run: "create_loop A j rec ?w = Some (r, rec', w')" by auto
  then have made: "store_create A rec w = Some (r, rec', w')"
    by (simp add: store_create_def encode_record_def j(1) test_db_conn [OF db])
  have "\<not> is_err r"
    using create_loop_succeeds [OF test_dbD(3) [OF db] run] .
  with store_create_ok [OF test_dbD(1) [OF db] made] j have new:
    "r = Inr ()" "table w (sr_id rec') = None" "rec' = rec\<lparr>sr_id := sr_id rec'\<rparr>"
    "table w' = (table w)(sr_id rec' \<mapsto> (j, sr_expiry_date rec))"
    "sr_expiry_date rec' = sr_expiry_date rec" "sr_data rec' = sr_data rec"
    by (cases r; simp)+
  show thesis
  proof (rule that [of "sr_id rec'" w'])
    show "store_create A rec w = Some (Inr (), rec\<lparr>sr_id := sr_id rec'\<rparr>, w')"
      using made new(1,3) by simp
  qed (use new j in \<open>simp_all add: holds_def\<close>)
qed

text \<open>A load reads the row that is there; it finds nothing where there is none or only an expired one.\<close>

lemma load_row:
  assumes db: "test_db A table t0"
  shows "\<exists>w' w1. table w' = table w \<and> t0 \<le> now_utc A w1 \<and> now_utc A w1 < t0 + MINUTE
    \<and> store_load A i w = (case table w i of
        Some (j, e) \<Rightarrow>
          if now_utc A w1 < e
          then (case from_value A j of
                  Inl err \<Rightarrow> (Inl (Decode err), w')
                | Inr d \<Rightarrow> (Inr (Some \<lparr>sr_id = i, sr_data = d, sr_expiry_date = e\<rparr>), w'))
          else (Inr None, w')
      | None \<Rightarrow> (Inr None, w'))"
proof -
  let ?w = "snd (get_conn A w)"
  obtain q w2 where q: "select_live A i (now_utc A ?w) ?w = (q, w2)"
    by (cases "select_live A i (now_utc A ?w) ?w")
  with test_dbD(4) [OF db, of i "now_utc A ?w" ?w] obtain row where row: "q = Inr row"
    by (cases q) auto
  have same: "table ?w = table w" using test_dbD(1) [OF db] by (simp add: table_laws_def)
  have sel: "table w2 = table w \<and> row = (case table w i of
      Some (v, e) \<Rightarrow> if now_utc A ?w < e then Some (v, e) else None | None \<Rightarrow> None)"
    using test_dbD(1) [OF db, unfolded table_laws_def, THEN conjunct2, THEN conjunct2, THEN conjunct2,
        THEN conjunct1, rule_format, OF q] row same by simp
  show ?thesis
    by (rule exI [of _ w2], rule exI [of _ ?w])
      (use sel q row test_dbD(6,7) [OF db, of ?w] in
        \<open>auto simp: store_load_def test_db_conn [OF db] split: option.splits sum.splits\<close>)
qed

lemma load_live:
  assumes "test_db A table t0" and "holds A (table w) rec" and "t0 + MINUTE \<le> sr_expiry_date rec"
    and "sr_id rec = i"
  obtains w' where "store_load A i w = (Inr (Some rec), w')" and "table w' = table w"
  using load_row [OF assms(1), of w i] assms(2-4) that by (auto simp: holds_def)

lemma load_gone:
  assumes "test_db A table t0" and "table w i = None \<or> holds A (table w) rec \<and> sr_id rec = i \<and> sr_expiry_date rec \<le> t0"
  obtains w' where "store_load A i w = (Inr None, w')" and "table w' = table w"
  using load_row [OF assms(1), of w i] assms(2) that by (force simp: holds_def)

lemma execute_works:
  assumes db: "test_db A table t0"
  obtains w' where "store_execute A stmt w = (Inr (), w')" and "table w' = statement_effect stmt (table w)"
proof -
  obtain r w' where r: "store_execute A stmt w = (r, w')" by (cases "store_execute A stmt w")
  moreover have "r = Inr ()"
    using r test_dbD(3) [OF db, of stmt "snd (get_conn A w)"]
    by (cases "execute A stmt (snd (get_conn A w))"; cases "fst (execute A stmt (snd (get_conn A w)))")
      (auto simp: store_execute_def test_db_conn [OF db])
  ultimately show thesis
    using that store_execute_table [OF test_dbD(1) [OF db] r] by simp
qed

lemma save_works:
  assumes db: "test_db A table t0"
  obtains w' where "store_save A rec w = (Inr (), w')" and "holds A (table w') rec"
proof -
  obtain j where j: "to_value A (sr_data rec) = Inr j" "from_value A j = Inr (sr_data rec)"
    by (rule test_db_encodes [OF db])
  obtain w' where w': "store_execute A (Upsert (sr_id rec) j (sr_expiry_date rec)) w = (Inr (), w')"
    "table w' = statement_effect (Upsert (sr_id rec) j (sr_expiry_date rec)) (table w)"
    by (rule execute_works [OF db])
  show thesis
    by (rule that [of w']) (use j w' in \<open>simp_all add: store_save_def encode_record_def holds_def statement_effect_def\<close>)
qed

lemma delete_works:
  assumes db: "test_db A table t0"
  obtains w' where "store_delete A i w = (Inr (), w')" and "table w' i = None"
proof -
  obtain w' where "store_execute A (DeleteId i) w = (Inr (), w')"
    "table w' = statement_effect (DeleteId i) (table w)" by (rule execute_works [OF db])
  then show thesis using that by (simp add: store_delete_def statement_effect_def)
qed

lemma sweep_works:
  assumes db: "test_db A table t0"
  obtains w' where "delete_expired A w = (Inr (), w')"
    and "\<And>rec. holds A (table w) rec \<Longrightarrow> t0 + MINUTE \<le> sr_expiry_date rec \<Longrightarrow> holds A (table w') rec"
proof -
  let ?w = "snd (get_conn A w)"
  obtain r w' where r: "delete_expired A w = (r, w')" by (cases "delete_expired A w")
  have ok: "r = Inr ()"
    using r test_dbD(3) [OF db, of "DeleteBefore (now_utc A ?w)" ?w]
    by (cases "execute A (DeleteBefore (now_utc A ?w)) ?w"; cases "fst (execute A (DeleteBefore (now_utc A ?w)) ?w)")
      (auto simp: delete_expired_def test_db_conn [OF db])
  have t: "table w' = statement_effect (DeleteBefore (now_utc A ?w)) (table w)"
    using delete_expired_table [OF test_dbD(1) [OF db] r [unfolded ok]] by (simp add: test_db_conn [OF db])
  show thesis
    by (rule that [OF r [unfolded ok]])
      (use t test_dbD(7) [OF db, of ?w] in \<open>force simp: holds_def statement_effect_def\<close>)
qed

section \<open>The tests\<close>

type_synonym session_data = "(string, json) hmap"

definition test_record ::
    "('i, session_data, 'j, 'w) store_api \<Rightarrow> int \<Rightarrow> 'w \<Rightarrow> ('i, session_data) session_record \<times> 'w" where
  "test_record A expires_in w =
     (let dat = hm_insert ''user'' (JObject [(''id'', JNumber ''7'')]) [];
          (i, w) = new_id A w
      in (\<lparr>sr_id = i, sr_data = dat, sr_expiry_date = now_utc A w + expires_in\<rparr>, w))"

definition round_trip_update_delete :: "('i, session_data, 'j, 'w) store_api \<Rightarrow> 'w \<Rightarrow> bool" where
  "round_trip_update_delete A w =
     (let (session, w) = test_record A HOUR w
      in case store_create A session w of
           Some (Inr _, session, w) \<Rightarrow>
             (case store_load A (sr_id session) w of
                (Inr (Some loaded), w) \<Rightarrow>
                  sr_data loaded = sr_data session
                  \<and> \<bar>sr_expiry_date loaded - sr_expiry_date session\<bar> < MILLISECOND
                  \<and> (let session = session\<lparr>sr_data := hm_insert ''theme'' (JString ''dark'') (sr_data session)\<rparr>
                     in case store_save A session w of
                          (Inr _, w) \<Rightarrow>
                            (case store_load A (sr_id session) w of
                               (Inr (Some loaded), w) \<Rightarrow>
                                 hm_get ''theme'' (sr_data loaded) = Some (JString ''dark'')
                                 \<and> (case store_delete A (sr_id session) w of
                                      (Inr _, w) \<Rightarrow> fst (store_load A (sr_id session) w) = Inr None
                                    | _ \<Rightarrow> False)
                             | _ \<Rightarrow> False)
                        | _ \<Rightarrow> False)
              | _ \<Rightarrow> False)
         | _ \<Rightarrow> False)"

definition is_some_record :: "(store_error + ('i, 'd) session_record option) \<Rightarrow> bool" where
  "is_some_record r = (case r of Inr (Some _) \<Rightarrow> True | _ \<Rightarrow> False)"

definition create_redraws_a_taken_id :: "('i, session_data, 'j, 'w) store_api \<Rightarrow> 'w \<Rightarrow> bool" where
  "create_redraws_a_taken_id A w =
     (let (first, w) = test_record A HOUR w
      in case store_create A first w of
           Some (Inr _, first, w) \<Rightarrow>
             (let (second, w) = test_record A HOUR w;
                  second = second\<lparr>sr_id := sr_id first\<rparr>
              in case store_create A second w of
                   Some (Inr _, second, w) \<Rightarrow>
                     (let (loaded1, w) = store_load A (sr_id first) w;
                          (loaded2, w) = store_load A (sr_id second) w
                      in sr_id first \<noteq> sr_id second \<and> is_some_record loaded1 \<and> is_some_record loaded2)
                 | _ \<Rightarrow> False)
         | _ \<Rightarrow> False)"

definition expired_sessions_are_invisible_and_swept ::
    "('i, session_data, 'j, 'w) store_api \<Rightarrow> 'w \<Rightarrow> bool" where
  "expired_sessions_are_invisible_and_swept A w =
     (let (stale, w) = test_record A (- MINUTE) w
      in case store_create A stale w of
           Some (Inr _, stale, w) \<Rightarrow>
             (case store_load A (sr_id stale) w of
                (Inr None, w) \<Rightarrow>
                  (let (fresh, w) = test_record A HOUR w
                   in case store_create A fresh w of
                        Some (Inr _, fresh, w) \<Rightarrow>
                          (case delete_expired A w of
                             (Inr _, w) \<Rightarrow> is_some_record (fst (store_load A (sr_id fresh) w))
                           | _ \<Rightarrow> False)
                      | _ \<Rightarrow> False)
              | _ \<Rightarrow> False)
         | _ \<Rightarrow> False)"

lemma test_record_expiry:
  assumes "test_db A table t0" and "test_record A d w = (rec, w')"
  shows "t0 + d \<le> sr_expiry_date rec" and "sr_expiry_date rec < t0 + d + MINUTE" and "table w' = table w"
  using assms(2) test_dbD(6,7) [OF assms(1), of "snd (new_id A w)"] test_dbD(1) [OF assms(1)]
  by (auto simp: test_record_def case_prod_beta table_laws_def)

lemma round_trip:
  assumes db: "test_db A table t0"
  shows "round_trip_update_delete A w"
proof -
  obtain s w1 where s: "test_record A HOUR w = (s, w1)" by (cases "test_record A HOUR w")
  obtain i w2 where c: "store_create A s w1 = Some (Inr (), s\<lparr>sr_id := i\<rparr>, w2)"
    and h: "holds A (table w2) (s\<lparr>sr_id := i\<rparr>)" by (rule create_works [OF db])
  have late: "t0 + MINUTE \<le> sr_expiry_date s" using test_record_expiry [OF db s] by (simp add: durations)
  obtain w3 where l: "store_load A i w2 = (Inr (Some (s\<lparr>sr_id := i\<rparr>)), w3)"
    by (rule load_live [OF db h]) (use late in simp_all)
  let ?s = "s\<lparr>sr_id := i, sr_data := hm_insert ''theme'' (JString ''dark'') (sr_data s)\<rparr>"
  obtain w4 where sv: "store_save A ?s w3 = (Inr (), w4)" and h2: "holds A (table w4) ?s"
    by (rule save_works [OF db])
  obtain w5 where l2: "store_load A i w4 = (Inr (Some ?s), w5)"
    by (rule load_live [OF db h2]) (use late in simp_all)
  obtain w6 where d: "store_delete A i w5 = (Inr (), w6)" and gone: "table w6 i = None"
    by (rule delete_works [OF db])
  obtain w7 where "store_load A i w6 = (Inr None, w7)" by (rule load_gone [OF db disjI1 [OF gone]])
  with s c l sv l2 d show ?thesis by (simp add: round_trip_update_delete_def MILLISECOND_def)
qed

lemma redraws_a_taken_id:
  assumes db: "test_db A table t0"
  shows "create_redraws_a_taken_id A w"
proof -
  obtain s w1 where s: "test_record A HOUR w = (s, w1)" by (cases "test_record A HOUR w")
  obtain i w2 where c: "store_create A s w1 = Some (Inr (), s\<lparr>sr_id := i\<rparr>, w2)"
    and h: "holds A (table w2) (s\<lparr>sr_id := i\<rparr>)" by (rule create_works [OF db])
  obtain t w3 where t: "test_record A HOUR w2 = (t, w3)" by (cases "test_record A HOUR w2")
  obtain j w4 where c2: "store_create A (t\<lparr>sr_id := i\<rparr>) w3 = Some (Inr (), t\<lparr>sr_id := j\<rparr>, w4)"
    and free: "table w3 j = None" and h2: "holds A (table w4) (t\<lparr>sr_id := j\<rparr>)"
    and other: "\<And>k. k \<noteq> j \<Longrightarrow> table w4 k = table w3 k"
    by (rule create_works [OF db, of "t\<lparr>sr_id := i\<rparr>" w3]) auto
  have same: "table w3 = table w2" using test_record_expiry(3) [OF db t] .
  have ij: "i \<noteq> j" using h free same by (auto simp: holds_def)
  have h': "holds A (table w4) (s\<lparr>sr_id := i\<rparr>)" using h other [OF ij] same by (simp add: holds_def)
  have late: "t0 + MINUTE \<le> sr_expiry_date s" "t0 + MINUTE \<le> sr_expiry_date t"
    using test_record_expiry [OF db s] test_record_expiry [OF db t] by (simp_all add: durations)
  obtain w5 where l: "store_load A i w4 = (Inr (Some (s\<lparr>sr_id := i\<rparr>)), w5)" and w5: "table w5 = table w4"
    by (rule load_live [OF db h']) (use late in simp_all)
  obtain w6 where "store_load A j w5 = (Inr (Some (t\<lparr>sr_id := j\<rparr>)), w6)"
    by (rule load_live [OF db h2 [folded w5]]) (use late in simp_all)
  with s c t c2 l ij show ?thesis by (simp add: create_redraws_a_taken_id_def is_some_record_def)
qed

lemma expired_sessions:
  assumes db: "test_db A table t0"
  shows "expired_sessions_are_invisible_and_swept A w"
proof -
  obtain s w1 where s: "test_record A (- MINUTE) w = (s, w1)" by (cases "test_record A (- MINUTE) w")
  obtain i w2 where c: "store_create A s w1 = Some (Inr (), s\<lparr>sr_id := i\<rparr>, w2)"
    and h: "holds A (table w2) (s\<lparr>sr_id := i\<rparr>)" by (rule create_works [OF db])
  have old: "sr_expiry_date s \<le> t0" using test_record_expiry [OF db s] by simp
  obtain w3 where l: "store_load A i w2 = (Inr None, w3)"
    by (rule load_gone [OF db, of w2 i "s\<lparr>sr_id := i\<rparr>"]) (use h old in simp_all)
  obtain t w4 where t: "test_record A HOUR w3 = (t, w4)" by (cases "test_record A HOUR w3")
  obtain j w5 where c2: "store_create A t w4 = Some (Inr (), t\<lparr>sr_id := j\<rparr>, w5)"
    and h2: "holds A (table w5) (t\<lparr>sr_id := j\<rparr>)" by (rule create_works [OF db])
  have late: "t0 + MINUTE \<le> sr_expiry_date (t\<lparr>sr_id := j\<rparr>)"
    using test_record_expiry [OF db t] by (simp add: durations)
  obtain w6 where d: "delete_expired A w5 = (Inr (), w6)"
    and keeps: "\<And>rec. holds A (table w5) rec \<Longrightarrow> t0 + MINUTE \<le> sr_expiry_date rec \<Longrightarrow> holds A (table w6) rec"
    using sweep_works [OF db, of w5] by blast
  obtain w7 where "store_load A j w6 = (Inr (Some (t\<lparr>sr_id := j\<rparr>)), w7)"
    by (rule load_live [OF db keeps [OF h2 late] late]) simp_all
  with s c l t c2 d show ?thesis
    by (simp add: expired_sessions_are_invisible_and_swept_def is_some_record_def)
qed

section \<open>Such a database\<close>

text \<open>A finite table in memory, ids counted up, a clock that stands still.\<close>

definition apply_statement ::
    "(nat, session_data) statement \<Rightarrow> (nat, session_data \<times> int) fmap \<Rightarrow> (nat, session_data \<times> int) fmap" where
  "apply_statement stmt t =
     (case stmt of
        InsertIgnore i v e \<Rightarrow> (if fmlookup t i = None then fmupd i (v, e) t else t)
      | Upsert i v e \<Rightarrow> fmupd i (v, e) t
      | DeleteId i \<Rightarrow> fmdrop i t
      | DeleteBefore now \<Rightarrow>
          fmfilter (\<lambda>i. case fmlookup t i of Some (v, e) \<Rightarrow> \<not> e < now | None \<Rightarrow> True) t)"

definition counting_store ::
    "(nat, session_data, session_data, (nat, session_data \<times> int) fmap \<times> nat) store_api" where
  "counting_store =
     \<lparr>get_conn = (\<lambda>w. (Inr (), w)),
      execute = (\<lambda>stmt w. (Inr (case stmt of InsertIgnore i v e \<Rightarrow> if fmlookup (fst w) i = None then 1 else 0 | _ \<Rightarrow> 1),
                           (apply_statement stmt (fst w), snd w))),
      select_live = (\<lambda>i now w. (Inr (case fmlookup (fst w) i of
          Some (v, e) \<Rightarrow> if now < e then Some (v, e) else None | None \<Rightarrow> None), w)),
      to_value = Inr, from_value = Inr, new_id = (\<lambda>w. (snd w, (fst w, Suc (snd w)))), now_utc = (\<lambda>_. 0)\<rparr>"

lemma apply_statement_lookup: "fmlookup (apply_statement stmt t) = statement_effect stmt (fmlookup t)"
  by (cases stmt) (auto simp: apply_statement_def statement_effect_def fun_eq_iff split: option.splits)

lemma counting_try:
  "next_try counting_store j e (i, w)
    = (snd w, (apply_statement (InsertIgnore i j e) (fst w), Suc (snd w)))"
  by (simp add: next_try_def counting_store_def)

lemma counting_tries:
  "\<exists>t. (next_try counting_store j e ^^ Suc n) (i, w) = (snd w + n, (t, Suc (snd w + n)))"
proof (induction n)
  case 0
  show ?case by (simp add: counting_try)
next
  case (Suc n)
  then obtain t where t: "(next_try counting_store j e ^^ Suc n) (i, w) = (snd w + n, (t, Suc (snd w + n)))"
    by blast
  show ?case unfolding funpow.simps(2) [of "Suc n"] o_apply t by (simp add: counting_try)
qed

lemma counting_test_db: "test_db counting_store (fmlookup \<circ> fst) 0"
proof -
  have "table_laws counting_store (fmlookup \<circ> fst)"
    by (auto simp: table_laws_def counting_store_def apply_statement_lookup split: option.splits)
  moreover have "\<exists>n. fmlookup (fst w) (fst ((next_try counting_store j e ^^ n) (i, w))) = None" for j e i w
  proof -
    obtain m where m: "\<And>k. k \<in> fmdom' (fst w) \<Longrightarrow> k < m"
      using finite_nat_set_iff_bounded [of "fmdom' (fst w)"] by auto
    obtain t where "(next_try counting_store j e ^^ Suc m) (i, w) = (snd w + m, (t, Suc (snd w + m)))"
      using counting_tries by blast
    moreover have "fmlookup (fst w) (snd w + m) = None"
      using m [of "snd w + m"] by (auto simp: fmdom'_notD)
    ultimately have "fmlookup (fst w) (fst ((next_try counting_store j e ^^ Suc m) (i, w))) = None" by simp
    then show ?thesis by blast
  qed
  ultimately show ?thesis
    by (simp add: test_db_def counting_store_def durations)
qed

end
