(* ===== verification/Tests_Flow.thy ===== *)
theory Tests_Flow
  imports Auth_Journey Auth_Plugin Auth_Store Tests_Auth
begin

text \<open>
  \<open>muxa-auth/tests/flows.rs\<close>: whole sign-ins through the providers, the routes and the cross-origin guard.

  A browser is the state of one session's handlers (\<open>rstate\<close>): the flow, the session with the login
  state, and the world, which holds the users of the tests' backend beside the rest. A request is the
  route it reaches with its decoded path and query; the guard is run before each. The mock servers are
  hypotheses on the libraries' calls that reach them, one for each response that the test mounts.
\<close>

section \<open>The tests' application\<close>

record user =
  us_id :: string
  us_name :: "string option"

type_synonym 'v users_world = "(string \<Rightarrow> user option) \<times> 'v"

text \<open>\<open>ctx.link\<close> implies a user, which the resolver relies on with \<open>expect\<close>.\<close>

definition Resolver :: "(json, user, 'v users_world) identity_resolver" where
  "Resolver identity ctx w =
     (if ei_subject identity = ''banned'' then (Inl (refusal_new ''banned''), w)
      else if rc_link ctx
      then (let user = the (rc_current_user ctx)
            in (Inr (resolved_with_query ''linked'' (ei_provider identity) (resolved_new user)), w))
      else
        (let user = \<lparr>us_id = ei_provider identity @ '':'' @ ei_subject identity, us_name = ei_name identity\<rparr>
         in (Inr (resolved_new user), ((fst w)(us_id user \<mapsto> user), snd w))))"

definition whoami :: "user \<Rightarrow> string" where
  "whoami user = us_id user @ '' '' @ (case us_name user of Some name \<Rightarrow> name | None \<Rightarrow> [])"

text \<open>The document of the tests, as the tables serde reads.\<close>

definition oauth2_config :: "string \<Rightarrow> auth_config" where
  "oauth2_config uri =
     (let mock = OAuth2 (oauth2_provider_config_of (empty_oauth2_table
            \<lparr>ot_client_id := Some ''client'', ot_client_secret := Some ''secret'',
             ot_auth_url := Some (uri @ ''/authorize''), ot_token_url := Some (uri @ ''/token''),
             ot_userinfo_url := Some (uri @ ''/me''), ot_token_auth := Some Post,
             ot_scopes := Some [''read''], ot_name_field := Some ''username''\<rparr>));
          off = OAuth2 (oauth2_provider_config_of (empty_oauth2_table\<lparr>ot_client_id := Some []\<rparr>))
      in auth_config_default\<lparr>ac_base_url := ''http://app.test'', ac_mount := ''/auth'',
           ac_default_next := ''/home'', ac_providers := bt_insert ''off'' off (bt_insert ''mock'' mock [])\<rparr>)"

section \<open>The browser\<close>

datatype test_request =
    GetStart string start_query
  | GetCallback string callback_query
  | GetWhoami
  | PostSignOut header_map

definition http_of :: "test_request \<Rightarrow> request" where
  "http_of req =
     (case req of
        PostSignOut h \<Rightarrow> \<lparr>rq_method = POST, rq_headers = h\<rparr>
      | _ \<Rightarrow> \<lparr>rq_method = GET, rq_headers = headers []\<rparr>)"

text \<open>A response: its status, its \<open>Location\<close> and its body.\<close>

definition answer_of :: "response \<Rightarrow> nat \<times> string \<times> string" where
  "answer_of r = (case r of RedirectTo url \<Rightarrow> (303, url, []) | Status n \<Rightarrow> (n, [], []))"

text \<open>axum-login takes the user of the session from the backend, by its id.\<close>

definition dispatch ::
    "('p, user, 's, 'url, 'v users_world) routes_api \<Rightarrow> test_request \<Rightarrow> ('p, user, 's, 'v users_world) rstate
      \<Rightarrow> (nat \<times> string \<times> string) \<times> ('p, user, 's, 'v users_world) rstate" where
  "dispatch R req st =
     (case req of
        GetStart prov query \<Rightarrow> (let (r, st) = start R prov query st in (answer_of r, st))
      | GetCallback prov query \<Rightarrow> (let (r, st) = callback R prov query st in (answer_of r, st))
      | GetWhoami \<Rightarrow>
          (case st of (fl, auth, w) \<Rightarrow>
             (case session_user (Inr (Option.bind (au_user auth) (\<lambda>u. fst w (us_id u))) :: string + user option) of
                Inr user \<Rightarrow> ((200, [], whoami user), st)
              | Inl _ \<Rightarrow> ((401, [], []), st)))
      | PostSignOut _ \<Rightarrow>
          (case st of (fl, auth, w) \<Rightarrow> (let (r, auth) = sign_out R auth in (answer_of r, (fl, auth, w)))))"

definition send ::
    "('uu, 'o) url_api \<Rightarrow> auth_config \<Rightarrow> ('p, user, 's, 'url, 'v users_world) routes_api \<Rightarrow> test_request
      \<Rightarrow> ('p, user, 's, 'v users_world) rstate
      \<Rightarrow> (nat \<times> string \<times> string) \<times> ('p, user, 's, 'v users_world) rstate" where
  "send U cfg R req st =
     (let trusted = trusted_origins_new U (trim_end_matches CHR ''/'' (ac_base_url cfg) # ac_trusted_origins cfg)
      in case guard U trusted (http_of req) (\<lambda>_. dispatch R req) st of
           (Passed r, st) \<Rightarrow> (r, st)
         | (Forbidden msg, st) \<Rightarrow> ((403, [], msg), st))"

definition location :: "nat \<times> string \<times> string \<Rightarrow> string option" where
  "location r = (case r of (status, loc, _) \<Rightarrow> if status = 303 then Some loc else None)"

abbreviation status :: "nat \<times> string \<times> string \<Rightarrow> nat" where "status \<equiv> fst"
abbreviation body :: "nat \<times> string \<times> string \<Rightarrow> string" where "body r \<equiv> snd (snd r)"

text \<open>A fresh browser on \<open>app\<close>: a session that is signed out, over a backend without users.\<close>

definition browser_new where
  "browser_new E cfg s v =
     (auth_flow_of E Resolver cfg, \<lparr>au_user = None, au_session = s\<rparr>, (Map.empty :: string \<Rightarrow> user option, v))"

text \<open>\<open>query(&location(&response), key)\<close>, with \<open>query\<close> of the \<open>url\<close> crate.\<close>

definition sent :: "(string \<Rightarrow> string \<Rightarrow> string option) \<Rightarrow> string \<Rightarrow> nat \<times> string \<times> string \<Rightarrow> string option" where
  "sent query key response = Option.bind (location response) (\<lambda>url. query url key)"

definition to :: "string \<Rightarrow> start_query" where
  "to nxt = \<lparr>sq_next = Some nxt, sq_link = None\<rparr>"

definition with_code :: "string \<Rightarrow> string \<Rightarrow> callback_query" where
  "with_code code state = \<lparr>cq_code = Some code, cq_state = Some state, cq_error = None\<rparr>"

section \<open>The tests\<close>

definition oauth2_sign_in_round_trip where
  "oauth2_sign_in_round_trip U E R query cookie uri s v =
     (let cfg = oauth2_config uri;
          browse = send U cfg R;
          (response, st) = browse (GetStart ''mock'' (to ''/games?page=2'')) (browser_new E cfg s v);
          cookie_before = cookie (au_session (fst (snd st)))
      in case sent query ''state'' response of
           None \<Rightarrow> False
         | Some state \<Rightarrow>
             (let (response2, st2) = browse (GetCallback ''mock'' (with_code ''good-code'' state)) st;
                  (response3, st3) = browse GetWhoami st2;
                  (response4, st4) = browse (GetCallback ''mock'' (with_code ''good-code'' state)) st3
              in starts_with (uri @ ''/authorize?'') (the (location response))
                 \<and> sent query ''code_challenge_method'' response = Some ''S256''
                 \<and> sent query ''scope'' response = Some ''read''
                 \<and> sent query ''redirect_uri'' response = Some ''http://app.test/auth/mock/callback''
                 \<and> cookie_before \<noteq> None
                 \<and> location response2 = Some ''/games?page=2''
                 \<and> cookie (au_session (fst (snd st2))) \<noteq> cookie_before
                 \<and> status response3 = 200 \<and> body response3 = ''mock:42 alice''
                 \<and> location response4 = Some ''/?auth_error=expired''))"

definition unknown_state_is_expired where
  "unknown_state_is_expired U E R uri s v =
     (let cfg = oauth2_config uri;
          browse = send U cfg R;
          (_, st) = browse (GetStart ''mock'' (to ''/games'')) (browser_new E cfg s v);
          (response, st) = browse (GetCallback ''mock'' (with_code ''good-code'' ''forged'')) st
      in location response = Some ''/?auth_error=expired'' \<and> status (fst (browse GetWhoami st)) = 401)"

text \<open>A callback after a start with \<open>next\<close>, as most tests make it.\<close>

definition after_start where
  "after_start U E R query uri s v squery cquery =
     (let cfg = oauth2_config uri;
          (response, st) = send U cfg R (GetStart ''mock'' squery) (browser_new E cfg s v)
      in map_option (\<lambda>state. send U cfg R (GetCallback ''mock'' (cquery state)) st) (sent query ''state'' response))"

definition lands_at where
  "lands_at r url \<longleftrightarrow> (case r of Some (response, st) \<Rightarrow> location response = Some url | None \<Rightarrow> False)"

definition cancelling_at_the_provider_keeps_next where
  "cancelling_at_the_provider_keeps_next U E R query uri s v =
     lands_at (after_start U E R query uri s v (to ''/games'')
         (\<lambda>state. \<lparr>cq_code = None, cq_state = Some state, cq_error = Some ''access_denied''\<rparr>))
       ''/?auth_error=cancelled&next=%2Fgames''"

definition no_next :: start_query where
  "no_next = \<lparr>sq_next = None, sq_link = None\<rparr>"

definition token_failure_is_provider_failed where
  "token_failure_is_provider_failed U E R query uri s v =
     lands_at (after_start U E R query uri s v no_next (with_code ''bad-code''))
       ''/?auth_error=provider_failed&next=%2Fhome''"

definition open_redirects_fall_back_to_the_default where
  "open_redirects_fall_back_to_the_default U E R query uri s v =
     lands_at (after_start U E R query uri s v (to ''https://evil.example/'') (with_code ''good-code'')) ''/home''"

definition resolver_refusals_reach_the_page where
  "resolver_refusals_reach_the_page U E R query uri s v =
     lands_at (after_start U E R query uri s v (to ''/games'') (with_code ''x''))
       ''/?auth_error=banned&next=%2Fgames''"

definition unknown_and_disabled_providers_are_unavailable where
  "unknown_and_disabled_providers_are_unavailable U E R uri s v =
     (let cfg = oauth2_config uri;
          browse = send U cfg R;
          (nope, st) = browse (GetStart ''nope'' (to ''/games'')) (browser_new E cfg s v);
          (off, st) = browse (GetStart ''off'' (to ''/games'')) st
      in location nope = Some ''/?auth_error=unavailable&next=%2Fgames''
         \<and> location off = Some ''/?auth_error=unavailable&next=%2Fgames'')"

definition link_to_settings :: start_query where
  "link_to_settings = \<lparr>sq_next = Some ''/settings'', sq_link = Some ''1''\<rparr>"

definition link_needs_a_signed_in_user_and_keeps_it where
  "link_needs_a_signed_in_user_and_keeps_it U E R query uri s v =
     (let cfg = oauth2_config uri;
          browse = send U cfg R;
          (response, st) = browse (GetStart ''mock'' link_to_settings) (browser_new E cfg s v);
          (response2, st2) = browse (GetStart ''mock'' no_next) st
      in location response = Some ''/?auth_error=signed_out&next=%2Fsettings''
         \<and> (case sent query ''state'' response2 of
              None \<Rightarrow> False
            | Some state \<Rightarrow>
                (let (_, st3) = browse (GetCallback ''mock'' (with_code ''good-code'' state)) st2;
                     (response4, st4) = browse (GetStart ''mock'' link_to_settings) st3
                 in case sent query ''state'' response4 of
                      None \<Rightarrow> False
                    | Some state \<Rightarrow>
                        (let (response5, st5) = browse (GetCallback ''mock'' (with_code ''good-code'' state)) st4
                         in location response5 = Some ''/settings?linked=mock''
                            \<and> body (fst (browse GetWhoami st5)) = ''mock:42 alice''))))"

definition sign_out_is_guarded_against_cross_origin_posts where
  "sign_out_is_guarded_against_cross_origin_posts U E R query uri s v =
     (let cfg = oauth2_config uri;
          browse = send U cfg R;
          (response, st) = browse (GetStart ''mock'' no_next) (browser_new E cfg s v)
      in case sent query ''state'' response of
           None \<Rightarrow> False
         | Some state \<Rightarrow>
             (let (_, st) = browse (GetCallback ''mock'' (with_code ''good-code'' state)) st;
                  (cross, st) = browse (PostSignOut (headers
                    [(''sec-fetch-site'', ''cross-site''), (''origin'', ''https://evil.example'')])) st;
                  (who, st) = browse GetWhoami st;
                  (own, st) = browse (PostSignOut (headers [(''sec-fetch-site'', ''same-origin'')])) st
              in status cross = 403 \<and> status who = 200 \<and> status own = 204
                 \<and> status (fst (browse GetWhoami st)) = 401))"

section \<open>What the libraries do\<close>

text \<open>
  The session store and the login state are up and keep what they are given, a login gives the session a
  new cookie, and the test takes less than the ten minutes of an attempt.
\<close>

definition session_up ::
    "('p, user, 's, 'url, 'v users_world) routes_api \<Rightarrow> 's session_view \<Rightarrow> ('s \<Rightarrow> 'c option) \<Rightarrow> bool" where
  "session_up R view cookie \<longleftrightarrow>
     session_laws (ra_session R) view
     \<and> (\<forall>k s. \<not> is_err (fst (session_get (ra_session R) k s)) \<and> cookie (snd (session_get (ra_session R) k s)) = cookie s)
     \<and> (\<forall>k m s. \<not> is_err (fst (session_insert (ra_session R) k m s))
          \<and> cookie (snd (session_insert (ra_session R) k m s)) \<noteq> None
          \<and> (cookie s \<noteq> None \<longrightarrow> cookie (snd (session_insert (ra_session R) k m s)) = cookie s))
     \<and> (\<forall>k s. \<not> is_err (fst (session_remove (ra_session R) k s))
          \<and> cookie (snd (session_remove (ra_session R) k s)) = cookie s)
     \<and> (\<forall>u auth. \<exists>s. ra_login R u auth = (Inr (), \<lparr>au_user = Some u, au_session = s\<rparr>)
          \<and> pending_of view s = pending_of view (au_session auth) \<and> cookie s \<noteq> cookie (au_session auth))
     \<and> (\<forall>auth. \<exists>s. ra_logout R auth = (Inr (au_user auth), \<lparr>au_user = None, au_session = s\<rparr>))
     \<and> (\<forall>w. fst (snd (ra_now R w)) = fst w)
     \<and> (\<forall>w w'. saturating_sub (fst (ra_now R w)) (fst (ra_now R w')) < PENDING_TTL_SECS)"

text \<open>Form encoding of letters, digits and underscores, and of a slash.\<close>

definition plain_word :: "string \<Rightarrow> bool" where
  "plain_word s = list_all (\<lambda>c. is_ascii_alphanumeric c \<or> c = CHR ''_'') s"

definition form_encodes :: "((string \<times> string) list \<Rightarrow> string) \<Rightarrow> bool" where
  "form_encodes encode \<longleftrightarrow>
     (\<forall>k v. plain_word k \<longrightarrow> plain_word v \<longrightarrow> encode [(k, v)] = k @ ''='' @ v)
     \<and> (\<forall>k v j u. plain_word k \<longrightarrow> plain_word v \<longrightarrow> plain_word j \<longrightarrow> plain_word u \<longrightarrow>
          encode [(k, v), (j, ''/'' @ u)] = k @ ''='' @ v @ ''&'' @ j @ ''=%2F'' @ u)"

text \<open>
  The mock provider at \<open>uri\<close>: its token endpoint takes the requests that \<open>accepts\<close> describes, and its
  \<open>/me\<close> (\<open>me\<close>, once parsed) gives \<open>profile\<close> to the token it gave. An authorization URL carries
  the parameters of its request.
\<close>

definition mock_oauth2 ::
    "('url, 'tok, 'resp, 'v users_world) oauth2_api \<Rightarrow> ('url \<Rightarrow> string) \<Rightarrow> (string \<Rightarrow> string \<Rightarrow> string option)
      \<Rightarrow> string \<Rightarrow> 'url \<Rightarrow> (token_request \<Rightarrow> bool) \<Rightarrow> json \<Rightarrow> bool" where
  "mock_oauth2 A url_str query uri me accepts profile \<longleftrightarrow>
     redirect_url_new A ''http://app.test/auth/mock/callback'' = Inr ''http://app.test/auth/mock/callback''
     \<and> auth_url_new A (uri @ ''/authorize'') = Inr (uri @ ''/authorize'')
     \<and> token_url_new A (uri @ ''/token'') = Inr (uri @ ''/token'')
     \<and> userinfo_url_parse A (uri @ ''/me'') = Inr me
     \<and> (\<forall>w. fst (random_state A w) \<noteq> ''forged'' \<and> fst (snd (random_state A w)) = fst w
          \<and> fst (snd (random_pkce A w)) = fst w)
     \<and> (\<forall>r w. fst (snd (request_token A r w)) = fst w
          \<and> (if accepts r then map_sum id (access_token A) (fst (request_token A r w)) = Inr ''access-1''
             else is_err (fst (request_token A r w))))
     \<and> (\<forall>hs w. \<exists>resp w'. http_get A me ''access-1'' hs w = (Inr resp, w') \<and> fst w' = fst w
          \<and> error_for_status A resp = Inr resp
          \<and> (\<forall>w. fst (resp_json A resp w) = Inr profile \<and> fst (snd (resp_json A resp w)) = fst w))
     \<and> (\<forall>r. oc_auth_uri (ar_client r) = uri @ ''/authorize'' \<longrightarrow>
          (let u = url_str (authorize_request_url A r)
            in starts_with (uri @ ''/authorize?'') u
               \<and> query u ''state'' = Some (ar_state r)
               \<and> query u ''redirect_uri'' = Some (oc_redirect_uri (ar_client r))
               \<and> (\<forall>scope. ar_scopes r = [scope] \<longrightarrow> query u ''scope'' = Some scope)
               \<and> (ar_pkce_challenge r \<noteq> None \<longrightarrow> query u ''code_challenge_method'' = Some ''S256'')))"

text \<open>What \<open>mock_oauth2_provider\<close> of the tests accepts and tells.\<close>

definition good_code :: "token_request \<Rightarrow> bool" where
  "good_code r \<longleftrightarrow>
     tr_code r = ''good-code'' \<and> tr_pkce_verifier r \<noteq> None
     \<and> oc_auth_type (tr_client r) = RequestBody \<and> oc_client_secret (tr_client r) = Some ''secret''"

definition alice_profile :: json where
  "alice_profile = JObject [(''id'', JNumber ''42''), (''username'', JString ''alice'')]"

definition banned_profile :: json where
  "banned_profile = JObject [(''id'', JString ''banned'')]"

text \<open>The plugin makes its providers, and the routes use them, with these libraries.\<close>

definition wired ::
    "(('url, 'ocl) provider, user, 'v users_world, 'r, 'b, 'store, 'uu, 'o, 'tk, 'fut, 'h, 'hv) auth_env
      \<Rightarrow> (('url, 'ocl) provider, user, 's, 'url, 'v users_world) routes_api
      \<Rightarrow> ('url, 'tok, 'resp, 'v users_world) oauth2_api
      \<Rightarrow> ('meta, 'ocl, 'idt, 'clm, 'otok, 'alg, 'key, 'url, 'v users_world) oidc_api \<Rightarrow> bool" where
  "wired E R A D \<longleftrightarrow>
     ae_from_config E = provider_from_config A D True \<and> ra_authorize R = provider_authorize A D
     \<and> ra_identify R = provider_identify A D \<and> form_encodes (ra_encode R)"

section \<open>Steps of a sign-in\<close>

lemma session_upD:
  assumes "session_up R view cookie"
  shows "session_laws (ra_session R) view"
    and "\<not> is_err (fst (session_get (ra_session R) k s))" "cookie (snd (session_get (ra_session R) k s)) = cookie s"
    and "\<not> is_err (fst (session_insert (ra_session R) k m s))" "cookie (snd (session_insert (ra_session R) k m s)) \<noteq> None"
    and "cookie s \<noteq> None \<Longrightarrow> cookie (snd (session_insert (ra_session R) k m s)) = cookie s"
    and "\<not> is_err (fst (session_remove (ra_session R) k s))"
    and "cookie (snd (session_remove (ra_session R) k s)) = cookie s"
    and "\<exists>s. ra_login R u auth = (Inr (), \<lparr>au_user = Some u, au_session = s\<rparr>)
          \<and> pending_of view s = pending_of view (au_session auth) \<and> cookie s \<noteq> cookie (au_session auth)"
    and "\<exists>s. ra_logout R auth = (Inr (au_user auth), \<lparr>au_user = None, au_session = s\<rparr>)"
    and "fst (snd (ra_now R w)) = fst w"
    and "saturating_sub (fst (ra_now R w)) (fst (ra_now R w')) < PENDING_TTL_SECS"
  using assms unfolding session_up_def by blast+

lemma session_calls:
  assumes up: "session_up R view cookie"
  shows "session_get (ra_session R) k s = (g, s') \<Longrightarrow> \<not> is_err g \<and> cookie s' = cookie s"
    and "session_insert (ra_session R) k m s = (q, s') \<Longrightarrow>
      \<not> is_err q \<and> cookie s' \<noteq> None \<and> (cookie s \<noteq> None \<longrightarrow> cookie s' = cookie s)"
    and "session_remove (ra_session R) k s = (v, s') \<Longrightarrow> \<not> is_err v \<and> cookie s' = cookie s"
  using session_upD(2,3) [OF up, of k s] session_upD(4,5) [OF up, of k m s]
    session_upD(6) [OF up, of s k m] session_upD(7,8) [OF up, of k s]
  by simp_all

lemma remember_up:
  assumes up: "session_up R view cookie"
  obtains s' where "remember (ra_session R) now a s = (Inr (), s')" and "cookie s' \<noteq> None"
    and "pending_of view s' (pn_state a) = Some a"
    and "\<forall>k. k \<noteq> pn_state a \<and> pending_of view s k = None \<longrightarrow> pending_of view s' k = None"
proof -
  obtain g s1 where g: "session_get (ra_session R) PENDING_KEY s = (g, s1)"
    by (cases "session_get (ra_session R) PENDING_KEY s")
  with session_upD(2) [OF up, of PENDING_KEY s] obtain m where m: "g = Inr m" by (cases g) auto
  obtain q s' where r: "remember (ra_session R) now a s = (q, s')" by (cases "remember (ra_session R) now a s")
  have "(q, s') = session_insert (ra_session R) PENDING_KEY (hm_insert (pn_state a) a
      (evict (filter (\<lambda>e. is_fresh now (snd e)) (case m of Some m \<Rightarrow> m | None \<Rightarrow> [])))) s1"
    using r g m by (simp add: remember_def Let_def)
  then have "\<not> is_err q" "cookie s' \<noteq> None" using session_calls(2) [OF up] by metis+
  then have "q = Inr ()" by (cases q) auto
  with r have r: "remember (ra_session R) now a s = (Inr (), s')" by simp
  note eff = remember_effect [OF session_upD(1) [OF up] r]
  have "pending_of view s' k = None" if "k \<noteq> pn_state a" "pending_of view s k = None" for k
    using eff [THEN conjunct2, THEN conjunct2, THEN conjunct2, THEN conjunct1, rule_format, of k] that
    by (cases "pending_of view s' k") auto
  then show thesis using that [OF r] \<open>cookie s' \<noteq> None\<close> eff by blast
qed

lemma take_up:
  assumes up: "session_up R view cookie"
  obtains s' where "take_pending (ra_session R) now state s
      = (Inr (case pending_of view s state of Some a \<Rightarrow> if is_fresh now a then Some a else None | None \<Rightarrow> None), s')"
    and "pending_of view s' = (pending_of view s)(state := None)"
    and "cookie s \<noteq> None \<longrightarrow> cookie s' = cookie s"
proof -
  obtain r s' where r: "take_pending (ra_session R) now state s = (r, s')"
    by (cases "take_pending (ra_session R) now state s")
  have "\<not> is_err r \<and> (cookie s \<noteq> None \<longrightarrow> cookie s' = cookie s)"
    using r
    by (auto simp: take_pending_def Let_def split: sum.splits option.splits if_splits prod.splits
        dest!: session_calls [OF up])
  with r that take_written [OF session_upD(1) [OF up] r] show thesis by (cases r) auto
qed

text \<open>The attempt of a start is \<open>begun\<close>, which stays fresh.\<close>

lemma begun_fresh:
  assumes "session_up R view cookie"
  shows "is_fresh (fst (ra_now R w')) (begun R prov query fl p w az)"
  using session_upD(12) [OF assms] by (simp add: is_fresh_def begun_def)

lemma start_goes:
  assumes up: "session_up R view cookie"
    and "bt_get prov (fl_providers fl) = Some p" and az: "ra_authorize R p w = (Inr az, p', w1)"
    and "\<not> (wants_link query \<and> au_user auth = None)"
  obtains s w' where "start R prov query (fl, auth, w)
      = (RedirectTo (ra_url_str R (az_url az)), put_provider prov p' fl, auth\<lparr>au_session := s\<rparr>, w')"
    and "pending_of view s (az_state az) = Some (begun R prov query fl p w az)"
    and "cookie s \<noteq> None" and "fst w' = fst w1"
    and "\<forall>k. k \<noteq> az_state az \<and> pending_of view (au_session auth) k = None \<longrightarrow> pending_of view s k = None"
proof -
  obtain s where rem: "remember (ra_session R) (start_clock R p w) (begun R prov query fl p w az) (au_session auth)
      = (Inr (), s)" and s: "cookie s \<noteq> None" "pending_of view s (az_state az) = Some (begun R prov query fl p w az)"
      "\<forall>k. k \<noteq> az_state az \<and> pending_of view (au_session auth) k = None \<longrightarrow> pending_of view s k = None"
    by (rule remember_up [OF up, of "start_clock R p w" "begun R prov query fl p w az" "au_session auth"]) simp
  have fold: "safe_next (sq_next query) (fl_default_next fl) = start_next fl query"
    "sq_link query = Some ''1'' \<or> sq_link query = Some ''true'' \<longleftrightarrow> wants_link query"
    by (simp_all add: start_next_def wants_link_def)
  let ?w = "snd (ra_now R (snd (ra_now R w1)))"
  have "start R prov query (fl, auth, w)
      = (RedirectTo (ra_url_str R (az_url az)), put_provider prov p' fl, auth\<lparr>au_session := s\<rparr>, ?w)"
    using assms(2-4) rem
    by (auto simp: start_def Let_def fold start_clock_def begun_def case_prod_beta)
  moreover have "fst ?w = fst w1" by (simp add: session_upD(11) [OF up])
  ultimately show thesis using that s by blast
qed

lemma callback_takes:
  assumes up: "session_up R view cookie"
    and "pending_of view (au_session auth) (the (cq_state query)) = Some a" and "pn_provider a = prov"
    and "\<And>w. is_fresh (fst (ra_now R w)) a" and "cq_state query \<noteq> None"
  obtains s w1 where "callback R prov query (fl, auth, w) = finish_callback R prov query a (fl, auth\<lparr>au_session := s\<rparr>, w1)"
    and "pending_of view s = (pending_of view (au_session auth))(the (cq_state query) := None)"
    and "cookie (au_session auth) \<noteq> None \<longrightarrow> cookie s = cookie (au_session auth)" and "fst w1 = fst w"
proof -
  obtain state where state: "cq_state query = Some state" using assms(5) by auto
  obtain s where t: "take_pending (ra_session R) (fst (ra_now R w)) state (au_session auth)
      = (Inr (case pending_of view (au_session auth) state of
           Some a \<Rightarrow> if is_fresh (fst (ra_now R w)) a then Some a else None | None \<Rightarrow> None), s)"
    and s: "pending_of view s = (pending_of view (au_session auth))(state := None)"
      "cookie (au_session auth) \<noteq> None \<longrightarrow> cookie s = cookie (au_session auth)"
    by (rule take_up [OF up, of "fst (ra_now R w)" state "au_session auth"])
  have "callback R prov query (fl, auth, w)
      = finish_callback R prov query a (fl, auth\<lparr>au_session := s\<rparr>, snd (ra_now R w))"
    using assms(2-4) state t by (simp add: callback_def Let_def case_prod_beta)
  then show thesis by (rule that) (use s state session_upD(11) [OF up] in simp_all)
qed

lemma callback_expires:
  assumes up: "session_up R view cookie"
    and "pending_of view (au_session auth) state = None" and "cq_state query = Some state"
  obtains s w1 where "callback R prov query (fl, auth, w)
      = (refuse (ra_encode R) fl (refusal_new EXPIRED) None, fl, auth\<lparr>au_session := s\<rparr>, w1)"
proof -
  obtain s where t: "take_pending (ra_session R) (fst (ra_now R w)) state (au_session auth)
      = (Inr (case pending_of view (au_session auth) state of
           Some a \<Rightarrow> if is_fresh (fst (ra_now R w)) a then Some a else None | None \<Rightarrow> None), s)"
    by (rule take_up [OF up, of "fst (ra_now R w)" state "au_session auth"])
  then have "callback R prov query (fl, auth, w)
      = (refuse (ra_encode R) fl (refusal_new EXPIRED) None, fl, auth\<lparr>au_session := s\<rparr>, snd (ra_now R w))"
    using assms(2,3) by (simp add: callback_def Let_def case_prod_beta)
  then show thesis by (rule that)
qed

section \<open>The mock provider\<close>

definition mock_provider :: "string \<Rightarrow> 'url \<Rightarrow> 'url oauth2_provider" where
  "mock_provider uri me =
     \<lparr>op_id = ''mock'',
      op_client = \<lparr>oc_client_id = ''client'', oc_auth_uri = uri @ ''/authorize'', oc_token_uri = uri @ ''/token'',
        oc_redirect_uri = ''http://app.test/auth/mock/callback'', oc_auth_type = RequestBody,
        oc_client_secret = Some ''secret''\<rparr>,
      op_scopes = [''read''], op_pkce = True, op_userinfo_url = me, op_subject_field = ''id'',
      op_email_field = None, op_name_field = Some ''username''\<rparr>"

definition mock_flow :: "string \<Rightarrow> 'url \<Rightarrow> (('url, 'ocl) provider, user, 'v users_world) flow" where
  "mock_flow uri me =
     \<lparr>fl_providers = [(''mock'', POAuth2 (mock_provider uri me))], fl_resolver = Resolver,
      fl_sign_in_path = ''/'', fl_default_next = ''/home'', fl_error_param = ''auth_error''\<rparr>"

lemma mock_flow_simps [simp]:
  "bt_get prov (fl_providers (mock_flow uri me)) = (if prov = ''mock'' then Some (POAuth2 (mock_provider uri me)) else None)"
  "fl_resolver (mock_flow uri me) = Resolver" "fl_sign_in_path (mock_flow uri me) = ''/''"
  "fl_default_next (mock_flow uri me) = ''/home''" "fl_error_param (mock_flow uri me) = ''auth_error''"
  "put_provider ''mock'' (POAuth2 (mock_provider uri me)) (mock_flow uri me) = mock_flow uri me"
  by (simp_all add: mock_flow_def bt_get_def put_provider_def)

lemma mock_oauth2D:
  assumes "mock_oauth2 A url_str query uri me accepts profile"
  shows "redirect_url_new A ''http://app.test/auth/mock/callback'' = Inr ''http://app.test/auth/mock/callback''"
    and "auth_url_new A (uri @ ''/authorize'') = Inr (uri @ ''/authorize'')"
    and "token_url_new A (uri @ ''/token'') = Inr (uri @ ''/token'')"
    and "userinfo_url_parse A (uri @ ''/me'') = Inr me"
    and "fst (random_state A w) \<noteq> ''forged''" "fst (snd (random_state A w)) = fst w"
    and "fst (snd (random_pkce A w)) = fst w"
    and "fst (snd (request_token A r w)) = fst w"
    and "accepts r \<Longrightarrow> map_sum id (access_token A) (fst (request_token A r w)) = Inr ''access-1''"
    and "\<not> accepts r \<Longrightarrow> is_err (fst (request_token A r w))"
    and "\<exists>resp w'. http_get A me ''access-1'' hs w = (Inr resp, w') \<and> fst w' = fst w
          \<and> error_for_status A resp = Inr resp
          \<and> (\<forall>w. fst (resp_json A resp w) = Inr profile \<and> fst (snd (resp_json A resp w)) = fst w)"
  using assms unfolding mock_oauth2_def by (blast | metis)+

lemma mock_app:
  assumes "wired E R A D" and mock: "mock_oauth2 A url_str query uri me accepts profile"
  shows "auth_flow_of E Resolver (oauth2_config uri) = mock_flow uri me"
proof -
  note urls = mock_oauth2D(1-4) [OF mock]
  have base: "trim_end_matches CHR ''/'' ''http://app.test'' = ''http://app.test''" "mount_of ''/auth'' = ''/auth''"
    by code_simp+
  show ?thesis
    using assms(1) urls base
    by (simp add: auth_flow_of_def wired_def build_providers_def oauth2_config_def Let_def add_provider_def
        provider_redirect_def provider_from_config_def oauth2_provider_new_def mock_flow_def mock_provider_def
        oauth2_provider_config_of_def empty_oauth2_table_def oauth2_provider_config_default_def client_id_def
        auth_config_default_def yes_def default_subject_field_def)
qed

text \<open>Safe methods pass the guard; the other requests are the sign-outs.\<close>

lemma send_get:
  "send U cfg R (GetStart prov sq) st = (let (r, st) = start R prov sq st in (answer_of r, st))"
  "send U cfg R (GetCallback prov cq) st = (let (r, st) = callback R prov cq st in (answer_of r, st))"
  "send U cfg R GetWhoami (fl, auth, w) =
     (case Option.bind (au_user auth) (\<lambda>u. fst w (us_id u)) of
        Some user \<Rightarrow> ((200, [], whoami user), fl, auth, w)
      | None \<Rightarrow> ((401, [], []), fl, auth, w))"
  by (simp_all add: send_def guard_def http_of_def allowed_def dispatch_def session_user_def Let_def
      case_prod_beta split: option.splits)

lemma answer_simps [simp]:
  "location (answer_of (RedirectTo url)) = Some url"
  "status (answer_of (Status n)) = n"
  "sent query key (answer_of (RedirectTo url)) = query url key"
  by (simp_all add: location_def answer_of_def sent_def)

lemma mock_authorizes:
  assumes "wired E R A D" and mock: "mock_oauth2 A (ra_url_str R) query uri me accepts profile"
  obtains az w' where "ra_authorize R (POAuth2 (mock_provider uri me)) w = (Inr az, POAuth2 (mock_provider uri me), w')"
    and "fst w' = fst w" and "az_state az \<noteq> ''forged''" and "az_pkce_verifier az \<noteq> None"
    and "starts_with (uri @ ''/authorize?'') (ra_url_str R (az_url az))"
    and "query (ra_url_str R (az_url az)) ''state'' = Some (az_state az)"
    and "query (ra_url_str R (az_url az)) ''redirect_uri'' = Some ''http://app.test/auth/mock/callback''"
    and "query (ra_url_str R (az_url az)) ''scope'' = Some ''read''"
    and "query (ra_url_str R (az_url az)) ''code_challenge_method'' = Some ''S256''"
proof -
  obtain st w1 where st: "random_state A w = (st, w1)" by (cases "random_state A w")
  obtain ch ve w2 where pk: "random_pkce A w1 = ((ch, ve), w2)" by (metis surj_pair)
  let ?r = "\<lparr>ar_client = op_client (mock_provider uri me), ar_state = st, ar_scopes = [''read''],
      ar_pkce_challenge = Some ch\<rparr>"
  let ?az = "\<lparr>az_url = authorize_request_url A ?r, az_state = st, az_pkce_verifier = Some ve, az_nonce = None\<rparr>"
  have az: "ra_authorize R (POAuth2 (mock_provider uri me)) w = (Inr ?az, POAuth2 (mock_provider uri me), w2)"
    using assms(1) st pk
    by (simp add: wired_def provider_authorize_def oauth2_authorize_def mock_provider_def)
  have "oc_auth_uri (ar_client ?r) = uri @ ''/authorize''" by (simp add: mock_provider_def)
  then have "let u = ra_url_str R (authorize_request_url A ?r)
      in starts_with (uri @ ''/authorize?'') u \<and> query u ''state'' = Some (ar_state ?r)
        \<and> query u ''redirect_uri'' = Some (oc_redirect_uri (ar_client ?r))
        \<and> (\<forall>scope. ar_scopes ?r = [scope] \<longrightarrow> query u ''scope'' = Some scope)
        \<and> (ar_pkce_challenge ?r \<noteq> None \<longrightarrow> query u ''code_challenge_method'' = Some ''S256'')"
    using mock unfolding mock_oauth2_def by blast
  then have url: "starts_with (uri @ ''/authorize?'') (ra_url_str R (az_url ?az))"
    "query (ra_url_str R (az_url ?az)) ''state'' = Some st"
    "query (ra_url_str R (az_url ?az)) ''redirect_uri'' = Some ''http://app.test/auth/mock/callback''"
    "query (ra_url_str R (az_url ?az)) ''scope'' = Some ''read''"
    "query (ra_url_str R (az_url ?az)) ''code_challenge_method'' = Some ''S256''"
    by (simp_all add: Let_def mock_provider_def)
  show thesis
    by (rule that [OF az])
      (use url mock_oauth2D(5,6) [OF mock, of w] mock_oauth2D(7) [OF mock, of w1] st pk in simp_all)
qed

text \<open>The identity that the mock gives for a code, when it takes it.\<close>

definition mock_identity :: "json \<Rightarrow> string \<Rightarrow> json external_identity" where
  "mock_identity profile subject =
     \<lparr>ei_provider = ''mock'', ei_subject = subject, ei_email = None, ei_email_verified = False,
      ei_name = string_field profile (Some ''username''), ei_profile = profile\<rparr>"

lemma mock_identifies:
  assumes "wired E R A D" and mock: "mock_oauth2 A url_str query uri me accepts profile"
    and "subject_of profile ''id'' = Some subject"
    and "accepts \<lparr>tr_client = op_client (mock_provider uri me), tr_code = code, tr_pkce_verifier = pn_pkce_verifier a\<rparr>"
  obtains w' where "ra_identify R (POAuth2 (mock_provider uri me)) code a w
      = (Inr (mock_identity profile subject), POAuth2 (mock_provider uri me), w')" and "fst w' = fst w"
proof -
  let ?r = "\<lparr>tr_client = op_client (mock_provider uri me), tr_code = code, tr_pkce_verifier = pn_pkce_verifier a\<rparr>"
  obtain res w1 where r: "request_token A ?r w = (res, w1)" by (cases "request_token A ?r w")
  with mock_oauth2D(9) [OF mock assms(4), of w] obtain tok where tok: "res = Inr tok" "access_token A tok = ''access-1''"
    by (cases res) auto
  obtain resp w2 where get: "http_get A me ''access-1'' [(''accept'', ''application/json'')] w1 = (Inr resp, w2)"
      "fst w2 = fst w1" "error_for_status A resp = Inr resp"
    and json: "\<And>w. fst (resp_json A resp w) = Inr profile" "\<And>w. fst (snd (resp_json A resp w)) = fst w"
    using mock_oauth2D(11) [OF mock, of "[(''accept'', ''application/json'')]" w1] by blast
  obtain w3 where body: "resp_json A resp w2 = (Inr profile, w3)" "fst w3 = fst w2"
    using json [of w2] by (cases "resp_json A resp w2") auto
  have "ra_identify R (POAuth2 (mock_provider uri me)) code a w
      = (Inr (mock_identity profile subject), POAuth2 (mock_provider uri me), w3)"
    using assms(1,3) r tok get(1,3) body(1)
    by (simp add: wired_def provider_identify_def oauth2_identify_def fetch_userinfo_def mock_identity_def
        mock_provider_def string_field_def)
  then show thesis
    by (rule that) (use mock_oauth2D(8) [OF mock, of ?r w] r get(2) body(2) in simp)
qed

lemma mock_refuses:
  assumes "wired E R A D" and mock: "mock_oauth2 A url_str query uri me accepts profile"
    and "\<not> accepts \<lparr>tr_client = op_client (mock_provider uri me), tr_code = code, tr_pkce_verifier = pn_pkce_verifier a\<rparr>"
  obtains e w' where "ra_identify R (POAuth2 (mock_provider uri me)) code a w
      = (Inl e, POAuth2 (mock_provider uri me), w')"
proof -
  let ?r = "\<lparr>tr_client = op_client (mock_provider uri me), tr_code = code, tr_pkce_verifier = pn_pkce_verifier a\<rparr>"
  obtain res w1 where r: "request_token A ?r w = (res, w1)" by (cases "request_token A ?r w")
  with mock_oauth2D(10) [OF mock assms(3), of w] obtain e where "res = Inl e" by (cases res) auto
  with assms(1) r that show thesis
    by (simp add: wired_def provider_identify_def oauth2_identify_def)
qed

section \<open>The OAuth2 tests pass\<close>

text \<open>The attempt under a state, from a start at the mock.\<close>

definition awaits ::
    "('p, user, 's, 'url, 'v users_world) routes_api \<Rightarrow> 's session_view \<Rightarrow> 's \<Rightarrow> string \<Rightarrow> pending_login \<Rightarrow> bool" where
  "awaits R view s state a \<longleftrightarrow>
     pending_of view s state = Some a \<and> pn_provider a = ''mock'' \<and> pn_pkce_verifier a \<noteq> None
     \<and> (\<forall>w. is_fresh (fst (ra_now R w)) a)"

lemma to_mock:
  fixes R :: "(('url, 'ocl) provider, user, 's, 'url, 'v users_world) routes_api"
  assumes up: "session_up R view cookie" and wired: "wired E R A D"
    and mock: "mock_oauth2 A (ra_url_str R) query uri me accepts profile"
    and "\<not> (wants_link sq \<and> au_user auth = None)"
  obtains url state s w' a where "send U cfg R (GetStart ''mock'' sq) (mock_flow uri me, auth, w)
      = (answer_of (RedirectTo url), mock_flow uri me, auth\<lparr>au_session := s\<rparr>, w')"
    and "awaits R view s state a" and "pn_next a = safe_next (sq_next sq) ''/home''" and "pn_link a = wants_link sq"
    and "fst w' = fst w" and "cookie s \<noteq> None"
    and "query url ''state'' = Some state" and "state \<noteq> ''forged''" and "starts_with (uri @ ''/authorize?'') url"
    and "query url ''redirect_uri'' = Some ''http://app.test/auth/mock/callback''"
    and "query url ''scope'' = Some ''read''" and "query url ''code_challenge_method'' = Some ''S256''"
    and "\<forall>k. k \<noteq> state \<and> pending_of view (au_session auth) k = None \<longrightarrow> pending_of view s k = None"
proof -
  obtain az w1 where az: "ra_authorize R (POAuth2 (mock_provider uri me)) w = (Inr az, POAuth2 (mock_provider uri me), w1)"
      "fst w1 = fst w" "az_state az \<noteq> ''forged''" "az_pkce_verifier az \<noteq> None"
    and url: "starts_with (uri @ ''/authorize?'') (ra_url_str R (az_url az))"
      "query (ra_url_str R (az_url az)) ''state'' = Some (az_state az)"
      "query (ra_url_str R (az_url az)) ''redirect_uri'' = Some ''http://app.test/auth/mock/callback''"
      "query (ra_url_str R (az_url az)) ''scope'' = Some ''read''"
      "query (ra_url_str R (az_url az)) ''code_challenge_method'' = Some ''S256''"
    by (rule mock_authorizes [OF wired mock, of w])
  let ?a = "begun R ''mock'' sq (mock_flow uri me) (POAuth2 (mock_provider uri me)) w az"
  have here: "bt_get ''mock'' (fl_providers (mock_flow uri me)) = Some (POAuth2 (mock_provider uri me))" by simp
  obtain s w' where st: "start R ''mock'' sq (mock_flow uri me, auth, w)
      = (RedirectTo (ra_url_str R (az_url az)), put_provider ''mock'' (POAuth2 (mock_provider uri me)) (mock_flow uri me),
         auth\<lparr>au_session := s\<rparr>, w')"
    and s: "pending_of view s (az_state az) = Some ?a" "cookie s \<noteq> None" "fst w' = fst w1"
      "\<forall>k. k \<noteq> az_state az \<and> pending_of view (au_session auth) k = None \<longrightarrow> pending_of view s k = None"
    by (rule start_goes [OF up here az(1) assms(4)])
  have "pn_pkce_verifier ?a \<noteq> None" using az(4) by (simp add: begun_def)
  then have aw: "awaits R view s (az_state az) ?a"
    unfolding awaits_def by (intro conjI allI s(1) begun_fresh [OF up] begun_fields(1))
  show thesis
    by (rule that [of "ra_url_str R (az_url az)" s w' "az_state az" ?a])
      (use aw az(2,3) url st s in \<open>simp_all add: send_get start_next_def\<close>)
qed

lemma back_from_mock:
  fixes R :: "(('url, 'ocl) provider, user, 's, 'url, 'v users_world) routes_api"
  assumes up: "session_up R view cookie" and "awaits R view (au_session auth) state a" and "cq_state cq = Some state"
  obtains s w1 where "send U cfg R (GetCallback ''mock'' cq) (fl, auth, w)
      = (let (r, st) = finish_callback R ''mock'' cq a (fl, auth\<lparr>au_session := s\<rparr>, w1) in (answer_of r, st))"
    and "pending_of view s state = None" and "fst w1 = fst w"
    and "cookie (au_session auth) \<noteq> None \<longrightarrow> cookie s = cookie (au_session auth)"
proof -
  have "pending_of view (au_session auth) (the (cq_state cq)) = Some a" "pn_provider a = ''mock''"
    "\<And>w. is_fresh (fst (ra_now R w)) a" "cq_state cq \<noteq> None"
    using assms(2) unfolding awaits_def assms(3) option.sel by blast+
  then obtain s w1 where "callback R ''mock'' cq (fl, auth, w)
      = finish_callback R ''mock'' cq a (fl, auth\<lparr>au_session := s\<rparr>, w1)"
    "pending_of view s = (pending_of view (au_session auth))(the (cq_state cq) := None)"
    "cookie (au_session auth) \<noteq> None \<longrightarrow> cookie s = cookie (au_session auth)" "fst w1 = fst w"
    by (rule callback_takes [OF up])
  then show thesis using assms(3) by (intro that [of s w1]) (simp_all add: send_get)
qed

lemma refuse_mock:
  assumes enc: "form_encodes encode" and code: "plain_word code"
  shows "refuse encode (mock_flow uri me) (refusal_new code) None = RedirectTo (''/?auth_error='' @ code)"
    and "plain_word p \<Longrightarrow> refuse encode (mock_flow uri me) (refusal_new code) (Some \<lparr>rt_next = ''/'' @ p, rt_link = False\<rparr>)
      = RedirectTo (''/?auth_error='' @ code @ ''&next=%2F'' @ p)"
proof -
  have words: "plain_word ''auth_error''" "plain_word ''next''" by code_simp+
  then have "encode [(''auth_error'', code)] = ''auth_error='' @ code"
    and "plain_word p \<Longrightarrow> encode [(''auth_error'', code), (''next'', ''/'' @ p)] = ''auth_error='' @ code @ ''&next=%2F'' @ p"
    using enc code unfolding form_encodes_def by force+
  then show "refuse encode (mock_flow uri me) (refusal_new code) None = RedirectTo (''/?auth_error='' @ code)"
    and "plain_word p \<Longrightarrow> refuse encode (mock_flow uri me) (refusal_new code) (Some \<lparr>rt_next = ''/'' @ p, rt_link = False\<rparr>)
      = RedirectTo (''/?auth_error='' @ code @ ''&next=%2F'' @ p)"
    by (simp_all add: refuse_def with_query_def split_once_def)
qed

lemma wiredD:
  assumes "wired E R A D"
  shows "form_encodes (ra_encode R)"
  using assms by (simp add: wired_def)

text \<open>The user that the resolver makes of an account at the mock.\<close>

definition mock_user :: "json \<Rightarrow> string \<Rightarrow> user" where
  "mock_user profile subject = \<lparr>us_id = ''mock:'' @ subject, us_name = string_field profile (Some ''username'')\<rparr>"

lemma finish_login:
  fixes R :: "(('url, 'ocl) provider, user, 's, 'url, 'v users_world) routes_api"
  assumes up: "session_up R view cookie" and wired: "wired E R A D"
    and mock: "mock_oauth2 A (ra_url_str R) query uri me accepts profile"
    and subject: "subject_of profile ''id'' = Some subject" and "subject \<noteq> ''banned''"
    and acc: "accepts \<lparr>tr_client = op_client (mock_provider uri me), tr_code = code, tr_pkce_verifier = pn_pkce_verifier a\<rparr>"
    and "pn_link a \<longrightarrow> au_user auth = Some u"
    and "\<not> pn_link a \<longrightarrow> u = mock_user profile subject"
  obtains s w' where "finish_callback R ''mock'' (with_code code state) a (mock_flow uri me, auth, w)
      = (RedirectTo (with_query (ra_encode R) (pn_next a) (if pn_link a then [(''linked'', ''mock'')] else [])),
         mock_flow uri me, \<lparr>au_user = Some u, au_session = s\<rparr>, w')"
    and "pending_of view s = pending_of view (au_session auth)" and "cookie s \<noteq> cookie (au_session auth)"
    and "fst w' = (if pn_link a then fst w else (fst w)(us_id u \<mapsto> u))"
proof -
  obtain w1 where idy: "ra_identify R (POAuth2 (mock_provider uri me)) code a w
      = (Inr (mock_identity profile subject), POAuth2 (mock_provider uri me), w1)" "fst w1 = fst w"
    by (rule mock_identifies [OF wired mock subject acc, of w])
  let ?w = "if pn_link a then w1 else ((fst w1)(us_id u \<mapsto> u), snd w1)"
  have res: "Resolver (mock_identity profile subject) \<lparr>rc_current_user = au_user auth, rc_link = pn_link a\<rparr> w1
      = (Inr \<lparr>rs_user = u, rs_query = if pn_link a then [(''linked'', ''mock'')] else []\<rparr>, ?w)"
    using assms(5,7,8)
    by (simp add: Resolver_def Let_def mock_identity_def mock_user_def resolved_new_def resolved_with_query_def)
  obtain s where s: "ra_login R u auth = (Inr (), \<lparr>au_user = Some u, au_session = s\<rparr>)"
    "pending_of view s = pending_of view (au_session auth)" "cookie s \<noteq> cookie (au_session auth)"
    using session_upD(9) [OF up, of u auth] by blast
  have "finish_callback R ''mock'' (with_code code state) a (mock_flow uri me, auth, w)
      = (RedirectTo (with_query (ra_encode R) (pn_next a) (if pn_link a then [(''linked'', ''mock'')] else [])),
         mock_flow uri me, \<lparr>au_user = Some u, au_session = s\<rparr>, ?w)"
    using idy(1) res s(1) assms(7) by (auto simp: finish_callback_def with_code_def Let_def)
  then show thesis by (rule that) (use s idy(2) in simp_all)
qed

text \<open>A sign-in or a link at the mock, from the start to the login.\<close>

lemma signs_in:
  fixes R :: "(('url, 'ocl) provider, user, 's, 'url, 'v users_world) routes_api"
  assumes up: "session_up R view cookie" and wired: "wired E R A D"
    and mock: "mock_oauth2 A (ra_url_str R) query uri me good_code alice_profile"
    and "awaits R view (au_session auth) state a"
    and "pn_link a \<longrightarrow> au_user auth = Some u" and "\<not> pn_link a \<longrightarrow> u = mock_user alice_profile ''42''"
  obtains s w' where "send U cfg R (GetCallback ''mock'' (with_code ''good-code'' state)) (mock_flow uri me, auth, w)
      = (answer_of (RedirectTo (with_query (ra_encode R) (pn_next a) (if pn_link a then [(''linked'', ''mock'')] else []))),
         mock_flow uri me, \<lparr>au_user = Some u, au_session = s\<rparr>, w')"
    and "pending_of view s state = None"
    and "cookie (au_session auth) \<noteq> None \<longrightarrow> cookie s \<noteq> cookie (au_session auth)"
    and "fst w' = (if pn_link a then fst w else (fst w)(us_id u \<mapsto> u))"
proof -
  have cq: "cq_state (with_code ''good-code'' state) = Some state" by (simp add: with_code_def)
  obtain s1 w1 where cb: "send U cfg R (GetCallback ''mock'' (with_code ''good-code'' state)) (mock_flow uri me, auth, w)
      = (let (r, st) = finish_callback R ''mock'' (with_code ''good-code'' state) a
           (mock_flow uri me, auth\<lparr>au_session := s1\<rparr>, w1) in (answer_of r, st))"
    "pending_of view s1 state = None" "fst w1 = fst w"
    "cookie (au_session auth) \<noteq> None \<longrightarrow> cookie s1 = cookie (au_session auth)"
    by (rule back_from_mock [OF up assms(4) cq])
  have acc: "good_code \<lparr>tr_client = op_client (mock_provider uri me), tr_code = ''good-code'',
      tr_pkce_verifier = pn_pkce_verifier a\<rparr>"
    using assms(4) by (simp add: good_code_def mock_provider_def awaits_def)
  have subject: "subject_of alice_profile ''id'' = Some ''42''" by (simp add: alice_profile_def subject_of_def)
  have link: "pn_link a \<longrightarrow> au_user (auth\<lparr>au_session := s1\<rparr>) = Some u" using assms(5) by simp
  obtain s w' where "finish_callback R ''mock'' (with_code ''good-code'' state) a
      (mock_flow uri me, auth\<lparr>au_session := s1\<rparr>, w1)
      = (RedirectTo (with_query (ra_encode R) (pn_next a) (if pn_link a then [(''linked'', ''mock'')] else [])),
         mock_flow uri me, \<lparr>au_user = Some u, au_session = s\<rparr>, w')"
    "pending_of view s = pending_of view (au_session (auth\<lparr>au_session := s1\<rparr>))"
    "cookie s \<noteq> cookie (au_session (auth\<lparr>au_session := s1\<rparr>))"
    "fst w' = (if pn_link a then fst w1 else (fst w1)(us_id u \<mapsto> u))"
    by (rule finish_login [OF up wired mock subject _ acc link assms(6)]) simp
  then show thesis by (intro that [of s w']) (use cb in \<open>auto simp: Let_def\<close>)
qed

lemma no_link: "\<not> wants_link (to nxt)" "\<not> wants_link no_next" "wants_link link_to_settings"
  by (simp_all add: wants_link_def to_def no_next_def link_to_settings_def)

lemma safe_pages:
  "safe_next (sq_next (to ''/games?page=2'')) ''/home'' = ''/games?page=2''"
  "safe_next (sq_next (to ''/games'')) ''/home'' = ''/games''"
  "safe_next (sq_next no_next) ''/home'' = ''/home''"
  "safe_next (sq_next (to ''https://evil.example/'')) ''/home'' = ''/home''"
  "safe_next (sq_next link_to_settings) ''/home'' = ''/settings''"
  by code_simp+

lemma no_query [simp]: "with_query encode path [] = path"
  by (simp add: with_query_def)

lemma whoami_alice: "whoami (mock_user alice_profile ''42'') = ''mock:42 alice''"
  by (simp add: whoami_def mock_user_def alice_profile_def string_field_def)

lemma expires_at_mock:
  fixes R :: "(('url, 'ocl) provider, user, 's, 'url, 'v users_world) routes_api"
  assumes up: "session_up R view cookie" and wired: "wired E R A D"
    and "pending_of view (au_session auth) state = None"
  obtains s w' where "send U cfg R (GetCallback ''mock'' (with_code code state)) (mock_flow uri me, auth, w)
      = (answer_of (RedirectTo ''/?auth_error=expired''), mock_flow uri me, auth\<lparr>au_session := s\<rparr>, w')"
proof -
  let ?fl = "mock_flow uri me :: (('url, 'ocl) provider, user, 'v users_world) flow"
  have cq: "cq_state (with_code code state) = Some state" by (simp add: with_code_def)
  obtain s w' where "callback R ''mock'' (with_code code state) (?fl, auth, w)
      = (refuse (ra_encode R) ?fl (refusal_new EXPIRED) None, ?fl, auth\<lparr>au_session := s\<rparr>, w')"
    by (rule callback_expires [OF up assms(3) cq, of "''mock''" ?fl w])
  moreover have "plain_word EXPIRED" by code_simp
  then have "refuse (ra_encode R) ?fl (refusal_new EXPIRED) None = RedirectTo ''/?auth_error=expired''"
    by (simp add: refuse_mock(1) [OF wiredD [OF wired]]) (simp add: EXPIRED_def)
  ultimately show thesis using that by (simp add: send_get)
qed

lemma sign_in_round_trip:
  assumes up: "session_up R view cookie" and wired: "wired E R A D"
    and mock: "mock_oauth2 A (ra_url_str R) query uri me good_code alice_profile"
  shows "oauth2_sign_in_round_trip U E R query cookie uri s v"
proof -
  let ?auth = "\<lparr>au_user = None, au_session = s\<rparr> :: (user, 'c) auth_session" and ?fl = "mock_flow uri me"
  let ?u = "mock_user alice_profile ''42''"
  note fresh = browser_new_def [of E "oauth2_config uri" s v, unfolded mock_app [OF wired mock]]
  obtain url state s1 w1 a where go: "send U (oauth2_config uri) R (GetStart ''mock'' (to ''/games?page=2''))
      (?fl, ?auth, (Map.empty, v)) = (answer_of (RedirectTo url), ?fl, ?auth\<lparr>au_session := s1\<rparr>, w1)"
    and a: "awaits R view s1 state a" "pn_next a = ''/games?page=2''" "\<not> pn_link a" and c: "cookie s1 \<noteq> None"
    and url: "query url ''state'' = Some state" "starts_with (uri @ ''/authorize?'') url"
      "query url ''redirect_uri'' = Some ''http://app.test/auth/mock/callback''"
      "query url ''scope'' = Some ''read''" "query url ''code_challenge_method'' = Some ''S256''"
    by (rule to_mock [OF up wired mock, of "to ''/games?page=2''" ?auth U "oauth2_config uri" "(Map.empty, v)"])
      (simp_all add: no_link safe_pages)
  obtain s2 w2 where cb: "send U (oauth2_config uri) R (GetCallback ''mock'' (with_code ''good-code'' state))
      (?fl, ?auth\<lparr>au_session := s1\<rparr>, w1)
      = (answer_of (RedirectTo ''/games?page=2''), ?fl, \<lparr>au_user = Some ?u, au_session = s2\<rparr>, w2)"
    and gone: "pending_of view s2 state = None" and c2: "cookie s2 \<noteq> cookie s1" and users: "fst w2 (us_id ?u) = Some ?u"
    by (rule signs_in [OF up wired mock, of "?auth\<lparr>au_session := s1\<rparr>" state a ?u U "oauth2_config uri" w1])
      (use a c in simp_all)
  have who: "send U (oauth2_config uri) R GetWhoami (?fl, \<lparr>au_user = Some ?u, au_session = s2\<rparr>, w2)
      = ((200, [], ''mock:42 alice''), ?fl, \<lparr>au_user = Some ?u, au_session = s2\<rparr>, w2)"
    using users by (simp add: send_get whoami_alice)
  obtain s3 w3 where replay: "send U (oauth2_config uri) R (GetCallback ''mock'' (with_code ''good-code'' state))
      (?fl, \<lparr>au_user = Some ?u, au_session = s2\<rparr>, w2)
      = (answer_of (RedirectTo ''/?auth_error=expired''), ?fl, \<lparr>au_user = Some ?u, au_session = s3\<rparr>, w3)"
    by (rule expires_at_mock [OF up wired, of "\<lparr>au_user = Some ?u, au_session = s2\<rparr>" state U "oauth2_config uri"
          "''good-code''" uri me w2]) (use gone in simp_all)
  show ?thesis
    using go cb who replay url c c2 by (simp add: oauth2_sign_in_round_trip_def fresh)
qed

lemma unknown_state:
  assumes up: "session_up R view cookie" and wired: "wired E R A D"
    and mock: "mock_oauth2 A (ra_url_str R) query uri me good_code alice_profile" and "pending_of view s = Map.empty"
  shows "unknown_state_is_expired U E R uri s v"
proof -
  let ?auth = "\<lparr>au_user = None, au_session = s\<rparr> :: (user, 'c) auth_session" and ?fl = "mock_flow uri me"
  note fresh = browser_new_def [of E "oauth2_config uri" s v, unfolded mock_app [OF wired mock]]
  obtain url state s1 w1 a where go: "send U (oauth2_config uri) R (GetStart ''mock'' (to ''/games''))
      (?fl, ?auth, (Map.empty, v)) = (answer_of (RedirectTo url), ?fl, ?auth\<lparr>au_session := s1\<rparr>, w1)"
    and st: "state \<noteq> ''forged''"
    and others: "\<forall>k. k \<noteq> state \<and> pending_of view (au_session ?auth) k = None \<longrightarrow> pending_of view s1 k = None"
    by (rule to_mock [OF up wired mock, of "to ''/games''" ?auth U "oauth2_config uri" "(Map.empty, v)"])
      (simp_all add: no_link)
  have "pending_of view s1 ''forged'' = None" using others st assms(4) by simp
  then obtain s2 w2 where "send U (oauth2_config uri) R (GetCallback ''mock'' (with_code ''good-code'' ''forged''))
      (?fl, ?auth\<lparr>au_session := s1\<rparr>, w1)
      = (answer_of (RedirectTo ''/?auth_error=expired''), ?fl, ?auth\<lparr>au_session := s2\<rparr>, w2)"
    using expires_at_mock [OF up wired, of "?auth\<lparr>au_session := s1\<rparr>" "''forged''" U "oauth2_config uri"
        "''good-code''" uri me w1] by auto
  then show ?thesis
    using go by (simp add: unknown_state_is_expired_def fresh send_get)
qed

text \<open>The tests that end with the callback: what the second half of it answers is the answer.\<close>

lemma after_start_lands:
  assumes up: "session_up R view cookie" and wired: "wired E R A D"
    and mock: "mock_oauth2 A (ra_url_str R) query uri me accepts profile"
    and "\<not> wants_link sq" and "\<And>state. cq_state (cq state) = Some state"
    and ends: "\<And>state a auth w. pn_next a = safe_next (sq_next sq) ''/home'' \<Longrightarrow> \<not> pn_link a \<Longrightarrow>
      pn_pkce_verifier a \<noteq> None \<Longrightarrow> au_user auth = None \<Longrightarrow>
      fst (finish_callback R ''mock'' (cq state) a (mock_flow uri me, auth, w)) = RedirectTo target"
  shows "lands_at (after_start U E R query uri s v sq cq) target"
proof -
  let ?auth = "\<lparr>au_user = None, au_session = s\<rparr> :: (user, 'c) auth_session" and ?fl = "mock_flow uri me"
  note fresh = browser_new_def [of E "oauth2_config uri" s v, unfolded mock_app [OF wired mock]]
  obtain url state s1 w1 a where go: "send U (oauth2_config uri) R (GetStart ''mock'' sq)
      (?fl, ?auth, (Map.empty, v)) = (answer_of (RedirectTo url), ?fl, ?auth\<lparr>au_session := s1\<rparr>, w1)"
    and a: "awaits R view s1 state a" "pn_next a = safe_next (sq_next sq) ''/home''" "pn_link a = wants_link sq"
    and url: "query url ''state'' = Some state"
    by (rule to_mock [OF up wired mock, of sq ?auth U "oauth2_config uri" "(Map.empty, v)"])
      (use assms(4) in simp_all)
  have "awaits R view (au_session (?auth\<lparr>au_session := s1\<rparr>)) state a" using a(1) by simp
  then obtain s2 w2 where cb: "send U (oauth2_config uri) R (GetCallback ''mock'' (cq state)) (?fl, ?auth\<lparr>au_session := s1\<rparr>, w1)
      = (let (r, st) = finish_callback R ''mock'' (cq state) a (?fl, ?auth\<lparr>au_session := s1\<rparr>\<lparr>au_session := s2\<rparr>, w2)
         in (answer_of r, st))"
    by (rule back_from_mock [OF up _ assms(5), of _ _ _ U "oauth2_config uri" ?fl w1])
  have "pn_pkce_verifier a \<noteq> None" using a(1) by (simp add: awaits_def)
  with ends [of a "?auth\<lparr>au_session := s2\<rparr>" state w2] a(2,3) assms(4)
  have "fst (finish_callback R ''mock'' (cq state) a (?fl, ?auth\<lparr>au_session := s2\<rparr>, w2)) = RedirectTo target" by simp
  with go cb url show ?thesis
    by (simp add: after_start_def lands_at_def fresh case_prod_beta Let_def)
qed

lemma plain_codes:
  "plain_word CANCELLED" "plain_word PROVIDER_FAILED" "plain_word UNAVAILABLE" "plain_word SIGNED_OUT"
  "plain_word ''banned''" "plain_word ''games''" "plain_word ''home''" "plain_word ''settings''"
  by code_simp+

lemma refused_pages:
  assumes "form_encodes encode"
  shows "refuse encode (mock_flow uri me) (refusal_new CANCELLED) (Some \<lparr>rt_next = ''/games'', rt_link = False\<rparr>)
      = RedirectTo ''/?auth_error=cancelled&next=%2Fgames''"
    and "refuse encode (mock_flow uri me) (refusal_new PROVIDER_FAILED) (Some \<lparr>rt_next = ''/home'', rt_link = False\<rparr>)
      = RedirectTo ''/?auth_error=provider_failed&next=%2Fhome''"
    and "refuse encode (mock_flow uri me) (refusal_new ''banned'') (Some \<lparr>rt_next = ''/games'', rt_link = False\<rparr>)
      = RedirectTo ''/?auth_error=banned&next=%2Fgames''"
    and "refuse encode (mock_flow uri me) (refusal_new UNAVAILABLE) (Some \<lparr>rt_next = ''/games'', rt_link = False\<rparr>)
      = RedirectTo ''/?auth_error=unavailable&next=%2Fgames''"
    and "refuse encode (mock_flow uri me) (refusal_new SIGNED_OUT) (Some \<lparr>rt_next = ''/settings'', rt_link = False\<rparr>)
      = RedirectTo ''/?auth_error=signed_out&next=%2Fsettings''"
  using refuse_mock(2) [OF assms plain_codes(1) plain_codes(6), of uri me]
    refuse_mock(2) [OF assms plain_codes(2) plain_codes(7), of uri me]
    refuse_mock(2) [OF assms plain_codes(5) plain_codes(6), of uri me]
    refuse_mock(2) [OF assms plain_codes(3) plain_codes(6), of uri me]
    refuse_mock(2) [OF assms plain_codes(4) plain_codes(8), of uri me]
  by (simp_all add: refusal_codes)

lemma cancelling_at_the_provider:
  assumes up: "session_up R view cookie" and wired: "wired E R A D"
    and mock: "mock_oauth2 A (ra_url_str R) query uri me good_code alice_profile"
  shows "cancelling_at_the_provider_keeps_next U E R query uri s v"
  unfolding cancelling_at_the_provider_keeps_next_def
  by (rule after_start_lands [OF up wired mock])
    (simp_all add: no_link finish_callback_def safe_pages refused_pages [OF wiredD [OF wired]])

lemma token_failure:
  fixes R :: "(('url, 'ocl) provider, user, 's, 'url, 'v users_world) routes_api"
  assumes up: "session_up R view cookie" and wired: "wired E R A D"
    and mock: "mock_oauth2 A (ra_url_str R) query uri me good_code alice_profile"
  shows "token_failure_is_provider_failed U E R query uri s v"
  unfolding token_failure_is_provider_failed_def
proof (rule after_start_lands [OF up wired mock])
  fix state and a :: pending_login and auth :: "(user, 's) auth_session" and w :: "'v users_world"
  assume a: "pn_next a = safe_next (sq_next no_next) ''/home''" "\<not> pn_link a"
  have "\<not> good_code \<lparr>tr_client = op_client (mock_provider uri me), tr_code = ''bad-code'',
      tr_pkce_verifier = pn_pkce_verifier a\<rparr>" by (simp add: good_code_def)
  then obtain e w1 where "ra_identify R (POAuth2 (mock_provider uri me)) ''bad-code'' a w
      = (Inl e, POAuth2 (mock_provider uri me), w1)" by (rule mock_refuses [OF wired mock])
  with a show "fst (finish_callback R ''mock'' (with_code ''bad-code'' state) a (mock_flow uri me, auth, w))
      = RedirectTo ''/?auth_error=provider_failed&next=%2Fhome''"
    by (simp add: finish_callback_def with_code_def safe_pages refused_pages [OF wiredD [OF wired]])
qed (simp_all add: no_link with_code_def)

lemma open_redirects:
  fixes R :: "(('url, 'ocl) provider, user, 's, 'url, 'v users_world) routes_api"
  assumes up: "session_up R view cookie" and wired: "wired E R A D"
    and mock: "mock_oauth2 A (ra_url_str R) query uri me good_code alice_profile"
  shows "open_redirects_fall_back_to_the_default U E R query uri s v"
  unfolding open_redirects_fall_back_to_the_default_def
proof (rule after_start_lands [OF up wired mock])
  fix state and a :: pending_login and auth :: "(user, 's) auth_session" and w :: "'v users_world"
  assume a: "pn_next a = safe_next (sq_next (to ''https://evil.example/'')) ''/home''" "\<not> pn_link a"
    "pn_pkce_verifier a \<noteq> None"
  have acc: "good_code \<lparr>tr_client = op_client (mock_provider uri me), tr_code = ''good-code'',
      tr_pkce_verifier = pn_pkce_verifier a\<rparr>" using a(3) by (simp add: good_code_def mock_provider_def)
  have subject: "subject_of alice_profile ''id'' = Some ''42''" by (simp add: alice_profile_def subject_of_def)
  obtain s' w' where "finish_callback R ''mock'' (with_code ''good-code'' state) a (mock_flow uri me, auth, w)
      = (RedirectTo (with_query (ra_encode R) (pn_next a) (if pn_link a then [(''linked'', ''mock'')] else [])),
         mock_flow uri me, \<lparr>au_user = Some (mock_user alice_profile ''42''), au_session = s'\<rparr>, w')"
    by (rule finish_login [OF up wired mock subject _ acc, of auth "mock_user alice_profile ''42''" state w])
      (use a(2) in simp_all)
  with a(1,2) show "fst (finish_callback R ''mock'' (with_code ''good-code'' state) a (mock_flow uri me, auth, w))
      = RedirectTo ''/home''" by (simp add: safe_pages)
qed (simp_all add: no_link with_code_def)

lemma resolver_refusals:
  fixes R :: "(('url, 'ocl) provider, user, 's, 'url, 'v users_world) routes_api"
  assumes up: "session_up R view cookie" and wired: "wired E R A D"
    and mock: "mock_oauth2 A (ra_url_str R) query uri me (\<lambda>_. True) banned_profile"
  shows "resolver_refusals_reach_the_page U E R query uri s v"
  unfolding resolver_refusals_reach_the_page_def
proof (rule after_start_lands [OF up wired mock])
  fix state and a :: pending_login and auth :: "(user, 's) auth_session" and w :: "'v users_world"
  assume a: "pn_next a = safe_next (sq_next (to ''/games'')) ''/home''" "\<not> pn_link a"
  have subject: "subject_of banned_profile ''id'' = Some ''banned''" by (simp add: banned_profile_def subject_of_def)
  obtain w1 where "ra_identify R (POAuth2 (mock_provider uri me)) ''x'' a w
      = (Inr (mock_identity banned_profile ''banned''), POAuth2 (mock_provider uri me), w1)"
    by (rule mock_identifies [OF wired mock subject, of "''x''" a w]) simp_all
  with a show "fst (finish_callback R ''mock'' (with_code ''x'' state) a (mock_flow uri me, auth, w))
      = RedirectTo ''/?auth_error=banned&next=%2Fgames''"
    by (simp add: finish_callback_def with_code_def safe_pages refused_pages [OF wiredD [OF wired]]
        Resolver_def mock_identity_def)
qed (simp_all add: no_link with_code_def)

lemma unavailable_providers:
  assumes wired: "wired E R A D" and mock: "mock_oauth2 A (ra_url_str R) query uri me accepts profile"
  shows "unknown_and_disabled_providers_are_unavailable U E R uri s v"
proof -
  note fresh = browser_new_def [of E "oauth2_config uri" s v, unfolded mock_app [OF wired mock]]
  have "safe_next (sq_next (to ''/games'')) ''/home'' = ''/games''" by (rule safe_pages)
  moreover have "sq_link (to ''/games'') = None" by (simp add: to_def)
  ultimately show ?thesis
    by (simp add: unknown_and_disabled_providers_are_unavailable_def fresh send_get start_def Let_def
        refused_pages [OF wiredD [OF wired]])
qed

lemma link_keeps_user:
  fixes R :: "(('url, 'ocl) provider, user, 's, 'url, 'v users_world) routes_api"
  assumes up: "session_up R view cookie" and wired: "wired E R A D"
    and mock: "mock_oauth2 A (ra_url_str R) query uri me good_code alice_profile"
  shows "link_needs_a_signed_in_user_and_keeps_it U E R query uri s v"
proof -
  let ?cfg = "oauth2_config uri" and ?u = "mock_user alice_profile ''42''"
  let ?fl = "mock_flow uri me :: (('url, 'ocl) provider, user, 'v users_world) flow"
  let ?auth = "\<lparr>au_user = None, au_session = s\<rparr>"
  note fresh = browser_new_def [of E ?cfg s v, unfolded mock_app [OF wired mock]]
  have "sq_link link_to_settings = Some ''1''" by (simp add: link_to_settings_def)
  then have out: "send U ?cfg R (GetStart ''mock'' link_to_settings) (?fl, ?auth, (Map.empty, v))
      = (answer_of (RedirectTo ''/?auth_error=signed_out&next=%2Fsettings''), ?fl, ?auth, (Map.empty, v))"
    by (simp add: send_get start_def Let_def safe_pages refused_pages [OF wiredD [OF wired]])
  obtain url state s1 w1 a where go: "send U ?cfg R (GetStart ''mock'' no_next) (?fl, ?auth, (Map.empty, v))
      = (answer_of (RedirectTo url), ?fl, ?auth\<lparr>au_session := s1\<rparr>, w1)"
    and a: "awaits R view s1 state a" "\<not> pn_link a" and url: "query url ''state'' = Some state"
    by (rule to_mock [OF up wired mock, of no_next ?auth U ?cfg "(Map.empty, v)"]) (simp_all add: no_link)
  obtain s2 w2 page where cb: "send U ?cfg R (GetCallback ''mock'' (with_code ''good-code'' state))
      (?fl, ?auth\<lparr>au_session := s1\<rparr>, w1)
      = (answer_of (RedirectTo page), ?fl, \<lparr>au_user = Some ?u, au_session = s2\<rparr>, w2)"
    and users: "fst w2 (us_id ?u) = Some ?u"
    by (rule signs_in [OF up wired mock, of "?auth\<lparr>au_session := s1\<rparr>" state a ?u U ?cfg w1]) (use a in simp_all)
  obtain url2 state2 s3 w3 b where go2: "send U ?cfg R (GetStart ''mock'' link_to_settings)
      (?fl, \<lparr>au_user = Some ?u, au_session = s2\<rparr>, w2)
      = (answer_of (RedirectTo url2), ?fl, \<lparr>au_user = Some ?u, au_session = s3\<rparr>, w3)"
    and b: "awaits R view s3 state2 b" "pn_next b = ''/settings''" "pn_link b"
    and url2: "query url2 ''state'' = Some state2" and users3: "fst w3 = fst w2"
    by (rule to_mock [OF up wired mock, of link_to_settings "\<lparr>au_user = Some ?u, au_session = s2\<rparr>" U ?cfg w2])
      (simp_all add: no_link safe_pages)
  obtain s4 w4 where cb2: "send U ?cfg R (GetCallback ''mock'' (with_code ''good-code'' state2))
      (?fl, \<lparr>au_user = Some ?u, au_session = s3\<rparr>, w3)
      = (answer_of (RedirectTo (with_query (ra_encode R) ''/settings'' [(''linked'', ''mock'')])), ?fl,
         \<lparr>au_user = Some ?u, au_session = s4\<rparr>, w4)" and users4: "fst w4 = fst w3"
    by (rule signs_in [OF up wired mock, of "\<lparr>au_user = Some ?u, au_session = s3\<rparr>" state2 b ?u U ?cfg w3])
      (use b in simp_all)
  have "plain_word ''linked''" "plain_word ''mock''" by code_simp+
  then have "ra_encode R [(''linked'', ''mock'')] = ''linked=mock''"
    using wiredD [OF wired] by (simp add: form_encodes_def)
  then have page2: "with_query (ra_encode R) ''/settings'' [(''linked'', ''mock'')] = ''/settings?linked=mock''"
    by (simp add: with_query_def split_once_def)
  have who: "send U ?cfg R GetWhoami (?fl, \<lparr>au_user = Some ?u, au_session = s4\<rparr>, w4)
      = ((200, [], ''mock:42 alice''), ?fl, \<lparr>au_user = Some ?u, au_session = s4\<rparr>, w4)"
    using users users3 users4 by (simp add: send_get whoami_alice)
  show ?thesis
    using out go cb go2 cb2 page2 who url url2
    by (simp add: link_needs_a_signed_in_user_and_keeps_it_def fresh)
qed

text \<open>The guard lets the site's own sign-out pass and refuses the other one, whose origin is not trusted.\<close>

lemma guarded_sign_out:
  fixes R :: "('p, user, 's, 'url, 'v users_world) routes_api"
  assumes up: "session_up R view cookie"
    and foreign: "\<not> same_origin U ''https://evil.example'' ''http://app.test''"
  shows "send U (oauth2_config uri) R (PostSignOut (headers
      [(''sec-fetch-site'', ''cross-site''), (''origin'', ''https://evil.example'')])) st
      = ((403, [], ''cross-origin request refused''), st)"
    and "\<exists>s. send U (oauth2_config uri) R (PostSignOut (headers [(''sec-fetch-site'', ''same-origin'')])) (fl, auth, w)
      = (answer_of (Status 204), fl, \<lparr>au_user = None, au_session = s\<rparr>, w)"
proof -
  have base: "trim_end_matches CHR ''/'' (ac_base_url (oauth2_config uri)) # ac_trusted_origins (oauth2_config uri)
      = [''http://app.test'']"
    by (simp add: oauth2_config_def auth_config_default_def Let_def) code_simp
  have "\<not> trusted_contains U (trusted_origins_new U [''http://app.test'']) ''https://evil.example''"
    using foreign by (simp add: trusted_contains_iff)
  then show "send U (oauth2_config uri) R (PostSignOut (headers
      [(''sec-fetch-site'', ''cross-site''), (''origin'', ''https://evil.example'')])) st
      = ((403, [], ''cross-origin request refused''), st)"
    by (simp add: send_def base guard_def http_of_def allowed_def POST_def headers_def header_str_def)
  obtain s where "ra_logout R auth = (Inr (au_user auth), \<lparr>au_user = None, au_session = s\<rparr>)"
    using session_upD(10) [OF up] by blast
  then show "\<exists>s. send U (oauth2_config uri) R (PostSignOut (headers [(''sec-fetch-site'', ''same-origin'')])) (fl, auth, w)
      = (answer_of (Status 204), fl, \<lparr>au_user = None, au_session = s\<rparr>, w)"
    by (simp add: send_def guard_def http_of_def allowed_def POST_def headers_def dispatch_def sign_out_def)
qed

lemma sign_out_is_guarded:
  fixes R :: "(('url, 'ocl) provider, user, 's, 'url, 'v users_world) routes_api"
  assumes up: "session_up R view cookie" and wired: "wired E R A D"
    and mock: "mock_oauth2 A (ra_url_str R) query uri me good_code alice_profile"
    and foreign: "\<not> same_origin U ''https://evil.example'' ''http://app.test''"
  shows "sign_out_is_guarded_against_cross_origin_posts U E R query uri s v"
proof -
  let ?cfg = "oauth2_config uri" and ?u = "mock_user alice_profile ''42''"
  let ?fl = "mock_flow uri me :: (('url, 'ocl) provider, user, 'v users_world) flow"
  let ?auth = "\<lparr>au_user = None, au_session = s\<rparr>"
  note fresh = browser_new_def [of E ?cfg s v, unfolded mock_app [OF wired mock]]
  obtain url state s1 w1 a where go: "send U ?cfg R (GetStart ''mock'' no_next) (?fl, ?auth, (Map.empty, v))
      = (answer_of (RedirectTo url), ?fl, ?auth\<lparr>au_session := s1\<rparr>, w1)"
    and a: "awaits R view s1 state a" "\<not> pn_link a" and url: "query url ''state'' = Some state"
    by (rule to_mock [OF up wired mock, of no_next ?auth U ?cfg "(Map.empty, v)"]) (simp_all add: no_link)
  obtain s2 w2 page where cb: "send U ?cfg R (GetCallback ''mock'' (with_code ''good-code'' state))
      (?fl, ?auth\<lparr>au_session := s1\<rparr>, w1)
      = (answer_of (RedirectTo page), ?fl, \<lparr>au_user = Some ?u, au_session = s2\<rparr>, w2)"
    and users: "fst w2 (us_id ?u) = Some ?u"
    by (rule signs_in [OF up wired mock, of "?auth\<lparr>au_session := s1\<rparr>" state a ?u U ?cfg w1]) (use a in simp_all)
  obtain s3 where own: "send U ?cfg R (PostSignOut (headers [(''sec-fetch-site'', ''same-origin'')]))
      (?fl, \<lparr>au_user = Some ?u, au_session = s2\<rparr>, w2)
      = (answer_of (Status 204), ?fl, \<lparr>au_user = None, au_session = s3\<rparr>, w2)"
    using guarded_sign_out(2) [OF up foreign] by blast
  show ?thesis
    using go cb own url users
    by (simp add: sign_out_is_guarded_against_cross_origin_posts_def fresh guarded_sign_out(1) [OF up foreign] send_get)
qed

end
