(* ===== verification/Tests_Oidc.thy ===== *)
theory Tests_Oidc
  imports Tests_Flow
begin

text \<open>
  \<open>mod oidc\<close> of \<open>muxa-auth/tests/flows.rs\<close>: sign-ins through an OpenID Connect provider, with the
  browser and the application of \<open>Tests_Flow\<close>.
\<close>

section \<open>The OpenID Connect tests\<close>

definition OIDC_SECRET :: string where
  "OIDC_SECRET = ''oidc-client-secret-with-enough-bytes''"

definition oidc_config :: "string \<Rightarrow> auth_config" where
  "oidc_config uri =
     (let google = Oidc (oidc_provider_config_of (empty_oidc_table
            \<lparr>dt_issuer := Some uri, dt_client_id := Some ''oidc-client'', dt_client_secret := Some OIDC_SECRET\<rparr>))
      in auth_config_default\<lparr>ac_base_url := ''http://app.test'', ac_mount := ''/auth'',
           ac_providers := bt_insert ''google'' google []\<rparr>)"

text \<open>\<open>scope.split(' ')\<close>.\<close>

fun words_of :: "string \<Rightarrow> string \<Rightarrow> string list" where
  "words_of word [] = [word]"
| "words_of word (c # cs) = (if c = CHR '' '' then word # words_of [] cs else words_of (word @ [c]) cs)"

text \<open>
  \<open>mount_token\<close> makes the token endpoint answer with an ID token for a nonce: from then on
  \<open>mounted nonce\<close> is what a provider makes of a code.
\<close>

definition oidc_sign_in_checks_the_nonce where
  "oidc_sign_in_checks_the_nonce U E R mounted query uri s v =
     (let cfg = oidc_config uri;
          (response, st) = send U cfg R (GetStart ''google'' (to ''/games'')) (browser_new E cfg s v)
      in case (sent query ''scope'' response, sent query ''state'' response, sent query ''nonce'' response) of
           (Some scope, Some state, Some nonce) \<Rightarrow>
             (let browse = send U cfg (R\<lparr>ra_identify := mounted nonce\<rparr>);
                  (response2, st2) = browse (GetCallback ''google'' (with_code ''any'' state)) st
              in list_ex (\<lambda>w. w = ''openid'') (words_of [] scope)
                 \<and> location response2 = Some ''/games''
                 \<and> body (fst (browse GetWhoami st2)) = ''google:google-123 Alice'')
         | _ \<Rightarrow> False)"

definition oidc_rejects_a_token_for_another_nonce where
  "oidc_rejects_a_token_for_another_nonce U E R mounted query uri s v =
     (let cfg = oidc_config uri;
          (response, st) = send U cfg R (GetStart ''google'' (to ''/games'')) (browser_new E cfg s v)
      in case sent query ''state'' response of
           None \<Rightarrow> False
         | Some state \<Rightarrow>
             (let browse = send U cfg (R\<lparr>ra_identify := mounted ''someone-elses-nonce''\<rparr>);
                  (response2, st2) = browse (GetCallback ''google'' (with_code ''any'' state)) st
              in location response2 = Some ''/?auth_error=provider_failed&next=%2Fgames''
                 \<and> status (fst (browse GetWhoami st2)) = 401))"

text \<open>
  The mock of \<open>mock_oidc_provider\<close>, whose discovery always answers; \<open>token_for\<close> a nonce: its token
  endpoint answers any code with a signed ID token whose claims hold for that nonce only.
\<close>

definition mock_oidc ::
    "('meta, 'ocl, 'idt, 'clm, 'otok, 'alg, 'key, 'url, 'v users_world) oidc_api \<Rightarrow> ('url \<Rightarrow> string)
      \<Rightarrow> (string \<Rightarrow> string \<Rightarrow> string option) \<Rightarrow> string \<Rightarrow> bool" where
  "mock_oidc D url_str query uri \<longleftrightarrow>
     issuer_url_new D uri = Inr uri
     \<and> (\<forall>w. \<not> is_err (fst (discover D uri w)) \<and> fst (snd (discover D uri w)) = fst w)
     \<and> (\<forall>w. fst (snd (oidc_random_pkce D w)) = fst w \<and> fst (snd (oidc_random_state D w)) = fst w
          \<and> fst (snd (oidc_random_nonce D w)) = fst w \<and> fst (oidc_random_nonce D w) \<noteq> ''someone-elses-nonce'')
     \<and> (\<forall>r. (let u = url_str (oidc_request_url D r)
            in query u ''state'' = Some (or_state r) \<and> query u ''nonce'' = Some (or_nonce r)
               \<and> query u ''scope'' = Some (''openid'' @ concat (map (\<lambda>s. '' '' @ s) (or_scopes r)))))"

definition token_for ::
    "('meta, 'ocl, 'idt, 'clm, 'otok, 'alg, 'key, 'url, 'v users_world) oidc_api \<Rightarrow> string \<Rightarrow> bool" where
  "token_for D n \<longleftrightarrow>
     (\<forall>cl code. exchange_code D cl code = Inr ())
     \<and> (\<forall>cl code ve w. \<exists>tok idt w'. oidc_request_token D cl code ve w = (Inr tok, w') \<and> fst w' = fst w
          \<and> id_token D tok = Some idt
          \<and> (\<forall>cl w. \<exists>claims. verify_claims D idt cl n w = Inr claims \<and> access_token_hash D claims = None
               \<and> claim_subject D claims = ''google-123'' \<and> claim_name D claims = Some ''Alice'')
          \<and> (\<forall>cl nonce w. nonce \<noteq> n \<longrightarrow> is_err (verify_claims D idt cl nonce w)))"

section \<open>The OpenID Connect tests pass\<close>

definition google_provider :: "string \<Rightarrow> ('ocl \<times> nat) option \<Rightarrow> 'ocl oidc_provider" where
  "google_provider uri client =
     \<lparr>dp_id = ''google'', dp_issuer = uri, dp_client_id = ''oidc-client'', dp_client_secret = OIDC_SECRET,
      dp_redirect = ''http://app.test/auth/google/callback'', dp_scopes = [''email'', ''profile''],
      dp_ttl = 3600 * 1000, dp_client = client\<rparr>"

definition google_flow ::
    "string \<Rightarrow> ('ocl \<times> nat) option \<Rightarrow> (('url, 'ocl) provider, user, 'v users_world) flow" where
  "google_flow uri client =
     \<lparr>fl_providers = [(''google'', POidc (google_provider uri client))], fl_resolver = Resolver,
      fl_sign_in_path = ''/'', fl_default_next = ''/'', fl_error_param = ''auth_error''\<rparr>"

lemma google_flow_simps [simp]:
  "bt_get ''google'' (fl_providers (google_flow uri c)) = Some (POidc (google_provider uri c))"
  "fl_resolver (google_flow uri c) = Resolver" "fl_default_next (google_flow uri c) = ''/''"
  "put_provider ''google'' (POidc (google_provider uri c')) (google_flow uri c) = google_flow uri c'"
  by (simp_all add: google_flow_def bt_get_def put_provider_def)

lemma google_refused:
  assumes "form_encodes encode"
  shows "refuse encode (google_flow uri c) (refusal_new PROVIDER_FAILED) (Some \<lparr>rt_next = ''/games'', rt_link = False\<rparr>)
    = RedirectTo ''/?auth_error=provider_failed&next=%2Fgames''"
proof -
  have "plain_word ''auth_error''" "plain_word PROVIDER_FAILED" "plain_word ''next''" "plain_word ''games''" by code_simp+
  then have "encode [(''auth_error'', PROVIDER_FAILED), (''next'', ''/'' @ ''games'')]
      = ''auth_error='' @ PROVIDER_FAILED @ ''&next=%2Fgames''"
    using assms unfolding form_encodes_def by force
  then show ?thesis by (simp add: refuse_def google_flow_def with_query_def split_once_def PROVIDER_FAILED_def)
qed

lemma google_app:
  assumes "wired E R A D" and "mock_oidc D url_str query uri"
    and "redirect_url_new A ''http://app.test/auth/google/callback'' = Inr ''http://app.test/auth/google/callback''"
  shows "auth_flow_of E Resolver (oidc_config uri) = google_flow uri None"
proof -
  have base: "trim_end_matches CHR ''/'' ''http://app.test'' = ''http://app.test''" "mount_of ''/auth'' = ''/auth''"
    by code_simp+
  have "issuer_url_new D uri = Inr uri" using assms(2) by (simp add: mock_oidc_def)
  then show ?thesis
    using assms(1,3) base
    by (simp add: auth_flow_of_def wired_def build_providers_def oidc_config_def Let_def add_provider_def
        provider_redirect_def provider_from_config_def oidc_provider_new_def google_flow_def google_provider_def
        oidc_provider_config_of_def empty_oidc_table_def oidc_provider_config_default_def client_id_def
        auth_config_default_def default_oidc_scopes_def default_metadata_ttl_def)
qed

lemma google_client:
  assumes "mock_oidc D url_str query uri"
  obtains cl c w' where "oidc_client D (google_provider uri client) force w = (Inr cl, google_provider uri c, w')"
    and "fst w' = fst w"
proof (cases "cached_client D (google_provider uri client) force w")
  case (Some cl)
  then show ?thesis by (intro that [of cl client w]) (simp_all add: oidc_client_def)
next
  case None
  obtain found w' where found: "discover D uri w = (found, w')" by (cases "discover D uri w")
  with assms have "\<not> is_err found" "fst w' = fst w" unfolding mock_oidc_def by (metis fst_conv snd_conv)+
  with found None that show ?thesis
    by (cases found) (auto simp: oidc_client_def google_provider_def Let_def)
qed

lemma google_authorizes:
  assumes "wired E R A D" and mock: "mock_oidc D (ra_url_str R) query uri"
  obtains az c w' where "ra_authorize R (POidc (google_provider uri client)) w
      = (Inr az, POidc (google_provider uri c), w')"
    and "fst w' = fst w" and "query (ra_url_str R (az_url az)) ''state'' = Some (az_state az)"
    and "query (ra_url_str R (az_url az)) ''nonce'' = az_nonce az"
    and "query (ra_url_str R (az_url az)) ''scope'' = Some ''openid email profile''"
    and "az_nonce az \<noteq> None" and "az_nonce az \<noteq> Some ''someone-elses-nonce''"
proof -
  obtain cl c w1 where cl: "oidc_client D (google_provider uri client) False w = (Inr cl, google_provider uri c, w1)"
    "fst w1 = fst w" by (rule google_client [OF mock])
  obtain ch ve w2 where pk: "oidc_random_pkce D w1 = ((ch, ve), w2)" by (metis surj_pair)
  obtain st w3 where st: "oidc_random_state D w2 = (st, w3)" by (cases "oidc_random_state D w2")
  obtain n w4 where n: "oidc_random_nonce D w3 = (n, w4)" by (cases "oidc_random_nonce D w3")
  let ?r = "\<lparr>or_client = cl, or_state = st, or_nonce = n, or_pkce_challenge = ch, or_scopes = [''email'', ''profile'']\<rparr>"
  let ?az = "\<lparr>az_url = oidc_request_url D ?r, az_state = st, az_pkce_verifier = Some ve, az_nonce = Some n\<rparr>"
  have scopes: "dp_scopes (google_provider uri c) = [''email'', ''profile'']" by (simp add: google_provider_def)
  have "ra_authorize R (POidc (google_provider uri client)) w = (Inr ?az, POidc (google_provider uri c), w4)"
    using assms(1) cl(1) pk st n
    by (simp add: wired_def provider_authorize_def oidc_authorize_def scopes)
  moreover have "fst w4 = fst w" "n \<noteq> ''someone-elses-nonce''"
    using mock cl(2) pk st n unfolding mock_oidc_def by (metis fst_conv snd_conv)+
  moreover have "let u = ra_url_str R (oidc_request_url D ?r)
      in query u ''state'' = Some (or_state ?r) \<and> query u ''nonce'' = Some (or_nonce ?r)
        \<and> query u ''scope'' = Some (''openid'' @ concat (map (\<lambda>s. '' '' @ s) (or_scopes ?r)))"
    using mock unfolding mock_oidc_def by blast
  ultimately show thesis by (intro that [of ?az c w4]) (simp_all add: Let_def)
qed

lemma google_identifies:
  assumes mock: "mock_oidc D url_str query uri" and tok: "token_for D n" and "pn_nonce a = Some n"
  obtains identity c w' where "provider_identify A D (POidc (google_provider uri client)) code a w
      = (Inr identity, POidc (google_provider uri c), w')"
    and "fst w' = fst w" and "ei_provider identity = ''google''" and "ei_subject identity = ''google-123''"
    and "ei_name identity = Some ''Alice''"
proof -
  obtain cl c w1 where cl: "oidc_client D (google_provider uri client) False w = (Inr cl, google_provider uri c, w1)"
    "fst w1 = fst w" by (rule google_client [OF mock])
  obtain tk idt w2 where t: "oidc_request_token D cl code (pn_pkce_verifier a) w1 = (Inr tk, w2)" "fst w2 = fst w1"
      "id_token D tk = Some idt"
    and good: "\<And>cl w. \<exists>claims. verify_claims D idt cl n w = Inr claims \<and> access_token_hash D claims = None
               \<and> claim_subject D claims = ''google-123'' \<and> claim_name D claims = Some ''Alice''"
    using tok unfolding token_for_def by metis
  obtain claims where v: "verify_claims D idt cl n w2 = Inr claims" "access_token_hash D claims = None"
    "claim_subject D claims = ''google-123''" "claim_name D claims = Some ''Alice''" using good by blast
  have ex: "exchange_code D cl code = Inr ()" using tok by (simp add: token_for_def)
  let ?i = "oidc_identity D (google_provider uri c) claims"
  have "provider_identify A D (POidc (google_provider uri client)) code a w = (Inr ?i, POidc (google_provider uri c), w2)"
    using assms(3) cl(1) t(1,3) v(1,2) ex
    by (simp add: provider_identify_def oidc_identify_def oidc_claims_def check_at_hash_def)
  then show thesis
    by (rule that) (use cl(2) t(2) v in \<open>simp_all add: oidc_identity_def google_provider_def\<close>)
qed

lemma google_refuses:
  assumes mock: "mock_oidc D url_str query uri" and tok: "token_for D n" and "pn_nonce a = Some m" and "m \<noteq> n"
  obtains e c w' where "provider_identify A D (POidc (google_provider uri client)) code a w
      = (Inl e, POidc (google_provider uri c), w')"
proof -
  obtain cl c w1 where cl: "oidc_client D (google_provider uri client) False w = (Inr cl, google_provider uri c, w1)"
    by (rule google_client [OF mock])
  obtain tk idt w2 where t: "oidc_request_token D cl code (pn_pkce_verifier a) w1 = (Inr tk, w2)" "id_token D tk = Some idt"
    and bad: "\<And>cl w. is_err (verify_claims D idt cl m w)"
    using tok assms(4) unfolding token_for_def by metis
  obtain cl2 c2 w3 where cl2: "oidc_client D (google_provider uri c) True w2 = (Inr cl2, google_provider uri c2, w3)"
    by (rule google_client [OF mock])
  obtain e1 e2 where e: "verify_claims D idt cl m w2 = Inl e1" "verify_claims D idt cl2 m w3 = Inl e2"
    using bad [of cl w2] bad [of cl2 w3] by (auto simp: is_err_def split: sum.splits)
  have "exchange_code D cl code = Inr ()" using tok by (simp add: token_for_def)
  then show thesis
    using that assms(3) cl t e cl2
    by (simp add: provider_identify_def oidc_identify_def oidc_claims_def)
qed

text \<open>The start of both tests.\<close>

lemma to_google:
  fixes R :: "(('url, 'ocl) provider, user, 's, 'url, 'v users_world) routes_api"
  assumes up: "session_up R view cookie" and wired: "wired E R A D" and mock: "mock_oidc D (ra_url_str R) query uri"
  obtains url state n a s1 c w1 where "send U cfg R (GetStart ''google'' (to ''/games''))
      (google_flow uri None, \<lparr>au_user = None, au_session = s\<rparr>, (Map.empty, v))
      = (answer_of (RedirectTo url), google_flow uri c, \<lparr>au_user = None, au_session = s1\<rparr>, w1)"
    and "query url ''state'' = Some state" and "query url ''nonce'' = Some n"
    and "query url ''scope'' = Some ''openid email profile''" and "n \<noteq> ''someone-elses-nonce''"
    and "pending_of view s1 state = Some a" and "pn_provider a = ''google''" and "pn_nonce a = Some n"
    and "pn_next a = ''/games''" and "\<not> pn_link a" and "\<forall>w. is_fresh (fst (ra_now R w)) a"
proof -
  let ?w = "(Map.empty, v) :: 'v users_world" and ?auth = "\<lparr>au_user = None, au_session = s\<rparr> :: (user, 's) auth_session"
  obtain az c w1 where az: "ra_authorize R (POidc (google_provider uri None)) ?w
      = (Inr az, POidc (google_provider uri c), w1)"
    and url: "query (ra_url_str R (az_url az)) ''state'' = Some (az_state az)"
      "query (ra_url_str R (az_url az)) ''nonce'' = az_nonce az"
      "query (ra_url_str R (az_url az)) ''scope'' = Some ''openid email profile''"
      "az_nonce az \<noteq> None" "az_nonce az \<noteq> Some ''someone-elses-nonce''"
    by (rule google_authorizes [OF wired mock, of None ?w])
  obtain n where n: "az_nonce az = Some n" using url(4) by auto
  have link: "\<not> (wants_link (to ''/games'') \<and> au_user ?auth = None)" by (simp add: no_link)
  let ?a = "begun R ''google'' (to ''/games'') (google_flow uri None) (POidc (google_provider uri None)) ?w az"
  obtain s1 w2 where st: "start R ''google'' (to ''/games'') (google_flow uri None, ?auth, ?w)
      = (RedirectTo (ra_url_str R (az_url az)), put_provider ''google'' (POidc (google_provider uri c)) (google_flow uri None),
         ?auth\<lparr>au_session := s1\<rparr>, w2)"
    and s1: "pending_of view s1 (az_state az) = Some ?a"
    by (rule start_goes [OF up google_flow_simps(1) az link])
  have page: "safe_next (sq_next (to ''/games'')) ''/'' = ''/games''" by code_simp
  have fields: "pn_nonce ?a = Some n" "pn_next ?a = ''/games''" "\<not> pn_link ?a"
    by (simp_all add: begun_def n start_next_def page no_link)
  have fresh: "\<forall>w. is_fresh (fst (ra_now R w)) ?a" by (intro allI begun_fresh [OF up])
  show thesis
    by (rule that [of "ra_url_str R (az_url az)" c s1 w2 "az_state az" n ?a])
      (use st s1 url n fields fresh in \<open>simp_all add: send_get\<close>)
qed

lemma session_up_identify: "session_up R view cookie \<Longrightarrow> session_up (R\<lparr>ra_identify := f\<rparr>) view cookie"
  by (simp add: session_up_def)

text \<open>The callback of both tests, after the token endpoint was mounted.\<close>

lemma back_from_google:
  fixes R :: "(('url, 'ocl) provider, user, 's, 'url, 'v users_world) routes_api"
  assumes up: "session_up R view cookie" and "pending_of view s1 state = Some a" and "pn_provider a = ''google''"
    and "\<forall>w. is_fresh (fst (ra_now R w)) a"
  obtains s2 w2 where "send U cfg (R\<lparr>ra_identify := f\<rparr>) (GetCallback ''google'' (with_code ''any'' state))
      (google_flow uri c, \<lparr>au_user = None, au_session = s1\<rparr>, w)
      = (let (r, st) = finish_callback (R\<lparr>ra_identify := f\<rparr>) ''google'' (with_code ''any'' state) a
           (google_flow uri c, \<lparr>au_user = None, au_session = s2\<rparr>, w2) in (answer_of r, st))"
    and "fst w2 = fst w"
proof -
  let ?R = "R\<lparr>ra_identify := f\<rparr>" and ?auth = "\<lparr>au_user = None, au_session = s1\<rparr> :: (user, 's) auth_session"
  have cq: "cq_state (with_code ''any'' state) = Some state" by (simp add: with_code_def)
  have "pending_of view (au_session ?auth) (the (cq_state (with_code ''any'' state))) = Some a" "pn_provider a = ''google''"
    "\<And>w. is_fresh (fst (ra_now ?R w)) a" "cq_state (with_code ''any'' state) \<noteq> None"
    using assms(2,3) spec [OF assms(4)] unfolding cq option.sel by simp_all
  then obtain s2 w2 where "callback ?R ''google'' (with_code ''any'' state) (google_flow uri c, ?auth, w)
      = finish_callback ?R ''google'' (with_code ''any'' state) a (google_flow uri c, ?auth\<lparr>au_session := s2\<rparr>, w2)"
    "fst w2 = fst w"
    by (rule callback_takes [OF session_up_identify [OF up, of f]])
  then show thesis by (intro that [of s2 w2]) (simp_all add: send_get)
qed

lemma checks_the_nonce:
  fixes R :: "(('url, 'ocl) provider, user, 's, 'url, 'v users_world) routes_api"
  assumes up: "session_up R view cookie" and wired: "wired E R A D" and mock: "mock_oidc D (ra_url_str R) query uri"
    and redirect: "redirect_url_new A ''http://app.test/auth/google/callback'' = Inr ''http://app.test/auth/google/callback''"
    and mounted: "\<And>n. mounted n = provider_identify A (D' n)"
      "\<And>n. mock_oidc (D' n) (ra_url_str R) query uri" "\<And>n. token_for (D' n) n"
  shows "oidc_sign_in_checks_the_nonce U E R mounted query uri s v"
proof -
  let ?cfg = "oidc_config uri" and ?u = "\<lparr>us_id = ''google:google-123'', us_name = Some ''Alice''\<rparr>"
  note fresh = browser_new_def [of E ?cfg s v, unfolded google_app [OF wired mock redirect]]
  obtain url state n a s1 c w1 where go: "send U ?cfg R (GetStart ''google'' (to ''/games''))
      (google_flow uri None, \<lparr>au_user = None, au_session = s\<rparr>, (Map.empty, v))
      = (answer_of (RedirectTo url), google_flow uri c, \<lparr>au_user = None, au_session = s1\<rparr>, w1)"
    and url: "query url ''state'' = Some state" "query url ''nonce'' = Some n"
      "query url ''scope'' = Some ''openid email profile''"
    and a: "pending_of view s1 state = Some a" "pn_provider a = ''google''" "pn_nonce a = Some n"
      "pn_next a = ''/games''" "\<not> pn_link a" "\<forall>w. is_fresh (fst (ra_now R w)) a"
    by (rule to_google [OF up wired mock, of U ?cfg s v])
  let ?R = "R\<lparr>ra_identify := mounted n\<rparr>"
  obtain s2 w2 where cb: "send U ?cfg ?R (GetCallback ''google'' (with_code ''any'' state))
      (google_flow uri c, \<lparr>au_user = None, au_session = s1\<rparr>, w1)
      = (let (r, st) = finish_callback ?R ''google'' (with_code ''any'' state) a
           (google_flow uri c, \<lparr>au_user = None, au_session = s2\<rparr>, w2) in (answer_of r, st))"
    by (rule back_from_google [OF up a(1,2,6), of U ?cfg "mounted n" uri c w1])
  obtain identity c2 w3 where idy: "mounted n (POidc (google_provider uri c)) ''any'' a w2
      = (Inr identity, POidc (google_provider uri c2), w3)"
    and who: "ei_provider identity = ''google''" "ei_subject identity = ''google-123''" "ei_name identity = Some ''Alice''"
    unfolding mounted(1) by (rule google_identifies [OF mounted(2,3) a(3)])
  have res: "Resolver identity \<lparr>rc_current_user = None, rc_link = False\<rparr> w3
      = (Inr (resolved_new ?u), ((fst w3)(us_id ?u \<mapsto> ?u), snd w3))"
    by (simp add: Resolver_def who Let_def)
  obtain s3 where login: "ra_login R ?u \<lparr>au_user = None, au_session = s2\<rparr> = (Inr (), \<lparr>au_user = Some ?u, au_session = s3\<rparr>)"
    using session_upD(9) [OF up] by blast
  have "finish_callback ?R ''google'' (with_code ''any'' state) a (google_flow uri c, \<lparr>au_user = None, au_session = s2\<rparr>, w2)
      = (RedirectTo ''/games'', google_flow uri c2, \<lparr>au_user = Some ?u, au_session = s3\<rparr>,
         ((fst w3)(us_id ?u \<mapsto> ?u), snd w3))"
    using idy res login a(4,5) by (simp add: finish_callback_def with_code_def resolved_new_def)
  moreover have "list_ex (\<lambda>w. w = ''openid'') (words_of [] ''openid email profile'')" by code_simp
  ultimately show ?thesis
    using go cb url by (simp add: oidc_sign_in_checks_the_nonce_def fresh send_get whoami_def)
qed

lemma rejects_another_nonce:
  fixes R :: "(('url, 'ocl) provider, user, 's, 'url, 'v users_world) routes_api"
  assumes up: "session_up R view cookie" and wired: "wired E R A D" and mock: "mock_oidc D (ra_url_str R) query uri"
    and redirect: "redirect_url_new A ''http://app.test/auth/google/callback'' = Inr ''http://app.test/auth/google/callback''"
    and mounted: "\<And>n. mounted n = provider_identify A (D' n)"
      "\<And>n. mock_oidc (D' n) (ra_url_str R) query uri" "\<And>n. token_for (D' n) n"
  shows "oidc_rejects_a_token_for_another_nonce U E R mounted query uri s v"
proof -
  let ?cfg = "oidc_config uri" and ?n = "''someone-elses-nonce''"
  note fresh = browser_new_def [of E ?cfg s v, unfolded google_app [OF wired mock redirect]]
  obtain url state n a s1 c w1 where go: "send U ?cfg R (GetStart ''google'' (to ''/games''))
      (google_flow uri None, \<lparr>au_user = None, au_session = s\<rparr>, (Map.empty, v))
      = (answer_of (RedirectTo url), google_flow uri c, \<lparr>au_user = None, au_session = s1\<rparr>, w1)"
    and url: "query url ''state'' = Some state" and n: "n \<noteq> ?n"
    and a: "pending_of view s1 state = Some a" "pn_provider a = ''google''" "pn_nonce a = Some n"
      "pn_next a = ''/games''" "\<not> pn_link a" "\<forall>w. is_fresh (fst (ra_now R w)) a"
    by (rule to_google [OF up wired mock, of U ?cfg s v])
  let ?R = "R\<lparr>ra_identify := mounted ?n\<rparr>"
  obtain s2 w2 where cb: "send U ?cfg ?R (GetCallback ''google'' (with_code ''any'' state))
      (google_flow uri c, \<lparr>au_user = None, au_session = s1\<rparr>, w1)
      = (let (r, st) = finish_callback ?R ''google'' (with_code ''any'' state) a
           (google_flow uri c, \<lparr>au_user = None, au_session = s2\<rparr>, w2) in (answer_of r, st))"
    by (rule back_from_google [OF up a(1,2,6), of U ?cfg "mounted ?n" uri c w1])
  obtain e c2 w3 where idy: "mounted ?n (POidc (google_provider uri c)) ''any'' a w2
      = (Inl e, POidc (google_provider uri c2), w3)"
    unfolding mounted(1) by (rule google_refuses [OF mounted(2,3) a(3) n])
  have "finish_callback ?R ''google'' (with_code ''any'' state) a (google_flow uri c, \<lparr>au_user = None, au_session = s2\<rparr>, w2)
      = (RedirectTo ''/?auth_error=provider_failed&next=%2Fgames'', google_flow uri c2,
         \<lparr>au_user = None, au_session = s2\<rparr>, w3)"
    using idy a(4,5) by (simp add: finish_callback_def with_code_def google_refused [OF wiredD [OF wired]])
  with go cb url show ?thesis
    by (simp add: oidc_rejects_a_token_for_another_nonce_def fresh send_get)
qed

end
