(* ===== verification/Tests_Libraries.thy ===== *)
theory Tests_Libraries
  imports Tests_Flow
begin

text \<open>
  Libraries in memory with all the behaviour that the OAuth2 tests of \<open>Tests_Flow\<close> rely on, on which the
  tests pass with no hypothesis left.
\<close>

section \<open>URLs and the mock provider\<close>

text \<open>
  A URL is its own text; the
  parameters of an authorization URL are written one after the other, each character after a mark.
\<close>

definition marked :: "string \<Rightarrow> string" where
  "marked s = concat (map (\<lambda>c. [CHR ''x'', c]) s) @ ''.''"

fun read_marked :: "string \<Rightarrow> string \<times> string" where
  "read_marked (m # c # cs) =
     (if m = CHR ''x'' then (let (s, rest) = read_marked cs in (c # s, rest)) else ([], c # cs))"
| "read_marked [m] = ([], [])"
| "read_marked [] = ([], [])"

lemma read_marked_append: "read_marked (marked s @ rest) = (s, rest)"
proof (induction s)
  case Nil
  then show ?case by (cases rest) (simp_all add: marked_def)
next
  case (Cons c s)
  then show ?case by (simp add: marked_def)
qed

definition plain_url :: "authorize_request \<Rightarrow> string" where
  "plain_url r = oc_auth_uri (ar_client r) @ ''?'' @ marked (ar_state r) @ marked (oc_redirect_uri (ar_client r))
     @ marked (case ar_scopes r of [s] \<Rightarrow> s | _ \<Rightarrow> [])"

definition plain_query :: "string \<Rightarrow> string \<Rightarrow> string \<Rightarrow> string option" where
  "plain_query uri url key =
     (let rest = drop (length (uri @ ''/authorize?'')) url;
          (state, rest) = read_marked rest;
          (redirect, rest) = read_marked rest;
          (scope, _) = read_marked rest
      in if key = ''state'' then Some state
         else if key = ''redirect_uri'' then Some redirect
         else if key = ''scope'' then Some scope
         else if key = ''code_challenge_method'' then Some ''S256'' else None)"

definition plain_oauth2 :: "(string, string, string, unit users_world) oauth2_api" where
  "plain_oauth2 =
     \<lparr>redirect_url_new = Inr, auth_url_new = Inr, token_url_new = Inr, userinfo_url_parse = Inr,
      random_state = (\<lambda>w. (''s1'', w)), random_pkce = (\<lambda>w. ((''c'', ''v''), w)), authorize_request_url = plain_url,
      request_token = (\<lambda>r w. (if good_code r then Inr ''access-1'' else Inl (ErrorNode ''404'' None), w)),
      access_token = id, http_get = (\<lambda>url tok hs w. (Inr tok, w)), error_for_status = Inr,
      resp_json = (\<lambda>tok w. (Inr alice_profile, w))\<rparr>"

lemma read_marked_all: "read_marked (marked s) = (s, [])"
  using read_marked_append [of s "[]"] by simp

lemma plain_mock: "mock_oauth2 plain_oauth2 id (plain_query uri) uri (uri @ ''/me'') good_code alice_profile"
  by (auto simp: mock_oauth2_def plain_oauth2_def plain_url_def plain_query_def read_marked_append read_marked_all
      starts_with_iff Let_def)

section \<open>Sessions and routes\<close>

text \<open>A session is its values and a cookie that each login changes.\<close>

type_synonym cookie_session = "(string \<Rightarrow> pending_map option) \<times> nat"

definition cookie_sessions :: "cookie_session session_api" where
  "cookie_sessions =
     \<lparr>session_get = (\<lambda>k s. (Inr (map_option AList.clearjunk (fst s k)), s)),
      session_insert = (\<lambda>k m s. (Inr (), ((fst s)(k \<mapsto> m), snd s))),
      session_remove = (\<lambda>k s. (Inr (fst s k), ((fst s)(k := None), snd s)))\<rparr>"

definition plain_encode :: "(string \<times> string) list \<Rightarrow> string" where
  "plain_encode pairs =
     tl (concat (map (\<lambda>(k, v). ''&'' @ k @ ''='' @ concat (map (\<lambda>c. if c = CHR ''/'' then ''%2F'' else [c]) v)) pairs))"

definition plain_routes ::
    "('meta, 'ocl, 'idt, 'clm, 'otok, 'alg, 'key, string, unit users_world) oidc_api
      \<Rightarrow> ((string, 'ocl) provider, user, cookie_session, string, unit users_world) routes_api" where
  "plain_routes D =
     \<lparr>ra_session = cookie_sessions, ra_authorize = provider_authorize plain_oauth2 D,
      ra_identify = provider_identify plain_oauth2 D, ra_now = (\<lambda>w. (50, w)), ra_encode = plain_encode,
      ra_url_str = id,
      ra_login = (\<lambda>u auth. (Inr (), \<lparr>au_user = Some u, au_session = apsnd Suc (au_session auth)\<rparr>)),
      ra_logout = (\<lambda>auth. (Inr (au_user auth), auth\<lparr>au_user := None\<rparr>))\<rparr>"

abbreviation cookie_view :: "cookie_session session_view" where
  "cookie_view \<equiv> \<lambda>s k. map_option map_of (fst s k)"

abbreviation cookie_of :: "cookie_session \<Rightarrow> nat option" where
  "cookie_of \<equiv> \<lambda>s. Some (snd s)"

lemma cookie_sessions_laws: "session_laws cookie_sessions cookie_view"
  unfolding session_laws_def cookie_sessions_def
  by (auto simp: hm_wf_def map_of_clearjunk distinct_clearjunk)

lemma plain_session_up: "session_up (plain_routes D) cookie_view cookie_of"
proof -
  have logout: "\<exists>s. auth\<lparr>au_user := None\<rparr> = \<lparr>au_user = None, au_session = s\<rparr>"
    for auth :: "(user, cookie_session) auth_session"
    by (rule exI [of _ "au_session auth"]) simp
  show ?thesis
    using cookie_sessions_laws logout
    by (auto simp: session_up_def plain_routes_def pending_of_def cookie_sessions_def
        saturating_sub_def PENDING_TTL_SECS_def)
qed

lemma plain_word_escape: "plain_word v \<Longrightarrow> concat (map (\<lambda>c. if c = CHR ''/'' then ''%2F'' else [c]) v) = v"
proof (induction v)
  case Nil
  then show ?case by simp
next
  case (Cons c v)
  have "\<not> is_ascii_alphanumeric CHR ''/''" by code_simp
  with Cons show ?case by (auto simp: plain_word_def)
qed

lemma plain_form: "form_encodes plain_encode"
  by (auto simp: form_encodes_def plain_encode_def plain_word_escape)

lemma plain_wired:
  "wired (E\<lparr>ae_from_config := provider_from_config plain_oauth2 D True\<rparr>) (plain_routes D) plain_oauth2 D"
  using plain_form by (simp add: wired_def plain_routes_def)

section \<open>The tests on these libraries\<close>

lemma plain_routes_mock:
  "mock_oauth2 plain_oauth2 (ra_url_str (plain_routes D)) (plain_query uri) uri (uri @ ''/me'') good_code alice_profile"
  using plain_mock by (simp add: plain_routes_def)

lemmas plain_tests = plain_session_up plain_wired plain_routes_mock

lemma flows_pass:
  fixes D :: "('meta, 'ocl, 'idt, 'clm, 'otok, 'alg, 'key, string, unit users_world) oidc_api"
    and E :: "((string, 'ocl) provider, user, unit users_world, 'r, 'b, 'store, 'uu, 'o, 'tk, 'fut, 'h, 'hv) auth_env"
  defines "E' \<equiv> E\<lparr>ae_from_config := provider_from_config plain_oauth2 D True\<rparr>"
  shows "oauth2_sign_in_round_trip U E' (plain_routes D) (plain_query uri) cookie_of uri s ()"
    and "unknown_state_is_expired U E' (plain_routes D) uri (Map.empty, 0) ()"
    and "cancelling_at_the_provider_keeps_next U E' (plain_routes D) (plain_query uri) uri s ()"
    and "token_failure_is_provider_failed U E' (plain_routes D) (plain_query uri) uri s ()"
    and "open_redirects_fall_back_to_the_default U E' (plain_routes D) (plain_query uri) uri s ()"
    and "link_needs_a_signed_in_user_and_keeps_it U E' (plain_routes D) (plain_query uri) uri s ()"
  unfolding E'_def
  by (rule sign_in_round_trip [OF plain_tests] unknown_state [OF plain_tests] cancelling_at_the_provider [OF plain_tests]
      token_failure [OF plain_tests] open_redirects [OF plain_tests] link_keeps_user [OF plain_tests]
    | simp add: pending_of_def)+

end
