(* ===== verification/Spec2Isabelle.thy ===== *)
theory Spec2Isabelle
  imports Auth_Http Auth_Journey Auth_Plugin Auth_Oidc_Cache Auth_Password Auth_Sessions Web_Server Web_Spa
    Web_Ratelimit Otel Sentry Diesel Diesel_Sentry Sqlx Pgmq Plugins Observability Example_Spa Example_Widgets
    Tests_Core Tests_App Tests_Auth Tests_Data Tests_Web Tests_Spa Tests_Store Tests_Oidc Tests_Libraries
begin

text \<open>
  muxa, a plugin framework for web services in Rust: a verification development.

  THE PROGRAM. An application is a chain of plugins (\<open>muxa-core/src/app.rs\<close>). Each plugin reads its
  section of the configuration, is built against the outputs of the plugins before it (a
  heterogeneous list) and a build context, and adds its own output to the list. Through the context
  it registers routers, a fallback, router layers, background tasks, layers of the tracing
  subscriber and, for a web plugin, the one serve function. \<open>run\<close> spawns the tasks, serves the
  composed router, and on the way out cancels the shutdown token and waits, for a bounded time, for
  the tasks. The plugins: sign-in (\<open>muxa-auth\<close>), the web server, single-page apps and rate limits
  (\<open>muxa-web\<close>), API documents (\<open>muxa-openapi\<close>), Sentry and OpenTelemetry (\<open>muxa-sentry\<close>,
  \<open>muxa-otel\<close>, both over \<open>muxa-telemetry\<close>), database pools with migrations (\<open>muxa-diesel\<close>,
  \<open>muxa-sqlx\<close>), query spans (\<open>diesel-sentry\<close>) and message queues (\<open>muxa-pgmq\<close>).

  CONVENTIONS OF THE MODEL. A \<open>struct\<close> is a record whose fields carry a short prefix, an \<open>enum\<close> a
  datatype, \<open>Result<T, E>\<close> is \<open>'e + 'a\<close> with the error on the left, an integer is a word of its width
  (\<open>u16\<close>, \<open>u32\<close>, \<open>u64\<close>, \<open>i64\<close>, \<open>usize\<close> of 64 bits), a \<open>&str\<close> is the string of its UTF-8 bytes, a \<open>HashMap\<close>
  an association list with distinct keys (its order stands for the unspecified iteration order), a
  \<open>BTreeMap\<close> one with sorted keys. A method with \<open>&mut self\<close> returns the updated value. What an
  \<open>async\<close> call does outside the program is a function on an abstract world that is threaded through
  every operation in the order of the code's awaits; code that is not in the repository (axum,
  tokio, figment, oauth2, openidconnect, diesel, sqlx, sentry, opentelemetry, governor, pgmq) is a
  record of such functions, and what the code relies on is a named hypothesis on it
  (\<open>session_laws\<close>, \<open>table_laws\<close>, \<open>timer_laws\<close>, \<open>clock_law\<close>, \<open>login_keeps\<close>, \<open>password_laws\<close>, \<open>form_safe\<close>, \<open>join_fills_only\<close>,
  \<open>routing_laws\<close>, \<open>memory_serve_laws\<close>, \<open>widget_table_laws\<close>, \<open>head_law\<close>, ...) with an instance in the witness of each theorem that uses it. Log lines are left out.

  THE THEORIES, in the order of their dependencies.
  \<^item> \<open>Muxa_Prelude\<close>: machine integers, Rust's string operations, results, hash and tree maps, with the
    rules the other theories simplify with. \<open>Contracts\<close>: the interfaces as locales: \<open>once_slot\<close> (a
    slot that is filled at most once), \<open>segment_prefix\<close> (prefixes that match whole segments),
    \<open>cpu_sizing\<close> (a pool size from a CPU count). The other locales stand next to the types they speak of:
    \<open>ctx_extender\<close> in \<open>Core_App\<close> (a build that only adds to the context), with its extensions
    \<open>quiet_build\<close> (and leaves the serve function alone) and \<open>serving_build\<close> (and registers it) in
    \<open>Plugins\<close> and \<open>telemetry_build\<close> (and only adds to the telemetry) in \<open>Observability\<close>,
    \<open>expiring_store\<close> in \<open>Auth_Sessions\<close> (a store of records that expire), and \<open>sign_in_provider\<close> in \<open>Auth_Provider\<close> (a provider's identity carries its id). Each is interpreted on the definitions of
    every component that provides it.
  \<^item> \<open>Core_Error\<close>, \<open>Core_Mode\<close>, \<open>Core_Host\<close>, \<open>Core_Config\<close>, \<open>Core_State\<close>, \<open>Core_Ctx\<close>, \<open>Core_App\<close>:
    \<open>error.rs\<close>, \<open>mode.rs\<close>, \<open>host.rs\<close>, \<open>config.rs\<close>, \<open>state.rs\<close> with \<open>capability.rs\<close>, \<open>ctx.rs\<close>,
    \<open>app.rs\<close> with \<open>plugin.rs\<close> of \<open>muxa-core/src\<close>. Shown: what the composed router is for every
    interleaving of registrations, that the slots are filled once, when the compiler finds a
    resource in the state, which value a configuration key gets, how a chain of plugins succeeds or
    fails, the order of a run's events, and that shutdown waits at most ten seconds and loses no
    panic.
  \<^item> \<open>Telemetry\<close>: \<open>muxa-telemetry/src/lib.rs\<close>: one layer per type whatever the order of calls, and
    which targets the layers see.
  \<^item> \<open>Auth_Redirect\<close>, \<open>Auth_Csrf\<close>, \<open>Auth_Identity\<close>, \<open>Auth_Config\<close>, \<open>Auth_Provider\<close>, \<open>Auth_Routes\<close>,
    \<open>Auth_Flow\<close>, \<open>Auth_Plugin\<close>, \<open>Auth_Password\<close>, \<open>Auth_Store\<close>, \<open>Auth_Http\<close>: the files of
    \<open>muxa-auth/src\<close> with these names (\<open>Auth_Http\<close> is \<open>http_client.rs\<close>, \<open>Auth_Store\<close> has
    \<open>extract.rs\<close> too; \<open>Auth_Flow\<close> has no code of its own but the guarantees of \<open>routes.rs\<close>). Shown: redirects stay on the site, with an independent reading of
    a URL as a browser does it; the guard is the documented rule, stated over the headers and the parsed URL, with the one departure
    named; a login needs a fresh, unused attempt
    of the same session and provider; attempts are bounded, and these facts are an invariant of every
    interleaving of requests; where an identity comes from for both kinds of provider; the wiring
    and the sweeper; the work each kind of password check costs; the life of a stored session.
  \<^item> \<open>Auth_Journey\<close>: the same routes from the start of a sign-in to its end. Shown: one that goes right signs the
    user in, whatever else the session does in between within the bounds of the code.
  \<^item> \<open>Auth_Sessions\<close>: the store of \<open>store.rs\<close> as the abstract data type that the session layer uses, a map of
    expiring records. Shown: every history of operations refines it, and a load reads the last write.
  \<^item> \<open>Auth_Oidc_Cache\<close>: \<open>OidcProvider::client\<close> under concurrent requests, a step relation whose steps
    are what a call does between two awaits. Shown: no client older than the lifetime is handed out.
  \<^item> \<open>Openapi\<close>, \<open>Web_Banner\<close>, \<open>Web_Server\<close>, \<open>Web_Spa\<close>, \<open>Web_Ratelimit\<close>: \<open>muxa-openapi/src/lib.rs\<close>
    and \<open>banner.rs\<close>, \<open>lib.rs\<close>, \<open>spa.rs\<close>, \<open>ratelimit.rs\<close> of \<open>muxa-web/src\<close>. Shown: escaping and the shape
    of the docs page, the banner, binding and serving, the fallback and cache headers, quotas.
  \<^item> \<open>Sentry\<close>, \<open>Otel\<close>: \<open>lib.rs\<close> of \<open>muxa-sentry\<close> and \<open>muxa-otel\<close>: sampling, set-up order, the
    conditions of export, what an export builds signal by signal, and the flush at shutdown.
  \<^item> \<open>Diesel_Sentry\<close>: \<open>diesel-sentry/src/lib.rs\<close>: bind values never reach a span, the account of
    spans opened and closed, pipelined queries.
  \<^item> \<open>Diesel\<close>, \<open>Sqlx\<close>, \<open>Pgmq\<close>: \<open>pg.rs\<close> and \<open>migrations.rs\<close> of \<open>muxa-diesel\<close>, \<open>pg.rs\<close> and \<open>sqlite.rs\<close>
    of \<open>muxa-sqlx\<close>, \<open>lib.rs\<close> of \<open>muxa-pgmq\<close>. Shown: the hash, the migrations of concurrent replicas
    (a step relation over Postgres' documented isolation levels, snapshots, advisory locks and
    transactions: exactly once whatever the server's default level, a run that waits waits for one that
    can go on, and each run can still succeed), pool settings, the order of each build, the set of queues.

  \<^item> \<open>Plugins\<close>: every \<open>impl Plugin\<close> of the crates as the \<open>plugin\<close> record that \<open>with_plugin\<close> takes, and
    chains of plugins whose configurations have different types. Shown: which plugin registers the serve
    function, and that an application can run exactly when one of its plugins does.
  \<^item> \<open>Observability\<close>: what any chain of plugins makes of the telemetry slot. Shown: no exporter's own crates
    are ever observed, in any order of plugins.
  \<^item> \<open>Examples\<close>, \<open>Example_Spa\<close>, \<open>Example_Widgets\<close>: the applications of \<open>muxa/examples\<close> (\<open>web_only.rs\<close> and
    \<open>hello.rs\<close>, \<open>spa.rs\<close>, \<open>diesel_widgets/main.rs\<close>), each \<open>main\<close> as the chain it builds. Shown: what a
    request gets from the router that \<open>main\<close> serves, through the real plugins; that the database example
    serves only over a migrated database; its API against a table.
  \<^item> \<open>Tests_Core\<close>, \<open>Tests_App\<close>, \<open>Tests_Auth\<close>, \<open>Tests_Data\<close>, \<open>Tests_Web\<close>, \<open>Tests_Spa\<close>: the crates' own
    tests, one definition per test under the test's name, its assertions in the test's order over the
    model's definitions. Shown: the model passes them, for every library that has the documented
    behaviour the test relies on. They tie the definitions to the values the authors expect of the code.
  \<^item> \<open>Tests_Store\<close>, \<open>Tests_Flow\<close>, \<open>Tests_Oidc\<close>: the tests of \<open>muxa-auth/tests\<close>, whole sign-ins from the
    guard through the routes to a provider and back, and the life of stored sessions. The mock servers and the
    test database are hypotheses on the libraries; \<open>Tests_Store\<close> and \<open>Tests_Libraries\<close> give libraries
    in memory for which they hold, so that the tests pass outright.

  This theory shows what two of the plugins give together: the cross-origin guard of the sign-in plugin
  covers the whole application that the web plugin serves.

  LOOPS AND BOUNDS. Structural loops are \<open>fun\<close>; \<open>while\<close> loops with a bound have a \<open>function\<close> with its
  termination proof (\<open>fnv_loop\<close>, \<open>error_chain_loop\<close>, \<open>evict\<close>). The loops that the code itself does not
  bound (\<open>sweep_loop\<close>, \<open>janitor\<close>, \<open>create_loop\<close>) are \<open>partial_function (option)\<close>, with \<open>None\<close> for a
  loop that does not return, and a theorem says when each returns. No fuel is used.

  PLUGIN TYPES. A resource in the state carries its type as a value, and \<open>selector_impl\<close> is the
  compiler's search for a selector; \<open>TypeId\<close>s of telemetry layers are names.

  NOT MODELLED. \<open>muxa/src/lib.rs\<close> and the \<open>lib.rs\<close> of \<open>muxa-core\<close>, \<open>muxa-auth\<close>, \<open>muxa-diesel\<close> and
  \<open>muxa-sqlx\<close> (re-exports and the entry macro); \<open>Debug\<close>, \<open>Deref\<close> and \<open>From\<close> implementations of
  newtypes; log lines. Of the tests, those that need a socket or the timing of a
  runtime (\<open>serves_http1\<close>, \<open>serves_http2_on_the_same_port\<close>, \<open>providers_shut_down_off_the_runtime\<close>), those of \<open>Debug\<close> output, and
  \<open>transaction_sample_rates_read_from_toml\<close>, which tests serde. The hash of a query's SQL in \<open>diesel-sentry\<close> is a parameter.
  Concurrency is modelled where the code has a protocol for it: the migrations and the cache of an OpenID
  Connect client. Elsewhere operations are single steps: the requests of one session are interleaved as
  whole handlers, each on the session that the one before it left; two requests that run at once on
  separate copies of a session's record are not covered. The hypotheses on libraries idealise them in two
  places: a stored expiry date is an exact integer (Postgres keeps microseconds), and figment's
  \<open>join\<close> fills what is missing in a section that is a table of a figment that holds no error.
\<close>

section \<open>Sign-in and the web server together\<close>

text \<open>
  What axum does with the cross-origin middleware: a router wrapped in it answers a request by running
  the guard with the router as the rest of the stack. \<open>handle\<close> is the service a router stands for
  and \<open>forbidden\<close> the response made of a 403 and its text.
\<close>

definition guard_middleware ::
    "('r \<Rightarrow> request \<Rightarrow> 'w \<Rightarrow> 'resp \<times> 'w) \<Rightarrow> (string \<Rightarrow> 'resp)
      \<Rightarrow> ('p, 'u, 'w, 'r, 'b, 'store, 'uu, 'o, 'tok, 'fut, 'h, 'v) auth_env \<Rightarrow> bool" where
  "guard_middleware handle forbidden E \<longleftrightarrow>
     (\<forall>trusted r req w. handle (ae_csrf_layer E trusted r) req w =
        (case guard (ae_url E) trusted req (handle r) w of
           (Passed resp, w) \<Rightarrow> (resp, w)
         | (Forbidden msg, w) \<Rightarrow> (forbidden msg, w)))"

text \<open>The registry without its outermost layer.\<close>

definition without_outermost :: "'r router_registry \<Rightarrow> 'r router_registry" where
  "without_outermost reg = reg\<lparr>rr_layer_fns := butlast (rr_layer_fns reg)\<rparr>"

lemma compose_outermost:
  "rr_layer_fns reg = fs @ [f] \<Longrightarrow> compose A reg = f (compose A (without_outermost reg))"
  by (simp add: compose_def Let_def without_outermost_def)

lemma auth_build_outermost:
  assumes "auth_build E cfg st ctx w = (Inr h, ctx', w')"
  shows "\<exists>fs. rr_layer_fns (bc_router ctx') = fs @ [ae_csrf_layer E (trusted_origins_new (ae_url E)
           (trim_end_matches CHR ''/'' (ac_base_url cfg) # ac_trusted_origins cfg))]"
  using assms
  by (auto simp: auth_build_def Let_def mount_auto_def layer_def split: sum.splits option.splits)

lemma web_build_registry:
  assumes "web_build V N routes cfg st ctx w = (Inr (), ctx', w')"
  shows "bc_router ctx' = mount_auto ''/'' (routes st) (bc_router ctx)"
  using assms by (simp add: web_build_ok Let_def)

lemma guarded_router:
  assumes "guard_middleware handle forbidden E"
  shows "handle (ae_csrf_layer E (trusted_origins_new (ae_url E) configured) r) req u =
    (if may_pass (ae_url E) configured (rq_method req) (rq_headers req) then handle r req u
     else (forbidden ''cross-origin request refused'', u))"
proof -
  have "handle (ae_csrf_layer E (trusted_origins_new (ae_url E) configured) r) req u =
    (case guard (ae_url E) (trusted_origins_new (ae_url E) configured) req (handle r) u of
           (Passed resp, w) \<Rightarrow> (resp, w)
         | (Forbidden msg, w) \<Rightarrow> (forbidden msg, w))"
    using assms by (simp add: guard_middleware_def)
  then show ?thesis by (simp add: guard_rule)
qed

text \<open>
  C11: with the sign-in plugin in the chain, the cross-origin guard covers the whole application that
  the web plugin serves: not only the routes mounted before the sign-in plugin, but the user's own
  and those of every plugin in between, a fallback included, as long as no later plugin adds a layer.
  A request that the guard's rule does not let pass is answered 403 before any of them runs, and
  leaves no trace; one that it lets pass is answered as if there were no guard.
\<close>

theorem guard_covers_the_app:
  assumes "guard_middleware handle forbidden E"
    and "auth_build E cfg st ctx w = (Inr h, ctx1, w1)"
    and "rr_layer_fns (bc_router ctx2) = rr_layer_fns (bc_router ctx1)"
    and "web_build V N routes wcfg st2 ctx2 w2 = (Inr (), ctx3, w3)"
  shows "mounts (bc_router ctx3) = mounts (bc_router ctx2) @ [(''/'', Auto)]
    \<and> rr_fallback (bc_router ctx3) = rr_fallback (bc_router ctx2)
    \<and> fst (run T A \<lparr>ab_state = st3, ab_ctx = ctx3\<rparr> w0)
        = fst (serve_loop V N (compose A (bc_router ctx3)) wcfg
            (if wc_banner wcfg then Some (banner_routes (bc_router ctx3)) else None) (bc_shutdown ctx2)
            (snd (spawn_all (tokio_api.truncate T) (bc_shutdown ctx2) (bc_tasks ctx2) w0)))
    \<and> handle (compose A (bc_router ctx3)) req u =
         (if may_pass (ae_url E) (trim_end_matches CHR ''/'' (ac_base_url cfg) # ac_trusted_origins cfg)
               (rq_method req) (rq_headers req)
          then handle (compose A (without_outermost (bc_router ctx3))) req u
          else (forbidden ''cross-origin request refused'', u))"
proof -
  let ?guard = "ae_csrf_layer E (trusted_origins_new (ae_url E)
      (trim_end_matches CHR ''/'' (ac_base_url cfg) # ac_trusted_origins cfg))"
  from auth_build_outermost [OF assms(2)] obtain fs
    where "rr_layer_fns (bc_router ctx1) = fs @ [?guard]" by blast
  with assms(3) web_build_registry [OF assms(4)] have layers: "rr_layer_fns (bc_router ctx3) = fs @ [?guard]"
    by (simp add: mount_auto_def)
  have "mounts (bc_router ctx3) = mounts (bc_router ctx2) @ [(''/'', Auto)]"
    "rr_fallback (bc_router ctx3) = rr_fallback (bc_router ctx2)"
    using web_build_registry [OF assms(4)] by (simp_all add: mounts_def mount_auto_def)
  then show ?thesis
    unfolding compose_outermost [OF layers] guarded_router [OF assms(1)]
    by (intro conjI web_build_run [OF assms(4), unfolded compose_outermost [OF layers]] refl)
qed

text \<open>An application whose router answers \<open>''app''\<close> and counts the requests that reach it.\<close>

type_synonym demo_service = "request \<Rightarrow> nat \<Rightarrow> string \<times> nat"

definition demo_url :: "(string, string) url_api" where
  "demo_url = \<lparr>url_parse = Some, url_origin = id, origin_is_tuple = (\<lambda>_. True),
     ascii_serialization = id, host_str = (\<lambda>_. None), url_port = (\<lambda>_. None)\<rparr>"

definition guarded_env ::
    "(unit, string, nat, demo_service, unit, unit, string, string, unit, unit, unit, unit) auth_env" where
  "guarded_env =
     \<lparr>ae_http_client = Inr (), ae_from_config = (\<lambda>_ _ _. Inr None),
      ae_router = (\<lambda>fl paths req w. (''auth'', w)), ae_auth_layer = (\<lambda>b l r. r),
      ae_csrf_layer = (\<lambda>trusted r req w.
        (case guard demo_url trusted req r w of
           (Passed resp, w) \<Rightarrow> (resp, w) | (Forbidden msg, w) \<Rightarrow> (msg, w))),
      ae_url = demo_url,
      ae_tokio = \<lparr>tokio_spawn = (\<lambda>_ w. ((), w)), child_token = (\<lambda>t w. (t, w)), cancel = (\<lambda>_ w. w)\<rparr>,
      ae_parts = (\<lambda>_. auth_parts_new () (\<lambda>i c w. (Inl (refusal_new ''no''), w)) ())\<rparr>"

definition demo_axum :: "demo_service axum_api" where
  "demo_axum = \<lparr>router_new = (\<lambda>req w. (''none'', w)), router_merge = (\<lambda>a b. b),
     router_nest = (\<lambda>a p b. a), router_fallback_service = (\<lambda>a f. a)\<rparr>"

definition site_ctx :: "(unit, demo_service, unit, nat, unit, unit) build_ctx" where
  "site_ctx = fst (build_ctx_new True (\<lambda>_. None) () False None ())"

definition request_with :: "http_method \<Rightarrow> string option \<Rightarrow> request" where
  "request_with m site = \<lparr>rq_method = m,
     rq_headers = \<lparr>header_value = (\<lambda>name. if name = ''sec-fetch-site'' then site else None), to_str = Some\<rparr>\<rparr>"

theorem guard_covers_the_app_witness:
  "\<forall>V (N :: (unit, unit, unit, unit, demo_service, unit, nat) net_api). \<exists>h ctx1 ctx3.
     auth_build guarded_env auth_config_default (HNil :: unit hlist) site_ctx 0 = (Inr h, ctx1, 0)
     \<and> web_build V N (\<lambda>_ req w. (''app'', Suc w)) web_config_default (HNil :: unit hlist) ctx1 0 = (Inr (), ctx3, 0)
     \<and> compose demo_axum (bc_router ctx3) (request_with (OtherMethod ''POST'') (Some ''cross-site'')) 7
        = (''cross-origin request refused'', 7)
     \<and> compose demo_axum (bc_router ctx3) (request_with GET None) 7 = (''app'', 8)"
proof (intro allI)
  fix V and N :: "(unit, unit, unit, unit, demo_service, unit, nat) net_api"
  let ?app = "\<lambda>(_ :: unit hlist) (req :: request) w. (''app'', Suc w)"
  let ?refused = "request_with (OtherMethod ''POST'') (Some ''cross-site'')"
  have law: "guard_middleware id (\<lambda>msg. msg) guarded_env"
    by (simp add: guard_middleware_def guarded_env_def)
  have "ae_http_client guarded_env = Inr ()" by (simp add: guarded_env_def)
  from auth_build_ok [OF this] obtain h ctx1
    where auth: "auth_build guarded_env auth_config_default (HNil :: unit hlist) site_ctx 0 = (Inr h, ctx1, 0)"
    by blast
  have "bc_serve_fn ctx1 = None"
    using auth by (auto simp: auth_build_def Let_def guarded_env_def auth_parts_new_def site_ctx_def
        build_ctx_new_def telemetry_install_def split: option.splits)
  then obtain ctx3 where web: "web_build V N ?app web_config_default HNil ctx1 0 = (Inr (), ctx3, 0)"
    by (auto simp: web_build_ok Let_def)
  note served = guard_covers_the_app [OF law auth refl web, of undefined demo_axum undefined 0]
  have refused: "\<not> may_pass demo_url origins (OtherMethod ''POST'') (rq_headers ?refused)" for origins
    by (auto simp: request_with_def may_pass_def unreadable_origin_def elim: documented_rule.cases)
  have url: "ae_url guarded_env = demo_url" by (simp add: guarded_env_def)
  have mthd: "rq_method (request_with m site) = m" for m site by (simp add: request_with_def)
  have stopped: "compose demo_axum (bc_router ctx3) ?refused 7 = (''cross-origin request refused'', 7)"
    using served [of ?refused 7, THEN conjunct2, THEN conjunct2, THEN conjunct2] refused
    by (simp only: url mthd id_apply if_False)
  have layers: "compose demo_axum (without_outermost (bc_router ctx3)) req 7 = (''app'', 8)" for req
    using auth web_build_registry [OF web]
    by (auto simp: auth_build_def Let_def guarded_env_def auth_parts_new_def site_ctx_def
        build_ctx_new_def telemetry_install_def router_registry_default_def without_outermost_def
        mount_auto_def layer_def compose_def compose_entry_def demo_axum_def)
  have "may_pass demo_url origins GET (rq_headers (request_with GET None))" for origins
    by (simp add: may_pass_def safe_method)
  then have passed: "compose demo_axum (bc_router ctx3) (request_with GET None) 7 = (''app'', 8)"
    using served [of "request_with GET None" 7, THEN conjunct2, THEN conjunct2, THEN conjunct2]
    by (simp only: url mthd id_apply if_True layers)
  show "\<exists>h ctx1 ctx3.
     auth_build guarded_env auth_config_default (HNil :: unit hlist) site_ctx 0 = (Inr h, ctx1, 0)
     \<and> web_build V N ?app web_config_default (HNil :: unit hlist) ctx1 0 = (Inr (), ctx3, 0)
     \<and> compose demo_axum (bc_router ctx3) ?refused 7 = (''cross-origin request refused'', 7)
     \<and> compose demo_axum (bc_router ctx3) (request_with GET None) 7 = (''app'', 8)"
    by (intro exI conjI) (rule auth web stopped passed)+
qed

end
